(* ===== verification/Prelude.thy ===== *)
theory Prelude
  imports Main "HOL-Library.AList" "HOL-Library.Sublist"
begin

text \<open>
  The prelude of the development: the result type of code that may raise, the monadic
  combinators every component is written with, the dictionary and step interfaces, and
  generic lemmas on integers as bit patterns. Nothing here mentions a component.
\<close>

section \<open>Results: an exception or a value\<close>

text \<open>
  A Python function that may raise is a function into \<open>'e + 'a\<close>. \<open>bnd m f\<close> runs \<open>m\<close>
  and hands its value to \<open>f\<close>, unless \<open>m\<close> raised.
\<close>

named_theorems raises_intros
  \<comment> \<open>rules that bound the exceptions of a composite computation\<close>

definition bnd :: "'e + 'a \<Rightarrow> ('a \<Rightarrow> 'e + 'b) \<Rightarrow> 'e + 'b" where
  "bnd m f = (case m of Inl e \<Rightarrow> Inl e | Inr x \<Rightarrow> f x)"

lemma bnd_simps [simp]:
  "bnd (Inl e) f = Inl e"
  "bnd (Inr x) f = f x"
  by (simp_all add: bnd_def)

lemma bnd_eq_Inr [simp]: "bnd m f = Inr y \<longleftrightarrow> (\<exists>x. m = Inr x \<and> f x = Inr y)"
  by (cases m) simp_all

lemma bnd_eq_Inl [simp]: "bnd m f = Inl e \<longleftrightarrow> m = Inl e \<or> (\<exists>x. m = Inr x \<and> f x = Inl e)"
  by (cases m) simp_all

lemma bnd_cong [fundef_cong]:
  "m = m' \<Longrightarrow> (\<And>x. m' = Inr x \<Longrightarrow> f x = f' x) \<Longrightarrow> bnd m f = bnd m' f'"
  by (cases m') simp_all

lemma bnd_assoc: "bnd (bnd m f) g = bnd m (\<lambda>x. bnd (f x) g)"
  by (cases m) simp_all

text \<open>A loop that appends one result per element, stopping at the first exception.\<close>

fun mapR :: "('a \<Rightarrow> 'e + 'b) \<Rightarrow> 'a list \<Rightarrow> 'e + 'b list" where
  "mapR f [] = Inr []"
| "mapR f (x # xs) = bnd (f x) (\<lambda>y. bnd (mapR f xs) (\<lambda>ys. Inr (y # ys)))"

text \<open>A loop that threads a state.\<close>

fun foldR :: "('s \<Rightarrow> 'a \<Rightarrow> 'e + 's) \<Rightarrow> 's \<Rightarrow> 'a list \<Rightarrow> 'e + 's" where
  "foldR f s [] = Inr s"
| "foldR f s (x # xs) = bnd (f s x) (\<lambda>s'. foldR f s' xs)"

lemma mapR_cong [fundef_cong]:
  "xs = ys \<Longrightarrow> (\<And>x. x \<in> set ys \<Longrightarrow> f x = g x) \<Longrightarrow> mapR f xs = mapR g ys"
  by (induction ys arbitrary: xs) auto

lemma mapR_length: "mapR f xs = Inr ys \<Longrightarrow> length ys = length xs"
  by (induction xs arbitrary: ys) auto

lemma mapR_nth: "mapR f xs = Inr ys \<Longrightarrow> i < length xs \<Longrightarrow> f (xs ! i) = Inr (ys ! i)"
proof (induction xs arbitrary: ys i)
  case Nil
  then show ?case by simp
next
  case (Cons x xs)
  then show ?case by (cases i) auto
qed

lemma mapR_set: "mapR f xs = Inr ys \<Longrightarrow> y \<in> set ys \<Longrightarrow> \<exists>x\<in>set xs. f x = Inr y"
  by (induction xs arbitrary: ys) auto

lemma mapR_Inr_map: "(\<And>x. x \<in> set xs \<Longrightarrow> f x = Inr (g x)) \<Longrightarrow> mapR f xs = Inr (map g xs)"
  by (induction xs) auto

lemma foldR_append: "foldR f s (xs @ ys) = bnd (foldR f s xs) (\<lambda>s'. foldR f s' ys)"
  by (induction xs arbitrary: s) (simp_all add: bnd_assoc)

subsection \<open>Which exceptions can come out\<close>

definition raises :: "('e \<Rightarrow> bool) \<Rightarrow> 'e + 'a \<Rightarrow> bool" where
  "raises P m \<longleftrightarrow> (\<forall>e. m = Inl e \<longrightarrow> P e)"

lemma raises_Inr [raises_intros]: "raises P (Inr x)"
  by (simp add: raises_def)

lemma raises_Inl [raises_intros]: "P e \<Longrightarrow> raises P (Inl e)"
  by (simp add: raises_def)

lemma raises_bnd [raises_intros]:
  "raises P m \<Longrightarrow> (\<And>x. m = Inr x \<Longrightarrow> raises P (f x)) \<Longrightarrow> raises P (bnd m f)"
  by (cases m) (simp_all add: raises_def)

lemma raises_if [raises_intros]:
  "(c \<Longrightarrow> raises P m) \<Longrightarrow> (\<not> c \<Longrightarrow> raises P n) \<Longrightarrow> raises P (if c then m else n)"
  by simp

lemma raises_mapR [raises_intros]:
  "(\<And>x. x \<in> set xs \<Longrightarrow> raises P (f x)) \<Longrightarrow> raises P (mapR f xs)"
  by (induction xs) (auto intro!: raises_intros)

lemma raises_case_option [raises_intros]:
  "(opt = None \<Longrightarrow> raises P m) \<Longrightarrow> (\<And>x. opt = Some x \<Longrightarrow> raises P (f x)) \<Longrightarrow>
     raises P (case opt of None \<Rightarrow> m | Some x \<Rightarrow> f x)"
  by (cases opt) simp_all

lemma raisesD: "raises P m \<Longrightarrow> m = Inl e \<Longrightarrow> P e"
  by (simp add: raises_def)

section \<open>Interfaces\<close>

subsection \<open>A step that keeps an invariant\<close>

text \<open>
  Several parts of the code walk a list of raw entries and change a state at each one. The
  contract between such a step and the loop around it: a successful step keeps the
  invariant. The loop then keeps it too.
\<close>

locale invariant_step =
  fixes step :: "'s \<Rightarrow> 'a \<Rightarrow> 'e + 's"
    and inv :: "'s \<Rightarrow> bool"
  assumes step_inv: "inv s \<Longrightarrow> step s x = Inr s' \<Longrightarrow> inv s'"
begin

lemma fold_inv: "inv s \<Longrightarrow> foldR step s xs = Inr s' \<Longrightarrow> inv s'"
proof (induction xs arbitrary: s)
  case Nil
  then show ?case by simp
next
  case (Cons x xs)
  from Cons.prems(2) obtain t where t: "step s x = Inr t" and rest: "foldR step t xs = Inr s'"
    by auto
  from Cons.prems(1) t have "inv t" by (rule step_inv)
  then show ?case using rest by (rule Cons.IH)
qed

lemma fold_raises:
  assumes "inv s" and "\<And>t x. inv t \<Longrightarrow> x \<in> set xs \<Longrightarrow> raises P (step t x)"
  shows "raises P (foldR step s xs)"
  using assms
proof (induction xs arbitrary: s)
  case Nil
  show ?case by (simp add: raises_Inr)
next
  case (Cons x xs)
  have "raises P (bnd (step s x) (\<lambda>s'. foldR step s' xs))"
    using Cons.prems by (intro raises_bnd Cons.IH) (auto intro: step_inv)
  then show ?case by simp
qed

end

subsection \<open>Dictionaries\<close>

text \<open>
  What the code relies on when it uses a Python dictionary: a lookup after a store, and the
  set of keys. The model stores a dictionary as an association list in insertion order;
  \<open>AList.update\<close> overwrites in place or appends, as \<open>d[k] = v\<close> does.
\<close>

locale dictionary =
  fixes get :: "'d \<Rightarrow> 'k \<Rightarrow> 'v option"
    and put :: "'k \<Rightarrow> 'v \<Rightarrow> 'd \<Rightarrow> 'd"
    and keys :: "'d \<Rightarrow> 'k set"
  assumes get_put: "get (put k v d) = (get d)(k \<mapsto> v)"
    and keys_get: "k \<in> keys d \<longleftrightarrow> get d k \<noteq> None"
begin

lemma get_put_same: "get (put k v d) k = Some v"
  by (simp add: get_put)

lemma get_put_other: "k' \<noteq> k \<Longrightarrow> get (put k v d) k' = get d k'"
  by (simp add: get_put)

lemma keys_put: "keys (put k v d) = insert k (keys d)"
  by (auto simp: keys_get get_put split: if_splits)

lemma get_put_fresh: "k \<notin> keys d \<Longrightarrow> get d k' = Some w \<Longrightarrow> get (put k v d) k' = Some w"
  by (auto simp: keys_get get_put)

end

abbreviation py_in :: "'k \<Rightarrow> ('k \<times> 'v) list \<Rightarrow> bool" where
  "py_in k d \<equiv> k \<in> fst ` set d"

interpretation pydict: dictionary map_of AList.update "\<lambda>d. fst ` set d"
  by unfold_locales (simp_all add: update_conv' map_of_eq_None_iff)

lemma update_fresh: "\<not> py_in k d \<Longrightarrow> AList.update k v d = d @ [(k, v)]"
  by (induction d) auto

section \<open>Integers as bit patterns\<close>

unbundle bit_operations_syntax

text \<open>Python's \<open>int.bit_length\<close>: the number of binary digits of the absolute value.\<close>

fun nat_bits :: "nat \<Rightarrow> nat" where
  "nat_bits n = (if n = 0 then 0 else Suc (nat_bits (n div 2)))"

declare nat_bits.simps [simp del]

definition bit_length :: "int \<Rightarrow> nat" where
  "bit_length x = nat_bits (nat \<bar>x\<bar>)"

lemma nat_bits_0 [simp]: "nat_bits 0 = 0"
  by (simp add: nat_bits.simps)

lemma nat_bits_less: "n < 2 ^ nat_bits n"
proof (induction n rule: nat_bits.induct)
  case (1 n)
  show ?case
  proof (cases "n = 0")
    case False
    then have "n div 2 < 2 ^ nat_bits (n div 2)" by (rule "1.IH")
    then have "n < 2 * 2 ^ nat_bits (n div 2)" by linarith
    with False show ?thesis by (subst nat_bits.simps) simp
  qed (simp add: nat_bits.simps)
qed

lemma nat_bits_least: "n < 2 ^ k \<Longrightarrow> nat_bits n \<le> k"
proof (induction n arbitrary: k rule: nat_bits.induct)
  case (1 n)
  show ?case
  proof (cases "n = 0")
    case False
    with "1.prems" obtain j where j: "k = Suc j" by (cases k) auto
    with "1.prems" have "n div 2 < 2 ^ j" by auto
    with False have "nat_bits (n div 2) \<le> j" by (rule "1.IH")
    with False j show ?thesis by (subst nat_bits.simps) simp
  qed simp
qed

lemma bit_length_less: "0 \<le> x \<Longrightarrow> x < 2 ^ bit_length x"
  using nat_bits_less [of "nat x"] by (simp add: bit_length_def nat_less_iff)

lemma bit_length_least: "0 \<le> x \<Longrightarrow> x < 2 ^ k \<Longrightarrow> bit_length x \<le> k"
  by (simp add: bit_length_def nat_bits_least nat_less_iff)

lemma int_and_mask: "x AND (2 ^ n - 1) = x mod (2 ^ n :: int)"
  by (simp add: take_bit_eq_mask [symmetric] mask_eq_exp_minus_1 [symmetric] take_bit_eq_mod)

text \<open>A value collected by or-ing one contribution per element.\<close>

lemma bit_foldl_or:
  "bit (foldl (\<lambda>acc x. acc OR g x) (a :: int) xs) n \<longleftrightarrow> bit a n \<or> (\<exists>x \<in> set xs. bit (g x) n)"
  by (induction xs arbitrary: a) (auto simp: bit_or_iff)

lemma bit_int_less:
  assumes "0 \<le> (v :: int)" and "v < 2 ^ k" and "bit v n"
  shows "n < k"
proof (rule ccontr)
  assume "\<not> n < k"
  then have le: "(2 :: int) ^ k \<le> 2 ^ n" by (intro power_increasing) simp_all
  from assms(2) le have "v < 2 ^ n" by (rule less_le_trans)
  with assms(1) have "v div 2 ^ n = 0" by simp
  with assms(3) show False by (simp add: bit_iff_odd)
qed

section \<open>Integer division\<close>

lemma mult_div_le: "0 < p \<Longrightarrow> p * (c div p) \<le> (c :: int)"
  using mult_div_mod_eq [of p c] pos_mod_sign [of p c] by linarith

lemma less_mult_div_Suc: "0 < p \<Longrightarrow> c < p * (c div p + 1 :: int)"
proof -
  assume "0 < p"
  then have "c mod p < p" by simp
  moreover have "p * (c div p + 1) = p * (c div p) + p" by (simp add: algebra_simps)
  ultimately show ?thesis using mult_div_mod_eq [of p c] by linarith
qed

end
