(* ===== verification/Py_Strings.thy ===== *)
theory Py_Strings
  imports Prelude
begin

text \<open>
  The string operations of Python's standard library that the register tool uses: case
  conversion, stripping, splitting, printing an integer and parsing one. A string is a list of
  8-bit characters and the character classes are those of ASCII text: for text outside ASCII
  Python's own classes are larger.
\<close>

section \<open>Character classes\<close>

abbreviation ord_of :: "char \<Rightarrow> nat" where
  "ord_of c \<equiv> of_char c"

definition is_digit :: "char \<Rightarrow> bool" where
  "is_digit c \<longleftrightarrow> 48 \<le> ord_of c \<and> ord_of c \<le> 57"

definition is_upper :: "char \<Rightarrow> bool" where
  "is_upper c \<longleftrightarrow> 65 \<le> ord_of c \<and> ord_of c \<le> 90"

definition is_lower :: "char \<Rightarrow> bool" where
  "is_lower c \<longleftrightarrow> 97 \<le> ord_of c \<and> ord_of c \<le> 122"

definition is_alnum :: "char \<Rightarrow> bool" where
  "is_alnum c \<longleftrightarrow> is_digit c \<or> is_upper c \<or> is_lower c"

text \<open>\<open>Py_ISSPACE\<close> of the integer parser, and the wider \<open>str.isspace\<close> of \<open>str.strip\<close>.\<close>

definition c_isspace :: "char \<Rightarrow> bool" where
  "c_isspace c \<longleftrightarrow> ord_of c = 32 \<or> (9 \<le> ord_of c \<and> ord_of c \<le> 13)"

definition py_isspace :: "char \<Rightarrow> bool" where
  "py_isspace c \<longleftrightarrow> c_isspace c \<or> (28 \<le> ord_of c \<and> ord_of c \<le> 31)"

lemmas char_class_defs = is_digit_def is_upper_def is_lower_def is_alnum_def
  c_isspace_def py_isspace_def

section \<open>Case, stripping and splitting\<close>

definition lower_char :: "char \<Rightarrow> char" where
  "lower_char c = (if is_upper c then char_of (ord_of c + 32) else c)"

definition upper_char :: "char \<Rightarrow> char" where
  "upper_char c = (if is_lower c then char_of (ord_of c - 32) else c)"

definition str_lower :: "string \<Rightarrow> string" where
  "str_lower s = map lower_char s"

definition str_upper :: "string \<Rightarrow> string" where
  "str_upper s = map upper_char s"

lemma ord_lower_char: "ord_of (lower_char c) = (if is_upper c then ord_of c + 32 else ord_of c)"
  by (simp add: lower_char_def is_upper_def)

lemma lower_char_idem: "lower_char (lower_char c) = lower_char c"
proof -
  have "\<not> is_upper (lower_char c)"
    by (simp add: is_upper_def ord_lower_char)
  then show ?thesis by (simp add: lower_char_def)
qed

lemma str_lower_idem [simp]: "str_lower (str_lower s) = str_lower s"
  by (simp add: str_lower_def lower_char_idem)

lemma str_lower_simps [simp]:
  "str_lower [] = []"
  "str_lower (c # s) = lower_char c # str_lower s"
  "str_lower (s @ t) = str_lower s @ str_lower t"
  by (simp_all add: str_lower_def)

lemma length_str_lower [simp]: "length (str_lower s) = length s"
  by (simp add: str_lower_def)

definition strip :: "(char \<Rightarrow> bool) \<Rightarrow> string \<Rightarrow> string" where
  "strip p s = rev (dropWhile p (rev (dropWhile p s)))"

lemma strip_id: "(\<And>c. c \<in> set s \<Longrightarrow> \<not> p c) \<Longrightarrow> strip p s = s"
proof -
  assume a: "\<And>c. c \<in> set s \<Longrightarrow> \<not> p c"
  have "dropWhile p s = s" "dropWhile p (rev s) = rev s"
    using a last_in_set [of s] hd_in_set [of s]
    by (auto simp: dropWhile_eq_self_iff hd_rev)
  then show ?thesis by (simp add: strip_def)
qed

text \<open>\<open>s.split(c)\<close> for a one-character separator.\<close>

fun str_split :: "char \<Rightarrow> string \<Rightarrow> string list" where
  "str_split sep [] = [[]]"
| "str_split sep (c # cs) =
     (if c = sep then [] # str_split sep cs
      else case str_split sep cs of [] \<Rightarrow> [[c]] | p # ps \<Rightarrow> (c # p) # ps)"

lemma str_split_none: "sep \<notin> set s \<Longrightarrow> str_split sep s = [s]"
  by (induction s) auto

lemma str_split_Cons: "sep \<notin> set s \<Longrightarrow> str_split sep (s @ sep # t) = s # str_split sep t"
  by (induction s) auto

text \<open>
  \<open>re.split(r'([+-])', s)\<close>: the pieces between the operators, with each operator kept as the
  piece at an odd position. The result is the first piece and the (operator, piece) pairs.
\<close>

fun split_ops :: "string \<Rightarrow> string \<times> (char \<times> string) list" where
  "split_ops [] = ([], [])"
| "split_ops (c # cs) =
     (case split_ops cs of (p, ps) \<Rightarrow>
        if c = CHR ''+'' \<or> c = CHR ''-'' then ([], (c, p) # ps) else (c # p, ps))"

definition op_free :: "string \<Rightarrow> bool" where
  "op_free s \<longleftrightarrow> CHR ''+'' \<notin> set s \<and> CHR ''-'' \<notin> set s"

lemma split_ops_free: "op_free s \<Longrightarrow> split_ops s = (s, [])"
  by (induction s) (auto simp: op_free_def)

lemma split_ops_op:
  "op_free s \<Longrightarrow> c = CHR ''+'' \<or> c = CHR ''-'' \<Longrightarrow>
     split_ops (s @ c # t) = (s, (c, fst (split_ops t)) # snd (split_ops t))"
  by (induction s) (auto simp: op_free_def split: prod.splits)

section \<open>Printing integers\<close>

definition digit_char :: "nat \<Rightarrow> char" where
  "digit_char d = (if d < 10 then char_of (48 + d) else char_of (87 + d))"

fun show_nat :: "nat \<Rightarrow> string" where
  "show_nat n = (if n < 10 then [digit_char n] else show_nat (n div 10) @ [digit_char (n mod 10)])"

declare show_nat.simps [simp del]

definition show_int :: "int \<Rightarrow> string" where
  "show_int i = (if i < 0 then CHR ''-'' # show_nat (nat (- i)) else show_nat (nat i))"

fun hex_digits :: "nat \<Rightarrow> string" where
  "hex_digits n = (if n < 16 then [digit_char n] else hex_digits (n div 16) @ [digit_char (n mod 16)])"

declare hex_digits.simps [simp del]

text \<open>\<open>hex(i)\<close>.\<close>

definition py_hex :: "int \<Rightarrow> string" where
  "py_hex i = (if i < 0 then ''-0x'' @ hex_digits (nat (- i)) else ''0x'' @ hex_digits (nat i))"

lemma ord_digit_char: "d < 10 \<Longrightarrow> ord_of (digit_char d) = 48 + d"
  by (simp add: digit_char_def)

lemma is_digit_digit_char: "d < 10 \<Longrightarrow> is_digit (digit_char d)"
  by (simp add: is_digit_def ord_digit_char)

lemma show_nat_digits: "c \<in> set (show_nat n) \<Longrightarrow> is_digit c"
proof (induction n rule: show_nat.induct)
  case (1 n)
  show ?case
  proof (cases "n < 10")
    case True
    with "1.prems" show ?thesis by (subst (asm) show_nat.simps) (simp add: is_digit_digit_char)
  next
    case False
    with "1.prems" have "c \<in> set (show_nat (n div 10)) \<or> c = digit_char (n mod 10)"
      by (subst (asm) show_nat.simps) auto
    with "1.IH" [OF False] show ?thesis by (auto simp: is_digit_digit_char)
  qed
qed

lemma show_nat_nonempty [simp]: "show_nat n \<noteq> []"
  by (subst show_nat.simps) simp

lemma hd_show_nat: "0 < n \<Longrightarrow> 49 \<le> ord_of (hd (show_nat n))"
proof (induction n rule: show_nat.induct)
  case (1 n)
  show ?case
  proof (cases "n < 10")
    case True
    with "1.prems" show ?thesis by (subst show_nat.simps) (simp add: ord_digit_char)
  next
    case False
    then have "49 \<le> ord_of (hd (show_nat (n div 10)))" using "1.IH" by simp
    with False show ?thesis by (subst show_nat.simps) simp
  qed
qed

section \<open>Parsing integers\<close>

text \<open>
  \<open>int(s)\<close> and \<open>int(s, 0)\<close> of CPython on ASCII text; \<open>None\<close> stands for the ValueError. The
  digits are read left to right with single underscores allowed between them: the flag says
  that an underscore or nothing has just been read, so a digit must follow.
\<close>

definition digit_val :: "char \<Rightarrow> nat option" where
  "digit_val c =
     (if is_digit c then Some (ord_of c - 48)
      else if is_lower c then Some (ord_of c - 87)
      else if is_upper c then Some (ord_of c - 55)
      else None)"

fun parse_digits :: "nat \<Rightarrow> bool \<Rightarrow> nat \<Rightarrow> string \<Rightarrow> nat option" where
  "parse_digits b need acc [] = (if need then None else Some acc)"
| "parse_digits b need acc (c # cs) =
     (if c = CHR ''_'' then (if need then None else parse_digits b True acc cs)
      else case digit_val c of
             None \<Rightarrow> None
           | Some d \<Rightarrow> if d < b then parse_digits b False (acc * b + d) cs else None)"

definition drop_underscore :: "string \<Rightarrow> string" where
  "drop_underscore s = (case s of [] \<Rightarrow> [] | c # cs \<Rightarrow> if c = CHR ''_'' then cs else s)"

text \<open>Base 0: the prefix chooses the base, and a plain leading zero is allowed for zero only.\<close>

definition parse_base0 :: "string \<Rightarrow> nat option" where
  "parse_base0 u =
     (case u of
        [] \<Rightarrow> None
      | c # cs \<Rightarrow>
          if c \<noteq> CHR ''0'' then parse_digits 10 True 0 u
          else if cs \<noteq> [] \<and> (hd cs = CHR ''x'' \<or> hd cs = CHR ''X'')
          then parse_digits 16 True 0 (drop_underscore (tl cs))
          else if cs \<noteq> [] \<and> (hd cs = CHR ''o'' \<or> hd cs = CHR ''O'')
          then parse_digits 8 True 0 (drop_underscore (tl cs))
          else if cs \<noteq> [] \<and> (hd cs = CHR ''b'' \<or> hd cs = CHR ''B'')
          then parse_digits 2 True 0 (drop_underscore (tl cs))
          else if parse_digits 10 True 0 u = Some 0 then Some 0 else None)"

definition parse_signed :: "(string \<Rightarrow> nat option) \<Rightarrow> string \<Rightarrow> int option" where
  "parse_signed body s =
     (let t = strip c_isspace s in
      if t \<noteq> [] \<and> hd t = CHR ''-'' then map_option (\<lambda>n. - int n) (body (tl t))
      else if t \<noteq> [] \<and> hd t = CHR ''+'' then map_option int (body (tl t))
      else map_option int (body t))"

definition py_int :: "string \<Rightarrow> int option" where
  "py_int s = parse_signed (parse_digits 10 True 0) s"

definition py_int0 :: "string \<Rightarrow> int option" where
  "py_int0 s = parse_signed parse_base0 s"

subsection \<open>Printing, then parsing\<close>

lemma digit_val_digit_char: "d < 10 \<Longrightarrow> digit_val (digit_char d) = Some d"
  by (simp add: digit_val_def is_digit_digit_char ord_digit_char)

lemma digit_not_special:
  assumes "is_digit c"
  shows "c \<noteq> CHR ''_''" "c \<noteq> CHR ''-''" "c \<noteq> CHR ''+''" "c \<noteq> CHR '':''" "\<not> py_isspace c"
  using assms by (auto simp: char_class_defs)

lemma digit_not_space: "is_digit c \<Longrightarrow> \<not> c_isspace c"
  by (auto simp: char_class_defs)

lemma parse_digits_show_nat:
  "parse_digits 10 need 0 (show_nat n @ cs) = parse_digits 10 False n cs"
proof (induction n arbitrary: cs need rule: show_nat.induct)
  case (1 n)
  show ?case
  proof (cases "n < 10")
    case True
    then show ?thesis
      using digit_not_special(1) [OF is_digit_digit_char [OF True]]
      by (subst show_nat.simps) (simp add: digit_val_digit_char)
  next
    case False
    have d: "n mod 10 < 10" by simp
    have "parse_digits 10 need 0 (show_nat n @ cs) =
        parse_digits 10 need 0 (show_nat (n div 10) @ digit_char (n mod 10) # cs)"
      using False by (subst show_nat.simps) simp
    also have "\<dots> = parse_digits 10 False (n div 10) (digit_char (n mod 10) # cs)"
      by (rule "1.IH" [OF False])
    also have "\<dots> = parse_digits 10 False (n div 10 * 10 + n mod 10) cs"
      using digit_not_special(1) [OF is_digit_digit_char [OF d]]
      by (simp add: digit_val_digit_char)
    finally show ?thesis by simp
  qed
qed

lemma parse_digits_show: "parse_digits 10 True 0 (show_nat n) = Some n"
  using parse_digits_show_nat [of True n "[]"] by simp

lemma digit_char_0: "digit_char 0 = CHR ''0''"
  by code_simp

lemma parse_base0_show: "parse_base0 (show_nat n) = Some n"
proof (cases "n = 0")
  case True
  then have "show_nat n = ''0''" by (simp add: show_nat.simps digit_char_0)
  with True parse_digits_show [of n] show ?thesis by (simp add: parse_base0_def)
next
  case False
  obtain c cs where c: "show_nat n = c # cs" by (cases "show_nat n") auto
  with hd_show_nat [of n] False have "c \<noteq> CHR ''0''" by auto
  then show ?thesis using parse_digits_show [of n] c by (simp add: parse_base0_def)
qed

lemma parse_signed_show:
  assumes "\<And>n. body (show_nat n) = Some n"
  shows "parse_signed body (show_int i) = Some i"
proof -
  have sp: "strip c_isspace (show_int i) = show_int i"
  proof (rule strip_id)
    fix c assume "c \<in> set (show_int i)"
    then have "c = CHR ''-'' \<or> is_digit c"
      by (auto simp: show_int_def dest: show_nat_digits split: if_splits)
    then show "\<not> c_isspace c" by (auto simp: digit_not_space) (simp add: c_isspace_def)
  qed
  have "hd (show_nat m) \<noteq> CHR ''-''" "hd (show_nat m) \<noteq> CHR ''+''" for m
    using show_nat_digits [of "hd (show_nat m)" m] by (auto dest: digit_not_special)
  then show ?thesis
    by (simp add: parse_signed_def sp Let_def) (simp add: show_int_def assms)
qed

theorem py_int_show: "py_int (show_int i) = Some i"
  by (simp add: py_int_def parse_signed_show parse_digits_show)

theorem py_int0_show: "py_int0 (show_int i) = Some i"
  by (simp add: py_int0_def parse_signed_show parse_base0_show)

lemma show_int_chars: "c \<in> set (show_int i) \<Longrightarrow> c = CHR ''-'' \<or> is_digit c"
  by (auto simp: show_int_def dest: show_nat_digits split: if_splits)

lemma show_int_inj: "show_int i = show_int j \<longleftrightarrow> i = j"
  by (metis option.inject py_int_show)

end
