(* ===== verification/Py_Values.thy ===== *)
theory Py_Values
  imports Py_Strings
begin

text \<open>
  The values that the parsed Hjson description is made of, and every exception the register
  tool can raise. Each \<open>raise\<close> statement of the code is a constructor that carries the data
  its message prints; the \<open>what\<close> and \<open>where\<close> arguments of the code are text that only
  appears in messages, and are left out.
\<close>

section \<open>Python objects\<close>

text \<open>
  The types \<open>hjson.loads(..., use_decimal=True)\<close> produces. \<open>PDec m e\<close> is the Decimal
  \<open>m * 10 ^ e\<close>. A dictionary is its list of items in insertion order.
\<close>

datatype pyobj =
    PNone
  | PBool bool
  | PInt int
  | PDec int int
  | PStr string
  | PList "pyobj list"
  | PDict "(pyobj \<times> pyobj) list"

type_synonym pydict = "(string \<times> pyobj) list"

fun type_name :: "pyobj \<Rightarrow> string" where
  "type_name PNone = ''NoneType''"
| "type_name (PBool b) = ''bool''"
| "type_name (PInt i) = ''int''"
| "type_name (PDec m e) = ''Decimal''"
| "type_name (PStr s) = ''str''"
| "type_name (PList l) = ''list''"
| "type_name (PDict d) = ''OrderedDict''"

text \<open>The truth value of an object, as in \<open>if not x\<close>.\<close>

fun truthy :: "pyobj \<Rightarrow> bool" where
  "truthy PNone = False"
| "truthy (PBool b) = b"
| "truthy (PInt i) = (i \<noteq> 0)"
| "truthy (PDec m e) = (m \<noteq> 0)"
| "truthy (PStr s) = (s \<noteq> [])"
| "truthy (PList l) = (l \<noteq> [])"
| "truthy (PDict d) = (d \<noteq> [])"

section \<open>Exceptions\<close>

datatype lib_error =
    NotADict string
  | KeyNotString pyobj
  | WrongKeys "string list" "string list"
  | NotAString string
  | BadName string
  | ReservedWord string
  | BadBoolString string
  | NotABool string
  | NotAList string
  | ElementNotAString nat string
  | BadIntString string
  | NotAnInt string
  | BadXIntString string

datatype param_error =
    RandBadType string string
  | RandNoCount string
  | RandCountNotPositive string int
  | RandNoType string
  | RandIsLocal string
  | RandHasDefault string
  | RandIsExposed string
  | NotRandButHas string string
  | NoDefault string
  | LocalIsExposed string
  | UnknownParam string
  | NotALocalParam string
  | ParamNotAnInt string string
  | DefaultForRandParam string string
  | DuplicateParam string

datatype reg_error =
    UnknownSWAccess string
  | UnknownHWAccess string
  | MsbBelowLsb int int
  | LsbNegative int
  | MsbTooLarge int int
  | BadBitsFormat string
  | EnumValueRange int int
  | NamedWithoutDesc
  | XResvalInReg
  | ResvalRange int int
  | ResvalMismatch int int int int
  | DuplicateEnumValue int string string
  | CannotReplicate string int int int
  | HwextReadable string string
  | HwextNeedsHwqe string string
  | HwreWithoutHwext string
  | ShadowedBadName string
  | NameWithoutShadowed string
  | DuplicateFields string string
  | NonDisjointFields string string int
  | RegResvalMismatch string int int
  | RegResvalRange string int int
  | NoFields string

datatype block_error =
    CompactManyFields string
  | CountNotPositive string int
  | ValidbitsNotPositive
  | ValidbitsTooLarge int int
  | ItemsNotPositive int
  | SizeNotPowerOf2 int int int
  | WindowAccess string
  | SignalWidth string int
  | AlertPrefix string
  | InterSignalWidth
  | RegistersNotListOrDict
  | EntryOtherKeys int string "string list"
  | ReservedNotPositive int
  | SkiptoBackwards int int
  | SkiptoUnaligned int int
  | WindowNameTaken string int int
  | MultiregNameTaken string int string int int
  | RegisterNameTaken string int int
  | RegwenBadName string
  | RegwenMissing string
  | RegwenResetZero string
  | RegwenBadAccess string string string

datatype ip_error =
    UnknownProtocol string
  | UnknownDirection string
  | MultipleUnnamedHosts
  | DuplicateHost string
  | MultipleUnnamedDevices
  | DuplicateDevice string
  | NoDevice
  | RegwidthNotPositive int
  | InterruptsTooWide int int
  | AlertsTooWide int int
  | NumAlertsConflict
  | InterfaceMismatch "string option list" "string option list"
  | NoSuchSignal string

text \<open>
  The exceptions. The first five constructors and \<open>Rewrapped\<close> (a \<open>raise ValueError(...)\<close>
  whose message quotes another exception) are Python \<open>ValueError\<close>s.
\<close>

datatype exn =
    LibError lib_error
  | ParamError param_error
  | RegError reg_error
  | BlockError block_error
  | IpError ip_error
  | Rewrapped exn
  | KeyError string
  | AssertionError
  | SysExit int
  | IndexError

type_synonym 'a res = "exn + 'a"

fun is_value_error :: "exn \<Rightarrow> bool" where
  "is_value_error (LibError e) = True"
| "is_value_error (ParamError e) = True"
| "is_value_error (RegError e) = True"
| "is_value_error (BlockError e) = True"
| "is_value_error (IpError e) = True"
| "is_value_error (Rewrapped e) = True"
| "is_value_error (KeyError k) = False"
| "is_value_error AssertionError = False"
| "is_value_error (SysExit n) = False"
| "is_value_error IndexError = False"

text \<open>\<open>assert c\<close>\<close>

definition py_assert :: "bool \<Rightarrow> unit res" where
  "py_assert c = (if c then Inr () else Inl AssertionError)"

lemma py_assert_Inr [simp]: "py_assert c = Inr u \<longleftrightarrow> c"
  by (simp add: py_assert_def)

lemma py_assert_Inl [simp]: "py_assert c = Inl e \<longleftrightarrow> \<not> c \<and> e = AssertionError"
  by (auto simp: py_assert_def)

lemma py_assert_True [simp]: "py_assert True = Inr ()"
  by (simp add: py_assert_def)

lemma raises_py_assert [raises_intros]: "c \<Longrightarrow> raises P (py_assert c)"
  by (simp add: raises_def)

section \<open>Reading a dictionary\<close>

text \<open>\<open>d.get(k)\<close>, \<open>d.get(k, dflt)\<close> and \<open>d[k]\<close>.\<close>

definition dget :: "pydict \<Rightarrow> string \<Rightarrow> pyobj" where
  "dget d k = (case map_of d k of None \<Rightarrow> PNone | Some v \<Rightarrow> v)"

definition dget_or :: "pydict \<Rightarrow> string \<Rightarrow> pyobj \<Rightarrow> pyobj" where
  "dget_or d k dflt = (case map_of d k of None \<Rightarrow> dflt | Some v \<Rightarrow> v)"

definition dindex :: "pydict \<Rightarrow> string \<Rightarrow> pyobj res" where
  "dindex d k = (case map_of d k of None \<Rightarrow> Inl (KeyError k) | Some v \<Rightarrow> Inr v)"

lemma raises_dindex [raises_intros]: "py_in k d \<Longrightarrow> raises P (dindex d k)"
  by (auto simp: dindex_def raises_def map_of_eq_None_iff split: option.splits)

end
