(* ===== verification/Reggen_Lib.thy ===== *)
theory Reggen_Lib
  imports Py_Values
begin

text \<open>
  \<open>reggen/lib.py\<close>: the checks that every parser of the register tool is made of. Each takes
  a raw object and returns it at its type, or raises a ValueError.
\<close>

section \<open>Names that are reserved words\<close>

definition verilog_keywords :: "string list" where
  "verilog_keywords = [
      ''alias'', ''always'', ''always_comb'', ''always_ff'', ''always_latch'', ''and'',
      ''assert'', ''assign'', ''assume'', ''automatic'', ''before'', ''begin'', ''bind'',
      ''bins'', ''binsof'', ''bit'', ''break'', ''buf'', ''bufif0'', ''bufif1'', ''byte'',
      ''case'', ''casex'', ''casez'', ''cell'', ''chandle'', ''class'', ''clocking'', ''cmos'',
      ''config'', ''const'', ''constraint'', ''context'', ''continue'', ''cover'', ''covergroup'',
      ''coverpoint'', ''cross'', ''deassign'', ''default'', ''defparam'', ''design'', ''disable'',
      ''dist'', ''do'', ''edge'', ''else'', ''end'', ''endcase'', ''endclass'', ''endclocking'',
      ''endconfig'', ''endfunction'', ''endgenerate'', ''endgroup'', ''endinterface'',
      ''endmodule'', ''endpackage'', ''endprimitive'', ''endprogram'', ''endproperty'',
      ''endspecify'', ''endsequence'', ''endtable'', ''endtask'', ''enum'', ''event'', ''expect'',
      ''export'', ''extends'', ''extern'', ''final'', ''first_match'', ''for'', ''force'',
      ''foreach'', ''forever'', ''fork'', ''forkjoin'', ''function'', ''generate'', ''genvar'',
      ''highz0'', ''highz1'', ''if'', ''iff'', ''ifnone'', ''ignore_bins'', ''illegal_bins'',
      ''import'', ''incdir'', ''include'', ''initial'', ''inout'', ''input'', ''inside'',
      ''instance'', ''int'', ''integer'', ''interface'', ''intersect'', ''join'', ''join_any'',
      ''join_none'', ''large'', ''liblist'', ''library'', ''local'', ''localparam'', ''logic'',
      ''longint'', ''macromodule'', ''matches'', ''medium'', ''modport'', ''module'', ''nand'',
      ''negedge'', ''new'', ''nmos'', ''nor'', ''noshowcancelled'', ''not'', ''notif0'',
      ''notif1'', ''null'', ''or'', ''output'', ''package'', ''packed'', ''parameter'', ''pmos'',
      ''posedge'', ''primitive'', ''priority'', ''program'', ''property'', ''protected'',
      ''pull0'', ''pull1'', ''pulldown'', ''pullup'', ''pulsestyle_onevent'',
      ''pulsestyle_ondetect'', ''pure'', ''rand'', ''randc'', ''randcase'', ''randsequence'',
      ''rcmos'', ''real'', ''realtime'', ''ref'', ''reg'', ''release'', ''repeat'', ''return'',
      ''rnmos'', ''rpmos'', ''rtran'', ''rtranif0'', ''rtranif1'', ''scalared'', ''sequence'',
      ''shortint'', ''shortreal'', ''showcancelled'', ''signed'', ''small'', ''solve'',
      ''specify'', ''specparam'', ''static'', ''string'', ''strong0'', ''strong1'', ''struct'',
      ''super'', ''supply0'', ''supply1'', ''table'', ''tagged'', ''task'', ''this'',
      ''throughout'', ''time'', ''timeprecision'', ''timeunit'', ''tran'', ''tranif0'',
      ''tranif1'', ''tri'', ''tri0'', ''tri1'', ''triand'', ''trior'', ''trireg'', ''type'',
      ''typedef'', ''union'', ''unique'', ''unsigned'', ''use'', ''uwire'', ''var'', ''vectored'',
      ''virtual'', ''void'', ''wait'', ''wait_order'', ''wand'', ''weak0'', ''weak1'', ''while'',
      ''wildcard'', ''wire'', ''with'', ''within'', ''wor'', ''xnor'', ''xor''
     ]"

section \<open>Dictionaries and their keys\<close>

definition check_str_dict :: "pyobj \<Rightarrow> pydict res" where
  "check_str_dict obj =
     (case obj of
        PDict d \<Rightarrow>
          mapR (\<lambda>(key, v). case key of PStr s \<Rightarrow> Inr (s, v) | _ \<Rightarrow> Inl (LibError (KeyNotString key))) d
      | _ \<Rightarrow> Inl (LibError (NotADict (type_name obj))))"

definition check_keys :: "pyobj \<Rightarrow> string list \<Rightarrow> string list \<Rightarrow> pydict res" where
  "check_keys obj required_keys optional_keys =
     bnd (check_str_dict obj) (\<lambda>od.
     bnd (py_assert (distinct (required_keys @ optional_keys))) (\<lambda>_.
     let allowed = required_keys @ optional_keys;
         missing = filter (\<lambda>key. \<not> py_in key od) required_keys;
         unexpected = filter (\<lambda>key. key \<notin> set allowed) (map fst od)
     in if missing \<noteq> [] \<or> unexpected \<noteq> [] then Inl (LibError (WrongKeys missing unexpected))
        else Inr od))"

section \<open>Strings and names\<close>

definition check_str :: "pyobj \<Rightarrow> string res" where
  "check_str obj =
     (case obj of PStr s \<Rightarrow> Inr s | _ \<Rightarrow> Inl (LibError (NotAString (type_name obj))))"

definition name_start :: "char \<Rightarrow> bool" where
  "name_start c \<longleftrightarrow> is_lower c \<or> is_upper c \<or> c = CHR ''_''"

definition name_char :: "char \<Rightarrow> bool" where
  "name_char c \<longleftrightarrow> is_lower c \<or> is_upper c \<or> c = CHR ''_'' \<or> is_digit c"

definition is_symbol :: "string \<Rightarrow> bool" where
  "is_symbol s \<longleftrightarrow> s \<noteq> [] \<and> name_start (hd s) \<and> list_all name_char s"

text \<open>
  \<open>re.match(r'[a-zA-Z_][a-zA-Z_0-9]*$', s)\<close>. In Python \<open>$\<close> also matches just before a
  newline that ends the string.
\<close>

definition newline :: char where
  "newline = CHR 0x0A"

definition match_name :: "string \<Rightarrow> bool" where
  "match_name s \<longleftrightarrow> is_symbol s \<or> (s \<noteq> [] \<and> last s = newline \<and> is_symbol (butlast s))"

definition check_name :: "pyobj \<Rightarrow> string res" where
  "check_name obj =
     bnd (check_str obj) (\<lambda>as_str.
     if \<not> match_name as_str then Inl (LibError (BadName as_str))
     else if as_str \<in> set verilog_keywords then Inl (LibError (ReservedWord as_str))
     else Inr as_str)"

section \<open>Booleans, lists and integers\<close>

definition bool_words :: "(string \<times> bool) list" where
  "bool_words = [(''true'', True), (''false'', False), (''1'', True), (''0'', False)]"

definition check_bool :: "pyobj \<Rightarrow> bool res" where
  "check_bool obj =
     (case obj of
        PStr s \<Rightarrow>
          (case map_of bool_words (str_lower s) of
             None \<Rightarrow> Inl (LibError (BadBoolString s))
           | Some b \<Rightarrow> Inr b)
      | PBool b \<Rightarrow> Inr b
      | _ \<Rightarrow> Inl (LibError (NotABool (type_name obj))))"

definition check_list :: "pyobj \<Rightarrow> pyobj list res" where
  "check_list obj =
     (case obj of PList l \<Rightarrow> Inr l | _ \<Rightarrow> Inl (LibError (NotAList (type_name obj))))"

definition check_str_list :: "pyobj \<Rightarrow> string list res" where
  "check_str_list obj =
     bnd (check_list obj) (\<lambda>lst.
     mapR (\<lambda>(idx, elt). case elt of
             PStr s \<Rightarrow> Inr s
           | _ \<Rightarrow> Inl (LibError (ElementNotAString idx (type_name elt))))
          (enumerate 0 lst))"

definition check_name_list :: "pyobj \<Rightarrow> string list res" where
  "check_name_list obj = bnd (check_list obj) (\<lambda>lst. mapR check_name lst)"

text \<open>A Python bool is an int: \<open>isinstance(True, int)\<close> holds, and it counts as 0 or 1.\<close>

definition check_int :: "pyobj \<Rightarrow> int res" where
  "check_int obj =
     (case obj of
        PInt i \<Rightarrow> Inr i
      | PBool b \<Rightarrow> Inr (of_bool b)
      | PStr s \<Rightarrow>
          (case py_int0 s of
             None \<Rightarrow> Inl (LibError (BadIntString s))
           | Some i \<Rightarrow> Inr i)
      | _ \<Rightarrow> Inl (LibError (NotAnInt (type_name obj))))"

definition check_xint :: "pyobj \<Rightarrow> int option res" where
  "check_xint obj =
     (case obj of
        PInt i \<Rightarrow> Inr (Some i)
      | PBool b \<Rightarrow> Inr (Some (of_bool b))
      | PStr s \<Rightarrow>
          (if s = ''x'' then Inr None
           else case py_int0 s of
                  None \<Rightarrow> Inl (LibError (BadXIntString s))
                | Some i \<Rightarrow> Inr (Some i))
      | _ \<Rightarrow> Inl (LibError (NotAnInt (type_name obj))))"

definition check_optional_str :: "pyobj \<Rightarrow> string option res" where
  "check_optional_str obj =
     (if obj = PNone then Inr None else bnd (check_str obj) (\<lambda>s. Inr (Some s)))"

text \<open>
  \<open>get_basename\<close>: \<open>re.search(r'_[0-9]+$', name)\<close> finds the leftmost place where an underscore
  and then only digits run to the end, up to one final newline; what comes before it is the
  base name.
\<close>

definition number_suffix :: "string \<Rightarrow> bool" where
  "number_suffix s \<longleftrightarrow>
     (let t = (if s \<noteq> [] \<and> last s = newline then butlast s else s)
      in 2 \<le> length t \<and> hd t = CHR ''_'' \<and> list_all is_digit (tl t))"

definition get_basename :: "string \<Rightarrow> string res" where
  "get_basename name =
     (case find (\<lambda>i. number_suffix (drop i name)) [0..<length name] of
        None \<Rightarrow> Inl AssertionError
      | Some start \<Rightarrow> bnd (py_assert (0 < start)) (\<lambda>_. Inr (take start name)))"

section \<open>What the checks accept and what they raise\<close>

lemma check_str_Inr [simp]: "check_str obj = Inr s \<longleftrightarrow> obj = PStr s"
  by (cases obj) (auto simp: check_str_def)

lemma check_list_Inr [simp]: "check_list obj = Inr l \<longleftrightarrow> obj = PList l"
  by (cases obj) (auto simp: check_list_def)

lemma check_str_dict_Inr:
  "check_str_dict obj = Inr od \<longleftrightarrow> obj = PDict (map (\<lambda>(s, v). (PStr s, v)) od)"
proof -
  have "mapR (\<lambda>(key, v). case key of PStr s \<Rightarrow> Inr (s, v) | _ \<Rightarrow> Inl (LibError (KeyNotString key))) d
      = Inr od \<longleftrightarrow> d = map (\<lambda>(s, v). (PStr s, v)) od" for d
    by (induction d arbitrary: od) (auto split: pyobj.splits)
  then show ?thesis by (cases obj) (simp_all add: check_str_dict_def)
qed

lemma check_keys_Inr:
  "check_keys obj req opt = Inr od \<longleftrightarrow>
     obj = PDict (map (\<lambda>(s, v). (PStr s, v)) od) \<and> distinct (req @ opt) \<and>
     set req \<subseteq> fst ` set od \<and> fst ` set od \<subseteq> set (req @ opt)"
  unfolding check_keys_def Let_def
  by (auto simp: check_str_dict_Inr filter_empty_conv image_subset_iff split: if_splits)

lemma check_keys_has: "check_keys obj req opt = Inr od \<Longrightarrow> k \<in> set req \<Longrightarrow> py_in k od"
  by (auto simp: check_keys_Inr)

lemma check_keys_dict: "check_keys obj req opt = Inr od \<Longrightarrow> check_str_dict obj = Inr od"
  by (simp add: check_keys_Inr check_str_dict_Inr)

lemma check_keys_missing:
  assumes "check_str_dict obj = Inr od" and "k \<in> set req" and "\<not> py_in k od"
  shows "\<exists>e. check_keys obj req opt = Inl e"
proof (cases "check_keys obj req opt")
  case (Inr od')
  then have "check_str_dict obj = Inr od'" by (rule check_keys_dict)
  with assms Inr show ?thesis by (auto dest: check_keys_has)
qed simp

lemma raises_check_str_dict [raises_intros]: "raises is_value_error (check_str_dict obj)"
  unfolding check_str_dict_def
  by (cases obj) (auto intro!: raises_intros split: pyobj.splits)

lemma raises_check_keys [raises_intros]:
  "distinct (req @ opt) \<Longrightarrow> raises is_value_error (check_keys obj req opt)"
  unfolding check_keys_def Let_def
  by (intro raises_intros) simp_all

lemma raises_check_str [raises_intros]: "raises is_value_error (check_str obj)"
  by (cases obj) (simp_all add: check_str_def raises_def)

lemma raises_check_list [raises_intros]: "raises is_value_error (check_list obj)"
  by (cases obj) (simp_all add: check_list_def raises_def)

lemma raises_check_name [raises_intros]: "raises is_value_error (check_name obj)"
  unfolding check_name_def by (intro raises_intros) simp_all

lemma raises_check_bool [raises_intros]: "raises is_value_error (check_bool obj)"
  by (cases obj) (auto simp: check_bool_def raises_def split: option.splits)

lemma raises_check_int [raises_intros]: "raises is_value_error (check_int obj)"
  by (cases obj) (auto simp: check_int_def raises_def split: option.splits)

lemma raises_check_xint [raises_intros]: "raises is_value_error (check_xint obj)"
  by (cases obj) (auto simp: check_xint_def raises_def split: option.splits)

lemma raises_check_str_list [raises_intros]: "raises is_value_error (check_str_list obj)"
  unfolding check_str_list_def
  by (intro raises_intros) (auto intro!: raises_intros split: pyobj.splits)

lemma raises_check_name_list [raises_intros]: "raises is_value_error (check_name_list obj)"
  unfolding check_name_list_def by (intro raises_intros)

lemma raises_check_optional_str [raises_intros]: "raises is_value_error (check_optional_str obj)"
  unfolding check_optional_str_def by (intro raises_intros)

lemma check_name_Inr:
  "check_name obj = Inr s \<longleftrightarrow> obj = PStr s \<and> match_name s \<and> s \<notin> set verilog_keywords"
  by (auto simp: check_name_def split: if_splits)

lemma check_int_show: "check_int (PStr (show_int i)) = Inr i"
  by (simp add: check_int_def py_int0_show)

lemma check_bool_PBool [simp]: "check_bool (PBool b) = Inr b"
  by (simp add: check_bool_def)

lemma check_int_PInt [simp]: "check_int (PInt i) = Inr i"
  by (simp add: check_int_def)

definition valid_name :: "string \<Rightarrow> bool" where
  "valid_name s \<longleftrightarrow> check_name (PStr s) = Inr s"

lemma valid_name_nonempty: "valid_name s \<Longrightarrow> s \<noteq> []"
  by (auto simp: valid_name_def check_name_Inr match_name_def is_symbol_def)

section \<open>Dictionaries as raw objects\<close>

definition obj_of_dict :: "pydict \<Rightarrow> pyobj" where
  "obj_of_dict d = PDict (map (\<lambda>(k, v). (PStr k, v)) d)"

lemma check_str_dict_obj [simp]: "check_str_dict (obj_of_dict d) = Inr d"
  by (simp add: check_str_dict_Inr obj_of_dict_def)

lemma check_keys_obj:
  "check_keys (obj_of_dict d) req opt = Inr od \<longleftrightarrow>
     od = d \<and> distinct (req @ opt) \<and> set req \<subseteq> fst ` set d \<and> fst ` set d \<subseteq> set (req @ opt)"
  by (auto simp: check_keys_Inr obj_of_dict_def inj_map_eq_map inj_def)

end
