(* ===== verification/Reggen_Access.thy ===== *)
theory Reggen_Access
  imports Reggen_Lib
begin

text \<open>
  \<open>reggen/access.py\<close>: the software and hardware access modes of a field and what they permit.
\<close>

datatype sw_wr_access = SwWr | SwWrNone

datatype sw_rd_access = SwRd | SwRc | SwRdNone

datatype sw_access = SwRO | SwRW | SwWO | SwW1C | SwW1S | SwW0C | SwRC | SwR0W1C | SwNone

datatype hw_access = HwHRO | HwHRW | HwHWO | HwNone

record sw_info =
  sw_text :: string
  sw_mode :: sw_access
  sw_wr :: sw_wr_access
  sw_rd :: sw_rd_access
  sw_in_window :: bool

definition swaccess_permitted :: "(string \<times> sw_info) list" where
  "swaccess_permitted =
     [(''none'', \<lparr>sw_text = ''No access'', sw_mode = SwNone, sw_wr = SwWrNone,
        sw_rd = SwRdNone, sw_in_window = False\<rparr>),
      (''ro'', \<lparr>sw_text = ''Read Only'', sw_mode = SwRO, sw_wr = SwWrNone,
        sw_rd = SwRd, sw_in_window = True\<rparr>),
      (''rc'', \<lparr>sw_text = ''Read Only, reading clears'', sw_mode = SwRC, sw_wr = SwWr,
        sw_rd = SwRc, sw_in_window = False\<rparr>),
      (''rw'', \<lparr>sw_text = ''Read/Write'', sw_mode = SwRW, sw_wr = SwWr,
        sw_rd = SwRd, sw_in_window = True\<rparr>),
      (''r0w1c'', \<lparr>sw_text = ''Read zero, Write with 1 clears'', sw_mode = SwW1C, sw_wr = SwWr,
        sw_rd = SwRdNone, sw_in_window = False\<rparr>),
      (''rw1s'', \<lparr>sw_text = ''Read, Write with 1 sets'', sw_mode = SwW1S, sw_wr = SwWr,
        sw_rd = SwRd, sw_in_window = False\<rparr>),
      (''rw1c'', \<lparr>sw_text = ''Read, Write with 1 clears'', sw_mode = SwW1C, sw_wr = SwWr,
        sw_rd = SwRd, sw_in_window = False\<rparr>),
      (''rw0c'', \<lparr>sw_text = ''Read, Write with 0 clears'', sw_mode = SwW0C, sw_wr = SwWr,
        sw_rd = SwRd, sw_in_window = False\<rparr>),
      (''wo'', \<lparr>sw_text = ''Write Only'', sw_mode = SwWO, sw_wr = SwWr,
        sw_rd = SwRdNone, sw_in_window = True\<rparr>)]"

definition hwaccess_permitted :: "(string \<times> (string \<times> hw_access)) list" where
  "hwaccess_permitted =
     [(''hro'', (''Read Only'', HwHRO)),
      (''hrw'', (''Read/Write'', HwHRW)),
      (''hwo'', (''Write Only'', HwHWO)),
      (''none'', (''No Access Needed'', HwNone))]"

section \<open>Access objects\<close>

record swaccess =
  sw_key :: string
  sw_value :: sw_info

record hwaccess =
  hw_key :: string
  hw_value :: "string \<times> hw_access"

definition SWAccess :: "pyobj \<Rightarrow> swaccess res" where
  "SWAccess raw =
     bnd (check_str raw) (\<lambda>key.
     case map_of swaccess_permitted key of
       None \<Rightarrow> Inl (RegError (UnknownSWAccess key))
     | Some v \<Rightarrow> Inr \<lparr>sw_key = key, sw_value = v\<rparr>)"

definition HWAccess :: "pyobj \<Rightarrow> hwaccess res" where
  "HWAccess raw =
     bnd (check_str raw) (\<lambda>key.
     case map_of hwaccess_permitted key of
       None \<Rightarrow> Inl (RegError (UnknownHWAccess key))
     | Some v \<Rightarrow> Inr \<lparr>hw_key = key, hw_value = v\<rparr>)"

text \<open>The assertion of the last branch is an exception when the key is none of the nine.\<close>

definition dv_rights :: "swaccess \<Rightarrow> string res" where
  "dv_rights a =
     (if sw_key a \<in> set [''none'', ''ro'', ''rc''] then Inr ''RO''
      else if sw_key a \<in> set [''rw'', ''r0w1c'', ''rw1s'', ''rw1c'', ''rw0c''] then Inr ''RW''
      else bnd (py_assert (sw_key a = ''wo'')) (\<lambda>_. Inr ''WO''))"

definition swrd :: "swaccess \<Rightarrow> sw_rd_access" where
  "swrd a = sw_rd (sw_value a)"

definition sw_allows_read :: "swaccess \<Rightarrow> bool" where
  "sw_allows_read a \<longleftrightarrow> sw_rd (sw_value a) \<noteq> SwRdNone"

definition sw_allows_write :: "swaccess \<Rightarrow> bool" where
  "sw_allows_write a \<longleftrightarrow> sw_wr (sw_value a) = SwWr"

definition hw_allows_read :: "hwaccess \<Rightarrow> bool" where
  "hw_allows_read a \<longleftrightarrow> hw_key a \<in> set [''hro'', ''hrw'']"

definition hw_allows_write :: "hwaccess \<Rightarrow> bool" where
  "hw_allows_write a \<longleftrightarrow> hw_key a \<in> set [''hrw'', ''hwo'']"

section \<open>Facts about the modes\<close>

text \<open>An access object is well formed when it came out of its table.\<close>

definition wf_swaccess :: "swaccess \<Rightarrow> bool" where
  "wf_swaccess a \<longleftrightarrow> map_of swaccess_permitted (sw_key a) = Some (sw_value a)"

definition wf_hwaccess :: "hwaccess \<Rightarrow> bool" where
  "wf_hwaccess a \<longleftrightarrow> map_of hwaccess_permitted (hw_key a) = Some (hw_value a)"

lemma SWAccess_Inr: "SWAccess raw = Inr a \<longleftrightarrow> raw = PStr (sw_key a) \<and> wf_swaccess a"
  by (cases a; cases raw) (auto simp: SWAccess_def check_str_def wf_swaccess_def split: option.splits)

lemma HWAccess_Inr: "HWAccess raw = Inr a \<longleftrightarrow> raw = PStr (hw_key a) \<and> wf_hwaccess a"
  by (cases a; cases raw) (auto simp: HWAccess_def check_str_def wf_hwaccess_def split: option.splits)

lemma raises_SWAccess [raises_intros]: "raises is_value_error (SWAccess raw)"
  unfolding SWAccess_def by (intro raises_intros) simp

lemma raises_HWAccess [raises_intros]: "raises is_value_error (HWAccess raw)"
  unfolding HWAccess_def by (intro raises_intros) simp

lemma wf_swaccess_cases:
  assumes "wf_swaccess a"
  shows "sw_key a \<in> {''none'', ''ro'', ''rc'', ''rw'', ''r0w1c'', ''rw1s'', ''rw1c'', ''rw0c'', ''wo''}"
  using assms by (auto simp: wf_swaccess_def swaccess_permitted_def split: if_splits)

lemma wf_hwaccess_cases:
  assumes "wf_hwaccess a"
  shows "hw_key a \<in> {''hro'', ''hrw'', ''hwo'', ''none''}"
  using assms by (auto simp: wf_hwaccess_def hwaccess_permitted_def split: if_splits)

text \<open>The rights string agrees with the table on every mode but one: \<open>rc\<close>.\<close>

lemma dv_rights_spec:
  assumes "wf_swaccess a"
  shows "dv_rights a = Inr (if sw_allows_write a \<and> sw_key a \<noteq> ''rc''
      then if sw_allows_read a \<or> sw_key a = ''r0w1c'' then ''RW'' else ''WO'' else ''RO'')"
  using assms
  by (cases a) (auto simp: wf_swaccess_def swaccess_permitted_def dv_rights_def sw_allows_write_def
      sw_allows_read_def split: if_splits)

end
