(* ===== verification/Reggen_Params.thy ===== *)
theory Reggen_Params
  imports Reggen_Lib
begin

text \<open>
  \<open>reggen/params.py\<close>: the parameters of a block, their parsing, and the expansion of a field
  such as \<open>"NAlerts + 1"\<close> to an integer.
\<close>

section \<open>Parameter objects\<close>

text \<open>
  The three subclasses of \<open>BaseParam\<close>. The last argument of \<open>LocalParam\<close> is its \<open>default\<close>
  attribute, which exists only once \<open>apply_default\<close> has set it.
\<close>

datatype param =
    LocalParam (p_name: string) (p_desc: "string option") (p_type: string) (p_value: string)
      (p_override: "string option")
  | Parameter (p_name: string) (p_desc: "string option") (p_type: string) (p_default: string)
      (p_expose: bool)
  | RandParameter (p_name: string) (p_desc: "string option") (p_type: string) (p_randcount: int)
      (p_randtype: string)

type_synonym params = "(string \<times> param) list"

definition param_required :: "string list" where
  "param_required = [''name'']"

definition param_optional :: "string list" where
  "param_optional =
     [''desc'', ''type'', ''default'', ''local'', ''expose'', ''randcount'', ''randtype'']"

definition is_int_type :: "string \<Rightarrow> bool" where
  "is_int_type param_type \<longleftrightarrow> take 3 param_type = ''int''"

fun apply_default :: "param \<Rightarrow> string \<Rightarrow> param res" where
  "apply_default (LocalParam name desc param_type v ovr) value =
     bnd (if is_int_type param_type then bnd (check_int (PStr value)) (\<lambda>_. Inr ()) else Inr ())
       (\<lambda>_. Inr (LocalParam name desc param_type v (Some value)))"
| "apply_default (Parameter name desc param_type dflt expose) value =
     bnd (if is_int_type param_type then bnd (check_int (PStr value)) (\<lambda>_. Inr ()) else Inr ())
       (\<lambda>_. Inr (Parameter name desc param_type value expose))"
| "apply_default (RandParameter name desc param_type randcount randtype) value =
     Inl (ParamError (DefaultForRandParam name value))"

fun expand_value :: "param \<Rightarrow> int res" where
  "expand_value (LocalParam name desc param_type v ovr) =
     (case py_int0 v of
        None \<Rightarrow> Inl (ParamError (ParamNotAnInt name v))
      | Some i \<Rightarrow> Inr i)"
| "expand_value p = Inl (ParamError (NotALocalParam (p_name p)))"

definition desc_item :: "string option \<Rightarrow> pydict" where
  "desc_item desc = (case desc of None \<Rightarrow> [] | Some d \<Rightarrow> [(''desc'', PStr d)])"

fun param_as_dict :: "param \<Rightarrow> pydict" where
  "param_as_dict (LocalParam name desc param_type v ovr) =
     [(''name'', PStr name)] @ desc_item desc @
     [(''type'', PStr param_type), (''local'', PBool True), (''default'', PStr v)]"
| "param_as_dict (Parameter name desc param_type dflt expose) =
     [(''name'', PStr name)] @ desc_item desc @
     [(''type'', PStr param_type), (''default'', PStr dflt),
      (''expose'', PStr (if expose then ''true'' else ''false''))]"
| "param_as_dict (RandParameter name desc param_type randcount randtype) =
     [(''name'', PStr name)] @ desc_item desc @
     [(''type'', PStr param_type), (''randcount'', PInt randcount), (''randtype'', PStr randtype)]"

section \<open>Parsing one parameter\<close>

definition check_desc :: "pyobj \<Rightarrow> string option res" where
  "check_desc r_desc =
     (if r_desc = PNone then Inr None else bnd (check_str r_desc) (\<lambda>d. Inr (Some d)))"

definition starts_with :: "string \<Rightarrow> string \<Rightarrow> bool" where
  "starts_with pre s \<longleftrightarrow> take (length pre) s = pre"

definition parse_rand_parameter :: "pydict \<Rightarrow> string \<Rightarrow> string option \<Rightarrow> param res" where
  "parse_rand_parameter rd name desc =
     bnd (check_str (dget_or rd ''randtype'' (PStr ''none''))) (\<lambda>randtype.
     if randtype \<notin> set [''perm'', ''data''] then Inl (ParamError (RandBadType name randtype))
     else if dget rd ''randcount'' = PNone then Inl (ParamError (RandNoCount name))
     else bnd (check_int (dget rd ''randcount'')) (\<lambda>randcount.
     if randcount \<le> 0 then Inl (ParamError (RandCountNotPositive name randcount))
     else if dget rd ''type'' = PNone then Inl (ParamError (RandNoType name))
     else bnd (check_str (dget rd ''type'')) (\<lambda>param_type.
     bnd (check_bool (dget_or rd ''local'' (PStr ''false''))) (\<lambda>local.
     if local then Inl (ParamError (RandIsLocal name))
     else if dget rd ''default'' \<noteq> PNone then Inl (ParamError (RandHasDefault name))
     else bnd (check_bool (dget_or rd ''expose'' (PStr ''false''))) (\<lambda>expose.
     if expose then Inl (ParamError (RandIsExposed name))
     else bnd (py_assert (0 < randcount \<and> randtype \<in> set [''perm'', ''data''])) (\<lambda>_.
     Inr (RandParameter name desc param_type randcount randtype)))))))"

definition parse_plain_parameter :: "pydict \<Rightarrow> string \<Rightarrow> string option \<Rightarrow> param res" where
  "parse_plain_parameter rd name desc =
     (case find (\<lambda>fld. py_in fld rd) [''randcount'', ''randtype''] of
        Some fld \<Rightarrow> Inl (ParamError (NotRandButHas name fld))
      | None \<Rightarrow>
     bnd (if dget rd ''type'' = PNone then Inr ''int'' else check_str (dget rd ''type''))
       (\<lambda>param_type.
     bnd (check_bool (dget_or rd ''local'' (PStr ''true''))) (\<lambda>local.
     bnd (check_bool (dget_or rd ''expose'' (PStr ''false''))) (\<lambda>expose.
     if dget rd ''default'' = PNone then Inl (ParamError (NoDefault name))
     else bnd (check_str (dget rd ''default'')) (\<lambda>dflt.
     bnd (if is_int_type param_type then bnd (check_int (PStr dflt)) (\<lambda>_. Inr ()) else Inr ()) (\<lambda>_.
     if local then
       (if expose then Inl (ParamError (LocalIsExposed name))
        else Inr (LocalParam name desc param_type dflt None))
     else Inr (Parameter name desc param_type dflt expose)))))))"

definition parse_parameter :: "pyobj \<Rightarrow> param res" where
  "parse_parameter raw =
     bnd (check_keys raw param_required param_optional) (\<lambda>rd.
     bnd (bnd (dindex rd ''name'') check_str) (\<lambda>name.
     bnd (check_desc (dget rd ''desc'')) (\<lambda>desc.
     if starts_with ''rndcnst'' (str_lower name) \<and> py_in ''randtype'' rd
     then parse_rand_parameter rd name desc
     else parse_plain_parameter rd name desc)))"

section \<open>The parameters of a block\<close>

definition params_add :: "param \<Rightarrow> params \<Rightarrow> params res" where
  "params_add param by_name =
     bnd (py_assert (\<not> py_in (p_name param) by_name)) (\<lambda>_.
     Inr (AList.update (p_name param) param by_name))"

definition params_step :: "params \<Rightarrow> pyobj \<Rightarrow> params res" where
  "params_step ret r_param =
     bnd (parse_parameter r_param) (\<lambda>param.
     if py_in (p_name param) ret then Inl (ParamError (DuplicateParam (p_name param)))
     else params_add param ret)"

definition params_from_raw :: "pyobj \<Rightarrow> params res" where
  "params_from_raw raw = bnd (check_list raw) (\<lambda>rl. foldR params_step [] rl)"

definition apply_defaults :: "params \<Rightarrow> (string \<times> string) list \<Rightarrow> params res" where
  "apply_defaults by_name defaults =
     foldR (\<lambda>ps (key, value).
        case map_of ps key of
          None \<Rightarrow> Inl (KeyError key)
        | Some param \<Rightarrow> bnd (apply_default param value) (\<lambda>p'. Inr (AList.update key p' ps)))
       by_name defaults"

definition get_localparams :: "params \<Rightarrow> param list" where
  "get_localparams by_name = filter (\<lambda>p. is_LocalParam p) (map snd by_name)"

definition params_as_dicts :: "params \<Rightarrow> pydict list" where
  "params_as_dicts by_name = map param_as_dict (map snd by_name)"

section \<open>Expanding an expression\<close>

definition expand_one :: "params \<Rightarrow> string \<Rightarrow> int res" where
  "expand_one by_name value =
     (case py_int0 value of
        Some i \<Rightarrow> Inr i
      | None \<Rightarrow>
          (case map_of by_name value of
             None \<Rightarrow> Inl (ParamError (UnknownParam value))
           | Some param \<Rightarrow>
               if \<not> is_LocalParam param then Inl (ParamError (NotALocalParam value))
               else expand_value param))"

definition expand_term :: "params \<Rightarrow> int \<Rightarrow> char \<times> string \<Rightarrow> int res" where
  "expand_term by_name acc = (\<lambda>(op, tok).
     bnd (expand_one by_name (strip py_isspace tok)) (\<lambda>trm.
     Inr (acc + (if op = CHR ''-'' then - trm else trm))))"

definition expand :: "params \<Rightarrow> string \<Rightarrow> int res" where
  "expand by_name value =
     (case split_ops value of (tok, rest) \<Rightarrow>
        bnd (if tok = [] then Inr 0 else expand_one by_name (strip py_isspace tok)) (\<lambda>acc.
        foldR (expand_term by_name) acc rest))"

section \<open>What parsing guarantees\<close>

lemma param_keys_distinct: "distinct (param_required @ param_optional)"
  by (simp add: param_required_def param_optional_def)

lemma raises_check_desc [raises_intros]: "raises is_value_error (check_desc r)"
  unfolding check_desc_def by (intro raises_intros)

lemma raises_parse_rand [raises_intros]: "raises is_value_error (parse_rand_parameter rd name desc)"
  unfolding parse_rand_parameter_def by (intro raises_intros) simp_all

lemma raises_parse_plain [raises_intros]: "raises is_value_error (parse_plain_parameter rd name desc)"
  unfolding parse_plain_parameter_def by (intro raises_intros) simp_all

lemma raises_parse_parameter [raises_intros]: "raises is_value_error (parse_parameter raw)"
  unfolding parse_parameter_def
  by (intro raises_intros param_keys_distinct) (erule check_keys_has, simp add: param_required_def)

text \<open>
  The invariant of a parameter dictionary: each parameter is stored under its own name, names are
  distinct, and the value of a parameter of an int type parses as an integer.
\<close>

definition wf_param :: "param \<Rightarrow> bool" where
  "wf_param p \<longleftrightarrow> is_LocalParam p \<longrightarrow> is_int_type (p_type p) \<longrightarrow> py_int0 (p_value p) \<noteq> None"

definition wf_params :: "params \<Rightarrow> bool" where
  "wf_params ps \<longleftrightarrow> distinct (map fst ps) \<and> (\<forall>k p. map_of ps k = Some p \<longrightarrow> p_name p = k \<and> wf_param p)"

lemma check_int_PStr_Inr: "check_int (PStr s) = Inr i \<longleftrightarrow> py_int0 s = Some i"
  by (simp add: check_int_def split: option.splits)

lemma parse_parameter_wf: "parse_parameter raw = Inr p \<Longrightarrow> wf_param p"
  unfolding parse_parameter_def parse_rand_parameter_def parse_plain_parameter_def
  by (auto simp: wf_param_def check_int_PStr_Inr split: if_splits option.splits)

lemma wf_params_update:
  "wf_params ps \<Longrightarrow> wf_param p \<Longrightarrow> p_name p = k \<Longrightarrow> wf_params (AList.update k p ps)"
  by (auto simp: wf_params_def update_conv' distinct_update split: if_splits)

lemma params_step_wf:
  assumes "wf_params ps" and "params_step ps x = Inr ps'"
  shows "wf_params ps'"
proof -
  from assms(2) obtain p where "parse_parameter x = Inr p" and "ps' = AList.update (p_name p) p ps"
    by (auto simp: params_step_def params_add_def split: if_splits)
  with assms(1) show ?thesis by (simp add: wf_params_update parse_parameter_wf)
qed

interpretation params_loop: invariant_step params_step wf_params
  by unfold_locales (rule params_step_wf)

lemma wf_params_Nil [simp]: "wf_params []"
  by (simp add: wf_params_def)

lemma params_from_raw_wf: "params_from_raw raw = Inr ps \<Longrightarrow> wf_params ps"
  by (auto simp: params_from_raw_def intro: params_loop.fold_inv [of "[]"])

lemma raises_params_step: "raises is_value_error (params_step ps x)"
  unfolding params_step_def params_add_def by (intro raises_intros) simp_all

lemma raises_params_from_raw [raises_intros]: "raises is_value_error (params_from_raw raw)"
  unfolding params_from_raw_def
  by (intro raises_intros params_loop.fold_raises raises_params_step wf_params_Nil)

lemma expand_value_ok:
  assumes "wf_params ps" and "map_of ps k = Some p" and "is_LocalParam p" and "is_int_type (p_type p)"
  shows "\<exists>i. expand_one ps k = Inr i"
proof -
  from assms have "py_int0 (p_value p) \<noteq> None" by (auto simp: wf_params_def wf_param_def)
  with assms show ?thesis
    by (cases p) (auto simp: expand_one_def split: option.splits)
qed

section \<open>Expansion computes a signed sum\<close>

text \<open>
  The expressions the code documents, as data: a first atom and a list of signed atoms. An atom
  is a literal or the name of a parameter.
\<close>

datatype atom = Lit nat | Ref string

type_synonym expr = "atom \<times> (bool \<times> atom) list"

fun atom_text :: "atom \<Rightarrow> string" where
  "atom_text (Lit n) = show_nat n"
| "atom_text (Ref s) = s"

fun atom_value :: "params \<Rightarrow> atom \<Rightarrow> int option" where
  "atom_value ps (Lit n) = Some (int n)"
| "atom_value ps (Ref s) =
     (case map_of ps s of
        Some p \<Rightarrow> if is_LocalParam p then py_int0 (p_value p) else None
      | None \<Rightarrow> None)"

fun atom_ok :: "params \<Rightarrow> atom \<Rightarrow> bool" where
  "atom_ok ps (Lit n) = True"
| "atom_ok ps (Ref s) = (is_symbol s \<and> atom_value ps (Ref s) \<noteq> None)"

definition expr_text :: "expr \<Rightarrow> string" where
  "expr_text e = atom_text (fst e) @
     concat (map (\<lambda>(neg, a). [CHR '' '', if neg then CHR ''-'' else CHR ''+'', CHR '' ''] @ atom_text a)
       (snd e))"

definition expr_value :: "params \<Rightarrow> expr \<Rightarrow> int" where
  "expr_value ps e = the (atom_value ps (fst e)) +
     (\<Sum>(neg, a) \<leftarrow> snd e. if neg then - the (atom_value ps a) else the (atom_value ps a))"

definition expr_ok :: "params \<Rightarrow> expr \<Rightarrow> bool" where
  "expr_ok ps e \<longleftrightarrow> atom_ok ps (fst e) \<and> (\<forall>(neg, a) \<in> set (snd e). atom_ok ps a)"

lemma name_char_not_special:
  assumes "name_char c"
  shows "c \<noteq> CHR ''+''" "c \<noteq> CHR ''-''" "\<not> py_isspace c" "\<not> c_isspace c" "c \<noteq> CHR '':''"
  using assms by (auto simp: name_char_def char_class_defs)

lemma atom_text_chars: "atom_ok ps a \<Longrightarrow> c \<in> set (atom_text a) \<Longrightarrow> name_char c"
  by (cases a) (auto simp: is_symbol_def list_all_iff name_char_def dest: show_nat_digits)

lemma atom_text_nonempty: "atom_ok ps a \<Longrightarrow> atom_text a \<noteq> []"
  by (cases a) (auto simp: is_symbol_def)

lemma name_start_no_digit:
  "name_start c \<Longrightarrow> c \<noteq> CHR ''0'' \<and> (c = CHR ''_'' \<or> (\<exists>d. digit_val c = Some d \<and> 10 \<le> d))"
  by (auto simp: name_start_def digit_val_def char_class_defs)

lemma py_int0_symbol:
  assumes "is_symbol s"
  shows "py_int0 s = None"
proof -
  from assms obtain c cs where s: "s = c # cs" and c: "name_start c" and all: "list_all name_char s"
    by (cases s) (auto simp: is_symbol_def)
  have "strip c_isspace s = s"
    using all by (intro strip_id) (auto simp: list_all_iff dest: name_char_not_special)
  moreover have "c \<noteq> CHR ''+''" "c \<noteq> CHR ''-''"
    using all s by (auto dest: name_char_not_special)
  moreover have "parse_base0 (c # cs) = None"
    using name_start_no_digit [OF c] by (auto simp: parse_base0_def)
  ultimately show ?thesis by (simp add: py_int0_def parse_signed_def s)
qed

lemma atom_op_free:
  assumes "atom_ok ps a"
  shows "op_free (atom_text a)" "op_free (CHR '' '' # atom_text a)"
    "op_free (atom_text a @ '' '')" "op_free (CHR '' '' # atom_text a @ '' '')"
  using atom_text_chars [OF assms] by (auto simp: op_free_def dest: name_char_not_special)

lemma strip_spaces:
  assumes "s \<noteq> []" and "\<And>c. c \<in> set s \<Longrightarrow> name_char c"
  shows "strip py_isspace s = s" "strip py_isspace (CHR '' '' # s) = s"
    "strip py_isspace (s @ '' '') = s" "strip py_isspace (CHR '' '' # s @ '' '') = s"
proof -
  have sp: "py_isspace CHR '' ''" by (simp add: py_isspace_def c_isspace_def)
  have e: "\<not> py_isspace (hd s)" "\<not> py_isspace (last s)"
    using name_char_not_special(3) [OF assms(2) [OF hd_in_set [OF assms(1)]]]
      name_char_not_special(3) [OF assms(2) [OF last_in_set [OF assms(1)]]] by simp_all
  then have d: "dropWhile py_isspace s = s" "dropWhile py_isspace (rev s) = rev s"
    "dropWhile py_isspace (s @ '' '') = s @ '' ''"
    using assms(1) by (auto simp: dropWhile_eq_self_iff hd_rev hd_append)
  show "strip py_isspace s = s" "strip py_isspace (CHR '' '' # s) = s"
    "strip py_isspace (s @ '' '') = s" "strip py_isspace (CHR '' '' # s @ '' '') = s"
    by (simp_all add: strip_def d sp)
qed

lemma expand_one_atom:
  assumes "atom_ok ps a"
  shows "expand_one ps (atom_text a) = Inr (the (atom_value ps a))"
proof (cases a)
  case (Lit n)
  have "py_int0 (show_nat n) = Some (int n)"
    using py_int0_show [of "int n"] by (simp add: show_int_def)
  with Lit show ?thesis by (simp add: expand_one_def)
next
  case (Ref s)
  with assms have s: "py_int0 s = None" by (simp add: py_int0_symbol)
  from assms Ref obtain p where p: "map_of ps s = Some p" "is_LocalParam p" "py_int0 (p_value p) \<noteq> None"
    by (auto split: option.splits if_splits)
  then show ?thesis using Ref s by (cases p) (auto simp: expand_one_def)
qed

text \<open>The tail of an expression: every piece after an operator is an atom between spaces.\<close>

lemma split_ops_rest:
  assumes "\<forall>(neg, a) \<in> set r. atom_ok ps a" and "op_free pre"
  shows "\<exists>pieces. split_ops (pre @ concat (map (\<lambda>(neg, a).
            [CHR '' '', if neg then CHR ''-'' else CHR ''+'', CHR '' ''] @ atom_text a) r))
          = ((if r = [] then pre else pre @ '' ''), pieces) \<and>
        foldR (expand_term ps) acc pieces =
          Inr (acc + (\<Sum>(neg, a) \<leftarrow> r. if neg then - the (atom_value ps a) else the (atom_value ps a)))"
  using assms
proof (induction r arbitrary: pre acc)
  case Nil
  then show ?case by (auto simp: split_ops_free)
next
  case (Cons x r)
  obtain neg a where x: "x = (neg, a)" by (cases x)
  with Cons.prems have ok: "atom_ok ps a" and r: "\<forall>(neg, a) \<in> set r. atom_ok ps a" by auto
  let ?v = "the (atom_value ps a)"
  let ?op = "if neg then CHR ''-'' else CHR ''+''"
  from Cons.IH [OF r atom_op_free(2) [OF ok], of "acc + (if neg then - ?v else ?v)"]
  obtain pieces where p: "split_ops ((CHR '' '' # atom_text a) @ concat (map (\<lambda>(neg, a).
            [CHR '' '', if neg then CHR ''-'' else CHR ''+'', CHR '' ''] @ atom_text a) r))
          = ((if r = [] then CHR '' '' # atom_text a else (CHR '' '' # atom_text a) @ '' ''), pieces)"
    and f: "foldR (expand_term ps) (acc + (if neg then - ?v else ?v)) pieces =
          Inr (acc + (if neg then - ?v else ?v) +
            (\<Sum>(neg, a) \<leftarrow> r. if neg then - the (atom_value ps a) else the (atom_value ps a)))"
    by blast
  have pre: "op_free (pre @ '' '')" using Cons.prems(2) by (auto simp: op_free_def)
  have op: "?op = CHR ''+'' \<or> ?op = CHR ''-''" by simp
  have et: "expand_term ps acc (?op, CHR '' '' # atom_text a) = Inr (acc + (if neg then - ?v else ?v))"
    "expand_term ps acc (?op, CHR '' '' # atom_text a @ '' '') = Inr (acc + (if neg then - ?v else ?v))"
    by (simp_all add: expand_term_def strip_spaces [OF atom_text_nonempty [OF ok] atom_text_chars [OF ok]]
        expand_one_atom [OF ok])
  show ?case
    using split_ops_op [OF pre op, of "(CHR '' '' # atom_text a) @ concat (map (\<lambda>(neg, a).
            [CHR '' '', if neg then CHR ''-'' else CHR ''+'', CHR '' ''] @ atom_text a) r)"] p f et
    by (auto simp: x split: if_splits)
qed

lemma expand_expr_text:
  assumes "expr_ok ps e"
  shows "expand ps (expr_text e) = Inr (expr_value ps e)"
proof -
  have a: "atom_ok ps (fst e)" and r: "\<forall>(neg, a) \<in> set (snd e). atom_ok ps a"
    using assms by (simp_all add: expr_ok_def)
  note strips = strip_spaces [OF atom_text_nonempty [OF a] atom_text_chars [OF a]]
  from split_ops_rest [OF r atom_op_free(1) [OF a], of "the (atom_value ps (fst e))"]
  show ?thesis
    by (auto simp: expand_def expr_text_def expr_value_def strips expand_one_atom [OF a]
        atom_text_nonempty [OF a])
qed

section \<open>Default values do not reach the expansion\<close>

text \<open>All an expansion can see of a parameter.\<close>

definition expansion_view :: "param \<Rightarrow> int res option" where
  "expansion_view p = (if is_LocalParam p then Some (expand_value p) else None)"

definition same_expansion :: "params \<Rightarrow> params \<Rightarrow> bool" where
  "same_expansion ps qs \<longleftrightarrow>
     (\<forall>k. map_option expansion_view (map_of ps k) = map_option expansion_view (map_of qs k))"

lemma same_expansion_one:
  assumes "same_expansion ps qs"
  shows "expand_one ps v = expand_one qs v"
proof -
  from assms have "map_option expansion_view (map_of ps v) = map_option expansion_view (map_of qs v)"
    by (simp add: same_expansion_def)
  then show ?thesis
    by (cases "map_of ps v"; cases "map_of qs v")
       (auto simp: expand_one_def expansion_view_def split: option.splits if_splits)
qed

lemma same_expansion_expand:
  assumes "same_expansion ps qs"
  shows "expand ps v = expand qs v"
proof -
  have one: "expand_one ps = expand_one qs"
    using same_expansion_one [OF assms] by (rule ext)
  then have "expand_term ps = expand_term qs" by (simp add: expand_term_def [abs_def])
  with one show ?thesis by (simp only: expand_def)
qed

lemma apply_default_view: "apply_default p v = Inr p' \<Longrightarrow> expansion_view p' = expansion_view p"
  by (cases p) (auto simp: expansion_view_def)

lemma apply_defaults_same: "apply_defaults ps ds = Inr ps' \<Longrightarrow> same_expansion ps ps'"
proof (induction ds arbitrary: ps)
  case Nil
  then show ?case by (simp add: apply_defaults_def same_expansion_def)
next
  case (Cons d ds)
  obtain key v where d: "d = (key, v)" by (cases d)
  from Cons.prems obtain p p' where p: "map_of ps key = Some p" "apply_default p v = Inr p'"
    and rest: "apply_defaults (AList.update key p' ps) ds = Inr ps'"
    by (auto simp: apply_defaults_def d split: option.splits)
  have "same_expansion (AList.update key p' ps) ps'" using rest by (rule Cons.IH)
  then have "map_option expansion_view (map_of (AList.update key p' ps) k) =
      map_option expansion_view (map_of ps' k)" for k
    by (simp only: same_expansion_def)
  moreover have "map_option expansion_view (map_of (AList.update key p' ps) k) =
      map_option expansion_view (map_of ps k)" for k
    using p(1) apply_default_view [OF p(2)] by (simp add: update_conv')
  ultimately show ?case by (simp add: same_expansion_def)
qed

end
