(* ===== verification/Reggen_Bits.thy ===== *)
theory Reggen_Bits
  imports Reggen_Params
begin

text \<open>\<open>reggen/bits.py\<close>: bit ranges, their masks, and their textual form.\<close>

record bits =
  b_msb :: int
  b_lsb :: int

definition Bits :: "int \<Rightarrow> int \<Rightarrow> bits res" where
  "Bits msb lsb =
     bnd (py_assert (0 \<le> lsb \<and> lsb \<le> msb)) (\<lambda>_. Inr \<lparr>b_msb = msb, b_lsb = lsb\<rparr>)"

definition bitmask :: "bits \<Rightarrow> int" where
  "bitmask b = push_bit (nat (b_msb b + 1)) 1 - push_bit (nat (b_lsb b)) 1"

definition bits_width :: "bits \<Rightarrow> int" where
  "bits_width b = 1 + b_msb b - b_lsb b"

definition max_value :: "bits \<Rightarrow> int" where
  "max_value b = push_bit (nat (bits_width b)) 1 - 1"

definition extract_field :: "bits \<Rightarrow> int \<Rightarrow> int" where
  "extract_field b reg_val = drop_bit (nat (b_lsb b)) (reg_val AND bitmask b)"

definition bits_parse_str :: "params \<Rightarrow> string \<Rightarrow> (int \<times> int) res" where
  "bits_parse_str params str_val =
     (case py_int str_val of
        Some idx \<Rightarrow> Inr (idx, idx)
      | None \<Rightarrow>
          (case str_split CHR '':'' str_val of
             [p, q] \<Rightarrow>
               bnd (expand params p) (\<lambda>msb.
               bnd (expand params q) (\<lambda>lsb. Inr (msb, lsb)))
           | _ \<Rightarrow> Inl (RegError (BadBitsFormat str_val))))"

definition bits_from_raw :: "int \<Rightarrow> params \<Rightarrow> pyobj \<Rightarrow> bits res" where
  "bits_from_raw reg_width params raw =
     bnd (case raw of
            PInt i \<Rightarrow> Inr (i, i)
          | PBool b \<Rightarrow> Inr (of_bool b, of_bool b)
          | _ \<Rightarrow> bnd (check_str raw) (bits_parse_str params)) (\<lambda>(msb, lsb).
     if msb < lsb then Inl (RegError (MsbBelowLsb msb lsb))
     else if lsb < 0 then Inl (RegError (LsbNegative lsb))
     else if reg_width \<le> msb then Inl (RegError (MsbTooLarge msb reg_width))
     else Bits msb lsb)"

definition make_translated :: "int \<Rightarrow> bits \<Rightarrow> bits res" where
  "make_translated bit_offset b =
     bnd (py_assert (0 \<le> bit_offset)) (\<lambda>_. Bits (b_msb b + bit_offset) (b_lsb b + bit_offset))"

definition bits_as_str :: "bits \<Rightarrow> string" where
  "bits_as_str b =
     (if b_lsb b = b_msb b then show_int (b_lsb b)
      else show_int (b_msb b) @ '':'' @ show_int (b_lsb b))"

section \<open>Masks and extraction\<close>

definition wf_bits :: "bits \<Rightarrow> bool" where
  "wf_bits b \<longleftrightarrow> 0 \<le> b_lsb b \<and> b_lsb b \<le> b_msb b"

lemma Bits_Inr: "Bits msb lsb = Inr b \<longleftrightarrow> b_msb b = msb \<and> b_lsb b = lsb \<and> wf_bits b"
  by (cases b) (auto simp: Bits_def wf_bits_def)

lemma bits_width_pos: "wf_bits b \<Longrightarrow> 1 \<le> bits_width b"
  by (simp add: wf_bits_def bits_width_def)

lemma bitmask_eq:
  assumes "wf_bits b"
  shows "bitmask b = push_bit (nat (b_lsb b)) (mask (nat (bits_width b)))"
proof -
  have "nat (b_msb b + 1) = nat (b_lsb b) + nat (bits_width b)"
    using assms by (auto simp: wf_bits_def bits_width_def nat_add_distrib [symmetric])
  then show ?thesis
    by (simp add: bitmask_def push_bit_eq_mult mask_eq_exp_minus_1 power_add algebra_simps)
qed

lemma bit_bitmask: "wf_bits b \<Longrightarrow> bit (bitmask b) n \<longleftrightarrow> b_lsb b \<le> int n \<and> int n \<le> b_msb b"
  by (auto simp: bitmask_eq bit_push_bit_iff bit_mask_iff wf_bits_def bits_width_def)

lemma bitmask_nonneg: "wf_bits b \<Longrightarrow> 0 \<le> bitmask b"
  by (simp add: bitmask_eq)

lemma bitmask_disjoint:
  assumes "wf_bits b" and "wf_bits c"
  shows "bitmask b AND bitmask c = 0 \<longleftrightarrow> b_msb b < b_lsb c \<or> b_msb c < b_lsb b"
proof
  assume dis: "b_msb b < b_lsb c \<or> b_msb c < b_lsb b"
  show "bitmask b AND bitmask c = 0"
    by (rule bit_eqI) (use dis in \<open>auto simp: bit_and_iff bit_bitmask assms\<close>)
next
  assume zero: "bitmask b AND bitmask c = 0"
  show "b_msb b < b_lsb c \<or> b_msb c < b_lsb b"
  proof (rule ccontr)
    assume over: "\<not> ?thesis"
    let ?n = "nat (max (b_lsb b) (b_lsb c))"
    have "bit (bitmask b AND bitmask c) ?n"
      using assms over by (auto simp: bit_and_iff bit_bitmask wf_bits_def)
    with zero show False by simp
  qed
qed

lemma max_value_eq: "wf_bits b \<Longrightarrow> max_value b = 2 ^ nat (bits_width b) - 1"
  by (simp add: max_value_def push_bit_eq_mult)

lemma extract_field_eq:
  assumes "wf_bits b"
  shows "extract_field b v = v div 2 ^ nat (b_lsb b) mod 2 ^ nat (bits_width b)"
proof -
  have "extract_field b v = drop_bit (nat (b_lsb b)) v AND mask (nat (bits_width b))"
    using assms by (simp add: extract_field_def bitmask_eq drop_bit_and drop_bit_push_bit)
  then show ?thesis
    by (simp add: take_bit_eq_mask [symmetric] take_bit_eq_mod drop_bit_eq_div)
qed

lemma extract_field_range: "wf_bits b \<Longrightarrow> 0 \<le> extract_field b v \<and> extract_field b v \<le> max_value b"
  by (simp add: extract_field_eq max_value_eq zle_diff1_eq)

lemma extract_field_shift:
  assumes "wf_bits b" and "0 \<le> v" and "v \<le> max_value b"
  shows "extract_field b (push_bit (nat (b_lsb b)) v) = v"
  using assms by (simp add: extract_field_eq max_value_eq push_bit_eq_mult zle_diff1_eq)

section \<open>Parsing a bit range\<close>

lemma raises_expand_one [raises_intros]: "raises is_value_error (expand_one ps v)"
  unfolding expand_one_def
  by (intro raises_intros) (auto simp: raises_def is_LocalParam_def split: option.splits)

lemma raises_foldR_expand: "raises is_value_error (foldR (expand_term ps) acc ts)"
proof (induction ts arbitrary: acc)
  case (Cons t ts)
  then show ?case
    by (cases t) (auto simp: expand_term_def intro!: raises_intros)
qed (simp add: raises_Inr)

lemma raises_expand [raises_intros]: "raises is_value_error (expand ps v)"
  unfolding expand_def
  by (cases "split_ops v") (auto intro!: raises_intros raises_foldR_expand)

lemma raises_bits_parse_str [raises_intros]: "raises is_value_error (bits_parse_str ps s)"
  unfolding bits_parse_str_def
  by (auto intro!: raises_intros split: option.splits list.splits)

lemma raises_bits_from_raw [raises_intros]: "raises is_value_error (bits_from_raw w ps raw)"
  unfolding bits_from_raw_def Bits_def
  by (auto intro!: raises_intros split: pyobj.splits prod.splits)

lemma bits_from_raw_wf:
  assumes "bits_from_raw w ps raw = Inr b"
  shows "wf_bits b" "b_msb b < w"
  using assms by (auto simp: bits_from_raw_def Bits_Inr split: if_splits)

lemma parse_digits_chars:
  "parse_digits b need acc s = Some n \<Longrightarrow> c \<in> set s \<Longrightarrow> is_alnum c \<or> c = CHR ''_''"
proof (induction b need acc s rule: parse_digits.induct)
  case (2 b need acc d cs)
  then show ?case
    by (auto simp: digit_val_def is_alnum_def split: if_splits)
qed simp

lemma py_int_range_text: "0 \<le> i \<Longrightarrow> 0 \<le> j \<Longrightarrow> py_int (show_int i @ '':'' @ show_int j) = None"
proof -
  assume ij: "0 \<le> i" "0 \<le> j"
  let ?s = "show_nat (nat i) @ '':'' @ show_nat (nat j)"
  have "strip c_isspace ?s = ?s"
    by (rule strip_id) (auto simp: digit_not_space dest: show_nat_digits, simp add: c_isspace_def)
  moreover have "hd ?s \<noteq> CHR ''-''" "hd ?s \<noteq> CHR ''+''"
    using show_nat_digits [of "hd (show_nat (nat i))" "nat i"] by (auto dest: digit_not_special)
  moreover have "parse_digits 10 True 0 ?s = None"
  proof (cases "parse_digits 10 True 0 ?s")
    case (Some n)
    then have "is_alnum CHR '':'' \<or> CHR '':'' = CHR ''_''"
      by (rule parse_digits_chars) simp
    then show ?thesis by (simp add: char_class_defs)
  qed simp
  ultimately show ?thesis
    using ij by (simp add: py_int_def parse_signed_def show_int_def)
qed

lemma expand_show_int: "0 \<le> i \<Longrightarrow> expand ps (show_int i) = Inr i"
  using expand_expr_text [of ps "(Lit (nat i), [])"]
  by (simp add: expr_ok_def expr_text_def expr_value_def show_int_def)

lemma bits_round_trip:
  assumes "wf_bits b" and "b_msb b < w"
  shows "bits_from_raw w ps (PStr (bits_as_str b)) = Inr b"
proof -
  have nn: "0 \<le> b_lsb b" "0 \<le> b_msb b" using assms by (auto simp: wf_bits_def)
  have "CHR '':'' \<notin> set (show_int i)" for i
    using show_int_chars [of "CHR '':''" i] by (auto simp: is_digit_def)
  then have "str_split CHR '':'' (show_int (b_msb b) @ '':'' @ show_int (b_lsb b)) =
      [show_int (b_msb b), show_int (b_lsb b)]"
    using nn by (simp add: str_split_Cons str_split_none)
  then have "bits_parse_str ps (bits_as_str b) = Inr (b_msb b, b_lsb b)"
    using nn by (simp add: bits_parse_str_def bits_as_str_def py_int_show py_int_range_text
        [simplified] expand_show_int)
  then show ?thesis
    using assms by (cases b) (simp add: bits_from_raw_def Bits_def wf_bits_def check_str_def)
qed

end
