(* ===== verification/Reggen_Field.thy ===== *)
theory Reggen_Field
  imports Reggen_Access Reggen_Bits
begin

text \<open>
  \<open>reggen/enum_entry.py\<close> and \<open>reggen/field.py\<close>: the fields of a register, parsed from a raw
  dictionary, replicated for a multi-register, counted and printed.
\<close>

section \<open>Enumeration entries\<close>

record enum_entry =
  e_name :: string
  e_desc :: string
  e_value :: int

definition enum_required :: "string list" where
  "enum_required = [''name'', ''desc'', ''value'']"

definition EnumEntry :: "int \<Rightarrow> pyobj \<Rightarrow> enum_entry res" where
  "EnumEntry max_val raw =
     bnd (check_keys raw enum_required []) (\<lambda>rd.
     bnd (bnd (dindex rd ''name'') check_str) (\<lambda>name.
     bnd (bnd (dindex rd ''desc'') check_str) (\<lambda>desc.
     bnd (bnd (dindex rd ''value'') check_int) (\<lambda>v.
     if \<not> (0 \<le> v \<and> v \<le> max_val) then Inl (RegError (EnumValueRange v max_val))
     else Inr \<lparr>e_name = name, e_desc = desc, e_value = v\<rparr>))))"

definition enum_as_dict :: "enum_entry \<Rightarrow> pydict" where
  "enum_as_dict e =
     [(''name'', PStr (e_name e)), (''desc'', PStr (e_desc e)),
      (''value'', PStr (show_int (e_value e)))]"

section \<open>Fields\<close>

record field =
  f_name :: string
  f_desc :: "string option"
  f_tags :: "string list"
  f_swaccess :: swaccess
  f_hwaccess :: hwaccess
  f_hwqe :: bool
  f_hwre :: bool
  f_bits :: bits
  f_resval :: "int option"
  f_enum :: "enum_entry list option"

definition field_required :: "string list" where
  "field_required = [''bits'']"

definition field_optional :: "string list" where
  "field_optional =
     [''name'', ''desc'', ''swaccess'', ''hwaccess'', ''resval'', ''enum'', ''tags'']"

subsection \<open>Parsing\<close>

definition field_parse_name :: "string \<Rightarrow> nat \<Rightarrow> nat \<Rightarrow> pyobj \<Rightarrow> string res" where
  "field_parse_name reg_name field_idx num_fields raw_name =
     (if raw_name = PNone then
        Inr (if 1 < num_fields then ''field'' @ show_nat (field_idx + 1) else reg_name)
      else check_name raw_name)"

definition field_parse_desc :: "pyobj \<Rightarrow> pyobj \<Rightarrow> string option res" where
  "field_parse_desc raw_name raw_desc =
     (if raw_desc = PNone \<and> raw_name \<noteq> PNone then Inl (RegError NamedWithoutDesc)
      else if raw_desc = PNone then Inr None
      else bnd (check_str raw_desc) (\<lambda>d. Inr (Some d)))"

text \<open>
  The reset value of a field: its own, checked against the field's width and against the
  register's value, or else the bits it takes of the register's value. \<open>None\<close> is "x".
\<close>

definition field_parse_resval :: "bits \<Rightarrow> int option \<Rightarrow> pyobj \<Rightarrow> int option res" where
  "field_parse_resval b reg_resval raw_resval =
     (if raw_resval = PNone then
        Inr (case reg_resval of None \<Rightarrow> None | Some v \<Rightarrow> Some (extract_field b v))
      else bnd (check_xint raw_resval) (\<lambda>resval.
        case resval of
          None \<Rightarrow> if reg_resval \<noteq> None then Inl (RegError XResvalInReg) else Inr None
        | Some v \<Rightarrow>
            if \<not> (0 \<le> v \<and> v \<le> max_value b) then Inl (RegError (ResvalRange v (bits_width b)))
            else (case reg_resval of
                    None \<Rightarrow> Inr (Some v)
                  | Some r \<Rightarrow>
                      if v \<noteq> extract_field b r
                      then Inl (RegError (ResvalMismatch v (b_msb b) (b_lsb b) (extract_field b r)))
                      else Inr (Some v))))"

definition enum_step ::
  "int \<Rightarrow> enum_entry list \<times> (int \<times> string) list \<Rightarrow> pyobj \<Rightarrow>
     (enum_entry list \<times> (int \<times> string) list) res" where
  "enum_step max_val s raw_entry =
     (case s of (enum, enum_val_to_name) \<Rightarrow>
     bnd (EnumEntry max_val raw_entry) (\<lambda>entry.
     case map_of enum_val_to_name (e_value entry) of
       Some other \<Rightarrow> Inl (RegError (DuplicateEnumValue (e_value entry) other (e_name entry)))
     | None \<Rightarrow> Inr (enum @ [entry], AList.update (e_value entry) (e_name entry) enum_val_to_name)))"

definition field_parse_enum :: "bits \<Rightarrow> pyobj \<Rightarrow> enum_entry list option res" where
  "field_parse_enum b raw_enum =
     (if raw_enum = PNone then Inr None
      else bnd (check_list raw_enum) (\<lambda>raw_entries.
           bnd (foldR (enum_step (max_value b)) ([], []) raw_entries) (\<lambda>s. Inr (Some (fst s)))))"

definition field_from_raw ::
  "string \<Rightarrow> nat \<Rightarrow> nat \<Rightarrow> swaccess \<Rightarrow> hwaccess \<Rightarrow> int option \<Rightarrow> int \<Rightarrow> bool \<Rightarrow> bool \<Rightarrow> params \<Rightarrow>
     pyobj \<Rightarrow> field res" where
  "field_from_raw reg_name field_idx num_fields default_swaccess default_hwaccess reg_resval
       reg_width reg_hwqe reg_hwre params raw =
     bnd (check_keys raw field_required field_optional) (\<lambda>rd.
     bnd (field_parse_name reg_name field_idx num_fields (dget rd ''name'')) (\<lambda>name.
     bnd (field_parse_desc (dget rd ''name'') (dget rd ''desc'')) (\<lambda>desc.
     bnd (check_str_list (dget_or rd ''tags'' (PList []))) (\<lambda>tags.
     bnd (if dget rd ''swaccess'' \<noteq> PNone then SWAccess (dget rd ''swaccess'')
          else Inr default_swaccess) (\<lambda>swaccess.
     bnd (if dget rd ''hwaccess'' \<noteq> PNone then HWAccess (dget rd ''hwaccess'')
          else Inr default_hwaccess) (\<lambda>hwaccess.
     bnd (bnd (dindex rd ''bits'') (bits_from_raw reg_width params)) (\<lambda>b.
     bnd (field_parse_resval b reg_resval (dget rd ''resval'')) (\<lambda>resval.
     bnd (field_parse_enum b (dget rd ''enum'')) (\<lambda>enum.
     Inr \<lparr>f_name = name, f_desc = desc, f_tags = tags, f_swaccess = swaccess,
          f_hwaccess = hwaccess, f_hwqe = reg_hwqe, f_hwre = reg_hwre, f_bits = b,
          f_resval = resval, f_enum = enum\<rparr>)))))))))"

subsection \<open>Queries\<close>

definition has_incomplete_enum :: "field \<Rightarrow> bool" where
  "has_incomplete_enum f =
     (case f_enum f of None \<Rightarrow> False | Some es \<Rightarrow> int (length es) \<noteq> 1 + max_value (f_bits f))"

definition field_get_n_bits :: "bool \<Rightarrow> string list \<Rightarrow> field \<Rightarrow> int" where
  "field_get_n_bits hwext bittype f =
     (if ''q'' \<in> set bittype \<and> hw_allows_read (f_hwaccess f) then bits_width (f_bits f) else 0) +
     (if ''d'' \<in> set bittype \<and> hw_allows_write (f_hwaccess f) then bits_width (f_bits f) else 0) +
     (if ''qe'' \<in> set bittype \<and> hw_allows_read (f_hwaccess f) then of_bool (f_hwqe f) else 0) +
     (if ''re'' \<in> set bittype \<and> hw_allows_read (f_hwaccess f) then of_bool (f_hwre f) else 0) +
     (if ''de'' \<in> set bittype \<and> hw_allows_write (f_hwaccess f) then of_bool (\<not> hwext) else 0)"

subsection \<open>Copies for a multi-register\<close>

definition copy_desc :: "string \<Rightarrow> int \<Rightarrow> bool \<Rightarrow> field \<Rightarrow> string option" where
  "copy_desc cname creg_idx stripped f =
     (if stripped then Some (''For '' @ cname @ show_int creg_idx) else f_desc f)"

definition copy_enum :: "bool \<Rightarrow> field \<Rightarrow> enum_entry list option" where
  "copy_enum stripped f = (if stripped then None else f_enum f)"

definition field_make_multi ::
  "int \<Rightarrow> int \<Rightarrow> int \<Rightarrow> string \<Rightarrow> int \<Rightarrow> bool \<Rightarrow> field \<Rightarrow> field list res" where
  "field_make_multi reg_width min_reg_idx max_reg_idx cname creg_idx stripped f =
     bnd (py_assert (0 \<le> min_reg_idx \<and> min_reg_idx \<le> max_reg_idx)) (\<lambda>_.
     let num_copies = 1 + max_reg_idx - min_reg_idx;
         field_width = b_msb (f_bits f) + 1
     in if reg_width < field_width * num_copies
        then Inl (RegError (CannotReplicate (f_name f) num_copies (field_width * num_copies) reg_width))
        else mapR (\<lambda>reg_idx.
               let bit_offset = field_width * (reg_idx - min_reg_idx)
               in bnd (if bit_offset = 0 then Inr (f_bits f)
                       else make_translated bit_offset (f_bits f)) (\<lambda>b.
                  Inr (f\<lparr>f_name := f_name f @ ''_'' @ show_int reg_idx,
                         f_desc := copy_desc cname creg_idx stripped f,
                         f_bits := b,
                         f_enum := copy_enum stripped f\<rparr>)))
             [min_reg_idx .. max_reg_idx])"

definition field_make_suffixed :: "string \<Rightarrow> string \<Rightarrow> int \<Rightarrow> bool \<Rightarrow> field \<Rightarrow> field" where
  "field_make_suffixed sfx cname creg_idx stripped f =
     f\<lparr>f_name := f_name f @ sfx,
       f_desc := copy_desc cname creg_idx stripped f,
       f_enum := copy_enum stripped f\<rparr>"

subsection \<open>Printing\<close>

definition field_as_dict :: "field \<Rightarrow> pydict" where
  "field_as_dict f =
     [(''bits'', PStr (bits_as_str (f_bits f))),
      (''name'', PStr (f_name f)),
      (''swaccess'', PStr (sw_key (f_swaccess f))),
      (''hwaccess'', PStr (hw_key (f_hwaccess f))),
      (''resval'', PStr (case f_resval f of None \<Rightarrow> ''x'' | Some v \<Rightarrow> show_int v)),
      (''tags'', PList (map PStr (f_tags f)))] @
     (case f_desc f of None \<Rightarrow> [] | Some d \<Rightarrow> [(''desc'', PStr d)]) @
     (case f_enum f of None \<Rightarrow> []
      | Some es \<Rightarrow> [(''enum'', PList (map (\<lambda>e. obj_of_dict (enum_as_dict e)) es))])"

section \<open>Well-formed fields\<close>

lemma enum_keys_distinct: "distinct (enum_required @ [])"
  by (simp add: enum_required_def)

lemma field_keys_distinct: "distinct (field_required @ field_optional)"
  by (simp add: field_required_def field_optional_def)

lemma raises_EnumEntry [raises_intros]: "raises is_value_error (EnumEntry m raw)"
  unfolding EnumEntry_def
  by (intro raises_intros enum_keys_distinct)
     (simp_all add: check_keys_has enum_required_def)

lemma EnumEntry_range: "EnumEntry m raw = Inr e \<Longrightarrow> 0 \<le> e_value e \<and> e_value e \<le> m"
  by (auto simp: EnumEntry_def split: if_splits)

text \<open>The entries read so far are in range and distinct, and the index holds their values.\<close>

definition wf_enum :: "int \<Rightarrow> enum_entry list \<Rightarrow> bool" where
  "wf_enum m es \<longleftrightarrow> distinct (map e_value es) \<and> (\<forall>e \<in> set es. 0 \<le> e_value e \<and> e_value e \<le> m)"

definition enum_inv :: "int \<Rightarrow> enum_entry list \<times> (int \<times> string) list \<Rightarrow> bool" where
  "enum_inv m s \<longleftrightarrow> wf_enum m (fst s) \<and> fst ` set (snd s) = e_value ` set (fst s)"

lemma enum_step_inv:
  assumes "enum_inv m s" and "enum_step m s x = Inr s'"
  shows "enum_inv m s'"
proof -
  obtain es d where s: "s = (es, d)" by (cases s)
  from assms(2) obtain e where e: "EnumEntry m x = Inr e" and new: "map_of d (e_value e) = None"
    and s': "s' = (es @ [e], AList.update (e_value e) (e_name e) d)"
    by (auto simp: enum_step_def s split: option.splits)
  have "e_value e \<notin> e_value ` set es"
    using new assms(1) by (auto simp: enum_inv_def s map_of_eq_None_iff)
  then show ?thesis
    using assms(1) EnumEntry_range [OF e] by (auto simp: enum_inv_def wf_enum_def s s' dom_update)
qed

interpretation enum_loop: invariant_step "enum_step m" "enum_inv m" for m
  by unfold_locales (rule enum_step_inv)

lemma enum_inv_init: "enum_inv m ([], [])"
  by (simp add: enum_inv_def wf_enum_def)

lemma field_parse_enum_wf: "field_parse_enum b raw = Inr (Some es) \<Longrightarrow> wf_enum (max_value b) es"
  using enum_loop.fold_inv [OF enum_inv_init]
  by (fastforce simp: field_parse_enum_def enum_inv_def split: if_splits)

definition wf_field :: "field \<Rightarrow> bool" where
  "wf_field f \<longleftrightarrow> wf_bits (f_bits f) \<and> wf_swaccess (f_swaccess f) \<and> wf_hwaccess (f_hwaccess f) \<and>
     (\<forall>v. f_resval f = Some v \<longrightarrow> 0 \<le> v \<and> v \<le> max_value (f_bits f)) \<and>
     (\<forall>es. f_enum f = Some es \<longrightarrow> wf_enum (max_value (f_bits f)) es)"

lemma field_parse_resval_range:
  assumes "field_parse_resval b r raw = Inr (Some v)" and "wf_bits b"
  shows "0 \<le> v \<and> v \<le> max_value b"
  using assms extract_field_range [OF assms(2)]
  by (auto simp: field_parse_resval_def split: if_splits option.splits)

lemma field_from_raw_wf:
  assumes "field_from_raw rn i n sw hw rv w hwqe hwre ps raw = Inr f"
    and "wf_swaccess sw" and "wf_hwaccess hw"
  shows "wf_field f" and "b_msb (f_bits f) < w" and "f_hwqe f = hwqe" and "f_hwre f = hwre"
proof -
  from assms obtain rb rr re where
    bits: "bits_from_raw w ps rb = Inr (f_bits f)"
    and resval: "field_parse_resval (f_bits f) rv rr = Inr (f_resval f)"
    and enum: "field_parse_enum (f_bits f) re = Inr (f_enum f)"
    and acc: "wf_swaccess (f_swaccess f)" "wf_hwaccess (f_hwaccess f)"
    and flags: "f_hwqe f = hwqe" "f_hwre f = hwre"
    by (auto simp: field_from_raw_def SWAccess_Inr HWAccess_Inr split: if_splits)
  show "wf_field f"
    unfolding wf_field_def
    using acc bits_from_raw_wf [OF bits] field_parse_resval_range [of "f_bits f" rv rr]
      field_parse_enum_wf [of "f_bits f" re] resval enum by auto
  show "b_msb (f_bits f) < w" using bits by (rule bits_from_raw_wf)
  show "f_hwqe f = hwqe" "f_hwre f = hwre" by (fact flags)+
qed

lemma raises_enum_step: "raises is_value_error (enum_step m s x)"
  by (cases s) (auto simp: enum_step_def intro!: raises_intros)

lemma raises_field_from_raw [raises_intros]:
  "raises is_value_error (field_from_raw rn i n sw hw rv w hwqe hwre ps raw)"
  unfolding field_from_raw_def field_parse_name_def field_parse_desc_def field_parse_resval_def
    field_parse_enum_def
  by (intro raises_intros field_keys_distinct enum_loop.fold_raises enum_inv_init raises_enum_step)
     (simp_all add: check_keys_has field_required_def)

text \<open>An enumeration is complete exactly when every value the field can hold has an entry.\<close>

lemma enum_complete:
  assumes "wf_field f" and "f_enum f = Some es"
  shows "\<not> has_incomplete_enum f \<longleftrightarrow>
    (\<forall>v. 0 \<le> v \<and> v \<le> max_value (f_bits f) \<longrightarrow> (\<exists>e \<in> set es. e_value e = v))"
proof -
  let ?m = "max_value (f_bits f)"
  from assms have es: "distinct (map e_value es)" "e_value ` set es \<subseteq> {0..?m}" and "0 \<le> ?m"
    by (auto simp: wf_field_def wf_enum_def max_value_eq)
  then have card: "card (e_value ` set es) = length es" "card {0..?m} = nat (1 + ?m)"
    using distinct_card [OF es(1)] by simp_all
  have "\<not> has_incomplete_enum f \<longleftrightarrow> card (e_value ` set es) = card {0..?m}"
    using \<open>0 \<le> ?m\<close> assms(2) card by (auto simp: has_incomplete_enum_def)
  also have "\<dots> \<longleftrightarrow> {0..?m} \<subseteq> e_value ` set es"
    using es(2) card_subset_eq [of "{0..?m}" "e_value ` set es"] by (metis finite_atLeastAtMost_int order_refl subset_antisym)
  finally show ?thesis by (auto simp: subset_iff image_iff)
qed

section \<open>Copies\<close>

lemma make_translated_Inr:
  "wf_bits b \<Longrightarrow> 0 \<le> k \<Longrightarrow> make_translated k b = Inr \<lparr>b_msb = b_msb b + k, b_lsb = b_lsb b + k\<rparr>"
  by (simp add: make_translated_def Bits_def wf_bits_def)

text \<open>Copy number \<open>i\<close>, as the loop builds it.\<close>

definition field_copy :: "int \<Rightarrow> string \<Rightarrow> int \<Rightarrow> bool \<Rightarrow> field \<Rightarrow> int \<Rightarrow> field" where
  "field_copy min_reg_idx cname creg_idx stripped f reg_idx =
     f\<lparr>f_name := f_name f @ ''_'' @ show_int reg_idx,
       f_desc := copy_desc cname creg_idx stripped f,
       f_bits := (let k = (b_msb (f_bits f) + 1) * (reg_idx - min_reg_idx)
                  in \<lparr>b_msb = b_msb (f_bits f) + k, b_lsb = b_lsb (f_bits f) + k\<rparr>),
       f_enum := copy_enum stripped f\<rparr>"

lemma field_make_multi_eq:
  assumes "wf_bits (f_bits f)" and "0 \<le> lo" and "lo \<le> hi"
  shows "field_make_multi w lo hi cname ci st f =
    (if w < (b_msb (f_bits f) + 1) * (1 + hi - lo)
     then Inl (RegError (CannotReplicate (f_name f) (1 + hi - lo)
            ((b_msb (f_bits f) + 1) * (1 + hi - lo)) w))
     else Inr (map (field_copy lo cname ci st f) [lo .. hi]))"
proof -
  have m: "0 \<le> b_msb (f_bits f) + 1" using assms(1) by (simp add: wf_bits_def)
  show ?thesis
    using assms m
    by (auto simp: field_make_multi_def Let_def field_copy_def make_translated_Inr intro!: mapR_Inr_map)
qed

lemma field_copy_same_width:
  "bits_width (f_bits (field_copy lo cname ci st f i)) = bits_width (f_bits f)"
  "max_value (f_bits (field_copy lo cname ci st f i)) = max_value (f_bits f)"
  by (simp_all add: field_copy_def Let_def max_value_def bits_width_def)

lemma field_copy_frame:
  "f_resval (field_copy lo cname ci st f i) = f_resval f"
  "f_swaccess (field_copy lo cname ci st f i) = f_swaccess f"
  "f_hwaccess (field_copy lo cname ci st f i) = f_hwaccess f"
  "f_hwqe (field_copy lo cname ci st f i) = f_hwqe f"
  "f_hwre (field_copy lo cname ci st f i) = f_hwre f"
  "f_enum (field_copy lo cname ci st f i) = (if st then None else f_enum f)"
  by (simp_all add: field_copy_def copy_enum_def)

lemma wf_field_copy:
  assumes "wf_field f" and "lo \<le> i"
  shows "wf_field (field_copy lo cname ci st f i)"
proof -
  have "0 \<le> (b_msb (f_bits f) + 1) * (i - lo)"
    using assms by (simp add: wf_field_def wf_bits_def)
  then have "wf_bits (f_bits (field_copy lo cname ci st f i))"
    using assms by (simp add: wf_field_def wf_bits_def field_copy_def Let_def)
  then show ?thesis
    using assms by (auto simp: wf_field_def field_copy_same_width field_copy_frame)
qed

lemma wf_field_suffixed: "wf_field f \<Longrightarrow> wf_field (field_make_suffixed x cname ci st f)"
  by (auto simp: wf_field_def field_make_suffixed_def copy_enum_def split: if_splits)

text \<open>Copy \<open>i\<close> lies in the \<open>i\<close>-th slot of width \<open>msb + 1\<close>.\<close>

lemma field_copy_slot:
  assumes "wf_bits (f_bits f)" and "lo \<le> i"
  shows "(b_msb (f_bits f) + 1) * (i - lo) \<le> b_lsb (f_bits (field_copy lo cname ci st f i))"
    and "b_msb (f_bits (field_copy lo cname ci st f i)) < (b_msb (f_bits f) + 1) * (i - lo + 1)"
  using assms by (simp_all add: field_copy_def Let_def wf_bits_def algebra_simps)

section \<open>Printing a field and parsing it again\<close>

lemma check_str_list_strs: "check_str_list (PList (map PStr ss)) = Inr ss"
proof -
  have "mapR (\<lambda>(idx, elt). case elt of PStr s \<Rightarrow> Inr s
      | _ \<Rightarrow> Inl (LibError (ElementNotAString idx (type_name elt)))) (enumerate n (map PStr ss)) = Inr ss"
    for n by (induction ss arbitrary: n) simp_all
  then show ?thesis by (simp add: check_str_list_def check_list_def)
qed

lemma EnumEntry_round_trip:
  "0 \<le> e_value e \<Longrightarrow> e_value e \<le> m \<Longrightarrow> EnumEntry m (obj_of_dict (enum_as_dict e)) = Inr e"
  by (cases e) (simp add: EnumEntry_def check_keys_obj enum_as_dict_def enum_required_def
      dindex_def check_int_show)

lemma enum_fold_round_trip:
  assumes "enum_inv m (es0, d)" and "wf_enum m (es0 @ es)"
  shows "\<exists>d'. foldR (enum_step m) (es0, d) (map (\<lambda>e. obj_of_dict (enum_as_dict e)) es)
      = Inr (es0 @ es, d')"
  using assms
proof (induction es arbitrary: es0 d)
  case Nil
  then show ?case by simp
next
  case (Cons e es)
  have e: "0 \<le> e_value e" "e_value e \<le> m" "map_of d (e_value e) = None"
    using Cons.prems by (auto simp: wf_enum_def enum_inv_def map_of_eq_None_iff)
  have step: "enum_step m (es0, d) (obj_of_dict (enum_as_dict e)) =
      Inr (es0 @ [e], AList.update (e_value e) (e_name e) d)"
    using e by (simp add: enum_step_def EnumEntry_round_trip)
  have "enum_inv m (es0 @ [e], AList.update (e_value e) (e_name e) d)"
    using Cons.prems(1) step by (rule enum_step_inv)
  then have "\<exists>d'. foldR (enum_step m) (es0 @ [e], AList.update (e_value e) (e_name e) d)
      (map (\<lambda>e. obj_of_dict (enum_as_dict e)) es) = Inr ((es0 @ [e]) @ es, d')"
    using Cons.prems(2) by (intro Cons.IH) simp_all
  then show ?case by (simp add: step)
qed

lemma field_enum_round_trip:
  "wf_enum (max_value b) es \<Longrightarrow>
     field_parse_enum b (PList (map (\<lambda>e. obj_of_dict (enum_as_dict e)) es)) = Inr (Some es)"
  using enum_fold_round_trip [OF enum_inv_init, of "max_value b" es]
  by (auto simp: field_parse_enum_def check_list_def)

text \<open>
  A field that was given a name and a description prints to a dictionary that parses back to
  the same field, whatever the defaults and the position it is parsed at.
\<close>

lemma field_round_trip:
  assumes wf: "wf_field f" and w: "b_msb (f_bits f) < w"
    and name: "check_name (PStr (f_name f)) = Inr (f_name f)" and desc: "f_desc f = Some d"
  shows "field_from_raw rn i n sw hw None w (f_hwqe f) (f_hwre f) ps
      (obj_of_dict (field_as_dict f)) = Inr f"
proof -
  let ?d = "field_as_dict f"
  have keys: "check_keys (obj_of_dict ?d) field_required field_optional = Inr ?d"
    by (auto simp: check_keys_obj field_keys_distinct [simplified] field_as_dict_def
        field_required_def field_optional_def split: option.splits)
  have gets: "dget ?d ''name'' = PStr (f_name f)" "dget ?d ''desc'' = PStr d"
    "dget_or ?d ''tags'' dflt = PList (map PStr (f_tags f))"
    "dget ?d ''swaccess'' = PStr (sw_key (f_swaccess f))"
    "dget ?d ''hwaccess'' = PStr (hw_key (f_hwaccess f))"
    "dindex ?d ''bits'' = Inr (PStr (bits_as_str (f_bits f)))"
    "dget ?d ''resval'' = PStr (case f_resval f of None \<Rightarrow> ''x'' | Some v \<Rightarrow> show_int v)"
    "dget ?d ''enum'' = (case f_enum f of None \<Rightarrow> PNone
        | Some es \<Rightarrow> PList (map (\<lambda>e. obj_of_dict (enum_as_dict e)) es))" for dflt
    by (simp_all add: dget_def dget_or_def dindex_def field_as_dict_def desc split: option.splits)
  have sw: "SWAccess (PStr (sw_key (f_swaccess f))) = Inr (f_swaccess f)"
    and hw: "HWAccess (PStr (hw_key (f_hwaccess f))) = Inr (f_hwaccess f)"
    using wf by (simp_all add: SWAccess_Inr HWAccess_Inr wf_field_def)
  have bits: "bits_from_raw w ps (PStr (bits_as_str (f_bits f))) = Inr (f_bits f)"
    using wf w by (simp add: bits_round_trip wf_field_def)
  have "show_int v \<noteq> ''x''" for v
    using show_int_chars [of "CHR ''x''" v] by (auto simp: is_digit_def)
  then have resval: "field_parse_resval (f_bits f) None
      (PStr (case f_resval f of None \<Rightarrow> ''x'' | Some v \<Rightarrow> show_int v)) = Inr (f_resval f)"
    using wf by (auto simp: field_parse_resval_def check_xint_def py_int0_show wf_field_def
        split: option.splits)
  have enum: "field_parse_enum (f_bits f) (case f_enum f of None \<Rightarrow> PNone
        | Some es \<Rightarrow> PList (map (\<lambda>e. obj_of_dict (enum_as_dict e)) es)) = Inr (f_enum f)"
    using wf by (auto simp: wf_field_def field_enum_round_trip field_parse_enum_def [of _ PNone]
        split: option.split)
  show ?thesis
    by (simp add: field_from_raw_def keys gets sw hw bits resval enum field_parse_name_def name
        field_parse_desc_def check_str_list_strs check_str_def flip: desc)
qed

end
