(* ===== verification/Reggen_Register.thy ===== *)
theory Reggen_Register
  imports Reggen_Field
begin

text \<open>
  \<open>reggen/register.py\<close>: a register, the checks of its constructor, its parser, its queries and
  the numbered, packed copies a multi-register is made of.
\<close>

section \<open>Registers\<close>

record register =
  r_offset :: int
  r_name :: string
  r_desc :: string
  r_swaccess :: swaccess
  r_hwaccess :: hwaccess
  r_hwext :: bool
  r_hwqe :: bool
  r_hwre :: bool
  r_regwen :: "string option"
  r_tags :: "string list"
  r_shadowed :: bool
  r_fields :: "field list"
  r_name_to_field :: "(string \<times> field) list"
  r_resval :: int
  r_resmask :: int
  r_update_err_alert :: "string option"
  r_storage_err_alert :: "string option"

definition register_required :: "string list" where
  "register_required = [''name'', ''desc'', ''fields'']"

definition register_optional :: "string list" where
  "register_optional =
     [''swaccess'', ''hwaccess'', ''hwext'', ''hwqe'', ''hwre'', ''regwen'', ''resval'', ''tags'',
      ''shadowed'', ''update_err_alert'', ''storage_err_alert'']"

definition sw_readable :: "swaccess \<Rightarrow> bool" where
  "sw_readable a \<longleftrightarrow> sw_key a \<notin> set [''wo'', ''r0w1c'']"

definition sw_writable :: "swaccess \<Rightarrow> bool" where
  "sw_writable a \<longleftrightarrow> sw_key a \<noteq> ''ro''"

section \<open>The constructor\<close>

definition ends_with :: "string \<Rightarrow> string \<Rightarrow> bool" where
  "ends_with sfx s \<longleftrightarrow> length sfx \<le> length s \<and> drop (length s - length sfx) s = sfx"

definition check_flags :: "string \<Rightarrow> swaccess \<Rightarrow> hwaccess \<Rightarrow> bool \<Rightarrow> bool \<Rightarrow> bool \<Rightarrow> unit res" where
  "check_flags name swaccess hwaccess hwext hwqe hwre =
     (if hwext \<and> hw_key hwaccess = ''hro'' \<and> sw_readable swaccess
      then Inl (RegError (HwextReadable name (sw_key swaccess)))
      else if hwext \<and> \<not> hwqe \<and> sw_writable swaccess
      then Inl (RegError (HwextNeedsHwqe name (sw_key swaccess)))
      else if hwre \<and> \<not> hwext then Inl (RegError (HwreWithoutHwext name))
      else Inr ())"

definition check_shadowed :: "string \<Rightarrow> bool \<Rightarrow> unit res" where
  "check_shadowed name shadowed =
     (let sounds_shadowy = ends_with ''_shadowed'' (str_lower name) in
      if shadowed \<and> \<not> sounds_shadowy then Inl (RegError (ShadowedBadName name))
      else if sounds_shadowy \<and> \<not> shadowed then Inl (RegError (NameWithoutShadowed name))
      else Inr ())"

definition sort_fields :: "field list \<Rightarrow> field list" where
  "sort_fields flds = sort_key (\<lambda>f. b_lsb (f_bits f)) flds"

definition name_step ::
  "string \<Rightarrow> (string \<times> field) list \<Rightarrow> field \<Rightarrow> (string \<times> field) list res" where
  "name_step rname name_to_field f =
     (if py_in (f_name f) name_to_field then Inl (RegError (DuplicateFields rname (f_name f)))
      else Inr (AList.update (f_name f) f name_to_field))"

text \<open>
  The check that the flds are disjoint, as it is written: \<open>bits_used\<close> starts at 0 and the loop
  body never adds the mask of a field to it.
\<close>

definition disjoint_step :: "string \<Rightarrow> int \<Rightarrow> field \<Rightarrow> int res" where
  "disjoint_step rname bits_used f =
     (let field_mask = bitmask (f_bits f) in
      if bits_used AND field_mask \<noteq> 0
      then Inl (RegError (NonDisjointFields rname (f_name f) (bits_used AND field_mask)))
      else Inr bits_used)"

definition field_reset :: "field \<Rightarrow> int" where
  "field_reset f = push_bit (nat (b_lsb (f_bits f))) (case f_resval f of None \<Rightarrow> 0 | Some v \<Rightarrow> v)"

definition fields_resval :: "field list \<Rightarrow> int" where
  "fields_resval flds = foldl (\<lambda>acc f. acc OR field_reset f) 0 flds"

definition fields_resmask :: "field list \<Rightarrow> int" where
  "fields_resmask flds = foldl (\<lambda>acc f. acc OR bitmask (f_bits f)) 0 flds"

definition Register ::
  "int \<Rightarrow> string \<Rightarrow> string \<Rightarrow> swaccess \<Rightarrow> hwaccess \<Rightarrow> bool \<Rightarrow> bool \<Rightarrow> bool \<Rightarrow> string option \<Rightarrow>
     string list \<Rightarrow> int option \<Rightarrow> bool \<Rightarrow> field list \<Rightarrow> string option \<Rightarrow> string option \<Rightarrow>
     register res" where
  "Register offset name desc swaccess hwaccess hwext hwqe hwre regwen tags resval shadowed flds
       update_err_alert storage_err_alert =
     bnd (check_flags name swaccess hwaccess hwext hwqe hwre) (\<lambda>_.
     bnd (check_shadowed name shadowed) (\<lambda>_.
     bnd (py_assert (flds \<noteq> [])) (\<lambda>_.
     let sorted_fields = sort_fields flds in
     bnd (foldR (name_step name) [] sorted_fields) (\<lambda>name_to_field.
     bnd (foldR (disjoint_step name) 0 sorted_fields) (\<lambda>_.
     let self_resval = fields_resval sorted_fields in
     if resval \<noteq> None \<and> Some self_resval \<noteq> resval
     then Inl (RegError (RegResvalMismatch name (the resval) self_resval))
     else Inr \<lparr>r_offset = offset, r_name = name, r_desc = desc, r_swaccess = swaccess,
            r_hwaccess = hwaccess, r_hwext = hwext, r_hwqe = hwqe, r_hwre = hwre,
            r_regwen = regwen, r_tags = tags, r_shadowed = shadowed, r_fields = sorted_fields,
            r_name_to_field = name_to_field, r_resval = self_resval,
            r_resmask = fields_resmask sorted_fields,
            r_update_err_alert = update_err_alert,
            r_storage_err_alert = storage_err_alert\<rparr>)))))"

section \<open>Parsing\<close>

definition check_optional_name :: "pyobj \<Rightarrow> string option res" where
  "check_optional_name raw =
     (if raw = PNone then Inr None else bnd (check_name raw) (\<lambda>s. Inr (Some s)))"

definition register_parse_regwen :: "pyobj \<Rightarrow> string option res" where
  "register_parse_regwen raw_regwen =
     (if \<not> truthy raw_regwen then Inr None
      else bnd (check_name raw_regwen) (\<lambda>s. Inr (Some s)))"

definition register_parse_resval :: "string \<Rightarrow> int \<Rightarrow> pyobj \<Rightarrow> int option res" where
  "register_parse_resval name reg_width raw_resval =
     (if raw_resval = PNone then Inr None
      else bnd (check_int raw_resval) (\<lambda>resval.
           if \<not> (0 \<le> resval \<and> resval < push_bit (nat reg_width) 1)
           then Inl (RegError (RegResvalRange name resval reg_width))
           else Inr (Some resval)))"

definition register_from_raw :: "int \<Rightarrow> int \<Rightarrow> params \<Rightarrow> pyobj \<Rightarrow> register res" where
  "register_from_raw reg_width offset params raw =
     bnd (check_keys raw register_required register_optional) (\<lambda>rd.
     bnd (bnd (dindex rd ''name'') check_name) (\<lambda>name.
     bnd (bnd (dindex rd ''desc'') check_str) (\<lambda>desc.
     bnd (SWAccess (dget_or rd ''swaccess'' (PStr ''none''))) (\<lambda>swaccess.
     bnd (HWAccess (dget_or rd ''hwaccess'' (PStr ''hro''))) (\<lambda>hwaccess.
     bnd (check_bool (dget_or rd ''hwext'' (PBool False))) (\<lambda>hwext.
     bnd (check_bool (dget_or rd ''hwqe'' (PBool False))) (\<lambda>hwqe.
     bnd (check_bool (dget_or rd ''hwre'' (PBool False))) (\<lambda>hwre.
     bnd (register_parse_regwen (dget_or rd ''regwen'' (PStr []))) (\<lambda>regwen.
     bnd (check_str_list (dget_or rd ''tags'' (PList []))) (\<lambda>tags.
     bnd (register_parse_resval name reg_width (dget rd ''resval'')) (\<lambda>resval.
     bnd (check_bool (dget_or rd ''shadowed'' (PBool False))) (\<lambda>shadowed.
     bnd (bnd (dindex rd ''fields'') check_list) (\<lambda>raw_fields.
     if raw_fields = [] then Inl (RegError (NoFields name))
     else
     bnd (mapR (\<lambda>(idx, rf).
            field_from_raw name idx (length raw_fields) swaccess hwaccess resval reg_width hwqe hwre
              params rf) (enumerate 0 raw_fields)) (\<lambda>flds.
     bnd (check_optional_name (dget rd ''update_err_alert'')) (\<lambda>update_err_alert.
     bnd (check_optional_name (dget rd ''storage_err_alert'')) (\<lambda>storage_err_alert.
     Register offset name desc swaccess hwaccess hwext hwqe hwre regwen tags resval shadowed flds
       update_err_alert storage_err_alert))))))))))))))))"

section \<open>Queries\<close>

definition register_next_offset :: "int \<Rightarrow> register \<Rightarrow> int" where
  "register_next_offset addrsep r = r_offset r + addrsep"

definition register_dv_rights :: "register \<Rightarrow> string res" where
  "register_dv_rights r = dv_rights (r_swaccess r)"

definition register_get_n_bits :: "string list \<Rightarrow> register \<Rightarrow> int" where
  "register_get_n_bits bittype r =
     sum_list (map (field_get_n_bits (r_hwext r) bittype) (r_fields r))"

definition register_is_homogeneous :: "register \<Rightarrow> bool" where
  "register_is_homogeneous r \<longleftrightarrow> length (r_fields r) = 1"

definition register_get_width :: "register \<Rightarrow> int" where
  "register_get_width r = 1 + b_msb (f_bits (last (r_fields r)))"

section \<open>Copies for a multi-register\<close>

definition register_make_multi ::
  "int \<Rightarrow> int \<Rightarrow> int \<Rightarrow> int \<Rightarrow> bool \<Rightarrow> bool \<Rightarrow> int \<Rightarrow> int \<Rightarrow> string \<Rightarrow> register \<Rightarrow> register res" where
  "register_make_multi reg_width offset creg_idx creg_count regwen_multi compact
       min_reg_idx max_reg_idx cname r =
     bnd (py_assert (0 \<le> creg_idx \<and> creg_idx < creg_count)) (\<lambda>_.
     bnd (py_assert (0 \<le> min_reg_idx \<and> min_reg_idx \<le> max_reg_idx)) (\<lambda>_.
     bnd (py_assert (compact \<or> min_reg_idx = max_reg_idx)) (\<lambda>_.
     let new_name = (if 1 < creg_count then r_name r @ ''_'' @ show_int creg_idx else r_name r);
         new_regwen =
           (if r_regwen r = None \<or> \<not> regwen_multi \<or> creg_count = 1 then r_regwen r
            else map_option (\<lambda>w. w @ ''_'' @ show_int creg_idx) (r_regwen r));
         strip_field = 0 < creg_idx
     in
     bnd (if compact then
            bnd (py_assert (length (r_fields r) = 1)) (\<lambda>_.
            field_make_multi reg_width min_reg_idx max_reg_idx cname creg_idx strip_field
              (r_fields r ! 0))
          else
            bnd (py_assert (creg_idx = min_reg_idx)) (\<lambda>_.
            Inr (map (field_make_suffixed (''_'' @ show_int creg_idx) cname creg_idx strip_field)
              (r_fields r)))) (\<lambda>new_fields.
     Register offset new_name (r_desc r) (r_swaccess r) (r_hwaccess r) (r_hwext r) (r_hwqe r)
       (r_hwre r) new_regwen (r_tags r) None (r_shadowed r) new_fields (r_update_err_alert r)
       (r_storage_err_alert r)))))"

section \<open>Printing\<close>

definition show_bool :: "bool \<Rightarrow> string" where
  "show_bool b = (if b then ''True'' else ''False'')"

definition optional_item :: "string \<Rightarrow> string option \<Rightarrow> pydict" where
  "optional_item k opt = (case opt of None \<Rightarrow> [] | Some s \<Rightarrow> [(k, PStr s)])"

definition register_as_dict :: "register \<Rightarrow> pydict" where
  "register_as_dict r =
     [(''name'', PStr (r_name r)),
      (''desc'', PStr (r_desc r)),
      (''fields'', PList (map (\<lambda>f. obj_of_dict (field_as_dict f)) (r_fields r))),
      (''swaccess'', PStr (sw_key (r_swaccess r))),
      (''hwaccess'', PStr (hw_key (r_hwaccess r))),
      (''hwext'', PStr (show_bool (r_hwext r))),
      (''hwqe'', PStr (show_bool (r_hwqe r))),
      (''hwre'', PStr (show_bool (r_hwre r))),
      (''tags'', PList (map PStr (r_tags r))),
      (''shadowed'', PStr (show_bool (r_shadowed r)))] @
     optional_item ''regwen'' (r_regwen r) @
     optional_item ''update_err_alert'' (r_update_err_alert r) @
     optional_item ''storage_err_alert'' (r_storage_err_alert r)"

section \<open>What the constructor establishes\<close>

lemma names_loop:
  "foldR (name_step rn) d fs = Inr d' \<longleftrightarrow>
     distinct (map f_name fs) \<and> f_name ` set fs \<inter> fst ` set d = {} \<and>
     d' = d @ map (\<lambda>f. (f_name f, f)) fs"
proof (induction fs arbitrary: d)
  case Nil
  then show ?case by auto
next
  case (Cons f fs)
  show ?case
  proof (cases "py_in (f_name f) d")
    case True
    then show ?thesis by (auto simp: name_step_def)
  next
    case False
    then have "name_step rn d f = Inr (d @ [(f_name f, f)])"
      by (simp add: name_step_def update_fresh)
    with False show ?thesis by (auto simp: Cons.IH)
  qed
qed

lemma disjoint_loop: "foldR (disjoint_step rn) 0 fs = Inr 0"
  by (induction fs) (simp_all add: disjoint_step_def)

lemma set_sort_fields [simp]: "set (sort_fields fs) = set fs"
  by (simp add: sort_fields_def)

lemma sort_fields_Nil [simp]: "sort_fields fs = [] \<longleftrightarrow> fs = []"
  by (metis set_sort_fields set_empty)

lemma sorted_sort_fields: "sorted (map (\<lambda>f. b_lsb (f_bits f)) (sort_fields fs))"
  by (simp add: sort_fields_def)

lemma length_sort_fields [simp]: "length (sort_fields fs) = length fs"
  by (simp add: sort_fields_def)

lemma sort_fields_sorted: "sorted (map (\<lambda>f. b_lsb (f_bits f)) fs) \<Longrightarrow> sort_fields fs = fs"
  by (simp add: sort_fields_def sort_key_id_if_sorted)

definition reg_record ::
  "int \<Rightarrow> string \<Rightarrow> string \<Rightarrow> swaccess \<Rightarrow> hwaccess \<Rightarrow> bool \<Rightarrow> bool \<Rightarrow> bool \<Rightarrow> string option \<Rightarrow>
     string list \<Rightarrow> bool \<Rightarrow> field list \<Rightarrow> string option \<Rightarrow> string option \<Rightarrow> register" where
  "reg_record offset name desc swaccess hwaccess hwext hwqe hwre regwen tags shadowed fs uea sea =
     \<lparr>r_offset = offset, r_name = name, r_desc = desc, r_swaccess = swaccess,
      r_hwaccess = hwaccess, r_hwext = hwext, r_hwqe = hwqe, r_hwre = hwre, r_regwen = regwen,
      r_tags = tags, r_shadowed = shadowed, r_fields = sort_fields fs,
      r_name_to_field = map (\<lambda>f. (f_name f, f)) (sort_fields fs),
      r_resval = fields_resval (sort_fields fs), r_resmask = fields_resmask (sort_fields fs),
      r_update_err_alert = uea, r_storage_err_alert = sea\<rparr>"

lemma Register_Inr:
  "Register offset name desc sw hw hwext hwqe hwre regwen tags resval shadowed fs uea sea = Inr r
   \<longleftrightarrow> check_flags name sw hw hwext hwqe hwre = Inr () \<and> check_shadowed name shadowed = Inr () \<and>
       fs \<noteq> [] \<and> distinct (map f_name (sort_fields fs)) \<and>
       (\<forall>v. resval = Some v \<longrightarrow> v = fields_resval (sort_fields fs)) \<and>
       r = reg_record offset name desc sw hw hwext hwqe hwre regwen tags shadowed fs uea sea"
  by (auto simp: Register_def Let_def names_loop disjoint_loop reg_record_def)

lemma raises_flags [raises_intros]: "raises is_value_error (check_flags n sw hw a b c)"
  unfolding check_flags_def by (intro raises_intros) simp_all

lemma raises_shadowed [raises_intros]: "raises is_value_error (check_shadowed n s)"
  unfolding check_shadowed_def Let_def by (intro raises_intros) simp_all

lemma raises_names_loop: "raises is_value_error (foldR (name_step rn) d fs)"
  by (induction fs arbitrary: d) (auto simp: name_step_def intro!: raises_intros)

lemma raises_Register [raises_intros]:
  "fs \<noteq> [] \<Longrightarrow> raises is_value_error
     (Register offset name desc sw hw hwext hwqe hwre regwen tags resval shadowed fs uea sea)"
  unfolding Register_def Let_def disjoint_loop
  by (intro raises_intros raises_names_loop) simp_all

lemma raises_check_optional_name [raises_intros]: "raises is_value_error (check_optional_name raw)"
  unfolding check_optional_name_def by (intro raises_intros)

lemma register_keys_distinct: "distinct (register_required @ register_optional)"
  by (simp add: register_required_def register_optional_def)

lemma raises_register_from_raw [raises_intros]:
  "raises is_value_error (register_from_raw w off ps raw)"
  unfolding register_from_raw_def register_parse_resval_def register_parse_regwen_def
  by (intro raises_intros register_keys_distinct)
     (auto simp: check_keys_has register_required_def dest: mapR_length intro!: raises_intros)

definition wf_register :: "int \<Rightarrow> register \<Rightarrow> bool" where
  "wf_register w r \<longleftrightarrow>
     wf_swaccess (r_swaccess r) \<and> wf_hwaccess (r_hwaccess r) \<and>
     r_fields r \<noteq> [] \<and> sorted (map (\<lambda>f. b_lsb (f_bits f)) (r_fields r)) \<and>
     distinct (map f_name (r_fields r)) \<and>
     (\<forall>f \<in> set (r_fields r). wf_field f \<and> b_msb (f_bits f) < w) \<and>
     r_name_to_field r = map (\<lambda>f. (f_name f, f)) (r_fields r) \<and>
     r_resval r = fields_resval (r_fields r) \<and> r_resmask r = fields_resmask (r_fields r) \<and>
     check_flags (r_name r) (r_swaccess r) (r_hwaccess r) (r_hwext r) (r_hwqe r) (r_hwre r) = Inr () \<and>
     check_shadowed (r_name r) (r_shadowed r) = Inr ()"

lemma Register_wf:
  assumes "Register offset name desc sw hw hwext hwqe hwre regwen tags resval shadowed fs uea sea = Inr r"
    and "wf_swaccess sw" and "wf_hwaccess hw"
    and "\<And>f. f \<in> set fs \<Longrightarrow> wf_field f \<and> b_msb (f_bits f) < w"
  shows "wf_register w r"
  using assms by (auto simp: Register_Inr wf_register_def reg_record_def sorted_sort_fields)

lemma register_from_raw_parts:
  assumes "register_from_raw w off ps raw = Inr r"
  obtains name desc sw hw hwext hwqe hwre regwen tags resval shadowed fs uea sea raws
  where "Register off name desc sw hw hwext hwqe hwre regwen tags resval shadowed fs uea sea = Inr r"
    and "wf_swaccess sw" and "wf_hwaccess hw"
    and "mapR (\<lambda>(idx, rf). field_from_raw name idx (length raws) sw hw resval w hwqe hwre ps rf)
           (enumerate 0 raws) = Inr fs"
    and "\<forall>v. resval = Some v \<longrightarrow> 0 \<le> v \<and> v < 2 ^ nat w"
    and "match_name name"
  using assms
  by (auto simp: register_from_raw_def register_parse_resval_def SWAccess_Inr HWAccess_Inr
      check_name_Inr Let_def push_bit_eq_mult split: if_splits)

lemma register_from_raw_wf:
  assumes "register_from_raw w off ps raw = Inr r"
  shows "wf_register w r"
proof -
  obtain name desc sw hw hwext hwqe hwre regwen tags resval shadowed fs uea sea raws
    where reg: "Register off name desc sw hw hwext hwqe hwre regwen tags resval shadowed fs uea sea
        = Inr r" and acc: "wf_swaccess sw" "wf_hwaccess hw"
    and fs: "mapR (\<lambda>(idx, rf). field_from_raw name idx (length raws) sw hw resval w hwqe hwre ps rf)
           (enumerate 0 raws) = Inr fs"
    using register_from_raw_parts [OF assms] by metis
  have "wf_field f \<and> b_msb (f_bits f) < w" if "f \<in> set fs" for f
    using mapR_set [OF fs that] field_from_raw_wf acc by fastforce
  with reg acc show ?thesis by (rule Register_wf)
qed

section \<open>Reset value and mask\<close>

lemma bit_resmask:
  assumes "wf_register w r"
  shows "bit (r_resmask r) n \<longleftrightarrow>
    (\<exists>f \<in> set (r_fields r). b_lsb (f_bits f) \<le> int n \<and> int n \<le> b_msb (f_bits f))"
  using assms by (auto simp: wf_register_def fields_resmask_def bit_foldl_or bit_bitmask wf_field_def)

lemma bit_field_reset:
  assumes "wf_field f"
  shows "bit (field_reset f) n \<longleftrightarrow> b_lsb (f_bits f) \<le> int n \<and> int n \<le> b_msb (f_bits f) \<and>
    bit (case f_resval f of None \<Rightarrow> 0 | Some v \<Rightarrow> v) (n - nat (b_lsb (f_bits f)))"
proof -
  let ?v = "case f_resval f of None \<Rightarrow> 0 | Some v \<Rightarrow> v"
  have wf: "wf_bits (f_bits f)" using assms by (simp add: wf_field_def)
  have "0 \<le> ?v" "?v < 2 ^ nat (bits_width (f_bits f))"
    using assms by (auto simp: wf_field_def max_value_eq split: option.splits)
  then have le: "m < nat (bits_width (f_bits f))" if "bit ?v m" for m
    using that by (rule bit_int_less)
  have "int n \<le> b_msb (f_bits f)" if "bit ?v (n - nat (b_lsb (f_bits f)))" "nat (b_lsb (f_bits f)) \<le> n"
    using le [OF that(1)] that(2) wf by (auto simp: wf_bits_def bits_width_def)
  then show ?thesis
    using wf by (auto simp: field_reset_def bit_push_bit_iff wf_bits_def nat_le_iff)
qed

text \<open>Fields with different names do not overlap.\<close>

definition fields_disjoint :: "field list \<Rightarrow> bool" where
  "fields_disjoint fs \<longleftrightarrow> (\<forall>f \<in> set fs. \<forall>g \<in> set fs. f_name f \<noteq> f_name g \<longrightarrow>
     b_msb (f_bits f) < b_lsb (f_bits g) \<or> b_msb (f_bits g) < b_lsb (f_bits f))"

lemma same_field:
  "wf_register w r \<Longrightarrow> f \<in> set (r_fields r) \<Longrightarrow> g \<in> set (r_fields r) \<Longrightarrow> f_name f = f_name g \<Longrightarrow> f = g"
  by (auto simp: wf_register_def distinct_map dest: inj_onD)

lemma bit_resval:
  assumes "wf_register w r"
  shows "bit (r_resval r) n \<longleftrightarrow> (\<exists>f \<in> set (r_fields r). bit (field_reset f) n)"
  using assms by (simp add: wf_register_def fields_resval_def bit_foldl_or)

lemma bit_extract_field:
  "wf_bits b \<Longrightarrow> bit (extract_field b x) i \<longleftrightarrow>
     bit x (nat (b_lsb b) + i) \<and> int i < bits_width b"
  by (auto simp: extract_field_def bit_drop_bit_eq bit_and_iff bit_bitmask wf_bits_def bits_width_def)

lemma reset_value_of_field:
  assumes r: "wf_register w r" and dis: "fields_disjoint (r_fields r)" and f: "f \<in> set (r_fields r)"
  shows "extract_field (f_bits f) (r_resval r) = (case f_resval f of None \<Rightarrow> 0 | Some v \<Rightarrow> v)"
proof (rule bit_eqI)
  fix i
  let ?b = "f_bits f" and ?v = "case f_resval f of None \<Rightarrow> 0 | Some v \<Rightarrow> v"
  let ?n = "nat (b_lsb ?b) + i"
  have wf: "wf_field g" if "g \<in> set (r_fields r)" for g using r that by (simp add: wf_register_def)
  from wf [OF f] have b: "wf_bits ?b" by (simp add: wf_field_def)
  have only: "g = f" if g: "g \<in> set (r_fields r)" and bg: "bit (field_reset g) ?n"
    and w: "int i < bits_width ?b" for g
  proof (rule ccontr)
    assume "g \<noteq> f"
    then have "f_name g \<noteq> f_name f" using same_field [OF r g f] by blast
    then have "b_msb (f_bits g) < b_lsb ?b \<or> b_msb ?b < b_lsb (f_bits g)"
      using dis f g by (auto simp: fields_disjoint_def)
    then show False
      using bg w b by (auto simp: bit_field_reset [OF wf [OF g]] wf_bits_def bits_width_def)
  qed
  have v: "0 \<le> ?v" "?v < 2 ^ nat (bits_width ?b)"
    using wf [OF f] by (auto simp: wf_field_def max_value_eq split: option.splits)
  have lt: "int i < bits_width ?b" if "bit ?v i"
    using bit_int_less [OF v that] by linarith
  have "bit (extract_field ?b (r_resval r)) i \<longleftrightarrow> bit (field_reset f) ?n \<and> int i < bits_width ?b"
    using f only by (auto simp: bit_extract_field [OF b] bit_resval [OF r])
  also have "\<dots> \<longleftrightarrow> bit ?v i"
    using b lt by (auto simp: bit_field_reset [OF wf [OF f]] wf_bits_def bits_width_def)
  finally show "bit (extract_field ?b (r_resval r)) i = bit ?v i" .
qed

text \<open>With disjoint fields the last field has the highest bit, so the width covers them all.\<close>

lemma register_width_covers:
  assumes r: "wf_register w r" and dis: "fields_disjoint (r_fields r)" and f: "f \<in> set (r_fields r)"
  shows "b_msb (f_bits f) < register_get_width r"
proof (cases "f = last (r_fields r)")
  case True
  then show ?thesis by (simp add: register_get_width_def)
next
  case False
  let ?l = "last (r_fields r)"
  have l: "?l \<in> set (r_fields r)" using r by (simp add: wf_register_def)
  have "f_name f \<noteq> f_name ?l" using same_field [OF r f l] False by blast
  then have d: "b_msb (f_bits f) < b_lsb (f_bits ?l) \<or> b_msb (f_bits ?l) < b_lsb (f_bits f)"
    using dis f l by (auto simp: fields_disjoint_def)
  have "b_lsb (f_bits f) \<le> b_lsb (f_bits ?l)"
  proof -
    have "sorted (map (\<lambda>f. b_lsb (f_bits f)) (r_fields r))" "r_fields r \<noteq> []"
      using r by (simp_all add: wf_register_def)
    then have "sorted (map (\<lambda>f. b_lsb (f_bits f)) (butlast (r_fields r) @ [?l]))" by simp
    then have "\<forall>g \<in> set (butlast (r_fields r)). b_lsb (f_bits g) \<le> b_lsb (f_bits ?l)"
      by (simp add: sorted_append del: append_butlast_last_id)
    moreover have "f \<in> set (butlast (r_fields r))"
      using f False \<open>r_fields r \<noteq> []\<close> by (metis append_butlast_last_id insert_iff list.simps(15) rotate1.simps(2) set_rotate1)
    ultimately show ?thesis by blast
  qed
  moreover have "wf_bits (f_bits ?l)" using r l by (simp add: wf_register_def wf_field_def)
  ultimately show ?thesis using d by (auto simp: register_get_width_def wf_bits_def)
qed

section \<open>Printing a register and parsing it again\<close>

text \<open>The names a printed register has to carry for its text to be accepted.\<close>

definition printable :: "register \<Rightarrow> bool" where
  "printable r \<longleftrightarrow> valid_name (r_name r) \<and>
     list_all (\<lambda>f. valid_name (f_name f) \<and> f_desc f \<noteq> None \<and>
        f_hwqe f = r_hwqe r \<and> f_hwre f = r_hwre r) (r_fields r) \<and>
     list_all (\<lambda>x. case x of None \<Rightarrow> True | Some s \<Rightarrow> valid_name s)
       [r_regwen r, r_update_err_alert r, r_storage_err_alert r]"

lemma printable_iff: "printable r \<longleftrightarrow> valid_name (r_name r) \<and>
     (\<forall>f \<in> set (r_fields r). valid_name (f_name f) \<and> f_desc f \<noteq> None \<and>
        f_hwqe f = r_hwqe r \<and> f_hwre f = r_hwre r) \<and>
     (\<forall>s. r_regwen r = Some s \<longrightarrow> valid_name s) \<and>
     (\<forall>s. r_update_err_alert r = Some s \<longrightarrow> valid_name s) \<and>
     (\<forall>s. r_storage_err_alert r = Some s \<longrightarrow> valid_name s)"
  by (auto simp: printable_def list_all_iff split: option.splits)

lemma Register_rebuild:
  assumes "wf_register w r"
  shows "Register (r_offset r) (r_name r) (r_desc r) (r_swaccess r) (r_hwaccess r) (r_hwext r)
      (r_hwqe r) (r_hwre r) (r_regwen r) (r_tags r) None (r_shadowed r) (r_fields r)
      (r_update_err_alert r) (r_storage_err_alert r) = Inr r"
  using assms by (cases r) (auto simp: Register_Inr reg_record_def wf_register_def sort_fields_sorted)

lemma check_bool_show: "check_bool (PStr (show_bool b)) = Inr b"
proof (cases b)
  case True
  have "check_bool (PStr (show_bool True)) = Inr True" by code_simp
  with True show ?thesis by simp
next
  case False
  have "check_bool (PStr (show_bool False)) = Inr False" by code_simp
  with False show ?thesis by simp
qed

lemma register_round_trip:
  assumes wf: "wf_register w r" and pr: "printable r"
  shows "register_from_raw w (r_offset r) ps (obj_of_dict (register_as_dict r)) = Inr r"
proof -
  let ?d = "register_as_dict r"
  have keys: "check_keys (obj_of_dict ?d) register_required register_optional = Inr ?d"
    by (auto simp: check_keys_obj register_keys_distinct [simplified] register_as_dict_def
        register_required_def register_optional_def optional_item_def split: option.splits)
  have gets: "dindex ?d ''name'' = Inr (PStr (r_name r))" "dindex ?d ''desc'' = Inr (PStr (r_desc r))"
    "dget_or ?d ''swaccess'' dflt = PStr (sw_key (r_swaccess r))"
    "dget_or ?d ''hwaccess'' dflt = PStr (hw_key (r_hwaccess r))"
    "dget_or ?d ''hwext'' dflt = PStr (show_bool (r_hwext r))"
    "dget_or ?d ''hwqe'' dflt = PStr (show_bool (r_hwqe r))"
    "dget_or ?d ''hwre'' dflt = PStr (show_bool (r_hwre r))"
    "dget_or ?d ''tags'' dflt = PList (map PStr (r_tags r))"
    "dget_or ?d ''shadowed'' dflt = PStr (show_bool (r_shadowed r))"
    "dget ?d ''resval'' = PNone"
    "dindex ?d ''fields'' = Inr (PList (map (\<lambda>f. obj_of_dict (field_as_dict f)) (r_fields r)))"
    "dget_or ?d ''regwen'' (PStr []) = (case r_regwen r of None \<Rightarrow> PStr [] | Some s \<Rightarrow> PStr s)"
    "dget ?d ''update_err_alert'' = (case r_update_err_alert r of None \<Rightarrow> PNone | Some s \<Rightarrow> PStr s)"
    "dget ?d ''storage_err_alert'' = (case r_storage_err_alert r of None \<Rightarrow> PNone | Some s \<Rightarrow> PStr s)"
    for dflt
    by (simp_all add: dget_def dget_or_def dindex_def register_as_dict_def optional_item_def
        split: option.splits)
  have names: "check_name (PStr (r_name r)) = Inr (r_name r)"
    using pr by (simp add: printable_iff valid_name_def)
  have opt: "check_optional_name (case x of None \<Rightarrow> PNone | Some s \<Rightarrow> PStr s) = Inr x"
    if "\<forall>s. x = Some s \<longrightarrow> valid_name s" for x
    using that by (cases x) (auto simp: check_optional_name_def valid_name_def)
  have regwen: "register_parse_regwen (dget_or ?d ''regwen'' (PStr [])) = Inr (r_regwen r)"
    unfolding gets using pr valid_name_nonempty
    by (cases "r_regwen r") (auto simp: register_parse_regwen_def printable_iff valid_name_def)
  have flds: "mapR (\<lambda>(idx, rf). field_from_raw (r_name r) idx n (r_swaccess r) (r_hwaccess r) None w
        (r_hwqe r) (r_hwre r) ps rf) (enumerate k (map (\<lambda>f. obj_of_dict (field_as_dict f)) fs))
      = Inr fs" if "set fs \<subseteq> set (r_fields r)" for n k fs
    using that
  proof (induction fs arbitrary: k)
    case (Cons f fs)
    then have f: "f \<in> set (r_fields r)" by simp
    obtain d where d: "f_desc f = Some d" using pr f by (auto simp: printable_iff)
    have "field_from_raw (r_name r) k n (r_swaccess r) (r_hwaccess r) None w (f_hwqe f) (f_hwre f) ps
        (obj_of_dict (field_as_dict f)) = Inr f"
      by (rule field_round_trip [OF _ _ _ d])
         (use wf pr f in \<open>auto simp: wf_register_def printable_iff valid_name_def\<close>)
    moreover have "f_hwqe f = r_hwqe r" "f_hwre f = r_hwre r" using pr f by (auto simp: printable_iff)
    ultimately show ?case using Cons by simp
  qed simp
  have acc: "SWAccess (PStr (sw_key (r_swaccess r))) = Inr (r_swaccess r)"
    "HWAccess (PStr (hw_key (r_hwaccess r))) = Inr (r_hwaccess r)" "r_fields r \<noteq> []"
    using wf by (simp_all add: SWAccess_Inr HWAccess_Inr wf_register_def)
  have opts: "check_optional_name (dget ?d ''update_err_alert'') = Inr (r_update_err_alert r)"
    "check_optional_name (dget ?d ''storage_err_alert'') = Inr (r_storage_err_alert r)"
    using pr by (simp_all add: gets opt printable_iff)
  show ?thesis
    by (simp add: register_from_raw_def keys gets(1-11) names acc check_bool_show check_str_def
        check_list_def check_str_list_strs register_parse_resval_def flds opts regwen
        Register_rebuild [OF wf])
qed

end
