(* ===== verification/Reggen_Multireg.thy ===== *)
theory Reggen_Multireg
  imports Reggen_Register
begin

text \<open>
  \<open>reggen/multi_register.py\<close>: a register description that is instantiated \<open>count\<close> times and,
  when it has one field, packed into as few registers as possible.
\<close>

section \<open>Multi-registers\<close>

record multireg =
  m_offset :: int
  m_reg :: register
  m_cname :: string
  m_regwen_multi :: bool
  m_compact :: bool
  m_count :: int
  m_regs :: "register list"

definition multireg_required :: "string list" where
  "multireg_required = [''name'', ''desc'', ''count'', ''cname'', ''fields'']"

definition multireg_optional :: "string list" where
  "multireg_optional = register_optional @ [''regwen_multi'', ''compact'']"

text \<open>The part of the description that the register factory is given.\<close>

definition reg_part :: "pydict \<Rightarrow> pydict" where
  "reg_part rd = filter (\<lambda>(k, v). k \<in> set (register_required @ register_optional)) rd"

definition regs_per_creg :: "int \<Rightarrow> bool \<Rightarrow> register \<Rightarrow> int res" where
  "regs_per_creg reg_width compact reg =
     (if compact then
        bnd (py_assert (length (r_fields reg) = 1)) (\<lambda>_.
        let width_per_reg = b_msb (f_bits (r_fields reg ! 0)) + 1 in
        bnd (py_assert (width_per_reg \<le> reg_width)) (\<lambda>_. Inr (reg_width div width_per_reg)))
      else Inr 1)"

definition make_creg ::
  "int \<Rightarrow> int \<Rightarrow> int \<Rightarrow> bool \<Rightarrow> bool \<Rightarrow> int \<Rightarrow> string \<Rightarrow> int \<Rightarrow> int \<Rightarrow> register \<Rightarrow> int \<Rightarrow> register res" where
  "make_creg reg_width offset addrsep regwen_multi compact count cname per creg_count reg creg_idx =
     (let min_reg_idx = per * creg_idx;
          max_reg_idx = min (min_reg_idx + per) count - 1;
          creg_offset = offset + creg_idx * addrsep
      in register_make_multi reg_width creg_offset creg_idx creg_count regwen_multi compact
           min_reg_idx max_reg_idx cname reg)"

definition make_cregs ::
  "int \<Rightarrow> int \<Rightarrow> int \<Rightarrow> bool \<Rightarrow> bool \<Rightarrow> int \<Rightarrow> string \<Rightarrow> int \<Rightarrow> register \<Rightarrow> register list res" where
  "make_cregs reg_width offset addrsep regwen_multi compact count cname per reg =
     (let creg_count = (count + per - 1) div per in
      mapR (make_creg reg_width offset addrsep regwen_multi compact count cname per creg_count reg)
        [0 .. creg_count - 1])"

definition MultiRegister :: "int \<Rightarrow> int \<Rightarrow> int \<Rightarrow> params \<Rightarrow> pyobj \<Rightarrow> multireg res" where
  "MultiRegister offset addrsep reg_width params raw =
     bnd (check_keys raw multireg_required multireg_optional) (\<lambda>rd.
     bnd (register_from_raw reg_width offset params (obj_of_dict (reg_part rd))) (\<lambda>reg.
     bnd (bnd (dindex rd ''cname'') check_name) (\<lambda>cname.
     bnd (check_bool (dget_or rd ''regwen_multi'' (PBool False))) (\<lambda>regwen_multi.
     bnd (check_bool (dget_or rd ''compact'' (PBool (length (r_fields reg) = 1)))) (\<lambda>compact.
     if compact \<and> 1 < length (r_fields reg) then Inl (BlockError (CompactManyFields (r_name reg)))
     else
     bnd (bnd (dindex rd ''count'') check_str) (\<lambda>count_str.
     bnd (expand params count_str) (\<lambda>count.
     if count \<le> 0 then Inl (BlockError (CountNotPositive (r_name reg) count))
     else
     bnd (regs_per_creg reg_width compact reg) (\<lambda>per.
     bnd (make_cregs reg_width offset addrsep regwen_multi compact count cname per reg) (\<lambda>regs.
     Inr \<lparr>m_offset = offset, m_reg = reg, m_cname = cname, m_regwen_multi = regwen_multi,
          m_compact = compact, m_count = count, m_regs = regs\<rparr>)))))))))"

definition multireg_next_offset :: "int \<Rightarrow> multireg \<Rightarrow> int" where
  "multireg_next_offset addrsep m = m_offset m + int (length (m_regs m)) * addrsep"

definition multireg_get_n_bits :: "string list \<Rightarrow> multireg \<Rightarrow> int" where
  "multireg_get_n_bits bittype m = sum_list (map (register_get_n_bits bittype) (m_regs m))"

definition multireg_get_field_list :: "multireg \<Rightarrow> field list" where
  "multireg_get_field_list m = concat (map r_fields (m_regs m))"

definition multireg_is_homogeneous :: "multireg \<Rightarrow> bool" where
  "multireg_is_homogeneous m = register_is_homogeneous (m_reg m)"

definition multireg_as_dict :: "multireg \<Rightarrow> pydict" where
  "multireg_as_dict m =
     [(''multireg'', obj_of_dict (register_as_dict (m_reg m) @
        [(''count'', PStr (show_int (m_count m))),
         (''cname'', PStr (m_cname m)),
         (''regwen_multi'', PStr (show_bool (m_regwen_multi m))),
         (''compact'', PStr (show_bool (m_compact m)))]))]"

section \<open>One packed register\<close>

lemma suffix_inj: "a @ ''_'' @ show_int i = a @ ''_'' @ show_int j \<longleftrightarrow> i = j"
  by (simp add: show_int_inj)

lemma copies_sorted:
  assumes "wf_bits (f_bits f)"
  shows "sort_fields (map (field_copy lo cname ci st f) [lo .. hi]) = map (field_copy lo cname ci st f) [lo .. hi]"
proof (rule sort_fields_sorted)
  have "0 \<le> b_msb (f_bits f) + 1" using assms by (simp add: wf_bits_def)
  then have mono: "(b_msb (f_bits f) + 1) * (i - lo) \<le> (b_msb (f_bits f) + 1) * (j - lo)" if "i \<le> j" for i j
    using that by (intro mult_left_mono) simp_all
  have "sorted_wrt (\<lambda>i j. b_lsb (f_bits (field_copy lo cname ci st f i))
      \<le> b_lsb (f_bits (field_copy lo cname ci st f j))) [lo .. hi]"
    by (rule sorted_wrt_mono_rel [where P = "(\<le>)"]) (auto simp: field_copy_def Let_def mono)
  then show "sorted (map (\<lambda>f. b_lsb (f_bits f)) (map (field_copy lo cname ci st f) [lo .. hi]))"
    by (simp add: sorted_wrt_map)
qed

lemma copies_names: "distinct (map f_name (map (field_copy lo cname ci st f) [lo .. hi]))"
  by (auto simp: field_copy_def distinct_map inj_on_def show_int_inj)

text \<open>The register a compact multi-register puts at index \<open>ci\<close>.\<close>

lemma make_multi_compact:
  assumes r: "wf_register w r" and one: "r_fields r = [f]" and ci: "0 \<le> ci" "ci < n"
    and lo: "0 \<le> lo" "lo \<le> hi" and fit: "(b_msb (f_bits f) + 1) * (1 + hi - lo) \<le> w"
    and mk: "register_make_multi w off ci n rm True lo hi cname r = Inr q"
  shows "r_fields q = map (field_copy lo cname ci (0 < ci) f) [lo .. hi]" "r_offset q = off"
    "r_name q = (if 1 < n then r_name r @ ''_'' @ show_int ci else r_name r)"
    "wf_register w q" "r_regwen q = (if r_regwen r = None \<or> \<not> rm \<or> n = 1 then r_regwen r
       else map_option (\<lambda>x. x @ ''_'' @ show_int ci) (r_regwen r))"
proof -
  have f: "wf_field f" "b_msb (f_bits f) < w" using r one by (simp_all add: wf_register_def)
  then have b: "wf_bits (f_bits f)" by (simp add: wf_field_def)
  have reg: "Register off (if 1 < n then r_name r @ ''_'' @ show_int ci else r_name r) (r_desc r)
      (r_swaccess r) (r_hwaccess r) (r_hwext r) (r_hwqe r) (r_hwre r)
      (if r_regwen r = None \<or> \<not> rm \<or> n = 1 then r_regwen r
       else map_option (\<lambda>x. x @ ''_'' @ show_int ci) (r_regwen r)) (r_tags r) None (r_shadowed r)
      (map (field_copy lo cname ci (0 < ci) f) [lo .. hi])
      (r_update_err_alert r) (r_storage_err_alert r) = Inr q"
    using mk fit lo ci by (auto simp: register_make_multi_def Let_def one field_make_multi_eq [OF b lo])
  then have q: "q = reg_record off (if 1 < n then r_name r @ ''_'' @ show_int ci else r_name r) (r_desc r)
      (r_swaccess r) (r_hwaccess r) (r_hwext r) (r_hwqe r) (r_hwre r)
      (if r_regwen r = None \<or> \<not> rm \<or> n = 1 then r_regwen r
       else map_option (\<lambda>x. x @ ''_'' @ show_int ci) (r_regwen r)) (r_tags r) (r_shadowed r)
      (map (field_copy lo cname ci (0 < ci) f) [lo .. hi])
      (r_update_err_alert r) (r_storage_err_alert r)"
    by (simp add: Register_Inr)
  show "r_fields q = map (field_copy lo cname ci (0 < ci) f) [lo .. hi]"
    by (simp add: q reg_record_def copies_sorted [OF b])
  show "r_offset q = off" "r_name q = (if 1 < n then r_name r @ ''_'' @ show_int ci else r_name r)"
    "r_regwen q = (if r_regwen r = None \<or> \<not> rm \<or> n = 1 then r_regwen r
       else map_option (\<lambda>x. x @ ''_'' @ show_int ci) (r_regwen r))"
    by (simp_all add: q reg_record_def)
  have "b_msb (f_bits (field_copy lo cname ci (0 < ci) f i)) < w" if "lo \<le> i" "i \<le> hi" for i
  proof -
    have "b_msb (f_bits (field_copy lo cname ci (0 < ci) f i)) < (b_msb (f_bits f) + 1) * (i - lo + 1)"
      using b that(1) by (rule field_copy_slot)
    also have "\<dots> \<le> (b_msb (f_bits f) + 1) * (1 + hi - lo)"
      using b that(2) by (intro mult_left_mono) (simp_all add: wf_bits_def)
    finally show ?thesis using fit by simp
  qed
  then show "wf_register w q"
    using r f by (intro Register_wf [OF reg]) (auto simp: wf_register_def wf_field_copy)
qed

lemma register_make_multi_wf:
  assumes r: "wf_register w r" and mk: "register_make_multi w off ci n rm c lo hi cname r = Inr q"
  shows "wf_register w q" "r_offset q = off"
    "r_name q = (if 1 < n then r_name r @ ''_'' @ show_int ci else r_name r)"
proof -
  show off: "r_offset q = off" "r_name q = (if 1 < n then r_name r @ ''_'' @ show_int ci else r_name r)"
    using mk by (auto simp: register_make_multi_def Let_def Register_Inr reg_record_def)
  show "wf_register w q"
  proof (cases c)
    case True
    with mk obtain f where one: "r_fields r = [f]"
      by (auto simp: register_make_multi_def Let_def length_Suc_conv)
    have b: "wf_bits (f_bits f)" using r one by (simp add: wf_register_def wf_field_def)
    from mk have lo: "0 \<le> lo" "lo \<le> hi" and ci: "0 \<le> ci" "ci < n"
      by (auto simp: register_make_multi_def)
    have "(b_msb (f_bits f) + 1) * (1 + hi - lo) \<le> w"
      using mk True one lo
      by (auto simp: register_make_multi_def Let_def field_make_multi_eq [OF b lo] split: if_splits)
    then show ?thesis using mk True by (intro make_multi_compact(4) [OF r one ci lo]) simp_all
  next
    case False
    with mk have reg: "\<exists>nm rg. Register off nm (r_desc r) (r_swaccess r) (r_hwaccess r) (r_hwext r)
        (r_hwqe r) (r_hwre r) rg (r_tags r) None (r_shadowed r)
        (map (field_make_suffixed (''_'' @ show_int ci) cname ci (0 < ci)) (r_fields r))
        (r_update_err_alert r) (r_storage_err_alert r) = Inr q"
      by (auto simp: register_make_multi_def Let_def)
    have "f_bits (field_make_suffixed x cname ci st f) = f_bits f" for x st f
      by (simp add: field_make_suffixed_def)
    then show ?thesis
      using reg r by (elim exE, intro Register_wf) (auto simp: wf_register_def wf_field_suffixed)
  qed
qed

section \<open>The whole expansion\<close>

definition multi_per :: "int \<Rightarrow> multireg \<Rightarrow> int" where
  "multi_per w m = (if m_compact m then w div (b_msb (f_bits (r_fields (m_reg m) ! 0)) + 1) else 1)"

definition creg_count :: "int \<Rightarrow> multireg \<Rightarrow> int" where
  "creg_count w m = (m_count m + multi_per w m - 1) div multi_per w m"

definition wf_multireg :: "int \<Rightarrow> int \<Rightarrow> multireg \<Rightarrow> bool" where
  "wf_multireg w sep m \<longleftrightarrow> wf_register w (m_reg m) \<and> 0 < m_count m \<and>
     (m_compact m \<longrightarrow> length (r_fields (m_reg m)) = 1) \<and>
     make_cregs w (m_offset m) sep (m_regwen_multi m) (m_compact m) (m_count m) (m_cname m)
       (multi_per w m) (m_reg m) = Inr (m_regs m)"

lemma wf_register_fits:
  "wf_register w r \<Longrightarrow> 0 \<le> b_msb (f_bits (r_fields r ! 0)) \<and> b_msb (f_bits (r_fields r ! 0)) < w"
proof -
  assume r: "wf_register w r"
  then have "r_fields r ! 0 \<in> set (r_fields r)" by (intro nth_mem) (simp add: wf_register_def)
  with r have "wf_field (r_fields r ! 0) \<and> b_msb (f_bits (r_fields r ! 0)) < w"
    by (simp add: wf_register_def)
  then show ?thesis by (simp add: wf_field_def wf_bits_def)
qed

lemma MultiRegister_wf:
  assumes "MultiRegister off sep w ps raw = Inr m"
  shows "wf_multireg w sep m" "m_offset m = off"
  using assms
  by (auto simp: MultiRegister_def wf_multireg_def multi_per_def regs_per_creg_def Let_def
      dest: register_from_raw_wf split: if_splits)

lemma multi_per_pos: "wf_multireg w sep m \<Longrightarrow> 1 \<le> multi_per w m"
proof -
  assume "wf_multireg w sep m"
  then have "0 < multi_per w m"
    using wf_register_fits [of w "m_reg m"]
    by (simp add: wf_multireg_def multi_per_def pos_imp_zdiv_pos_iff)
  then show ?thesis by simp
qed

lemma ceil_div: "0 < p \<Longrightarrow> (c + p - 1) div p = (c - 1) div p + (1::int)"
  using div_add_self2 [of p "c - 1"] by (simp add: algebra_simps)

text \<open>The bounds of the packed register \<open>ci\<close>.\<close>

lemma creg_bounds:
  assumes m: "wf_multireg w sep m" and ci: "0 \<le> ci" "ci < creg_count w m"
  defines "p \<equiv> multi_per w m"
  shows "0 \<le> p * ci" "p * ci \<le> min (p * ci + p) (m_count m) - 1"
proof -
  have p: "1 \<le> p" unfolding p_def using m by (rule multi_per_pos)
  then show "0 \<le> p * ci" using ci by simp
  have "ci \<le> (m_count m - 1) div p"
    using ci p by (simp add: creg_count_def ceil_div p_def [symmetric])
  then have "p * ci \<le> p * ((m_count m - 1) div p)" using p by simp
  also have "\<dots> \<le> m_count m - 1" using p by (intro mult_div_le) simp
  finally show "p * ci \<le> min (p * ci + p) (m_count m) - 1" using p by simp
qed

lemma creg_fits:
  assumes m: "wf_multireg w sep m" and c: "m_compact m"
  shows "(b_msb (f_bits (r_fields (m_reg m) ! 0)) + 1) *
    (1 + (min (multi_per w m * ci + multi_per w m) (m_count m) - 1) - multi_per w m * ci) \<le> w"
proof -
  let ?fw = "b_msb (f_bits (r_fields (m_reg m) ! 0)) + 1" and ?p = "multi_per w m"
  have fw: "0 < ?fw" using m wf_register_fits [of w "m_reg m"] by (simp add: wf_multireg_def)
  have "?fw * (1 + (min (?p * ci + ?p) (m_count m) - 1) - ?p * ci) \<le> ?fw * ?p"
    using fw by (intro mult_left_mono) simp_all
  also have "\<dots> \<le> w" using c mult_div_le [OF fw] by (simp add: multi_per_def)
  finally show ?thesis .
qed

lemma cregs_nth:
  assumes m: "wf_multireg w sep m" and i: "i < length (m_regs m)"
  shows "make_creg w (m_offset m) sep (m_regwen_multi m) (m_compact m) (m_count m) (m_cname m)
      (multi_per w m) (creg_count w m) (m_reg m) (int i) = Inr (m_regs m ! i)"
    and "length (m_regs m) = nat (creg_count w m)"
proof -
  have mk: "mapR (make_creg w (m_offset m) sep (m_regwen_multi m) (m_compact m) (m_count m)
      (m_cname m) (multi_per w m) (creg_count w m) (m_reg m)) [0 .. creg_count w m - 1]
      = Inr (m_regs m)"
    using m by (simp add: wf_multireg_def make_cregs_def creg_count_def Let_def)
  from mapR_length [OF mk] show len: "length (m_regs m) = nat (creg_count w m)" by simp
  from mapR_nth [OF mk, of i] i len
  show "make_creg w (m_offset m) sep (m_regwen_multi m) (m_compact m) (m_count m) (m_cname m)
      (multi_per w m) (creg_count w m) (m_reg m) (int i) = Inr (m_regs m ! i)"
    by (simp add: nth_upto)
qed

lemma creg_count_pos: "wf_multireg w sep m \<Longrightarrow> 0 < creg_count w m"
  using multi_per_pos [of w sep m]
  by (simp add: creg_count_def ceil_div wf_multireg_def pos_imp_zdiv_nonneg_iff add_nonneg_pos)

lemma length_cregs: "wf_multireg w sep m \<Longrightarrow> length (m_regs m) = nat (creg_count w m)"
  using creg_count_pos [of w sep m] mapR_length [of _ "[0 .. creg_count w m - 1]" "m_regs m"]
  by (auto simp: wf_multireg_def make_cregs_def creg_count_def Let_def)

lemma multireg_regs_wf:
  assumes "wf_multireg w sep m" and "i < length (m_regs m)"
  shows "wf_register w (m_regs m ! i)" "r_offset (m_regs m ! i) = m_offset m + int i * sep"
    "r_name (m_regs m ! i) = (if 1 < creg_count w m then r_name (m_reg m) @ ''_'' @ show_int (int i)
       else r_name (m_reg m))"
  using register_make_multi_wf [OF _ cregs_nth(1) [OF assms, unfolded make_creg_def Let_def]] assms(1)
  by (simp_all add: wf_multireg_def)

lemma multireg_compact_fields:
  assumes m: "wf_multireg w sep m" and c: "m_compact m" and i: "i < length (m_regs m)"
  shows "r_fields (m_regs m ! i) = map (field_copy (multi_per w m * int i) (m_cname m) (int i)
      (0 < int i) (r_fields (m_reg m) ! 0))
      [multi_per w m * int i .. min (multi_per w m * int i + multi_per w m) (m_count m) - 1]"
proof -
  obtain f where one: "r_fields (m_reg m) = [f]"
    using m c by (auto simp: wf_multireg_def length_Suc_conv)
  have ci: "0 \<le> int i" "int i < creg_count w m" using i length_cregs [OF m] by linarith+
  show ?thesis
    using make_multi_compact(1) [OF _ one ci creg_bounds [OF m ci] creg_fits [OF m c, of "int i",
        unfolded one nth_Cons_0] cregs_nth(1) [OF m i, unfolded make_creg_def Let_def eqTrueI [OF c]]] m
    by (simp add: wf_multireg_def one)
qed

text \<open>Replica \<open>k\<close> is field \<open>k mod per\<close> of register \<open>k div per\<close>.\<close>

lemma multireg_replica:
  assumes m: "wf_multireg w sep m" and c: "m_compact m" and k: "0 \<le> k" "k < m_count m"
  defines "p \<equiv> multi_per w m" and "f \<equiv> r_fields (m_reg m) ! 0"
  defines "r \<equiv> m_regs m ! nat (k div p)"
  defines "g \<equiv> r_fields r ! nat (k mod p)"
  shows "nat (k div p) < length (m_regs m)" "nat (k mod p) < length (r_fields r)"
    "f_name g = f_name f @ ''_'' @ show_int k"
    "b_lsb (f_bits g) = b_lsb (f_bits f) + (b_msb (f_bits f) + 1) * (k mod p)"
    "b_msb (f_bits g) = b_msb (f_bits f) + (b_msb (f_bits f) + 1) * (k mod p)"
proof -
  have p: "1 \<le> p" unfolding p_def using m by (rule multi_per_pos)
  have split: "p * (k div p) + k mod p = k" by simp
  have "k div p \<le> (m_count m - 1) div p" using k p by (intro zdiv_mono1) simp_all
  then have "k div p < creg_count w m" using p by (simp add: creg_count_def ceil_div p_def [symmetric])
  then show i: "nat (k div p) < length (m_regs m)"
    using k p creg_count_pos [OF m] by (simp add: length_cregs [OF m])
  have d: "0 \<le> k div p" "0 \<le> k mod p" "k mod p < p"
    using k p by (simp_all add: pos_imp_zdiv_nonneg_iff)
  have fs: "r_fields r = map (field_copy (p * (k div p)) (m_cname m) (k div p) (0 < k div p) f)
      [p * (k div p) .. min (p * (k div p) + p) (m_count m) - 1]"
    using multireg_compact_fields [OF m c i] d by (simp add: r_def p_def f_def)
  have in_range: "p * (k div p) + k mod p \<le> min (p * (k div p) + p) (m_count m) - 1"
    using split k d by linarith
  then show j: "nat (k mod p) < length (r_fields r)" 
  proof -
    have "k mod p < min (p * (k div p) + p) (m_count m) - 1 + 1 - p * (k div p)"
      using in_range by linarith
    then have "nat (k mod p) < nat (min (p * (k div p) + p) (m_count m) - 1 + 1 - p * (k div p))"
      using d by linarith
    then show ?thesis by (simp only: fs length_map length_upto)
  qed
  have "[p * (k div p) .. min (p * (k div p) + p) (m_count m) - 1] ! nat (k mod p) = k"
  proof -
    have "p * (k div p) + int (nat (k mod p)) \<le> min (p * (k div p) + p) (m_count m) - 1"
      using in_range d(2) by (simp only: nat_0_le)
    from nth_upto [OF this] show ?thesis using split d(2) by (simp only: nat_0_le)
  qed
  then have "g = field_copy (p * (k div p)) (m_cname m) (k div p) (0 < k div p) f k"
    using j by (simp add: g_def fs)
  then show "f_name g = f_name f @ ''_'' @ show_int k"
    "b_lsb (f_bits g) = b_lsb (f_bits f) + (b_msb (f_bits f) + 1) * (k mod p)"
    "b_msb (f_bits g) = b_msb (f_bits f) + (b_msb (f_bits f) + 1) * (k mod p)"
    using split by (simp_all add: field_copy_def Let_def minus_mult_div_eq_mod)
qed

text \<open>The index ranges of the packed registers, in order, are the range of all the replicas.\<close>

lemma chunks:
  assumes "0 < (p :: int)"
  shows "concat (map (\<lambda>i. [p * i .. min (p * i + p) c - 1]) [0 .. int n - 1]) =
    [0 .. min (p * int n) c - 1]"
proof (induction n)
  case (Suc n)
  have up: "[0 .. int (Suc n) - 1] = [0 .. int n - 1] @ [int n]"
    by (simp add: upto_rec2)
  have "[0 .. min (p * int n) c - 1] @ [p * int n .. min (p * int n + p) c - 1] =
      [0 .. min (p * int (Suc n)) c - 1]"
  proof (cases "p * int n < c")
    case True
    have "[0 .. min (p * int (Suc n)) c - 1] = [0 .. p * int n - 1] @ [p * int n .. min (p * int (Suc n)) c - 1]"
      using assms True by (intro upto_split1) (simp_all add: algebra_simps)
    then show ?thesis using True by (simp add: algebra_simps)
  next
    case False
    then have "c \<le> p * int (Suc n)" using assms by (simp add: algebra_simps)
    then show ?thesis using False by simp
  qed
  then show ?case using Suc.IH by (simp only: up map_append concat_append) simp
qed simp

lemma multireg_field_names:
  assumes m: "wf_multireg w sep m" and c: "m_compact m"
  shows "map f_name (multireg_get_field_list m) =
    map (\<lambda>k. f_name (r_fields (m_reg m) ! 0) @ ''_'' @ show_int k) [0 .. m_count m - 1]"
proof -
  let ?p = "multi_per w m" and ?n = "length (m_regs m)" and ?f = "r_fields (m_reg m) ! 0"
  let ?name = "\<lambda>k. f_name ?f @ ''_'' @ show_int k"
  let ?range = "\<lambda>i. [?p * i .. min (?p * i + ?p) (m_count m) - 1]"
  have p: "0 < ?p" using multi_per_pos [OF m] by simp
  have "map (\<lambda>r. map f_name (r_fields r)) (m_regs m) = map (\<lambda>i. map ?name (?range i)) [0 .. int ?n - 1]"
  proof (rule nth_equalityI)
    fix i assume "i < length (map (\<lambda>r. map f_name (r_fields r)) (m_regs m))"
    then have i: "i < ?n" by simp
    show "map (\<lambda>r. map f_name (r_fields r)) (m_regs m) ! i = map (\<lambda>i. map ?name (?range i)) [0 .. int ?n - 1] ! i"
      using i by (simp add: nth_upto multireg_compact_fields [OF m c i] field_copy_def)
  qed simp
  then have "map f_name (multireg_get_field_list m) =
      map ?name (concat (map ?range [0 .. int ?n - 1]))"
    by (simp add: multireg_get_field_list_def map_concat comp_def)
  also have "concat (map ?range [0 .. int ?n - 1]) = [0 .. min (?p * int ?n) (m_count m) - 1]"
    using p by (rule chunks)
  also have "min (?p * int ?n) (m_count m) = m_count m"
  proof -
    have "m_count m - 1 < ?p * ((m_count m - 1) div ?p + 1)" using p by (rule less_mult_div_Suc)
    then show ?thesis
      using creg_count_pos [OF m] p by (simp add: length_cregs [OF m] creg_count_def ceil_div)
  qed
  finally show ?thesis .
qed

section \<open>Which expansions succeed\<close>

lemma multireg_keys_distinct: "distinct (multireg_required @ multireg_optional)"
  by (simp add: multireg_required_def multireg_optional_def register_optional_def)

lemma raises_creg:
  assumes r: "wf_register w r" and c: "compact \<longrightarrow> length (r_fields r) = 1"
    and per: "per = (if compact then w div (b_msb (f_bits (r_fields r ! 0)) + 1) else 1)"
    and count: "0 < count" and ci: "0 \<le> ci" "ci < (count + per - 1) div per"
  shows "raises is_value_error
    (make_creg w off sep rm compact count cname per ((count + per - 1) div per) r ci)"
proof -
  define m where "m = \<lparr>m_offset = off, m_reg = r, m_cname = cname, m_regwen_multi = rm,
    m_compact = compact, m_count = count, m_regs = []\<rparr>"
  have pos: "0 < per"
    using wf_register_fits [OF r] per by (simp add: pos_imp_zdiv_pos_iff)
  have "ci \<le> (count - 1) div per" using ci pos by (simp add: ceil_div)
  then have "per * ci \<le> per * ((count - 1) div per)" using pos by simp
  also have "\<dots> \<le> count - 1" using pos by (rule mult_div_le)
  finally have lo: "0 \<le> per * ci" "per * ci \<le> min (per * ci + per) count - 1"
    using pos ci by simp_all
  have eq: "compact \<or> per * ci = min (per * ci + per) count - 1" "compact \<or> ci = per * ci"
    using per lo by auto
  have "raises is_value_error (field_make_multi w (per * ci) (min (per * ci + per) count - 1) cname
      ci st (r_fields r ! 0))" for st
  proof (cases "r_fields r")
    case (Cons f fs)
    then have "wf_bits (f_bits f)" using r by (simp add: wf_register_def wf_field_def)
    from field_make_multi_eq [OF this lo, of w cname ci st] Cons show ?thesis
      by (auto intro!: raises_intros)
  qed (use r in \<open>simp add: wf_register_def\<close>)
  moreover have "fs \<noteq> []" if "field_make_multi w (per * ci) (min (per * ci + per) count - 1) cname
      ci st (r_fields r ! 0) = Inr fs" for st fs
    using that lo mapR_length
    by (fastforce simp: field_make_multi_def Let_def split: if_splits)
  ultimately show ?thesis
    unfolding make_creg_def register_make_multi_def Let_def
    using lo ci eq c r
    by (auto simp: wf_register_def intro!: raises_intros)
qed

lemma raises_MultiRegister [raises_intros]:
  "raises is_value_error (MultiRegister off sep w ps raw)"
  unfolding MultiRegister_def
proof (intro raises_intros multireg_keys_distinct)
  fix rd reg cname rm compact cs and count per :: int
  assume rd: "check_keys raw multireg_required multireg_optional = Inr rd"
    and reg: "register_from_raw w off ps (obj_of_dict (reg_part rd)) = Inr reg"
    and many: "\<not> (compact \<and> 1 < length (r_fields reg))" and count: "\<not> count \<le> 0"
  have r: "wf_register w reg" using reg by (rule register_from_raw_wf)
  then have one: "compact \<longrightarrow> length (r_fields reg) = 1"
    using many by (cases "r_fields reg") (auto simp: wf_register_def)
  show "raises is_value_error (regs_per_creg w compact reg)"
    unfolding regs_per_creg_def Let_def
    using one wf_register_fits [OF r] by (intro raises_intros) simp_all
  assume "regs_per_creg w compact reg = Inr per"
  then have per: "per = (if compact then w div (b_msb (f_bits (r_fields reg ! 0)) + 1) else 1)"
    by (auto simp: regs_per_creg_def Let_def split: if_splits)
  show "raises is_value_error (make_cregs w off sep rm compact count cname per reg)"
    unfolding make_cregs_def Let_def
    using count by (intro raises_mapR raises_creg [OF r one per]) auto
qed (simp_all add: check_keys_has multireg_required_def)

text \<open>
  A shadowed description cannot be expanded to more than one register: the generated names end
  in a number, so they lose the suffix that the constructor insists on.
\<close>

lemma numbered_not_shadowed:
  "0 \<le> i \<Longrightarrow> \<not> ends_with ''_shadowed'' (str_lower (nm @ ''_'' @ show_int i))"
proof
  assume i: "0 \<le> i" and e: "ends_with ''_shadowed'' (str_lower (nm @ ''_'' @ show_int i))"
  have "last (str_lower (nm @ ''_'' @ show_int i)) = lower_char (last (show_int i))"
    using i by (simp add: str_lower_def last_map show_int_def)
  moreover have "is_digit (last (show_int i))"
    using i show_nat_digits [OF last_in_set] by (simp add: show_int_def)
  ultimately have "last (str_lower (nm @ ''_'' @ show_int i)) \<noteq> CHR ''d''"
    by (auto simp: lower_char_def is_upper_def is_digit_def)
  moreover have "last s = last sfx" if "ends_with sfx s" "sfx \<noteq> []" for sfx s :: string
    using that by (metis append_take_drop_id ends_with_def last_appendR)
  ultimately show False using e by fastforce
qed

lemma shadowed_multireg_single:
  assumes m: "wf_multireg w sep m" and sh: "r_shadowed (m_reg m)"
  shows "creg_count w m = 1"
proof (rule ccontr)
  assume "creg_count w m \<noteq> 1"
  with creg_count_pos [OF m] have n: "1 < creg_count w m" by simp
  then have i: "0 < length (m_regs m)" by (simp add: length_cregs [OF m])
  have wf: "wf_register w (m_regs m ! 0)" using multireg_regs_wf(1) [OF m i] .
  have nm: "r_name (m_regs m ! 0) = r_name (m_reg m) @ ''_'' @ show_int 0"
    using multireg_regs_wf(3) [OF m i] n by simp
  have "r_shadowed (m_regs m ! 0)"
    using cregs_nth(1) [OF m i] sh
    by (auto simp: make_creg_def Let_def register_make_multi_def Register_Inr reg_record_def)
  with wf nm numbered_not_shadowed [of 0 "r_name (m_reg m)"] show False
    by (simp add: wf_register_def check_shadowed_def Let_def split: if_splits)
qed

end
