(* ===== verification/Reggen_Window.thy ===== *)
theory Reggen_Window
  imports Reggen_Access Reggen_Bits
begin

text \<open>\<open>reggen/window.py\<close>: memory windows, their size and the alignment of their base address.\<close>

record window =
  w_name :: string
  w_desc :: string
  w_unusual :: bool
  w_byte_write :: bool
  w_passthru :: bool
  w_validbits :: int
  w_items :: int
  w_size :: int
  w_offset :: int
  w_swaccess :: swaccess

definition window_required :: "string list" where
  "window_required = [''name'', ''desc'', ''items'', ''swaccess'']"

definition window_optional :: "string list" where
  "window_optional = [''data-intg-passthru'', ''byte-write'', ''validbits'', ''unusual'']"

text \<open>The next power of two: \<open>1 << (size_in_bytes - 1).bit_length()\<close>.\<close>

definition po2_size :: "int \<Rightarrow> int" where
  "po2_size size_in_bytes = push_bit (bit_length (size_in_bytes - 1)) 1"

definition Window ::
  "string \<Rightarrow> string \<Rightarrow> bool \<Rightarrow> bool \<Rightarrow> bool \<Rightarrow> int \<Rightarrow> int \<Rightarrow> int \<Rightarrow> int \<Rightarrow> swaccess \<Rightarrow> window res" where
  "Window name desc unusual byte_write passthru validbits items size_in_bytes offset swaccess =
     bnd (py_assert (0 < validbits)) (\<lambda>_.
     bnd (py_assert (0 < items \<and> items \<le> size_in_bytes)) (\<lambda>_.
     bnd (py_assert (offset AND (po2_size size_in_bytes - 1) = 0)) (\<lambda>_.
     Inr \<lparr>w_name = name, w_desc = desc, w_unusual = unusual, w_byte_write = byte_write,
          w_passthru = passthru, w_validbits = validbits, w_items = items,
          w_size = size_in_bytes, w_offset = offset, w_swaccess = swaccess\<rparr>)))"

text \<open>The base address moves up to a multiple of the rounded size.\<close>

definition align_offset :: "int \<Rightarrow> int \<Rightarrow> int" where
  "align_offset size_in_bytes offset =
     (let addr_mask = po2_size size_in_bytes - 1 in
      if offset AND addr_mask \<noteq> 0 then (offset OR addr_mask) + 1 else offset)"

definition window_from_raw :: "int \<Rightarrow> int \<Rightarrow> params \<Rightarrow> pyobj \<Rightarrow> window res" where
  "window_from_raw offset reg_width params raw =
     bnd (check_keys raw window_required window_optional) (\<lambda>rd.
     bnd (bnd (dindex rd ''name'') check_str) (\<lambda>name.
     bnd (bnd (dindex rd ''desc'') check_str) (\<lambda>desc.
     bnd (check_bool (dget_or rd ''unusual'' (PBool False))) (\<lambda>unusual.
     bnd (check_bool (dget_or rd ''byte-write'' (PBool False))) (\<lambda>byte_write.
     bnd (check_bool (dget_or rd ''data-intg-passthru'' (PBool False))) (\<lambda>passthru.
     bnd (check_int (dget_or rd ''validbits'' (PInt reg_width))) (\<lambda>validbits.
     if validbits \<le> 0 then Inl (BlockError ValidbitsNotPositive)
     else if reg_width < validbits then Inl (BlockError (ValidbitsTooLarge validbits reg_width))
     else
     bnd (bnd (dindex rd ''items'') check_str) (\<lambda>r_items.
     bnd (expand params r_items) (\<lambda>items.
     if items \<le> 0 then Inl (BlockError (ItemsNotPositive items))
     else
     bnd (py_assert (reg_width mod 8 = 0)) (\<lambda>_.
     let size_in_bytes = items * (reg_width div 8) in
     bnd (py_assert (0 < size_in_bytes)) (\<lambda>_.
     if po2_size size_in_bytes \<noteq> size_in_bytes \<and> \<not> unusual
     then Inl (BlockError (SizeNotPowerOf2 items size_in_bytes (po2_size size_in_bytes)))
     else
     bnd (bnd (dindex rd ''swaccess'') SWAccess) (\<lambda>swaccess.
     if \<not> (sw_in_window (sw_value swaccess) \<or> unusual)
     then Inl (BlockError (WindowAccess (sw_key swaccess)))
     else Window name desc unusual byte_write passthru validbits items size_in_bytes
            (align_offset size_in_bytes offset) swaccess))))))))))))"

definition window_next_offset :: "window \<Rightarrow> int" where
  "window_next_offset win = w_offset win + w_size win"

definition window_as_dict :: "window \<Rightarrow> pydict" where
  "window_as_dict win =
     [(''window'', obj_of_dict
        [(''desc'', PStr (w_desc win)),
         (''items'', PInt (w_items win)),
         (''swaccess'', PStr (sw_key (w_swaccess win))),
         (''byte-write'', PBool (w_byte_write win)),
         (''validbits'', PInt (w_validbits win)),
         (''unusual'', PBool (w_unusual win)),
         (''name'', PStr (w_name win))])]"

section \<open>Alignment\<close>

lemma po2_size_eq: "po2_size s = 2 ^ bit_length (s - 1)"
  by (simp add: po2_size_def push_bit_eq_mult)

lemma po2_size_ge: "0 < s \<Longrightarrow> s \<le> po2_size s"
  using bit_length_less [of "s - 1"] by (simp add: po2_size_eq)

lemma po2_size_least:
  assumes "0 < s" and "s \<le> 2 ^ k"
  shows "po2_size s \<le> 2 ^ k"
proof -
  have "bit_length (s - 1) \<le> k" using assms by (intro bit_length_least) simp_all
  then show ?thesis by (simp add: po2_size_eq power_increasing)
qed

lemma or_mask_int: "(x :: int) OR (2 ^ k - 1) = x div 2 ^ k * 2 ^ k + (2 ^ k - 1)"
proof -
  have "x OR mask k = push_bit k (drop_bit k x) OR mask k"
    by (rule bit_eqI) (auto simp: bit_or_iff bit_push_bit_iff bit_drop_bit_eq bit_mask_iff)
  also have "\<dots> = push_bit k (drop_bit k x) + mask k"
    by (rule disjunctive_add [symmetric]) (auto simp: bit_push_bit_iff bit_mask_iff)
  finally show ?thesis
    by (simp add: mask_eq_exp_minus_1 push_bit_eq_mult drop_bit_eq_div)
qed

text \<open>The aligned offset is the least multiple of the rounded size from the offset on.\<close>

lemma align_offset_eq:
  "align_offset s x = (let p = po2_size s in (x + (p - 1)) div p * p)"
proof -
  define k where "k = bit_length (s - 1)"
  have p: "po2_size s = 2 ^ k" by (simp add: po2_size_eq k_def)
  have pos: "(0 :: int) < 2 ^ k" by simp
  show ?thesis
  proof (cases "x mod 2 ^ k = 0")
    case True
    then obtain q where q: "x = q * 2 ^ k" by (auto simp: mod_eq_0_iff_dvd elim: dvdE)
    have "(q * 2 ^ k + (2 ^ k - 1)) div 2 ^ k = q + (2 ^ k - 1) div (2 ^ k :: int)"
      by (subst div_mult_self3) simp_all
    with q show ?thesis by (simp add: align_offset_def p int_and_mask Let_def)
  next
    case False
    then have r: "1 \<le> x mod 2 ^ k" "x mod 2 ^ k < 2 ^ k"
      using pos_mod_sign [OF pos, of x] pos_mod_bound [OF pos, of x] by linarith+
    have e: "x + (2 ^ k - 1) = (x mod 2 ^ k - 1) + (x div 2 ^ k + 1) * 2 ^ k"
      using mod_mult_div_eq [of x "2 ^ k"] by (simp add: algebra_simps)
    have "(x mod 2 ^ k - 1) div 2 ^ k = 0"
      using r by (intro div_pos_pos_trivial) linarith+
    then have "(x + (2 ^ k - 1)) div 2 ^ k = x div 2 ^ k + 1"
      unfolding e by (subst div_mult_self1) simp_all
    then show ?thesis
      using False by (simp add: align_offset_def p int_and_mask or_mask_int Let_def algebra_simps)
  qed
qed

lemma align_offset_spec:
  shows "po2_size s dvd align_offset s x" "x \<le> align_offset s x" "align_offset s x < x + po2_size s"
proof -
  let ?p = "po2_size s"
  have p: "0 < ?p" by (simp add: po2_size_eq)
  show "?p dvd align_offset s x" by (simp add: align_offset_eq Let_def)
  have e: "align_offset s x = ?p * ((x + (?p - 1)) div ?p)"
    by (simp add: align_offset_eq Let_def mult.commute)
  show "align_offset s x < x + ?p"
    using mult_div_le [OF p, of "x + (?p - 1)"] e by simp
  have "x + (?p - 1) < ?p * ((x + (?p - 1)) div ?p + 1)" using p by (rule less_mult_div_Suc)
  then show "x \<le> align_offset s x" using e by (simp add: algebra_simps)
qed

lemma align_offset_id: "po2_size s dvd x \<Longrightarrow> align_offset s x = x"
  by (simp add: align_offset_def po2_size_eq int_and_mask mod_eq_0_iff_dvd Let_def)

section \<open>What a parsed window satisfies\<close>

definition wf_window :: "int \<Rightarrow> window \<Rightarrow> bool" where
  "wf_window reg_width win \<longleftrightarrow>
     0 < w_validbits win \<and> w_validbits win \<le> reg_width \<and> 0 < w_items win \<and>
     8 dvd reg_width \<and> w_size win = w_items win * (reg_width div 8) \<and> 0 < w_size win \<and>
     po2_size (w_size win) dvd w_offset win \<and> wf_swaccess (w_swaccess win) \<and>
     (w_unusual win \<or> po2_size (w_size win) = w_size win \<and> sw_in_window (sw_value (w_swaccess win)))"

lemma Window_Inr:
  "Window n d u bw pt vb it sz off swa = Inr win \<longleftrightarrow>
     0 < vb \<and> 0 < it \<and> it \<le> sz \<and> off AND (po2_size sz - 1) = 0 \<and>
     win = \<lparr>w_name = n, w_desc = d, w_unusual = u, w_byte_write = bw, w_passthru = pt,
       w_validbits = vb, w_items = it, w_size = sz, w_offset = off, w_swaccess = swa\<rparr>"
  by (auto simp: Window_def)

lemma if_Inl_Inr: "(if c then Inl e else m) = Inr x \<longleftrightarrow> \<not> c \<and> m = Inr x"
  by simp

lemma window_from_raw_parts:
  assumes "window_from_raw off w ps raw = Inr win"
  shows "0 < w_validbits win \<and> w_validbits win \<le> w \<and> 0 < w_items win \<and> w mod 8 = 0 \<and>
      w_size win = w_items win * (w div 8) \<and> 0 < w_size win \<and> wf_swaccess (w_swaccess win) \<and>
      (w_unusual win \<or>
        po2_size (w_size win) = w_size win \<and> sw_in_window (sw_value (w_swaccess win))) \<and>
      w_offset win = align_offset (w_size win) off"
  using assms unfolding window_from_raw_def Let_def
  by (simp only: bnd_eq_Inr py_assert_Inr if_Inl_Inr Window_Inr SWAccess_Inr)
     (elim exE conjE, hypsubst, simp only: window.simps not_le not_less, blast)

lemma window_from_raw_wf:
  assumes "window_from_raw off w ps raw = Inr win"
  shows "wf_window w win" "w_offset win = align_offset (w_size win) off"
  using window_from_raw_parts [OF assms] align_offset_spec(1) [of "w_size win" off]
  by (auto simp: wf_window_def)

lemma window_keys_distinct: "distinct (window_required @ window_optional)"
  by (simp add: window_required_def window_optional_def)

lemma raises_window_from_raw [raises_intros]:
  assumes "0 < w" and "8 dvd w"
  shows "raises is_value_error (window_from_raw off w ps raw)"
proof -
  have size: "0 < items * (w div 8)" "items \<le> items * (w div 8)" if "0 < items" for items
    using assms that by (auto elim!: dvdE simp: zero_less_mult_iff mult_le_cancel_left1)
  have mod8: "w mod 8 = 0" using assms by simp
  have pos8: "1 \<le> w div 8" using assms by (auto elim!: dvdE)
  have aligned: "align_offset s off AND (po2_size s - 1) = 0" for s
    using align_offset_spec(1) [of s off] by (simp add: po2_size_eq int_and_mask)
  show ?thesis
    unfolding window_from_raw_def Window_def Let_def
    using mod8 pos8 size(1) aligned
    by (intro raises_intros window_keys_distinct)
       (simp_all add: check_keys_has window_required_def)
qed

end
