(* ===== verification/Regions.thy ===== *)
theory Regions
  imports Prelude
begin

text \<open>
  Address regions. Several parts of the code lay items out one after the other: the signals of
  a list take consecutive bits of a register, the entries of a block take consecutive
  addresses. \<open>chain\<close> says that items follow each other in order, \<open>tiled\<close> that they do so
  without a gap; the \<open>region\<close> interface turns either into statements about the owner of an
  address.
\<close>

fun chain :: "('a \<Rightarrow> int) \<Rightarrow> ('a \<Rightarrow> int) \<Rightarrow> int \<Rightarrow> 'a list \<Rightarrow> int \<Rightarrow> bool" where
  "chain lo nxt a [] b \<longleftrightarrow> a \<le> b"
| "chain lo nxt a (x # xs) b \<longleftrightarrow> a \<le> lo x \<and> lo x \<le> nxt x \<and> chain lo nxt (nxt x) xs b"

fun tiled :: "('a \<Rightarrow> int) \<Rightarrow> ('a \<Rightarrow> int) \<Rightarrow> int \<Rightarrow> 'a list \<Rightarrow> int \<Rightarrow> bool" where
  "tiled lo nxt a [] b \<longleftrightarrow> a = b"
| "tiled lo nxt a (x # xs) b \<longleftrightarrow> a = lo x \<and> lo x \<le> nxt x \<and> tiled lo nxt (nxt x) xs b"

lemma chain_append:
  "chain lo nxt a (xs @ ys) b \<longleftrightarrow> (\<exists>m. chain lo nxt a xs m \<and> chain lo nxt m ys b)"
proof (induction xs arbitrary: a)
  case Nil
  have "\<exists>m\<ge>a. chain lo nxt m ys b" if "chain lo nxt a ys b" using that by blast
  moreover have "chain lo nxt a ys b" if "a \<le> m" "chain lo nxt m ys b" for m
    using that by (cases ys) auto
  ultimately show ?case by auto
qed auto

lemma chain_snoc:
  "chain lo nxt a xs m \<Longrightarrow> m \<le> lo x \<Longrightarrow> lo x \<le> nxt x \<Longrightarrow> nxt x \<le> b \<Longrightarrow> chain lo nxt a (xs @ [x]) b"
  by (auto simp: chain_append)

lemma chain_weaken: "chain lo nxt a xs b \<Longrightarrow> b \<le> c \<Longrightarrow> chain lo nxt a xs c"
  by (induction xs arbitrary: a) auto

lemma chain_le: "chain lo nxt a xs b \<Longrightarrow> a \<le> b"
  by (induction xs arbitrary: a) fastforce+

lemma chain_bounds: "chain lo nxt a xs b \<Longrightarrow> x \<in> set xs \<Longrightarrow> a \<le> lo x \<and> nxt x \<le> b"
proof (induction xs arbitrary: a)
  case (Cons y ys)
  then show ?case
    using chain_le [of lo nxt "nxt y" ys b] by fastforce
qed simp

lemma chain_order:
  "chain lo nxt a xs b \<Longrightarrow> i < j \<Longrightarrow> j < length xs \<Longrightarrow> nxt (xs ! i) \<le> lo (xs ! j)"
proof (induction xs arbitrary: a i j)
  case (Cons y ys)
  from Cons.prems obtain j' where j: "j = Suc j'" "j' < length ys" by (cases j) auto
  show ?case
  proof (cases i)
    case 0
    have "nxt y \<le> lo (ys ! j')"
      using Cons.prems j chain_bounds [of lo nxt "nxt y" ys b "ys ! j'"] by simp
    with 0 j show ?thesis by simp
  next
    case (Suc i')
    then show ?thesis using Cons.prems j Cons.IH [of "nxt y" i' j'] by simp
  qed
qed simp

lemma tiled_chain: "tiled lo nxt a xs b \<Longrightarrow> chain lo nxt a xs b"
  by (induction xs arbitrary: a) auto

lemma tiled_append: "tiled lo nxt a (xs @ ys) b \<longleftrightarrow> (\<exists>m. tiled lo nxt a xs m \<and> tiled lo nxt m ys b)"
  by (induction xs arbitrary: a) auto

lemma tiled_cover:
  "tiled lo nxt a xs b \<Longrightarrow> a \<le> p \<Longrightarrow> p < b \<Longrightarrow> \<exists>x\<in>set xs. lo x \<le> p \<and> p < nxt x"
proof (induction xs arbitrary: a)
  case (Cons y ys)
  then show ?case by (cases "p < nxt y") force+
qed simp

lemma tiled_last: "tiled lo nxt a xs b \<Longrightarrow> xs \<noteq> [] \<Longrightarrow> b = nxt (last xs)"
  by (induction xs arbitrary: a) (auto split: if_splits)

text \<open>
  A kind of item that occupies at least one address: the owner of an address is unique, and
  items of a chain are different from each other.
\<close>

locale region =
  fixes lo :: "'a \<Rightarrow> int" and nxt :: "'a \<Rightarrow> int" and valid :: "'a \<Rightarrow> bool"
  assumes nonempty: "valid x \<Longrightarrow> lo x < nxt x"
begin

lemma owner_unique:
  assumes "chain lo nxt a xs b" and "i < length xs" and "j < length xs"
    and "lo (xs ! i) \<le> p" "p < nxt (xs ! i)" "lo (xs ! j) \<le> p" "p < nxt (xs ! j)"
  shows "i = j"
proof (rule ccontr)
  assume "i \<noteq> j"
  then consider "i < j" | "j < i" by linarith
  then show False
    using chain_order [OF assms(1), of i j] chain_order [OF assms(1), of j i] assms by cases auto
qed

lemma chain_distinct:
  assumes "chain lo nxt a xs b" and "list_all valid xs"
  shows "distinct xs"
proof (rule distinct_conv_nth [THEN iffD2], intro allI impI)
  fix i j assume ij: "i < length xs" "j < length xs" "i \<noteq> j"
  have v: "lo (xs ! i) < nxt (xs ! i)" "lo (xs ! j) < nxt (xs ! j)"
    using assms(2) ij by (auto simp: list_all_length intro: nonempty)
  show "xs ! i \<noteq> xs ! j"
    using owner_unique [OF assms(1) ij(1,2), of "lo (xs ! i)"] v ij by auto
qed

lemma tiled_owner:
  assumes "tiled lo nxt a xs b" and "a \<le> p" "p < b"
  shows "\<exists>!i. i < length xs \<and> lo (xs ! i) \<le> p \<and> p < nxt (xs ! i)"
proof -
  from tiled_cover [OF assms] obtain i where "i < length xs" "lo (xs ! i) \<le> p" "p < nxt (xs ! i)"
    by (auto simp: in_set_conv_nth)
  then show ?thesis
    using owner_unique [OF tiled_chain [OF assms(1)]] by (intro ex1I [of _ i]) blast+
qed

end

end
