(* ===== verification/Reggen_Signals.thy ===== *)
theory Reggen_Signals
  imports Reggen_Bits Regions
begin

text \<open>
  \<open>reggen/signal.py\<close>, \<open>reggen/alert.py\<close> and \<open>reggen/inter_signal.py\<close>: interrupts and other
  named signals, alerts, and the signals between modules. \<open>Alert\<close> is a subclass of \<open>Signal\<close>;
  the record extends the record of signals.
\<close>

section \<open>Signals\<close>

record signal =
  s_name :: string
  s_desc :: string
  s_bits :: bits

definition signal_from_raw :: "int \<Rightarrow> pyobj \<Rightarrow> signal res" where
  "signal_from_raw lsb raw =
     bnd (check_keys raw [''name'', ''desc''] [''width'']) (\<lambda>rd.
     bnd (bnd (dindex rd ''name'') check_name) (\<lambda>name.
     bnd (bnd (dindex rd ''desc'') check_str) (\<lambda>desc.
     bnd (check_int (dget_or rd ''width'' (PInt 1))) (\<lambda>width.
     if width \<le> 0 then Inl (BlockError (SignalWidth name width))
     else
     bnd (Bits (lsb + width - 1) lsb) (\<lambda>bits.
     Inr \<lparr>s_name = name, s_desc = desc, s_bits = bits\<rparr>)))))"

definition signal_step :: "int \<times> signal list \<Rightarrow> pyobj \<Rightarrow> (int \<times> signal list) res" where
  "signal_step st entry =
     (case st of (lsb, ret) \<Rightarrow>
        bnd (signal_from_raw lsb entry) (\<lambda>interrupt.
        Inr (lsb + bits_width (s_bits interrupt), ret @ [interrupt])))"

definition signals_from_raw_list :: "pyobj \<Rightarrow> signal list res" where
  "signals_from_raw_list raw =
     bnd (check_list raw) (\<lambda>entries.
     bnd (foldR signal_step (0, []) entries) (\<lambda>(lsb, ret). Inr ret))"

definition signal_as_dict :: "signal \<Rightarrow> pydict" where
  "signal_as_dict s =
     [(''name'', PStr (s_name s)), (''desc'', PStr (s_desc s)),
      (''width'', PStr (show_int (bits_width (s_bits s))))]"

definition signal_as_nwt_dict :: "string \<Rightarrow> signal \<Rightarrow> pydict" where
  "signal_as_nwt_dict type_field s =
     [(''name'', PStr (s_name s)), (''width'', PInt (bits_width (s_bits s))),
      (''type'', PStr type_field)]"

section \<open>Alerts\<close>

record alert = signal +
  a_bit :: int
  a_fatal :: bool

definition alert_from_raw :: "int \<Rightarrow> pyobj \<Rightarrow> alert res" where
  "alert_from_raw lsb raw =
     bnd (check_keys raw [''name'', ''desc''] []) (\<lambda>rd.
     bnd (bnd (dindex rd ''name'') check_name) (\<lambda>name.
     bnd (bnd (dindex rd ''desc'') check_str) (\<lambda>desc.
     let pfx = hd (str_split CHR ''_'' name) in
     bnd (if pfx = ''recov'' then Inr False
          else if pfx = ''fatal'' then Inr True
          else Inl (BlockError (AlertPrefix name))) (\<lambda>fatal.
     bnd (Bits lsb lsb) (\<lambda>bits.
     Inr \<lparr>s_name = name, s_desc = desc, s_bits = bits, a_bit = lsb, a_fatal = fatal\<rparr>)))))"

definition alerts_from_raw_list :: "pyobj \<Rightarrow> alert list res" where
  "alerts_from_raw_list raw =
     bnd (check_list raw) (\<lambda>entries.
     mapR (\<lambda>(idx, entry). alert_from_raw (int idx) entry) (enumerate 0 entries))"

definition alert_as_dict :: "alert \<Rightarrow> pydict" where
  "alert_as_dict a = [(''name'', PStr (s_name a)), (''desc'', PStr (s_desc a))]"

section \<open>Signals between modules\<close>

record inter_signal =
  is_name :: string
  is_desc :: "string option"
  is_struct :: string
  is_package :: "string option"
  is_type :: string
  is_act :: string
  is_width :: int
  is_default :: "string option"

definition InterSignal ::
  "string \<Rightarrow> string option \<Rightarrow> string \<Rightarrow> string option \<Rightarrow> string \<Rightarrow> string \<Rightarrow> int \<Rightarrow> string option \<Rightarrow>
     inter_signal res" where
  "InterSignal name desc struct package signal_type act width dflt =
     bnd (py_assert (0 < width)) (\<lambda>_.
     Inr \<lparr>is_name = name, is_desc = desc, is_struct = struct, is_package = package,
          is_type = signal_type, is_act = act, is_width = width, is_default = dflt\<rparr>)"

definition inter_signal_from_raw :: "pyobj \<Rightarrow> inter_signal res" where
  "inter_signal_from_raw raw =
     bnd (check_keys raw [''name'', ''struct'', ''type'', ''act'']
            [''desc'', ''package'', ''width'', ''default'']) (\<lambda>rd.
     bnd (bnd (dindex rd ''name'') check_name) (\<lambda>name.
     bnd (if dget rd ''desc'' = PNone then Inr None
          else bnd (check_str (dget rd ''desc'')) (\<lambda>s. Inr (Some s))) (\<lambda>desc.
     bnd (bnd (dindex rd ''struct'') check_str) (\<lambda>struct.
     bnd (if dget rd ''package'' = PNone \<or> dget rd ''package'' = PStr '''' then Inr None
          else bnd (check_name (dget rd ''package'')) (\<lambda>s. Inr (Some s))) (\<lambda>package.
     bnd (bnd (dindex rd ''type'') check_name) (\<lambda>signal_type.
     bnd (bnd (dindex rd ''act'') check_name) (\<lambda>act.
     bnd (check_int (dget_or rd ''width'' (PInt 1))) (\<lambda>width.
     if width \<le> 0 then Inl (BlockError InterSignalWidth)
     else
     bnd (check_optional_str (dget rd ''default'')) (\<lambda>dflt.
     InterSignal name desc struct package signal_type act width dflt)))))))))"

definition opt_item :: "string \<Rightarrow> string option \<Rightarrow> pydict" where
  "opt_item k x = (case x of None \<Rightarrow> [] | Some s \<Rightarrow> [(k, PStr s)])"

definition inter_signal_as_dict :: "inter_signal \<Rightarrow> pydict" where
  "inter_signal_as_dict s =
     [(''name'', PStr (is_name s))] @ opt_item ''desc'' (is_desc s) @
     [(''struct'', PStr (is_struct s))] @ opt_item ''package'' (is_package s) @
     [(''type'', PStr (is_type s)), (''act'', PStr (is_act s)), (''width'', PInt (is_width s))] @
     opt_item ''default'' (is_default s)"

section \<open>Signals take consecutive bits\<close>

abbreviation sig_lo :: "('a) signal_scheme \<Rightarrow> int" where
  "sig_lo s \<equiv> b_lsb (s_bits s)"

definition sig_next :: "('a) signal_scheme \<Rightarrow> int" where
  "sig_next s = b_lsb (s_bits s) + bits_width (s_bits s)"

definition wf_signal :: "('a) signal_scheme \<Rightarrow> bool" where
  "wf_signal s \<longleftrightarrow> wf_bits (s_bits s) \<and> valid_name (s_name s)"

lemma sig_next_msb: "sig_next s = b_msb (s_bits s) + 1"
  by (simp add: sig_next_def bits_width_def)

interpretation sig: region "\<lambda>s. b_lsb (s_bits s)" sig_next "\<lambda>s. wf_bits (s_bits s)"
  by unfold_locales (auto simp: sig_next_def dest: bits_width_pos)

lemma signal_from_raw_wf:
  assumes "signal_from_raw lsb raw = Inr s"
  shows "wf_signal s \<and> b_lsb (s_bits s) = lsb"
  using assms
  by (auto simp: signal_from_raw_def Bits_Inr wf_signal_def valid_name_def check_name_Inr split: if_splits)

definition signals_laid :: "int \<times> signal list \<Rightarrow> bool" where
  "signals_laid st \<longleftrightarrow> tiled (\<lambda>s. b_lsb (s_bits s)) sig_next 0 (snd st) (fst st) \<and>
     list_all wf_signal (snd st) \<and> 0 \<le> fst st"

interpretation signals_loop: invariant_step signal_step signals_laid
proof
  fix st :: "int \<times> signal list" and x st'
  assume "signals_laid st" "signal_step st x = Inr st'"
  then show "signals_laid st'"
    by (auto simp: signals_laid_def signal_step_def tiled_append sig_next_def wf_signal_def
        dest!: signal_from_raw_wf bits_width_pos split: prod.splits)
qed

lemma signals_from_raw_list_tiled:
  assumes "signals_from_raw_list raw = Inr sigs"
  shows "list_all wf_signal sigs"
    and "\<exists>b. tiled (\<lambda>s. b_lsb (s_bits s)) sig_next 0 sigs b"
proof -
  from assms obtain entries lsb where "foldR signal_step (0, []) entries = Inr (lsb, sigs)"
    by (auto simp: signals_from_raw_list_def)
  then have "signals_laid (lsb, sigs)"
    by (rule signals_loop.fold_inv [rotated]) (simp add: signals_laid_def)
  then show "list_all wf_signal sigs" "\<exists>b. tiled (\<lambda>s. b_lsb (s_bits s)) sig_next 0 sigs b"
    by (auto simp: signals_laid_def)
qed

text \<open>The width an entry declares, one bit if it has none, and the bits the signals get from their widths.\<close>

definition declared_width :: "pyobj \<Rightarrow> int option" where
  "declared_width raw =
     (case check_keys raw [''name'', ''desc''] [''width''] of
        Inl e \<Rightarrow> None
      | Inr rd \<Rightarrow> (case check_int (dget_or rd ''width'' (PInt 1)) of Inl e \<Rightarrow> None | Inr w \<Rightarrow> Some w))"

definition signal_places :: "int \<Rightarrow> int list \<Rightarrow> bits list" where
  "signal_places a ws =
     map (\<lambda>i. \<lparr>b_msb = a + sum_list (take (Suc i) ws) - 1, b_lsb = a + sum_list (take i ws)\<rparr>) [0 ..< length ws]"

lemma signal_places_Cons:
  "signal_places a (w # ws) = \<lparr>b_msb = a + w - 1, b_lsb = a\<rparr> # signal_places (a + w) ws"
proof -
  have "signal_places a (w # ws) = \<lparr>b_msb = a + w - 1, b_lsb = a\<rparr> #
      map ((\<lambda>i. \<lparr>b_msb = a + sum_list (take (Suc i) (w # ws)) - 1, b_lsb = a + sum_list (take i (w # ws))\<rparr>) \<circ> Suc) [0 ..< length ws]"
    by (simp add: signal_places_def upt_conv_Cons map_Suc_upt [symmetric] del: upt_Suc)
  then show ?thesis by (simp add: signal_places_def comp_def add.assoc)
qed

lemma signal_from_raw_width:
  assumes "signal_from_raw lsb raw = Inr s"
  shows "\<exists>w. declared_width raw = Some w \<and> 1 \<le> w \<and> s_bits s = \<lparr>b_msb = lsb + w - 1, b_lsb = lsb\<rparr>"
  using assms
  by (auto simp: signal_from_raw_def declared_width_def Bits_def split: if_splits)

lemma signals_widths:
  assumes "foldR signal_step (a, ret) entries = Inr (b, sigs)"
  shows "\<exists>ws new. sigs = ret @ new \<and> map declared_width entries = map Some ws \<and> list_all (\<lambda>w. 1 \<le> w) ws \<and>
    map s_bits new = signal_places a ws"
  using assms
proof (induction entries arbitrary: a ret)
  case Nil
  show ?case by (rule exI [of _ "[]"]) (use Nil in \<open>simp add: signal_places_def\<close>)
next
  case (Cons x xs)
  from Cons.prems obtain st where step: "signal_step (a, ret) x = Inr st" and fold: "foldR signal_step st xs = Inr (b, sigs)"
    by auto
  from step obtain s where s: "signal_from_raw a x = Inr s" and st: "st = (a + bits_width (s_bits s), ret @ [s])"
    by (auto simp: signal_step_def)
  note rest = fold [unfolded st]
  from signal_from_raw_width [OF s] obtain w where
    w: "declared_width x = Some w" "1 \<le> w" "s_bits s = \<lparr>b_msb = a + w - 1, b_lsb = a\<rparr>" by blast
  have "bits_width (s_bits s) = w" by (simp add: w(3) bits_width_def)
  with Cons.IH [OF rest] obtain ws new where
    ih: "sigs = (ret @ [s]) @ new" "map declared_width xs = map Some ws" "list_all (\<lambda>w. 1 \<le> w) ws"
      "map s_bits new = signal_places (a + w) ws" by auto
  show ?case
    by (rule exI [of _ "w # ws"], rule exI [of _ "s # new"]) (simp add: ih w signal_places_Cons)
qed

lemma raises_signal_from_raw [raises_intros]:
  "0 \<le> lsb \<Longrightarrow> raises is_value_error (signal_from_raw lsb raw)"
  unfolding signal_from_raw_def Bits_def
  by (intro raises_intros) (simp_all add: check_keys_has)

lemma raises_signals_from_raw_list [raises_intros]: "raises is_value_error (signals_from_raw_list raw)"
proof -
  have "raises is_value_error (foldR signal_step (0, []) entries)" for entries
    by (rule signals_loop.fold_raises)
       (auto simp: signals_laid_def signal_step_def intro!: raises_intros)
  then show ?thesis
    unfolding signals_from_raw_list_def by (auto intro!: raises_intros)
qed

section \<open>Printing and parsing signals\<close>

lemma signal_round_trip:
  assumes "wf_signal s"
  shows "signal_from_raw (b_lsb (s_bits s)) (obj_of_dict (signal_as_dict s)) = Inr (s :: signal)"
proof -
  have "check_keys (obj_of_dict (signal_as_dict s)) [''name'', ''desc''] [''width''] =
      Inr (signal_as_dict s)"
    by (simp add: check_keys_obj signal_as_dict_def)
  moreover have "Bits (b_lsb (s_bits s) + bits_width (s_bits s) - 1) (b_lsb (s_bits s)) = Inr (s_bits s)"
    using assms by (simp add: Bits_Inr wf_signal_def bits_width_def)
  ultimately show ?thesis
    using assms bits_width_pos [of "s_bits s"]
    by (simp add: signal_from_raw_def dindex_def dget_or_def signal_as_dict_def wf_signal_def
        valid_name_def check_int_show check_str_def)
qed

lemma signals_round_trip_aux:
  assumes "tiled (\<lambda>s. b_lsb (s_bits s)) sig_next a sigs b" and "list_all wf_signal sigs"
  shows "foldR signal_step (a, ret) (map (\<lambda>s. obj_of_dict (signal_as_dict s)) sigs) =
     Inr (b, ret @ (sigs :: signal list))"
  using assms
proof (induction sigs arbitrary: a ret)
  case (Cons s sigs)
  then have "signal_step (a, ret) (obj_of_dict (signal_as_dict s)) = Inr (sig_next s, ret @ [s])"
    by (simp add: signal_step_def signal_round_trip sig_next_def)
  then show ?case using Cons by simp
qed simp

section \<open>Alerts and signals between modules\<close>

definition wf_alert :: "alert \<Rightarrow> bool" where
  "wf_alert a \<longleftrightarrow> 0 \<le> a_bit a \<and> s_bits a = \<lparr>b_msb = a_bit a, b_lsb = a_bit a\<rparr> \<and>
     valid_name (s_name a) \<and>
     hd (str_split CHR ''_'' (s_name a)) = (if a_fatal a then ''fatal'' else ''recov'')"

lemma alert_from_raw_wf:
  "alert_from_raw lsb raw = Inr a \<Longrightarrow> wf_alert a \<and> a_bit a = lsb"
  by (auto simp: alert_from_raw_def Let_def Bits_Inr wf_alert_def wf_bits_def valid_name_def
      check_name_Inr split: if_splits)

lemma alerts_from_raw_list_nth:
  assumes "alerts_from_raw_list raw = Inr al" and "i < length al"
  shows "wf_alert (al ! i)" "a_bit (al ! i) = int i"
proof -
  from assms obtain entries where
    e: "mapR (\<lambda>(idx, entry). alert_from_raw (int idx) entry) (enumerate 0 entries) = Inr al"
    by (auto simp: alerts_from_raw_list_def)
  have "i < length entries" using mapR_length [OF e] assms(2) by simp
  then have "alert_from_raw (int i) (entries ! i) = Inr (al ! i)"
    using mapR_nth [OF e, of i] by (simp add: nth_enumerate_eq)
  then show "wf_alert (al ! i)" "a_bit (al ! i) = int i" by (auto dest: alert_from_raw_wf)
qed

lemma alert_round_trip:
  assumes "wf_alert a"
  shows "alert_from_raw (a_bit a) (obj_of_dict (alert_as_dict a)) = Inr a"
proof -
  have "check_keys (obj_of_dict (alert_as_dict a)) [''name'', ''desc''] [] = Inr (alert_as_dict a)"
    by (simp add: check_keys_obj alert_as_dict_def)
  then show ?thesis
    using assms
    by (cases a) (auto simp: alert_from_raw_def dindex_def alert_as_dict_def wf_alert_def Bits_def
        valid_name_def check_str_def)
qed

lemma raises_alert_from_raw [raises_intros]:
  "0 \<le> lsb \<Longrightarrow> raises is_value_error (alert_from_raw lsb raw)"
  unfolding alert_from_raw_def Bits_def Let_def
  by (intro raises_intros) (simp_all add: check_keys_has)

lemma raises_alerts_from_raw_list [raises_intros]: "raises is_value_error (alerts_from_raw_list raw)"
  unfolding alerts_from_raw_list_def
  by (intro raises_intros) (auto intro!: raises_intros)

definition wf_inter_signal :: "inter_signal \<Rightarrow> bool" where
  "wf_inter_signal s \<longleftrightarrow> 0 < is_width s \<and> valid_name (is_name s) \<and>
     (\<forall>p. is_package s = Some p \<longrightarrow> valid_name p) \<and> valid_name (is_type s) \<and> valid_name (is_act s)"

lemma inter_signal_from_raw_wf: "inter_signal_from_raw raw = Inr s \<Longrightarrow> wf_inter_signal s"
  by (auto simp: inter_signal_from_raw_def InterSignal_def wf_inter_signal_def valid_name_def
      check_name_Inr split: if_splits)

lemma inter_signal_round_trip:
  assumes "wf_inter_signal s"
  shows "inter_signal_from_raw (obj_of_dict (inter_signal_as_dict s)) = Inr s"
proof -
  let ?d = "inter_signal_as_dict s"
  have keys: "check_keys (obj_of_dict ?d) [''name'', ''struct'', ''type'', ''act'']
      [''desc'', ''package'', ''width'', ''default''] = Inr ?d"
    by (auto simp: check_keys_obj inter_signal_as_dict_def opt_item_def split: option.splits)
  have "dget ?d ''desc'' = (case is_desc s of None \<Rightarrow> PNone | Some x \<Rightarrow> PStr x)"
    "dget ?d ''package'' = (case is_package s of None \<Rightarrow> PNone | Some x \<Rightarrow> PStr x)"
    "dget ?d ''default'' = (case is_default s of None \<Rightarrow> PNone | Some x \<Rightarrow> PStr x)"
    "dget_or ?d ''width'' (PInt 1) = PInt (is_width s)"
    "dindex ?d ''name'' = Inr (PStr (is_name s))" "dindex ?d ''struct'' = Inr (PStr (is_struct s))"
    "dindex ?d ''type'' = Inr (PStr (is_type s))" "dindex ?d ''act'' = Inr (PStr (is_act s))"
    by (simp_all add: dget_def dget_or_def dindex_def inter_signal_as_dict_def opt_item_def
        map_add_def split: option.split)
  with keys show ?thesis
    using assms valid_name_nonempty
    by (cases s) (auto simp: inter_signal_from_raw_def InterSignal_def wf_inter_signal_def valid_name_def
        check_str_def check_optional_str_def split: option.splits)
qed

lemma raises_inter_signal_from_raw [raises_intros]: "raises is_value_error (inter_signal_from_raw raw)"
  unfolding inter_signal_from_raw_def InterSignal_def
  by (intro raises_intros) (simp_all add: check_keys_has)

end
