(* ===== verification/Reggen_Regblock.thy ===== *)
theory Reggen_Regblock
  imports Reggen_Multireg Reggen_Window Reggen_Signals
begin

text \<open>
  \<open>reggen/reg_block.py\<close>: a block of registers, multi-registers and windows, laid out one after
  the other. The object keeps a dozen redundant lists and dictionaries; the record has them
  all, every operation updates the ones the code updates, and the invariant below says how
  they follow from the list of entries.
\<close>

section \<open>The state of a block\<close>

datatype entry = EReg register | EMulti multireg | EWin window

record regblock =
  rb_addrsep :: int
  rb_reg_width :: int
  rb_params :: params
  rb_offset :: int
  rb_multiregs :: "multireg list"
  rb_registers :: "register list"
  rb_windows :: "window list"
  rb_passthru :: bool
  rb_flat_regs :: "register list"
  rb_all_regs :: "entry list"
  rb_entries :: "entry list"
  rb_name_to_offset :: "(string \<times> int) list"
  rb_name_to_flat_reg :: "(string \<times> register) list"
  rb_wennames :: "string list"

definition RegBlock :: "int \<Rightarrow> params \<Rightarrow> regblock" where
  "RegBlock reg_width params =
     \<lparr>rb_addrsep = (reg_width + 7) div 8, rb_reg_width = reg_width, rb_params = params,
      rb_offset = 0, rb_multiregs = [], rb_registers = [], rb_windows = [], rb_passthru = False,
      rb_flat_regs = [], rb_all_regs = [], rb_entries = [], rb_name_to_offset = [],
      rb_name_to_flat_reg = [], rb_wennames = []\<rparr>"

section \<open>Adding registers and windows\<close>

definition add_flat_reg :: "register \<Rightarrow> regblock \<Rightarrow> regblock res" where
  "add_flat_reg reg rb =
     bnd (py_assert (\<not> py_in (r_name reg) (rb_name_to_offset rb))) (\<lambda>_.
     bnd (py_assert (\<not> py_in (r_name reg) (rb_name_to_flat_reg rb))) (\<lambda>_.
     Inr (rb\<lparr>rb_flat_regs := rb_flat_regs rb @ [reg],
             rb_name_to_flat_reg :=
               AList.update (str_lower (r_name reg)) reg (rb_name_to_flat_reg rb)\<rparr>)))"

definition add_register :: "register \<Rightarrow> regblock \<Rightarrow> regblock res" where
  "add_register reg rb =
     bnd (py_assert (r_offset reg = rb_offset rb)) (\<lambda>_.
     let lname = str_lower (r_name reg) in
     case map_of (rb_name_to_offset rb) lname of
       Some other \<Rightarrow> Inl (BlockError (RegisterNameTaken (r_name reg) (r_offset reg) other))
     | None \<Rightarrow>
         bnd (add_flat_reg reg rb) (\<lambda>rb.
         Inr (rb\<lparr>rb_name_to_offset := AList.update lname (r_offset reg) (rb_name_to_offset rb),
                 rb_registers := rb_registers rb @ [reg],
                 rb_all_regs := rb_all_regs rb @ [EReg reg],
                 rb_entries := rb_entries rb @ [EReg reg],
                 rb_offset := register_next_offset (rb_addrsep rb) reg,
                 rb_wennames :=
                   (case r_regwen reg of
                      None \<Rightarrow> rb_wennames rb
                    | Some w \<Rightarrow> if w \<notin> set (rb_wennames rb) then rb_wennames rb @ [w]
                                else rb_wennames rb)\<rparr>)))"

definition add_window :: "window \<Rightarrow> regblock \<Rightarrow> regblock res" where
  "add_window win rb =
     (let lname = str_lower (w_name win) in
      bnd (py_assert (\<not> py_in lname (rb_name_to_offset rb))) (\<lambda>_.
      bnd (py_assert (rb_offset rb \<le> w_offset win)) (\<lambda>_.
      Inr (rb\<lparr>rb_name_to_offset := AList.update lname (w_offset win) (rb_name_to_offset rb),
              rb_windows := rb_windows rb @ [win],
              rb_entries := rb_entries rb @ [EWin win],
              rb_offset := window_next_offset win,
              rb_passthru := (rb_passthru rb \<or> w_passthru win)\<rparr>))))"

section \<open>The handlers of the entry types\<close>

definition handle_register :: "pyobj \<Rightarrow> regblock \<Rightarrow> regblock res" where
  "handle_register body rb =
     bnd (register_from_raw (rb_reg_width rb) (rb_offset rb) (rb_params rb) body) (\<lambda>reg.
     add_register reg rb)"

definition handle_reserved :: "pyobj \<Rightarrow> regblock \<Rightarrow> regblock res" where
  "handle_reserved body rb =
     bnd (check_int body) (\<lambda>nreserved.
     if nreserved \<le> 0 then Inl (BlockError (ReservedNotPositive nreserved))
     else Inr (rb\<lparr>rb_offset := rb_offset rb + rb_addrsep rb * nreserved\<rparr>))"

definition handle_skipto :: "pyobj \<Rightarrow> regblock \<Rightarrow> regblock res" where
  "handle_skipto body rb =
     bnd (check_int body) (\<lambda>skipto.
     if skipto < rb_offset rb then Inl (BlockError (SkiptoBackwards skipto (rb_offset rb)))
     else if skipto mod rb_addrsep rb \<noteq> 0
     then Inl (BlockError (SkiptoUnaligned skipto (rb_addrsep rb)))
     else Inr (rb\<lparr>rb_offset := skipto\<rparr>))"

definition handle_window :: "pyobj \<Rightarrow> regblock \<Rightarrow> regblock res" where
  "handle_window body rb =
     bnd (window_from_raw (rb_offset rb) (rb_reg_width rb) (rb_params rb) body) (\<lambda>win.
     case map_of (rb_name_to_offset rb) (str_lower (w_name win)) of
       Some other \<Rightarrow> Inl (BlockError (WindowNameTaken (w_name win) (w_offset win) other))
     | None \<Rightarrow> add_window win rb)"

definition multireg_step :: "multireg \<Rightarrow> regblock \<Rightarrow> register \<Rightarrow> regblock res" where
  "multireg_step mr rb reg =
     (let lname = str_lower (r_name reg) in
      case map_of (rb_name_to_offset rb) lname of
        Some other \<Rightarrow>
          Inl (BlockError (MultiregNameTaken (r_name (m_reg mr)) (r_offset (m_reg mr))
                 (r_name reg) (r_offset reg) other))
      | None \<Rightarrow>
          bnd (add_flat_reg reg rb) (\<lambda>rb.
          Inr (rb\<lparr>rb_name_to_offset :=
                    AList.update lname (r_offset reg) (rb_name_to_offset rb)\<rparr>)))"

definition handle_multireg :: "pyobj \<Rightarrow> regblock \<Rightarrow> regblock res" where
  "handle_multireg body rb =
     bnd (MultiRegister (rb_offset rb) (rb_addrsep rb) (rb_reg_width rb) (rb_params rb) body) (\<lambda>mr.
     bnd (foldR (multireg_step mr) rb (m_regs mr)) (\<lambda>rb.
     Inr (rb\<lparr>rb_multiregs := rb_multiregs rb @ [mr],
             rb_all_regs := rb_all_regs rb @ [EMulti mr],
             rb_entries := rb_entries rb @ [EMulti mr],
             rb_offset := multireg_next_offset (rb_addrsep rb) mr\<rparr>)))"

text \<open>The handler table of \<open>add_raw\<close>, and the loop that finds the type of an entry.\<close>

definition handlers :: "(string \<times> (pyobj \<Rightarrow> regblock \<Rightarrow> regblock res)) list" where
  "handlers =
     [(''register'', handle_register), (''reserved'', handle_reserved),
      (''skipto'', handle_skipto), (''window'', handle_window), (''multireg'', handle_multireg)]"

definition type_step ::
  "int \<Rightarrow> pydict \<Rightarrow> string \<times> pyobj \<Rightarrow> string \<Rightarrow> (string \<times> pyobj) res" where
  "type_step offset entry found t =
     (let t_body = dget entry t in
      if t_body \<noteq> PNone then
        if length entry \<noteq> 1 then
          (let other_keys = filter (\<lambda>k. k \<noteq> t) (map fst entry) in
           bnd (py_assert (other_keys \<noteq> [])) (\<lambda>_.
           Inl (BlockError (EntryOtherKeys offset t other_keys))))
        else Inr (t, t_body)
      else Inr found)"

definition entry_type :: "int \<Rightarrow> pydict \<Rightarrow> pyobj \<Rightarrow> (string \<times> pyobj) res" where
  "entry_type offset entry raw =
     foldR (type_step offset entry) (''register'', raw)
       [''reserved'', ''skipto'', ''window'', ''multireg'']"

definition add_raw :: "regblock \<Rightarrow> pyobj \<Rightarrow> regblock res" where
  "add_raw rb raw =
     bnd (check_str_dict raw) (\<lambda>entry.
     bnd (entry_type (rb_offset rb) entry raw) (\<lambda>(etype, entry_body).
     case map_of handlers etype of
       None \<Rightarrow> Inl (KeyError etype)
     | Some handler \<Rightarrow> handler entry_body rb))"

definition add_raw_registers :: "pyobj \<Rightarrow> regblock \<Rightarrow> regblock res" where
  "add_raw_registers raw rb = bnd (check_list raw) (\<lambda>rl. foldR add_raw rb rl)"

section \<open>The check of the write enables\<close>

text \<open>
  \<open>re.fullmatch(r'(.+_)*REGWEN(_[0-9]+)?', s)\<close>: what comes before the word is empty, or at
  least two characters without a newline that end in an underscore; what comes after it is
  empty, or an underscore and digits.
\<close>

definition wen_prefix :: "string \<Rightarrow> bool" where
  "wen_prefix p \<longleftrightarrow> p = [] \<or> (2 \<le> length p \<and> last p = CHR ''_'' \<and> newline \<notin> set p)"

definition wen_suffix :: "string \<Rightarrow> bool" where
  "wen_suffix s \<longleftrightarrow> s = [] \<or> (2 \<le> length s \<and> hd s = CHR ''_'' \<and> list_all is_digit (tl s))"

definition regwen_name :: "string \<Rightarrow> bool" where
  "regwen_name s \<longleftrightarrow>
     list_ex (\<lambda>i. wen_prefix (take i s) \<and> starts_with ''REGWEN'' (drop i s) \<and>
                  wen_suffix (drop (i + 6) s)) [0..<length s]"

definition check_wen :: "regblock \<Rightarrow> string \<Rightarrow> unit res" where
  "check_wen rb wenname =
     (if \<not> regwen_name wenname then Inl (BlockError (RegwenBadName wenname))
      else case map_of (rb_name_to_flat_reg rb) (str_lower wenname) of
        None \<Rightarrow> Inl (BlockError (RegwenMissing wenname))
      | Some wen_reg \<Rightarrow>
          if sw_key (r_swaccess wen_reg) \<noteq> ''ro'' \<and> r_resval wen_reg = 0
          then Inl (BlockError (RegwenResetZero wenname))
          else if sw_key (r_swaccess wen_reg) = ''rw0c'' then Inr ()
          else if sw_key (r_swaccess wen_reg) = ''ro'' \<and> hw_key (r_hwaccess wen_reg) = ''hwo''
          then Inr ()
          else Inl (BlockError (RegwenBadAccess wenname (sw_key (r_swaccess wen_reg))
                 (hw_key (r_hwaccess wen_reg)))))"

definition validate :: "regblock \<Rightarrow> unit res" where
  "validate rb = foldR (\<lambda>_ wenname. check_wen rb wenname) () (rb_wennames rb)"

section \<open>The registers field of a description\<close>

definition block_step ::
  "regblock \<times> (string option \<times> regblock) list \<Rightarrow> nat \<times> (pyobj \<times> pyobj) \<Rightarrow>
     (regblock \<times> (string option \<times> regblock) list) res" where
  "block_step st item =
     (case (st, item) of ((block, ret), (idx, (r_key, r_val))) \<Rightarrow>
        let block = (if 0 < idx then RegBlock (rb_reg_width block) (rb_params block) else block) in
        bnd (check_str r_key) (\<lambda>rb_key.
        bnd (check_list r_val) (\<lambda>rb_val.
        bnd (add_raw_registers (PList rb_val) block) (\<lambda>block.
        bnd (validate block) (\<lambda>_.
        bnd (py_assert (\<not> py_in (Some rb_key) ret)) (\<lambda>_.
        Inr (block, ret @ [(Some rb_key, block)])))))))"

definition build_blocks :: "regblock \<Rightarrow> pyobj \<Rightarrow> (string option \<times> regblock) list res" where
  "build_blocks block raw =
     (case raw of
        PList l \<Rightarrow> bnd (add_raw_registers raw block) (\<lambda>block. Inr [(None, block)])
      | PDict d \<Rightarrow> bnd (foldR block_step (block, []) (enumerate 0 d)) (\<lambda>(block, ret). Inr ret)
      | _ \<Rightarrow> Inl (BlockError RegistersNotListOrDict))"

section \<open>Interrupt and alert registers\<close>

datatype desc_fmt = FmtNone | FmtStr string | FmtFun "bool \<Rightarrow> string \<Rightarrow> string"

definition intr_field ::
  "desc_fmt \<Rightarrow> swaccess \<Rightarrow> hwaccess \<Rightarrow> bool \<Rightarrow> signal \<Rightarrow> field" where
  "intr_field field_desc_fmt swaccess hwaccess is_testreg s =
     (let field_desc =
            (case field_desc_fmt of
               FmtNone \<Rightarrow> s_desc s
             | FmtStr d \<Rightarrow> d
             | FmtFun fmt \<Rightarrow> fmt (1 < bits_width (s_bits s)) (s_name s))
      in \<lparr>f_name = s_name s, f_desc = Some (if field_desc \<noteq> [] then field_desc else s_desc s),
          f_tags = [], f_swaccess = swaccess, f_hwaccess = hwaccess, f_hwqe = is_testreg,
          f_hwre = False, f_bits = s_bits s, f_resval = Some 0, f_enum = None\<rparr>)"

definition add_intr_alert_reg ::
  "signal list \<Rightarrow> string \<Rightarrow> string \<Rightarrow> desc_fmt \<Rightarrow> string \<Rightarrow> string \<Rightarrow> bool \<Rightarrow> string list \<Rightarrow>
     regblock \<Rightarrow> regblock res" where
  "add_intr_alert_reg signals reg_name reg_desc field_desc_fmt swaccess hwaccess is_testreg
       reg_tags rb =
     bnd (SWAccess (PStr swaccess)) (\<lambda>swaccess_obj.
     bnd (HWAccess (PStr hwaccess)) (\<lambda>hwaccess_obj.
     let flds = map (intr_field field_desc_fmt swaccess_obj hwaccess_obj is_testreg) signals in
     bnd (Register (rb_offset rb) reg_name reg_desc swaccess_obj hwaccess_obj is_testreg is_testreg
            False None reg_tags None False flds None None) (\<lambda>reg.
     add_register reg rb)))"

definition enable_desc :: "bool \<Rightarrow> string \<Rightarrow> string" where
  "enable_desc w n = ''Enable interrupt when '' @ (if w then ''corresponding bit in '' else []) @
     ''!!INTR_STATE.'' @ n @ '' is set.''"

definition test_desc :: "bool \<Rightarrow> string \<Rightarrow> string" where
  "test_desc w n = ''Write 1 to force '' @ (if w then ''corresponding bit in '' else []) @
     ''!!INTR_STATE.'' @ n @ '' to 1.''"

definition make_intr_regs :: "signal list \<Rightarrow> regblock \<Rightarrow> regblock res" where
  "make_intr_regs interrupts rb =
     bnd (py_assert (interrupts \<noteq> [])) (\<lambda>_.
     bnd (py_assert (b_msb (s_bits (last interrupts)) < rb_reg_width rb)) (\<lambda>_.
     bnd (add_intr_alert_reg interrupts ''INTR_STATE'' ''Interrupt State Register'' FmtNone
            ''rw1c'' ''hrw'' False [''excl:CsrNonInitTests:CsrExclWriteCheck''] rb) (\<lambda>rb.
     bnd (add_intr_alert_reg interrupts ''INTR_ENABLE'' ''Interrupt Enable Register''
            (FmtFun enable_desc) ''rw'' ''hro'' False [] rb) (\<lambda>rb.
     add_intr_alert_reg interrupts ''INTR_TEST'' ''Interrupt Test Register'' (FmtFun test_desc)
       ''wo'' ''hro'' True [''excl:CsrNonInitTests:CsrExclWrite''] rb))))"

definition make_alert_regs :: "alert list \<Rightarrow> regblock \<Rightarrow> regblock res" where
  "make_alert_regs alerts rb =
     bnd (py_assert (alerts \<noteq> [])) (\<lambda>_.
     bnd (py_assert (int (length alerts) < rb_reg_width rb)) (\<lambda>_.
     add_intr_alert_reg (map signal.truncate alerts) ''ALERT_TEST'' ''Alert Test Register''
       (FmtStr ''Write 1 to trigger one alert event of this kind.'') ''wo'' ''hro'' True [] rb))"

section \<open>Queries and printing\<close>

definition regblock_get_n_bits :: "string list \<Rightarrow> regblock \<Rightarrow> int" where
  "regblock_get_n_bits bittype rb = sum_list (map (register_get_n_bits bittype) (rb_flat_regs rb))"

definition get_addr_width :: "regblock \<Rightarrow> nat" where
  "get_addr_width rb = bit_length (rb_offset rb - 1)"

fun entry_offset :: "entry \<Rightarrow> int" where
  "entry_offset (EReg r) = r_offset r"
| "entry_offset (EMulti m) = m_offset m"
| "entry_offset (EWin w) = w_offset w"

fun entry_next :: "int \<Rightarrow> entry \<Rightarrow> int" where
  "entry_next sep (EReg r) = register_next_offset sep r"
| "entry_next sep (EMulti m) = multireg_next_offset sep m"
| "entry_next sep (EWin w) = window_next_offset w"

text \<open>\<open>as_dicts\<close> lists the entries, with a count of reserved words for each gap.\<close>

datatype listing = Reserved int | Entry entry

definition listing_step ::
  "int \<Rightarrow> listing list \<times> int \<Rightarrow> entry \<Rightarrow> (listing list \<times> int) res" where
  "listing_step sep st e =
     (case st of (entries, offset) \<Rightarrow>
        let next_off = entry_offset e in
        bnd (py_assert (offset \<le> next_off)) (\<lambda>_.
        let res_bytes = next_off - offset in
        bnd (if res_bytes \<noteq> 0 then
               bnd (py_assert (res_bytes mod sep = 0)) (\<lambda>_.
               Inr (entries @ [Reserved (res_bytes div sep)]))
             else Inr entries) (\<lambda>entries.
        Inr (entries @ [Entry e], entry_next sep e))))"

definition regblock_as_dicts :: "regblock \<Rightarrow> listing list res" where
  "regblock_as_dicts rb =
     bnd (foldR (listing_step (rb_addrsep rb)) ([], 0) (rb_entries rb)) (\<lambda>(entries, offset).
     Inr entries)"

end
