(* ===== verification/Regblock_Layout.thy ===== *)
theory Regblock_Layout
  imports Reggen_Regblock
begin

text \<open>
  The contract of \<open>RegBlock\<close>. A block is abstractly its width, its parameters, its end offset
  and its list of entries; \<open>block_of\<close> builds every redundant list and dictionary of the object
  from those four. The operations keep the object equal to what \<open>block_of\<close> builds, and they
  keep the entries in order, apart from each other and under different names.
\<close>

section \<open>The object a list of entries stands for\<close>

fun entry_regs :: "entry \<Rightarrow> register list" where
  "entry_regs (EReg r) = [r]"
| "entry_regs (EMulti m) = m_regs m"
| "entry_regs (EWin w) = []"

definition reg_item :: "register \<Rightarrow> string \<times> int" where
  "reg_item r = (str_lower (r_name r), r_offset r)"

fun entry_names :: "entry \<Rightarrow> (string \<times> int) list" where
  "entry_names (EWin w) = [(str_lower (w_name w), w_offset w)]"
| "entry_names (EReg r) = [reg_item r]"
| "entry_names (EMulti m) = map reg_item (m_regs m)"

fun add_wen :: "string list \<Rightarrow> entry \<Rightarrow> string list" where
  "add_wen ws (EReg r) =
     (case r_regwen r of None \<Rightarrow> ws | Some w \<Rightarrow> if w \<notin> set ws then ws @ [w] else ws)"
| "add_wen ws (EMulti m) = ws"
| "add_wen ws (EWin w) = ws"

definition flat_of :: "entry list \<Rightarrow> register list" where
  "flat_of es = concat (map entry_regs es)"

definition names_of :: "entry list \<Rightarrow> (string \<times> int) list" where
  "names_of es = concat (map entry_names es)"

definition block_of :: "int \<Rightarrow> params \<Rightarrow> int \<Rightarrow> entry list \<Rightarrow> regblock" where
  "block_of w ps off es =
     \<lparr>rb_addrsep = (w + 7) div 8, rb_reg_width = w, rb_params = ps, rb_offset = off,
      rb_multiregs = concat (map (\<lambda>e. case e of EMulti m \<Rightarrow> [m] | _ \<Rightarrow> []) es),
      rb_registers = concat (map (\<lambda>e. case e of EReg r \<Rightarrow> [r] | _ \<Rightarrow> []) es),
      rb_windows = concat (map (\<lambda>e. case e of EWin w \<Rightarrow> [w] | _ \<Rightarrow> []) es),
      rb_passthru = list_ex (\<lambda>e. case e of EWin w \<Rightarrow> w_passthru w | _ \<Rightarrow> False) es,
      rb_flat_regs = flat_of es,
      rb_all_regs = filter (\<lambda>e. case e of EWin w \<Rightarrow> False | _ \<Rightarrow> True) es,
      rb_entries = es,
      rb_name_to_offset = names_of es,
      rb_name_to_flat_reg = map (\<lambda>r. (str_lower (r_name r), r)) (flat_of es),
      rb_wennames = foldl add_wen [] es\<rparr>"

fun wf_entry :: "int \<Rightarrow> int \<Rightarrow> entry \<Rightarrow> bool" where
  "wf_entry w sep (EReg r) \<longleftrightarrow> wf_register w r"
| "wf_entry w sep (EMulti m) \<longleftrightarrow> wf_multireg w sep m"
| "wf_entry w sep (EWin win) \<longleftrightarrow> wf_window w win"

definition wf_block :: "regblock \<Rightarrow> bool" where
  "wf_block rb \<longleftrightarrow>
     0 < rb_reg_width rb \<and>
     rb = block_of (rb_reg_width rb) (rb_params rb) (rb_offset rb) (rb_entries rb) \<and>
     list_all (wf_entry (rb_reg_width rb) (rb_addrsep rb)) (rb_entries rb) \<and>
     chain entry_offset (entry_next (rb_addrsep rb)) 0 (rb_entries rb) (rb_offset rb) \<and>
     distinct (map fst (names_of (rb_entries rb)))"

lemma block_of_sel [simp]:
  "rb_addrsep (block_of w ps off es) = (w + 7) div 8"
  "rb_reg_width (block_of w ps off es) = w"
  "rb_params (block_of w ps off es) = ps"
  "rb_offset (block_of w ps off es) = off"
  "rb_entries (block_of w ps off es) = es"
  "rb_flat_regs (block_of w ps off es) = flat_of es"
  "rb_name_to_offset (block_of w ps off es) = names_of es"
  "rb_name_to_flat_reg (block_of w ps off es) = map (\<lambda>r. (str_lower (r_name r), r)) (flat_of es)"
  "rb_wennames (block_of w ps off es) = foldl add_wen [] es"
  by (simp_all add: block_of_def)

lemma wf_block_of:
  "wf_block (block_of w ps off es) \<longleftrightarrow>
     0 < w \<and> list_all (wf_entry w ((w + 7) div 8)) es \<and>
     chain entry_offset (entry_next ((w + 7) div 8)) 0 es off \<and> distinct (map fst (names_of es))"
  by (simp add: wf_block_def)

lemma wf_blockE:
  assumes "wf_block rb"
  obtains w ps off es where "rb = block_of w ps off es"
  using assms unfolding wf_block_def by blast

lemma addrsep_pos: "0 < w \<Longrightarrow> 0 < (w + 7) div (8 :: int)"
  by (simp add: pos_imp_zdiv_pos_iff)

lemma entry_nonempty:
  assumes "0 < sep" and "wf_entry w sep e"
  shows "entry_offset e < entry_next sep e"
proof (cases e)
  case (EMulti m)
  with assms have m: "wf_multireg w sep m" by simp
  have "0 < int (length (m_regs m)) * sep"
    using creg_count_pos [OF m] assms(1) by (simp add: length_cregs [OF m])
  with EMulti show ?thesis by (simp add: multireg_next_offset_def)
qed (use assms in \<open>auto simp: register_next_offset_def window_next_offset_def wf_window_def\<close>)

interpretation entries: region entry_offset "entry_next sep" "\<lambda>e. 0 < sep \<and> wf_entry w sep e" for w sep
  by unfold_locales (auto intro: entry_nonempty)

section \<open>Names\<close>

lemma lower_lower [simp]: "str_lower (str_lower s) = str_lower s"
  by (simp add: str_lower_def lower_char_def is_upper_def)

lemma names_lower: "k \<in> fst ` set (names_of es) \<Longrightarrow> str_lower k = k"
proof -
  have "str_lower (fst x) = fst x" if "x \<in> set (entry_names e)" for x e
    using that by (cases e) (auto simp: reg_item_def)
  then show "k \<in> fst ` set (names_of es) \<Longrightarrow> str_lower k = k" by (auto simp: names_of_def)
qed

lemma flat_names: "r \<in> set (flat_of es) \<Longrightarrow> reg_item r \<in> set (names_of es)"
proof -
  have "reg_item r \<in> set (entry_names e)" if "r \<in> set (entry_regs e)" for e
    using that by (cases e) auto
  then show "r \<in> set (flat_of es) \<Longrightarrow> reg_item r \<in> set (names_of es)"
    by (fastforce simp: names_of_def flat_of_def)
qed

text \<open>What the two dictionaries keep while the registers of one entry are added.\<close>

definition names_ok :: "regblock \<Rightarrow> bool" where
  "names_ok rb \<longleftrightarrow>
     (\<forall>k \<in> fst ` set (rb_name_to_offset rb). str_lower k = k) \<and>
     fst ` set (rb_name_to_flat_reg rb) \<subseteq> fst ` set (rb_name_to_offset rb) \<and>
     distinct (map fst (rb_name_to_offset rb))"

lemma names_ok_block: "distinct (map fst (names_of es)) \<Longrightarrow> names_ok (block_of w ps off es)"
proof -
  have "str_lower (r_name r) \<in> fst ` set (names_of es)" if "r \<in> set (flat_of es)" for r
    using imageI [OF flat_names [OF that], of fst] by (simp add: reg_item_def)
  then show "distinct (map fst (names_of es)) \<Longrightarrow> names_ok (block_of w ps off es)"
    by (auto simp: names_ok_def names_lower simp del: image_eqI)
qed

lemma add_flat_reg_fresh:
  assumes "names_ok rb" and "\<not> py_in (str_lower (r_name reg)) (rb_name_to_offset rb)"
  shows "add_flat_reg reg rb = Inr (rb\<lparr>rb_flat_regs := rb_flat_regs rb @ [reg],
     rb_name_to_flat_reg := rb_name_to_flat_reg rb @ [(str_lower (r_name reg), reg)]\<rparr>)"
proof -
  have "\<not> py_in (r_name reg) (rb_name_to_offset rb)"
  proof
    assume "py_in (r_name reg) (rb_name_to_offset rb)"
    with assms(1) have "str_lower (r_name reg) = r_name reg" unfolding names_ok_def by blast
    with assms(2) \<open>py_in (r_name reg) (rb_name_to_offset rb)\<close> show False by simp
  qed
  moreover have "\<not> py_in (str_lower (r_name reg)) (rb_name_to_flat_reg rb)"
    "\<not> py_in (r_name reg) (rb_name_to_flat_reg rb)"
    using assms calculation unfolding names_ok_def by blast+
  ultimately show ?thesis by (simp add: add_flat_reg_def update_fresh)
qed

section \<open>One entry at a time\<close>

lemma add_register_eq:
  assumes wf: "wf_block rb" and off: "r_offset reg = rb_offset rb"
  shows "add_register reg rb =
    (case map_of (rb_name_to_offset rb) (str_lower (r_name reg)) of
       Some other \<Rightarrow> Inl (BlockError (RegisterNameTaken (r_name reg) (r_offset reg) other))
     | None \<Rightarrow> Inr (block_of (rb_reg_width rb) (rb_params rb)
                     (r_offset reg + rb_addrsep rb) (rb_entries rb @ [EReg reg])))"
proof (cases "map_of (rb_name_to_offset rb) (str_lower (r_name reg))")
  case None
  from wf obtain w ps o' es where rb: "rb = block_of w ps o' es" by (rule wf_blockE)
  have ok: "names_ok rb" using wf unfolding rb by (simp add: wf_block_of names_ok_block)
  have fresh: "\<not> py_in (str_lower (r_name reg)) (rb_name_to_offset rb)"
    using None by (simp add: map_of_eq_None_iff)
  show ?thesis
    unfolding add_register_def Let_def add_flat_reg_fresh [OF ok fresh]
    using None fresh off
    by (simp add: rb update_fresh block_of_def flat_of_def names_of_def
        reg_item_def register_next_offset_def split: option.split)
qed (simp add: add_register_def Let_def off)

lemma add_window_eq:
  assumes wf: "wf_block rb" and off: "rb_offset rb \<le> w_offset win"
    and fresh: "\<not> py_in (str_lower (w_name win)) (rb_name_to_offset rb)"
  shows "add_window win rb = Inr (block_of (rb_reg_width rb) (rb_params rb)
     (w_offset win + w_size win) (rb_entries rb @ [EWin win]))"
proof -
  from wf obtain w ps o' es where rb: "rb = block_of w ps o' es" by (rule wf_blockE)
  show ?thesis
    unfolding add_window_def Let_def
    using off fresh
    by (simp add: rb update_fresh block_of_def flat_of_def names_of_def window_next_offset_def)
qed

definition with_regs :: "register list \<Rightarrow> regblock \<Rightarrow> regblock" where
  "with_regs rs rb =
     rb\<lparr>rb_flat_regs := rb_flat_regs rb @ rs,
        rb_name_to_flat_reg := rb_name_to_flat_reg rb @ map (\<lambda>r. (str_lower (r_name r), r)) rs,
        rb_name_to_offset := rb_name_to_offset rb @ map reg_item rs\<rparr>"

lemma multireg_step_eq:
  assumes "names_ok rb"
  shows "multireg_step mr rb reg =
    (case map_of (rb_name_to_offset rb) (str_lower (r_name reg)) of
       Some other \<Rightarrow> Inl (BlockError (MultiregNameTaken (r_name (m_reg mr)) (r_offset (m_reg mr))
         (r_name reg) (r_offset reg) other))
     | None \<Rightarrow> Inr (with_regs [reg] rb))"
proof (cases "map_of (rb_name_to_offset rb) (str_lower (r_name reg))")
  case None
  then have fresh: "\<not> py_in (str_lower (r_name reg)) (rb_name_to_offset rb)"
    by (simp add: map_of_eq_None_iff)
  show ?thesis
    unfolding multireg_step_def Let_def add_flat_reg_fresh [OF assms fresh]
    using None fresh by (simp add: with_regs_def update_fresh reg_item_def)
qed (simp add: multireg_step_def)

lemma with_regs_ok:
  "names_ok rb \<Longrightarrow> map_of (rb_name_to_offset rb) (str_lower (r_name reg)) = None \<Longrightarrow>
     names_ok (with_regs [reg] rb)"
  by (auto simp: names_ok_def with_regs_def reg_item_def map_of_eq_None_iff)

interpretation multi_loop: invariant_step "multireg_step mr" names_ok for mr
proof
  fix rb reg rb'
  assume ok: "names_ok rb" and step: "multireg_step mr rb reg = Inr rb'"
  then show "names_ok rb'"
    by (auto simp: multireg_step_eq with_regs_ok split: option.splits)
qed

lemma multi_loop_eq:
  "names_ok rb \<Longrightarrow> foldR (multireg_step mr) rb rs = Inr rb' \<Longrightarrow>
     rb' = with_regs rs rb \<and> distinct (map fst (rb_name_to_offset rb @ map reg_item rs))"
proof (induction rs arbitrary: rb)
  case Nil
  then show ?case by (simp add: with_regs_def names_ok_def)
next
  case (Cons r rs)
  from Cons.prems have fresh: "map_of (rb_name_to_offset rb) (str_lower (r_name r)) = None"
    and rest: "foldR (multireg_step mr) (with_regs [r] rb) rs = Inr rb'"
    by (auto simp: multireg_step_eq split: option.splits)
  have "names_ok (with_regs [r] rb)" using Cons.prems(1) fresh by (rule with_regs_ok)
  from Cons.IH [OF this rest] show ?case by (simp add: with_regs_def)
qed

lemma handle_multireg_eq:
  assumes wf: "wf_block rb" and h: "handle_multireg body rb = Inr rb'"
  obtains mr where
    "MultiRegister (rb_offset rb) (rb_addrsep rb) (rb_reg_width rb) (rb_params rb) body = Inr mr"
    "rb' = block_of (rb_reg_width rb) (rb_params rb)
       (multireg_next_offset (rb_addrsep rb) mr) (rb_entries rb @ [EMulti mr])"
    "distinct (map fst (names_of (rb_entries rb @ [EMulti mr])))"
proof -
  from wf obtain w ps o' es where rb: "rb = block_of w ps o' es" by (rule wf_blockE)
  have ok: "names_ok rb" using wf unfolding rb by (simp add: wf_block_of names_ok_block)
  from h obtain mr rb1 where
    mr: "MultiRegister (rb_offset rb) (rb_addrsep rb) (rb_reg_width rb) (rb_params rb) body = Inr mr"
    and fold: "foldR (multireg_step mr) rb (m_regs mr) = Inr rb1"
    and rb': "rb' = rb1\<lparr>rb_multiregs := rb_multiregs rb1 @ [mr],
      rb_all_regs := rb_all_regs rb1 @ [EMulti mr], rb_entries := rb_entries rb1 @ [EMulti mr],
      rb_offset := multireg_next_offset (rb_addrsep rb1) mr\<rparr>"
    by (auto simp: handle_multireg_def)
  from multi_loop_eq [OF ok fold] have rb1: "rb1 = with_regs (m_regs mr) rb"
    and dist: "distinct (map fst (rb_name_to_offset rb @ map reg_item (m_regs mr)))" by auto
  have "rb' = block_of (rb_reg_width rb) (rb_params rb)
       (multireg_next_offset (rb_addrsep rb) mr) (rb_entries rb @ [EMulti mr])"
    unfolding rb' rb1 by (simp add: rb with_regs_def block_of_def flat_of_def names_of_def)
  moreover have "distinct (map fst (names_of (rb_entries rb @ [EMulti mr])))"
    using dist by (simp add: rb names_of_def)
  ultimately show ?thesis using that mr by blast
qed

section \<open>Every operation keeps the contract\<close>

lemma wf_block_extend:
  assumes "wf_block rb" and "wf_entry (rb_reg_width rb) (rb_addrsep rb) e"
    and "rb_offset rb \<le> entry_offset e" and "distinct (map fst (names_of (rb_entries rb @ [e])))"
  shows "wf_block (block_of (rb_reg_width rb) (rb_params rb) (entry_next (rb_addrsep rb) e)
     (rb_entries rb @ [e]))"
proof -
  from assms(1) obtain w ps off es where rb: "rb = block_of w ps off es" by (rule wf_blockE)
  have "entry_offset e \<le> entry_next ((w + 7) div 8) e"
    using assms(1,2) by (intro less_imp_le entry_nonempty addrsep_pos) (simp_all add: rb wf_block_of)
  then have "chain entry_offset (entry_next ((w + 7) div 8)) 0 (es @ [e]) (entry_next ((w + 7) div 8) e)"
    using assms by (intro chain_snoc [of _ _ _ _ off]) (simp_all add: rb wf_block_of)
  then show ?thesis using assms by (simp add: rb wf_block_of)
qed

lemma wf_block_advance:
  assumes "wf_block rb" and "rb_offset rb \<le> off"
  shows "wf_block (rb\<lparr>rb_offset := off\<rparr>)"
proof -
  from assms(1) obtain w ps o' es where rb: "rb = block_of w ps o' es" by (rule wf_blockE)
  have "rb\<lparr>rb_offset := off\<rparr> = block_of w ps off es" by (simp add: rb block_of_def)
  then show ?thesis using assms by (auto simp: rb wf_block_of intro: chain_weaken)
qed

lemma RegBlock_wf: "0 < w \<Longrightarrow> wf_block (RegBlock w ps)"
proof -
  have "RegBlock w ps = block_of w ps 0 []"
    by (simp add: RegBlock_def block_of_def flat_of_def names_of_def)
  then show "0 < w \<Longrightarrow> wf_block (RegBlock w ps)" by (simp add: wf_block_of names_of_def)
qed

lemma wf_block_params:
  assumes "wf_block rb" shows "wf_block (rb\<lparr>rb_params := ps\<rparr>)"
proof -
  from assms(1) obtain w qs o' es where rb: "rb = block_of w qs o' es" by (rule wf_blockE)
  have "rb\<lparr>rb_params := ps\<rparr> = block_of w ps o' es" by (simp add: rb block_of_def)
  then show ?thesis using assms by (simp add: rb wf_block_of)
qed

lemma wf_block_sep: "wf_block rb \<Longrightarrow> rb_addrsep rb = (rb_reg_width rb + 7) div 8 \<and> 0 < rb_addrsep rb"
  unfolding wf_block_def by (metis addrsep_pos block_of_sel(1))

lemma names_snoc:
  assumes "wf_block rb" and "map_of (rb_name_to_offset rb) k = None" and "entry_names e = [(k, v)]"
  shows "distinct (map fst (names_of (rb_entries rb @ [e])))"
proof -
  from assms(1) obtain w ps off es where rb: "rb = block_of w ps off es" by (rule wf_blockE)
  show ?thesis using assms unfolding rb by (simp add: wf_block_of names_of_def map_of_eq_None_iff)
qed

lemma add_register_wf:
  assumes "wf_block rb" and "wf_register (rb_reg_width rb) reg" and "r_offset reg = rb_offset rb"
    and "add_register reg rb = Inr rb'"
  shows "wf_block rb'" "rb' = block_of (rb_reg_width rb) (rb_params rb)
     (rb_offset rb + rb_addrsep rb) (rb_entries rb @ [EReg reg])"
proof -
  from assms have none: "map_of (rb_name_to_offset rb) (str_lower (r_name reg)) = None"
    and rb': "rb' = block_of (rb_reg_width rb) (rb_params rb)
     (r_offset reg + rb_addrsep rb) (rb_entries rb @ [EReg reg])"
    by (auto simp: add_register_eq split: option.splits)
  show "rb' = block_of (rb_reg_width rb) (rb_params rb)
     (rb_offset rb + rb_addrsep rb) (rb_entries rb @ [EReg reg])" using rb' assms(3) by simp
  show "wf_block rb'"
    using wf_block_extend [of rb "EReg reg"] assms names_snoc [OF assms(1) none, of "EReg reg"] rb'
    by (simp add: register_next_offset_def reg_item_def)
qed

lemma register_from_raw_offset: "register_from_raw w off ps raw = Inr r \<Longrightarrow> r_offset r = off"
  by (erule register_from_raw_parts) (simp add: Register_Inr reg_record_def)

lemma handle_register_wf:
  assumes "wf_block rb" and "handle_register body rb = Inr rb'"
  shows "wf_block rb'"
  using assms
  by (auto simp: handle_register_def intro: add_register_wf(1) register_from_raw_wf
      register_from_raw_offset)

lemma handle_reserved_wf:
  assumes "wf_block rb" and "handle_reserved body rb = Inr rb'"
  shows "wf_block rb'"
  using assms wf_block_sep [OF assms(1)]
  by (auto simp: handle_reserved_def intro!: wf_block_advance split: if_splits)

lemma handle_skipto_wf:
  assumes "wf_block rb" and "handle_skipto body rb = Inr rb'"
  shows "wf_block rb'"
  using assms by (auto simp: handle_skipto_def intro!: wf_block_advance split: if_splits)

lemma handle_window_eq:
  assumes wf: "wf_block rb" and h: "handle_window body rb = Inr rb'"
  obtains win where
    "window_from_raw (rb_offset rb) (rb_reg_width rb) (rb_params rb) body = Inr win"
    "map_of (rb_name_to_offset rb) (str_lower (w_name win)) = None"
    "rb' = block_of (rb_reg_width rb) (rb_params rb) (w_offset win + w_size win)
       (rb_entries rb @ [EWin win])"
proof -
  from h obtain win where
    win: "window_from_raw (rb_offset rb) (rb_reg_width rb) (rb_params rb) body = Inr win"
    and none: "map_of (rb_name_to_offset rb) (str_lower (w_name win)) = None"
    and add: "add_window win rb = Inr rb'"
    by (auto simp: handle_window_def split: option.splits)
  have "rb_offset rb \<le> w_offset win"
    using window_from_raw_wf(2) [OF win] align_offset_spec(2) by simp
  with add_window_eq [OF wf this] add none win that show ?thesis
    by (simp add: map_of_eq_None_iff)
qed

lemma handle_window_wf:
  assumes "wf_block rb" and "handle_window body rb = Inr rb'"
  shows "wf_block rb'"
proof -
  from handle_window_eq [OF assms] obtain win where
    win: "window_from_raw (rb_offset rb) (rb_reg_width rb) (rb_params rb) body = Inr win"
    and none: "map_of (rb_name_to_offset rb) (str_lower (w_name win)) = None"
    and rb': "rb' = block_of (rb_reg_width rb) (rb_params rb) (w_offset win + w_size win)
       (rb_entries rb @ [EWin win])" by blast
  show ?thesis
    using wf_block_extend [OF assms(1), of "EWin win"] names_snoc [OF assms(1) none, of "EWin win"]
      window_from_raw_wf [OF win] align_offset_spec(2) rb'
    by (simp add: window_next_offset_def)
qed

lemma handle_multireg_wf:
  assumes "wf_block rb" and "handle_multireg body rb = Inr rb'"
  shows "wf_block rb'"
proof -
  from handle_multireg_eq [OF assms] obtain mr where
    mr: "MultiRegister (rb_offset rb) (rb_addrsep rb) (rb_reg_width rb) (rb_params rb) body = Inr mr"
    and rb': "rb' = block_of (rb_reg_width rb) (rb_params rb)
       (multireg_next_offset (rb_addrsep rb) mr) (rb_entries rb @ [EMulti mr])"
    and dist: "distinct (map fst (names_of (rb_entries rb @ [EMulti mr])))" by blast
  show ?thesis
    using wf_block_extend [OF assms(1), of "EMulti mr"] MultiRegister_wf [OF mr] dist rb' by simp
qed

lemma add_raw_handler:
  assumes "add_raw rb raw = Inr rb'"
  obtains body h where "h \<in> snd ` set handlers" "h body rb = Inr rb'"
proof -
  from assms obtain entry where e: "check_str_dict raw = Inr entry"
    by (cases "check_str_dict raw") (simp_all add: add_raw_def)
  with assms obtain t body where t: "entry_type (rb_offset rb) entry raw = Inr (t, body)"
    by (cases "entry_type (rb_offset rb) entry raw") (auto simp add: add_raw_def)
  have c: "(case map_of handlers t of None \<Rightarrow> Inl (KeyError t)
      | Some handler \<Rightarrow> handler body rb) = Inr rb'"
    using assms e t by (simp add: add_raw_def)
  then obtain h where h: "map_of handlers t = Some h"
    by (cases "map_of handlers t") simp_all
  have "h \<in> snd ` set handlers" using map_of_SomeD [OF h] by (rule rev_image_eqI) simp
  then show ?thesis using that c h by simp
qed

lemma add_raw_wf:
  assumes "wf_block rb" and "add_raw rb raw = Inr rb'"
  shows "wf_block rb'"
proof -
  obtain body h where "h \<in> snd ` set handlers" "h body rb = Inr rb'"
    by (rule add_raw_handler [OF assms(2)])
  then show ?thesis
    by (auto simp: handlers_def dest: handle_register_wf [OF assms(1)] handle_reserved_wf [OF assms(1)]
        handle_skipto_wf [OF assms(1)] handle_window_wf [OF assms(1)] handle_multireg_wf [OF assms(1)])
qed

interpretation raw_loop: invariant_step add_raw wf_block
  by unfold_locales (rule add_raw_wf)

lemma add_raw_registers_wf:
  "wf_block rb \<Longrightarrow> add_raw_registers raw rb = Inr rb' \<Longrightarrow> wf_block rb'"
  by (auto simp: add_raw_registers_def intro: raw_loop.fold_inv)

section \<open>Queries on a well-formed block\<close>

lemma subseq_distinct: "subseq xs ys \<Longrightarrow> distinct ys \<Longrightarrow> distinct xs"
  by (induction rule: list_emb.induct) (auto dest: list_emb_set)

lemma block_names_distinct:
  "wf_block rb \<Longrightarrow> distinct (map (\<lambda>r. str_lower (r_name r)) (rb_flat_regs rb))"
proof -
  have map: "map fst (entry_names e) = map (\<lambda>r. str_lower (r_name r)) (entry_regs e)"
    if "entry_regs e \<noteq> []" for e
    using that by (cases e) (auto simp: reg_item_def)
  have "subseq (map (\<lambda>r. str_lower (r_name r)) (flat_of es)) (map fst (names_of es))" for es
  proof (induction es)
    case (Cons e es)
    then show ?case
      using map [of e]
      by (cases "entry_regs e = []") (auto simp: flat_of_def names_of_def list_emb_append2 list_emb_append_mono)
  qed (simp add: flat_of_def names_of_def)
  note sub = subseq_distinct [OF this]
  assume wf: "wf_block rb"
  then obtain w ps off es where rb: "rb = block_of w ps off es" by (rule wf_blockE)
  have "distinct (map fst (names_of es))" using wf unfolding rb wf_block_of by blast
  then have "distinct (map (\<lambda>r. str_lower (r_name r)) (flat_of es))" by (rule sub)
  then show "distinct (map (\<lambda>r. str_lower (r_name r)) (rb_flat_regs rb))"
    by (simp only: rb block_of_sel)
qed

lemma block_lookup:
  assumes "wf_block rb" and "r \<in> set (rb_flat_regs rb)"
  shows "map_of (rb_name_to_offset rb) (str_lower (r_name r)) = Some (r_offset r)"
    and "map_of (rb_name_to_flat_reg rb) (str_lower (r_name r)) = Some r"
proof -
  from assms(1) obtain w ps off es where rb: "rb = block_of w ps off es" by (rule wf_blockE)
  show "map_of (rb_name_to_offset rb) (str_lower (r_name r)) = Some (r_offset r)"
    using assms flat_names [of r es] by (simp add: rb wf_block_of reg_item_def)
  have "distinct (map (\<lambda>r. str_lower (r_name r)) (rb_flat_regs rb))"
    using assms(1) by (rule block_names_distinct)
  then show "map_of (rb_name_to_flat_reg rb) (str_lower (r_name r)) = Some r"
    using assms(2) by (intro map_of_is_SomeI) (auto simp: rb comp_def)
qed

end
