(* ===== verification/Regblock_Facts.thy ===== *)
theory Regblock_Facts
  imports Regblock_Layout
begin

text \<open>
  What the contract of a block gives: the abstract layout machine the parser refines, the
  owner of an address, the alignment of every offset, the listing that is printed, and the
  exceptions that can come out.
\<close>

section \<open>The abstract layout machine\<close>

text \<open>
  A layout is an end offset and a list of entries. A step skips words, skips to an aligned
  offset, or places one entry at the end (a window at the next multiple of its rounded size).
\<close>

inductive lay :: "int \<Rightarrow> int \<Rightarrow> int \<times> entry list \<Rightarrow> int \<times> entry list \<Rightarrow> bool" for w sep where
  lay_reserved: "0 < n \<Longrightarrow> lay w sep (off, es) (off + sep * n, es)"
| lay_skipto: "off \<le> dst \<Longrightarrow> sep dvd dst \<Longrightarrow> lay w sep (off, es) (dst, es)"
| lay_register: "wf_register w r \<Longrightarrow> r_offset r = off \<Longrightarrow>
    lay w sep (off, es) (off + sep, es @ [EReg r])"
| lay_multireg: "wf_multireg w sep m \<Longrightarrow> m_offset m = off \<Longrightarrow>
    lay w sep (off, es) (off + int (length (m_regs m)) * sep, es @ [EMulti m])"
| lay_window: "wf_window w win \<Longrightarrow> w_offset win = align_offset (w_size win) off \<Longrightarrow>
    lay w sep (off, es) (w_offset win + w_size win, es @ [EWin win])"

inductive_cases layE: "lay w sep s t"

definition layout :: "regblock \<Rightarrow> int \<times> entry list" where
  "layout rb = (rb_offset rb, rb_entries rb)"

definition same_frame :: "regblock \<Rightarrow> regblock \<Rightarrow> bool" where
  "same_frame rb rb' \<longleftrightarrow>
     rb_reg_width rb' = rb_reg_width rb \<and> rb_addrsep rb' = rb_addrsep rb \<and> rb_params rb' = rb_params rb"

definition lay_sim :: "regblock \<Rightarrow> regblock \<Rightarrow> bool" where
  "lay_sim rb rb' \<longleftrightarrow>
     lay (rb_reg_width rb) (rb_addrsep rb) (layout rb) (layout rb') \<and> same_frame rb rb'"

lemma lay_sim_block_of:
  assumes "wf_block rb" and "lay (rb_reg_width rb) (rb_addrsep rb) (rb_offset rb, rb_entries rb) (off, es)"
  shows "lay_sim rb (block_of (rb_reg_width rb) (rb_params rb) off es)"
  using assms wf_block_sep [OF assms(1)] by (simp add: lay_sim_def layout_def same_frame_def)

lemma handlers_lay:
  assumes wf: "wf_block rb"
  shows "handle_register body rb = Inr rb' \<Longrightarrow> lay_sim rb rb'"
    and "handle_reserved body rb = Inr rb' \<Longrightarrow> lay_sim rb rb'"
    and "handle_skipto body rb = Inr rb' \<Longrightarrow> lay_sim rb rb'"
    and "handle_window body rb = Inr rb' \<Longrightarrow> lay_sim rb rb'"
    and "handle_multireg body rb = Inr rb' \<Longrightarrow> lay_sim rb rb'"
proof -
  show "lay_sim rb rb'" if h: "handle_register body rb = Inr rb'"
  proof -
    from h obtain reg where
      reg: "register_from_raw (rb_reg_width rb) (rb_offset rb) (rb_params rb) body = Inr reg"
      and add: "add_register reg rb = Inr rb'" by (auto simp: handle_register_def)
    have r: "wf_register (rb_reg_width rb) reg" "r_offset reg = rb_offset rb"
      using register_from_raw_wf [OF reg] register_from_raw_offset [OF reg] by blast+
    from add_register_wf(2) [OF wf r add] show ?thesis
      using wf r by (auto intro!: lay_sim_block_of lay_register)
  qed
  show "lay_sim rb rb'" if "handle_reserved body rb = Inr rb'"
    using that by (auto simp: handle_reserved_def lay_sim_def layout_def same_frame_def not_le
        intro!: lay_reserved split: if_splits)
  show "lay_sim rb rb'" if "handle_skipto body rb = Inr rb'"
    using that by (auto simp: handle_skipto_def lay_sim_def layout_def same_frame_def
        not_less intro!: lay_skipto split: if_splits)
  show "lay_sim rb rb'" if h: "handle_window body rb = Inr rb'"
    by (rule handle_window_eq [OF wf h])
       (use wf in \<open>auto intro!: lay_sim_block_of lay_window window_from_raw_wf\<close>)
  show "lay_sim rb rb'" if h: "handle_multireg body rb = Inr rb'"
    by (rule handle_multireg_eq [OF wf h])
       (use wf in \<open>auto simp: multireg_next_offset_def MultiRegister_wf(2)
          intro!: lay_sim_block_of lay_multireg MultiRegister_wf\<close>)
qed

lemma add_raw_lay:
  assumes wf: "wf_block rb" and "add_raw rb raw = Inr rb'"
  shows "lay_sim rb rb'"
proof -
  obtain body h where "h \<in> snd ` set handlers" "h body rb = Inr rb'"
    by (rule add_raw_handler [OF assms(2)])
  then show ?thesis by (auto simp: handlers_def dest: handlers_lay [OF wf])
qed

lemma add_raws_lay:
  assumes "wf_block rb" and "foldR add_raw rb raws = Inr rb'"
  shows "(lay (rb_reg_width rb) (rb_addrsep rb))\<^sup>*\<^sup>* (layout rb) (layout rb') \<and> same_frame rb rb'"
  using assms
proof (induction raws arbitrary: rb)
  case Nil
  then show ?case by (simp add: same_frame_def)
next
  case (Cons raw raws)
  from Cons.prems obtain rb1 where one: "add_raw rb raw = Inr rb1"
    and rest: "foldR add_raw rb1 raws = Inr rb'" by auto
  have "wf_block rb1" using Cons.prems(1) one by (rule add_raw_wf)
  from Cons.IH [OF this rest] add_raw_lay [OF Cons.prems(1) one] show ?case
    by (auto simp: lay_sim_def same_frame_def intro: converse_rtranclp_into_rtranclp)
qed

text \<open>A block the operations can build: its layout is reachable from the empty one.\<close>

definition reach_block :: "int \<Rightarrow> regblock \<Rightarrow> bool" where
  "reach_block w rb \<longleftrightarrow> wf_block rb \<and> rb_reg_width rb = w \<and>
     (lay w (rb_addrsep rb))\<^sup>*\<^sup>* (0, []) (layout rb)"

lemma reach_RegBlock: "0 < w \<Longrightarrow> reach_block w (RegBlock w ps)"
  by (simp add: reach_block_def RegBlock_wf) (simp add: RegBlock_def layout_def)

lemma reach_add_raw_registers:
  assumes "reach_block w rb" and "add_raw_registers raw rb = Inr rb'"
  shows "reach_block w rb'" and "(lay w (rb_addrsep rb))\<^sup>*\<^sup>* (layout rb) (layout rb')"
proof -
  from assms(2) obtain l where l: "foldR add_raw rb l = Inr rb'"
    by (auto simp: add_raw_registers_def)
  have wf: "wf_block rb" and w: "rb_reg_width rb = w" using assms(1) by (simp_all add: reach_block_def)
  from add_raws_lay [OF wf l] have lay: "(lay w (rb_addrsep rb))\<^sup>*\<^sup>* (layout rb) (layout rb')"
    and frame: "same_frame rb rb'" by (simp_all add: w)
  show "(lay w (rb_addrsep rb))\<^sup>*\<^sup>* (layout rb) (layout rb')" by (rule lay)
  show "reach_block w rb'"
    using assms(1) lay frame raw_loop.fold_inv [OF wf l]
    by (auto simp: reach_block_def same_frame_def intro: rtranclp_trans)
qed

lemma reach_params: "reach_block w rb \<Longrightarrow> reach_block w (rb\<lparr>rb_params := ps\<rparr>)"
  by (auto simp: reach_block_def layout_def intro: wf_block_params)

lemma lays_prefix: "(lay w sep)\<^sup>*\<^sup>* s t \<Longrightarrow> \<exists>es. snd t = snd s @ es"
proof (induction rule: rtranclp_induct)
  case (step t u)
  from step.hyps(2) have "\<exists>es. snd u = snd t @ es" by cases auto
  with step.IH show ?case by auto
qed simp

section \<open>The owner of an address\<close>

lemma wf_block_sel:
  assumes "wf_block rb"
  shows "rb_flat_regs rb = flat_of (rb_entries rb)"
    and "rb_name_to_offset rb = names_of (rb_entries rb)"
    and "rb_wennames rb = foldl add_wen [] (rb_entries rb)"
proof -
  from assms obtain w ps off es where rb: "rb = block_of w ps off es" by (rule wf_blockE)
  show "rb_flat_regs rb = flat_of (rb_entries rb)" "rb_name_to_offset rb = names_of (rb_entries rb)"
    "rb_wennames rb = foldl add_wen [] (rb_entries rb)" by (simp_all add: rb)
qed

lemma chain_evenly:
  "(\<And>i. i < length xs \<Longrightarrow> lo (xs ! i) = a + int i * sep) \<Longrightarrow>
     (\<And>i. i < length xs \<Longrightarrow> nxt (xs ! i) = lo (xs ! i) + sep) \<Longrightarrow> 0 \<le> sep \<Longrightarrow>
     chain lo nxt a xs (a + int (length xs) * sep)"
proof (induction xs arbitrary: a)
  case (Cons x xs)
  have x: "lo x = a" using Cons.prems(1) [of 0] by simp
  have "chain lo nxt (a + sep) xs (a + sep + int (length xs) * sep)"
  proof (rule Cons.IH)
    show "lo (xs ! i) = a + sep + int i * sep" if "i < length xs" for i
      using Cons.prems(1) [of "Suc i"] that by (simp add: algebra_simps)
    show "nxt (xs ! i) = lo (xs ! i) + sep" if "i < length xs" for i
      using Cons.prems(2) [of "Suc i"] that by simp
  qed (rule Cons.prems)
  moreover have "nxt x = a + sep" using Cons.prems(2) [of 0] x by simp
  ultimately show ?case using x Cons.prems(3) by (simp add: algebra_simps)
qed simp

lemma flat_chain:
  "0 < sep \<Longrightarrow> list_all (wf_entry w sep) es \<Longrightarrow> chain entry_offset (entry_next sep) a es b \<Longrightarrow>
     chain r_offset (register_next_offset sep) a (flat_of es) b"
proof (induction es arbitrary: a)
  case (Cons e es)
  let ?c = "chain r_offset (register_next_offset sep)"
  have rest: "?c (entry_next sep e) (flat_of es) b" using Cons by simp
  have first: "?c a (entry_regs e) (entry_next sep e)"
  proof (cases e)
    case (EMulti m)
    with Cons.prems have m: "wf_multireg w sep m" by simp
    have "?c (m_offset m) (m_regs m) (m_offset m + int (length (m_regs m)) * sep)"
      using multireg_regs_wf(2) [OF m] Cons.prems(1)
      by (intro chain_evenly) (auto simp: register_next_offset_def)
    moreover have "a \<le> m_offset m" using Cons.prems(3) EMulti by simp
    ultimately show ?thesis
      using EMulti chain_append [of r_offset _ a "[]" "m_regs m"]
      by (auto simp: multireg_next_offset_def)
  qed (use Cons.prems in auto)
  show ?case using first rest by (auto simp: flat_of_def chain_append)
qed (simp add: flat_of_def)

interpretation flat: region r_offset "register_next_offset sep" "\<lambda>r. 0 < sep" for sep
  by unfold_locales (simp add: register_next_offset_def)

lemma block_flat_chain:
  assumes "wf_block rb"
  shows "chain r_offset (register_next_offset (rb_addrsep rb)) 0 (rb_flat_regs rb) (rb_offset rb)"
proof -
  have "list_all (wf_entry (rb_reg_width rb) (rb_addrsep rb)) (rb_entries rb)"
    "chain entry_offset (entry_next (rb_addrsep rb)) 0 (rb_entries rb) (rb_offset rb)"
    using assms unfolding wf_block_def by blast+
  then show ?thesis
    unfolding wf_block_sel(1) [OF assms]
    using wf_block_sep [OF assms] by (intro flat_chain) simp_all
qed

section \<open>Alignment\<close>

lemma window_aligned:
  assumes "wf_window (8 * 2 ^ k) win"
  shows "2 ^ k dvd w_offset win" "2 ^ k dvd w_size win"
proof -
  have size: "w_size win = w_items win * 2 ^ k" "0 < w_items win"
    using assms by (auto simp: wf_window_def)
  then show "2 ^ k dvd w_size win" by simp
  have "(2 :: int) ^ k * 1 \<le> 2 ^ k * w_items win" using size(2) by (intro mult_left_mono) simp_all
  also have "\<dots> = w_size win" by (simp add: size mult.commute)
  also have "w_size win \<le> 2 ^ bit_length (w_size win - 1)"
    using po2_size_ge [of "w_size win"] assms by (simp add: po2_size_eq wf_window_def)
  finally have "k \<le> bit_length (w_size win - 1)" by simp
  then have "(2 :: int) ^ k dvd po2_size (w_size win)" by (simp add: po2_size_eq le_imp_power_dvd)
  then show "2 ^ k dvd w_offset win" using assms by (auto simp: wf_window_def intro: dvd_trans)
qed

definition aligned :: "int \<Rightarrow> int \<times> entry list \<Rightarrow> bool" where
  "aligned sep s \<longleftrightarrow> sep dvd fst s \<and>
     (\<forall>e \<in> set (snd s). sep dvd entry_offset e \<and> sep dvd entry_next sep e)"

lemma lay_aligned:
  assumes "lay (8 * 2 ^ k) (2 ^ k) s t" and "aligned (2 ^ k) s"
  shows "aligned (2 ^ k) t"
  using assms(1)
proof cases
  case (lay_window win off es)
  then show ?thesis
    using assms(2) window_aligned [of k win] by (auto simp: aligned_def window_next_offset_def)
qed (use assms(2) in \<open>auto simp: aligned_def register_next_offset_def multireg_next_offset_def\<close>)

lemma lays_aligned:
  "(lay (8 * 2 ^ k) (2 ^ k))\<^sup>*\<^sup>* s t \<Longrightarrow> aligned (2 ^ k) s \<Longrightarrow> aligned (2 ^ k) t"
  by (induction rule: rtranclp_induct) (auto intro: lay_aligned)

section \<open>The printed listing\<close>

text \<open>Reading a listing back: each entry with the offset at which a reader places it.\<close>

fun replay :: "int \<Rightarrow> int \<Rightarrow> listing list \<Rightarrow> (int \<times> entry) list" where
  "replay sep off [] = []"
| "replay sep off (Reserved n # l) = replay sep (off + sep * n) l"
| "replay sep off (Entry e # l) = (off, e) # replay sep (entry_next sep e) l"


lemma listing_step_Inr:
  assumes "listing_step sep (acc, off) e = Inr (acc', off')"
  shows "off' = entry_next sep e"
    and "\<exists>g. acc' = acc @ g @ [Entry e] \<and> (\<forall>l. replay sep off (g @ l) = replay sep (entry_offset e) l)"
proof -
  let ?gap = "entry_offset e - off"
  from assms have e: "off' = entry_next sep e"
    "acc' = acc @ (if ?gap = 0 then [] else [Reserved (?gap div sep)]) @ [Entry e]"
    "?gap mod sep = 0"
    by (auto simp: listing_step_def Let_def split: if_splits)
  show "off' = entry_next sep e" by (rule e)
  have "off + sep * (?gap div sep) = entry_offset e"
    using e(3) mult_div_mod_eq [of sep ?gap] by simp
  then show "\<exists>g. acc' = acc @ g @ [Entry e] \<and> (\<forall>l. replay sep off (g @ l) = replay sep (entry_offset e) l)"
    using e(2) by (intro exI [of _ "if ?gap = 0 then [] else [Reserved (?gap div sep)]"]) auto
qed

lemma listing_fold:
  "foldR (listing_step sep) (acc, off) es = Inr (l, off') \<Longrightarrow>
     \<exists>l'. l = acc @ l' \<and> replay sep off l' = map (\<lambda>e. (entry_offset e, e)) es"
proof (induction es arbitrary: acc off)
  case (Cons e es)
  from Cons.prems obtain acc1 off1 where step: "listing_step sep (acc, off) e = Inr (acc1, off1)"
    and rest: "foldR (listing_step sep) (acc1, off1) es = Inr (l, off')"
    by (auto simp del: bnd_eq_Inr simp: bnd_def split: sum.splits)
  from listing_step_Inr [OF step] obtain g where g: "acc1 = acc @ g @ [Entry e]"
    "\<And>l. replay sep off (g @ l) = replay sep (entry_offset e) l" and n: "off1 = entry_next sep e"
    by blast
  from Cons.IH [OF rest] obtain l' where
    "l = acc1 @ l'" "replay sep off1 l' = map (\<lambda>e. (entry_offset e, e)) es" by blast
  then show ?case using g n by (intro exI [of _ "g @ Entry e # l'"]) simp
qed simp

lemma listing_ok:
  assumes "chain entry_offset (entry_next sep) off es b" and "sep dvd off"
    and "\<forall>e \<in> set es. sep dvd entry_offset e \<and> sep dvd entry_next sep e"
  shows "\<exists>l off'. foldR (listing_step sep) (acc, off) es = Inr (l, off')"
  using assms
proof (induction es arbitrary: acc off)
  case (Cons e es)
  define acc1 where "acc1 = (if entry_offset e - off \<noteq> 0
    then acc @ [Reserved ((entry_offset e - off) div sep)] else acc)"
  have "sep dvd entry_offset e - off" using Cons.prems by (intro dvd_diff) auto
  then have "listing_step sep (acc, off) e = Inr (acc1 @ [Entry e], entry_next sep e)"
    using Cons.prems by (simp add: listing_step_def acc1_def Let_def)
  with Cons show ?case by simp
qed simp

lemma as_dicts_replay:
  assumes "regblock_as_dicts rb = Inr l"
  shows "replay (rb_addrsep rb) 0 l = map (\<lambda>e. (entry_offset e, e)) (rb_entries rb)"
proof -
  from assms obtain off' where
    "foldR (listing_step (rb_addrsep rb)) ([], 0) (rb_entries rb) = Inr (l, off')"
    by (auto simp: regblock_as_dicts_def)
  from listing_fold [OF this] show ?thesis by simp
qed

lemma as_dicts_ok:
  assumes "wf_block rb" and "aligned (rb_addrsep rb) (layout rb)"
  shows "\<exists>l. regblock_as_dicts rb = Inr l"
proof -
  have "\<exists>l off'. foldR (listing_step (rb_addrsep rb)) ([], 0) (rb_entries rb) = Inr (l, off')"
    using assms by (intro listing_ok) (auto simp: wf_block_def aligned_def layout_def)
  then show ?thesis by (auto simp: regblock_as_dicts_def)
qed

section \<open>Which exceptions can come out\<close>

text \<open>A raw object is a Python object only when its keys are different.\<close>

definition py_dict :: "pyobj \<Rightarrow> bool" where
  "py_dict raw \<longleftrightarrow> (case raw of PDict d \<Rightarrow> distinct (map fst d) | _ \<Rightarrow> True)"

lemma py_dict_keys: "py_dict raw \<Longrightarrow> check_str_dict raw = Inr d \<Longrightarrow> distinct (map fst d)"
proof -
  have "map fst (map (\<lambda>(s, v). (PStr s, v)) d) = map PStr (map fst d)" by (induction d) auto
  then have "distinct (map fst (map (\<lambda>(s, v). (PStr s, v)) d)) \<Longrightarrow> distinct (map fst d)"
    by (simp only:) (rule distinct_map [THEN iffD1, THEN conjunct1])
  then show "py_dict raw \<Longrightarrow> check_str_dict raw = Inr d \<Longrightarrow> distinct (map fst d)"
    unfolding py_dict_def check_str_dict_Inr by simp
qed

lemma raises_type_step [raises_intros]:
  assumes "distinct (map fst entry)"
  shows "raises is_value_error (type_step off entry found t)"
proof (cases "dget entry t = PNone \<or> length entry = 1")
  case False
  then have "t \<in> fst ` set entry" "length entry \<noteq> 1"
    by (auto simp: dget_def dest!: map_of_SomeD split: option.splits intro: rev_image_eqI)
  have "filter (\<lambda>k. k \<noteq> t) (map fst entry) \<noteq> []"
  proof
    assume "filter (\<lambda>k. k \<noteq> t) (map fst entry) = []"
    then have "set (map fst entry) \<subseteq> {t}" unfolding filter_empty_conv by blast
    then have "set (map fst entry) = {t}" using \<open>t \<in> fst ` set entry\<close> by auto
    then have "length entry = 1" using distinct_card [OF assms] by simp
    with \<open>length entry \<noteq> 1\<close> show False by blast
  qed
  then show ?thesis
    using False unfolding type_step_def Let_def by (auto intro!: raises_intros)
qed (auto simp: type_step_def Let_def intro!: raises_intros)

lemma entry_type_known:
  "entry_type off entry raw = Inr (t, body) \<Longrightarrow> t \<in> fst ` set handlers"
  by (auto simp: entry_type_def type_step_def Let_def handlers_def split: if_splits)

lemma raises_add_register:
  assumes "wf_block rb" and "r_offset reg = rb_offset rb"
  shows "raises is_value_error (add_register reg rb)"
  using assms by (auto simp: add_register_eq intro!: raises_intros)

lemma raises_multi_loop:
  assumes "names_ok rb"
  shows "raises is_value_error (foldR (multireg_step mr) rb rs)"
  using assms
  by (rule multi_loop.fold_raises) (auto simp: multireg_step_eq intro!: raises_intros)

lemma wf_block_names_ok: "wf_block rb \<Longrightarrow> names_ok rb"
proof -
  assume wf: "wf_block rb"
  then obtain w ps off es where rb: "rb = block_of w ps off es" by (rule wf_blockE)
  show "names_ok rb" using wf unfolding rb by (simp add: wf_block_of names_ok_block)
qed

lemma raises_handlers:
  assumes wf: "wf_block rb" and w: "8 dvd rb_reg_width rb"
  shows "raises is_value_error (handle_register body rb)"
    and "raises is_value_error (handle_reserved body rb)"
    and "raises is_value_error (handle_skipto body rb)"
    and "raises is_value_error (handle_window body rb)"
    and "raises is_value_error (handle_multireg body rb)"
proof -
  have pos: "0 < rb_reg_width rb" using wf unfolding wf_block_def by blast
  show "raises is_value_error (handle_register body rb)"
    unfolding handle_register_def
    by (intro raises_intros raises_add_register [OF wf]) (rule register_from_raw_offset)
  show "raises is_value_error (handle_reserved body rb)"
    unfolding handle_reserved_def by (intro raises_intros) simp
  show "raises is_value_error (handle_skipto body rb)"
    unfolding handle_skipto_def by (intro raises_intros) simp_all
  have "raises is_value_error (add_window win rb)"
    if win: "window_from_raw (rb_offset rb) (rb_reg_width rb) (rb_params rb) body = Inr win"
      and none: "map_of (rb_name_to_offset rb) (str_lower (w_name win)) = None" for win
  proof -
    have "rb_offset rb \<le> w_offset win"
      using window_from_raw_wf(2) [OF win] align_offset_spec(2) by simp
    from add_window_eq [OF wf this] none show ?thesis
      by (simp add: map_of_eq_None_iff raises_Inr)
  qed
  note add = this
  show "raises is_value_error (handle_window body rb)"
    unfolding handle_window_def by (intro raises_intros) (simp_all add: pos w add)
  show "raises is_value_error (handle_multireg body rb)"
    unfolding handle_multireg_def
    by (intro raises_intros raises_multi_loop wf_block_names_ok [OF wf])
qed

lemma raises_add_raw:
  assumes wf: "wf_block rb" and w: "8 dvd rb_reg_width rb" and d: "py_dict raw"
  shows "raises is_value_error (add_raw rb raw)"
  unfolding add_raw_def
proof (intro raises_bnd raises_check_str_dict)
  fix entry assume entry: "check_str_dict raw = Inr entry"
  show "raises is_value_error (entry_type (rb_offset rb) entry raw)"
    unfolding entry_type_def foldR.simps
    by (intro raises_intros py_dict_keys [OF d entry])
next
  fix entry x assume "entry_type (rb_offset rb) entry raw = Inr x"
  moreover obtain t body where x: "x = (t, body)" by (cases x)
  ultimately have "t \<in> fst ` set handlers"
    using entry_type_known [of "rb_offset rb" entry raw t body] by simp
  then have "t \<in> {''register'', ''reserved'', ''skipto'', ''window'', ''multireg''}"
    by (simp add: handlers_def)
  then show "raises is_value_error (case x of (etype, entry_body) \<Rightarrow>
      case map_of handlers etype of None \<Rightarrow> Inl (KeyError etype)
      | Some handler \<Rightarrow> handler entry_body rb)"
    unfolding x by (auto simp: handlers_def raises_handlers [OF wf w])
qed

interpretation byte_loop: invariant_step add_raw "\<lambda>rb. wf_block rb \<and> 8 dvd rb_reg_width rb"
  by unfold_locales (auto simp: add_raw_wf dest: add_raw_lay simp: lay_sim_def same_frame_def)

lemma raises_add_raw_registers:
  assumes wf: "wf_block rb" and w: "8 dvd rb_reg_width rb"
    and d: "\<And>l x. raw = PList l \<Longrightarrow> x \<in> set l \<Longrightarrow> py_dict x"
  shows "raises is_value_error (add_raw_registers raw rb)"
proof -
  have "raises is_value_error (foldR add_raw rb l)" if "raw = PList l" for l
    by (rule byte_loop.fold_raises) (use assms that in \<open>auto intro: raises_add_raw\<close>)
  then show ?thesis
    unfolding add_raw_registers_def by (intro raises_intros) simp
qed

end
