(* ===== verification/Regblock_Build.thy ===== *)
theory Regblock_Build
  imports Regblock_Facts
begin

text \<open>
  The rest of a block: the check of the write enables, the interrupt and alert registers that
  are generated from the lists of signals, and the blocks of a whole registers field.
\<close>

section \<open>Write enables\<close>

definition wen_ok :: "register \<Rightarrow> bool" where
  "wen_ok r \<longleftrightarrow>
     (sw_key (r_swaccess r) = ''rw0c'' \<and> r_resval r \<noteq> 0) \<or>
     (sw_key (r_swaccess r) = ''ro'' \<and> hw_key (r_hwaccess r) = ''hwo'')"

lemma check_wen_Inr:
  "check_wen rb s = Inr u \<longleftrightarrow>
     regwen_name s \<and> (\<exists>r. map_of (rb_name_to_flat_reg rb) (str_lower s) = Some r \<and> wen_ok r)"
  by (auto simp: check_wen_def wen_ok_def split: option.splits if_splits)

lemma validate_Inr: "validate rb = Inr u \<longleftrightarrow> (\<forall>s \<in> set (rb_wennames rb). check_wen rb s = Inr ())"
proof -
  have "foldR (\<lambda>_ wenname. check_wen rb wenname) v ws = Inr u \<longleftrightarrow>
      (\<forall>s \<in> set ws. check_wen rb s = Inr ())" for ws v
    by (induction ws arbitrary: v) auto
  then show ?thesis by (simp add: validate_def)
qed

lemma raises_validate [raises_intros]: "raises is_value_error (validate rb)"
proof -
  have "raises is_value_error (check_wen rb s)" for s
    unfolding check_wen_def by (intro raises_intros) simp_all
  then have "raises is_value_error (foldR (\<lambda>_ wenname. check_wen rb wenname) v ws)" for v ws
    by (induction ws arbitrary: v) (auto intro!: raises_intros)
  then show ?thesis by (simp add: validate_def)
qed

lemma set_wennames:
  "set (foldl add_wen ws es) = set ws \<union> {s. \<exists>r. EReg r \<in> set es \<and> r_regwen r = Some s}"
proof (induction es arbitrary: ws)
  case (Cons e es)
  then show ?case by (cases e) (auto split: option.splits)
qed simp

section \<open>The blocks of a registers field\<close>

definition blocks_ok :: "int \<Rightarrow> (string option \<times> regblock) list \<Rightarrow> bool" where
  "blocks_ok w ret \<longleftrightarrow> distinct (map fst ret) \<and> (\<forall>b \<in> snd ` set ret. reach_block w b)"

definition blocks_inv :: "int \<Rightarrow> regblock \<times> (string option \<times> regblock) list \<Rightarrow> bool" where
  "blocks_inv w st \<longleftrightarrow> reach_block w (fst st) \<and> blocks_ok w (snd st)"

lemma reach_width: "reach_block w rb \<Longrightarrow> 0 < w"
  unfolding reach_block_def wf_block_def by blast

lemma block_step_cases:
  assumes "block_step (block, ret) (idx, k, v) = Inr st'"
  obtains key b where "add_raw_registers v
      (if 0 < idx then RegBlock (rb_reg_width block) (rb_params block) else block) = Inr b"
    and "\<not> py_in (Some key) ret" and "st' = (b, ret @ [(Some key, b)])" and "validate b = Inr ()"
  using assms by (auto simp: block_step_def Let_def)

lemma block_step_inv:
  assumes inv: "blocks_inv w st" and step: "block_step st item = Inr st'"
  shows "blocks_inv w st'"
proof -
  obtain block ret idx k v where s: "st = (block, ret)" "item = (idx, k, v)"
    by (cases st; cases item) auto
  define start where
    "start = (if 0 < idx then RegBlock (rb_reg_width block) (rb_params block) else block)"
  have block: "reach_block w block" using inv by (simp add: blocks_inv_def s)
  have wf: "reach_block w start"
  proof (cases "0 < idx")
    case True
    have "rb_reg_width block = w" using block by (simp add: reach_block_def)
    with True show ?thesis using reach_RegBlock [OF reach_width [OF block]] by (simp add: start_def)
  qed (use block in \<open>simp add: start_def\<close>)
  obtain key b where b: "add_raw_registers v start = Inr b"
    and r: "\<not> py_in (Some key) ret" "st' = (b, ret @ [(Some key, b)])"
    using step unfolding s start_def by (rule block_step_cases)
  have "reach_block w b" using wf b by (rule reach_add_raw_registers)
  with inv r show ?thesis by (auto simp: blocks_inv_def blocks_ok_def s)
qed

interpretation block_loop: invariant_step block_step "blocks_inv w" for w
  by unfold_locales (rule block_step_inv)

lemma build_blocks_ok:
  assumes wf: "reach_block w block" and b: "build_blocks block raw = Inr ret"
  shows "blocks_ok w ret"
proof (cases raw)
  case (PList l)
  with b obtain rb where "add_raw_registers raw block = Inr rb" "ret = [(None, rb)]"
    by (auto simp: build_blocks_def)
  with wf show ?thesis by (auto simp: blocks_ok_def dest: reach_add_raw_registers)
next
  case (PDict d)
  with b obtain rb where "foldR block_step (block, []) (enumerate 0 d) = Inr (rb, ret)"
    by (auto simp: build_blocks_def)
  from block_loop.fold_inv [OF _ this, of w] wf show ?thesis
    by (simp add: blocks_inv_def blocks_ok_def)
qed (use b in \<open>auto simp: build_blocks_def\<close>)

text \<open>The first block continues the block that was given.\<close>

lemma block_steps_append:
  "foldR block_step (block, ret) items = Inr (block', ret') \<Longrightarrow> \<exists>more. ret' = ret @ more"
proof (induction items arbitrary: block ret)
  case (Cons item items)
  from Cons.prems obtain st where step: "block_step (block, ret) item = Inr st"
    and rest: "foldR block_step st items = Inr (block', ret')" by auto
  obtain idx k v where i: "item = (idx, k, v)" by (cases item) auto
  obtain key b where "st = (b, ret @ [(Some key, b)])"
    using step unfolding i by (rule block_step_cases)
  with Cons.IH rest show ?case by fastforce
qed simp

lemma build_blocks_first:
  assumes wf: "reach_block w block" and b: "build_blocks block raw = Inr ret" and ne: "ret \<noteq> []"
  shows "\<exists>es. rb_entries (snd (hd ret)) = rb_entries block @ es"
proof -
  have keep: "\<exists>es. rb_entries rb = rb_entries block @ es" if "add_raw_registers r block = Inr rb" for r rb
    using lays_prefix [OF reach_add_raw_registers(2) [OF wf that]] by (simp add: layout_def)
  show ?thesis
  proof (cases raw)
    case (PList l)
    with b keep show ?thesis by (auto simp: build_blocks_def)
  next
    case (PDict d)
    with b obtain rb where f: "foldR block_step (block, []) (enumerate 0 d) = Inr (rb, ret)"
      by (auto simp: build_blocks_def)
    with ne obtain k v d' where d: "d = (k, v) # d'" by (cases d) auto
    from f obtain st where step: "block_step (block, []) (0, k, v) = Inr st"
      and rest: "foldR block_step st (enumerate 1 d') = Inr (rb, ret)" by (auto simp: d)
    obtain key b1 where b1: "add_raw_registers v block = Inr b1" "st = (b1, [(Some key, b1)])"
      using step by (rule block_step_cases) simp
    with block_steps_append rest obtain more where "ret = [(Some key, b1)] @ more" by blast
    with keep [OF b1(1)] show ?thesis by simp
  qed (use b in \<open>auto simp: build_blocks_def\<close>)
qed

section \<open>Generated registers\<close>

lemma intr_field_sel [simp]:
  "f_name (intr_field fmt sw hw t s) = s_name s"
  "f_bits (intr_field fmt sw hw t s) = s_bits s"
  "f_resval (intr_field fmt sw hw t s) = Some 0"
  "f_swaccess (intr_field fmt sw hw t s) = sw"
  "f_hwaccess (intr_field fmt sw hw t s) = hw"
  by (simp_all add: intr_field_def Let_def)

lemma chain_sorted: "chain lo nxt a xs b \<Longrightarrow> sorted (map lo xs)"
proof (induction xs arbitrary: a)
  case (Cons x xs)
  then show ?case using chain_bounds [of lo nxt "nxt x" xs b] by fastforce
qed simp

text \<open>
  Signals that fit in a register: in order, well formed, with different names, below the
  register's width.
\<close>

definition signals_fit :: "int \<Rightarrow> signal list \<Rightarrow> bool" where
  "signals_fit w sigs \<longleftrightarrow> sigs \<noteq> [] \<and> distinct (map s_name sigs) \<and> list_all wf_signal sigs \<and>
     (\<exists>b \<le> w. chain (\<lambda>s. b_lsb (s_bits s)) sig_next 0 sigs b)"

definition intr_register :: "int \<Rightarrow> string \<Rightarrow> signal list \<Rightarrow> register \<Rightarrow> bool" where
  "intr_register off name sigs r \<longleftrightarrow>
     r_offset r = off \<and> r_name r = name \<and> r_resval r = 0 \<and> r_regwen r = None \<and>
     map f_name (r_fields r) = map s_name sigs \<and> map f_bits (r_fields r) = map s_bits sigs"

lemma fields_resval_zero:
  "(\<And>f. f \<in> set fs \<Longrightarrow> f_resval f = Some 0) \<Longrightarrow> fields_resval fs = 0"
proof -
  have "(\<And>f. f \<in> set fs \<Longrightarrow> f_resval f = Some 0) \<Longrightarrow> foldl (\<lambda>acc f. acc OR field_reset f) 0 fs = 0"
    by (induction fs) (auto simp: field_reset_def)
  then show "(\<And>f. f \<in> set fs \<Longrightarrow> f_resval f = Some 0) \<Longrightarrow> fields_resval fs = 0"
    by (simp add: fields_resval_def)
qed

lemma add_intr_alert_reg_ok:
  assumes wf: "wf_block rb" and fit: "signals_fit (rb_reg_width rb) sigs"
    and sw: "SWAccess (PStr swk) = Inr sw" and hw: "HWAccess (PStr hwk) = Inr hw"
    and flags: "check_flags nm sw hw tst tst False = Inr ()" "check_shadowed nm False = Inr ()"
    and fresh: "map_of (rb_name_to_offset rb) (str_lower nm) = None"
  obtains rb' r where "add_intr_alert_reg sigs nm d fmt swk hwk tst tags rb = Inr rb'"
    and "intr_register (rb_offset rb) nm sigs r" and "wf_register (rb_reg_width rb) r"
    and "rb' = block_of (rb_reg_width rb) (rb_params rb) (rb_offset rb + rb_addrsep rb)
           (rb_entries rb @ [EReg r])"
    and "wf_block rb'" and "lay_sim rb rb'"
proof -
  let ?fs = "map (intr_field fmt sw hw tst) sigs"
  from fit obtain b where b: "b \<le> rb_reg_width rb" "chain (\<lambda>s. b_lsb (s_bits s)) sig_next 0 sigs b"
    by (auto simp: signals_fit_def)
  have sorted: "sort_fields ?fs = ?fs"
    using chain_sorted [OF b(2)] by (intro sort_fields_sorted) (simp add: comp_def)
  have acc: "wf_swaccess sw" "wf_hwaccess hw" using sw hw by (simp_all add: SWAccess_Inr HWAccess_Inr)
  define r where
    "r = reg_record (rb_offset rb) nm d sw hw tst tst False None tags False ?fs None None"
  have reg: "Register (rb_offset rb) nm d sw hw tst tst False None tags None False ?fs None None = Inr r"
    using fit flags by (simp add: Register_Inr sorted r_def signals_fit_def comp_def)
  have "wf_field f \<and> b_msb (f_bits f) < rb_reg_width rb" if "f \<in> set ?fs" for f
  proof -
    from that obtain s where s: "s \<in> set sigs" "f = intr_field fmt sw hw tst s" by auto
    have "sig_next s \<le> b" using chain_bounds [OF b(2) s(1)] by simp
    moreover have "wf_bits (s_bits s)" using fit s(1) by (auto simp: signals_fit_def list_all_iff wf_signal_def)
    ultimately show ?thesis
      using b(1) acc by (simp add: s(2) wf_field_def sig_next_msb max_value_eq intr_field_def Let_def)
  qed
  from Register_wf [OF reg acc this] have wfr: "wf_register (rb_reg_width rb) r" .
  have sel: "r_offset r = rb_offset rb" "r_name r = nm" by (simp_all add: r_def reg_record_def)
  have add: "add_register r rb = Inr (block_of (rb_reg_width rb) (rb_params rb)
      (rb_offset rb + rb_addrsep rb) (rb_entries rb @ [EReg r]))"
    using add_register_eq [OF wf sel(1)] fresh sel by simp
  have "intr_register (rb_offset rb) nm sigs r"
  proof -
    have "fields_resval ?fs = 0" by (rule fields_resval_zero) auto
    then show ?thesis by (simp add: intr_register_def r_def reg_record_def sorted comp_def)
  qed
  moreover have "add_intr_alert_reg sigs nm d fmt swk hwk tst tags rb = add_register r rb"
    by (simp add: add_intr_alert_reg_def sw hw Let_def reg)
  moreover have "lay_sim rb (block_of (rb_reg_width rb) (rb_params rb)
      (rb_offset rb + rb_addrsep rb) (rb_entries rb @ [EReg r]))"
    by (rule lay_sim_block_of [OF wf]) (rule lay_register [OF wfr sel(1)])
  ultimately show ?thesis
    using that add wfr add_register_wf(1) [OF wf wfr sel(1) add] by simp
qed

lemma lay_sim_reach: "reach_block w rb \<Longrightarrow> lay_sim rb rb' \<Longrightarrow> wf_block rb' \<Longrightarrow> reach_block w rb'"
  by (auto simp: reach_block_def lay_sim_def same_frame_def)

lemma sw_modes:
  "SWAccess (PStr ''rw1c'') = Inr \<lparr>sw_key = ''rw1c'', sw_value = the (map_of swaccess_permitted ''rw1c'')\<rparr>"
  "SWAccess (PStr ''rw'') = Inr \<lparr>sw_key = ''rw'', sw_value = the (map_of swaccess_permitted ''rw'')\<rparr>"
  "SWAccess (PStr ''wo'') = Inr \<lparr>sw_key = ''wo'', sw_value = the (map_of swaccess_permitted ''wo'')\<rparr>"
  by (simp_all add: SWAccess_def check_str_def swaccess_permitted_def)

lemma hw_modes:
  "HWAccess (PStr ''hrw'') = Inr \<lparr>hw_key = ''hrw'', hw_value = the (map_of hwaccess_permitted ''hrw'')\<rparr>"
  "HWAccess (PStr ''hro'') = Inr \<lparr>hw_key = ''hro'', hw_value = the (map_of hwaccess_permitted ''hro'')\<rparr>"
  by (simp_all add: HWAccess_def check_str_def hwaccess_permitted_def)

lemma lower_names:
  "str_lower ''INTR_STATE'' = ''intr_state''" "str_lower ''INTR_ENABLE'' = ''intr_enable''"
  "str_lower ''INTR_TEST'' = ''intr_test''" "str_lower ''ALERT_TEST'' = ''alert_test''"
  by code_simp+

lemma intr_flags:
  "sw_key sw \<noteq> ''wo'' \<Longrightarrow> check_flags nm sw hw False False False = Inr ()"
  "sw_key sw = ''wo'' \<Longrightarrow> check_flags nm sw hw True True False = Inr ()"
  by (simp_all add: check_flags_def sw_readable_def)

lemma intr_shadowed:
  "check_shadowed ''INTR_STATE'' False = Inr ()" "check_shadowed ''INTR_ENABLE'' False = Inr ()"
  "check_shadowed ''INTR_TEST'' False = Inr ()" "check_shadowed ''ALERT_TEST'' False = Inr ()"
  by (simp_all add: check_shadowed_def lower_names ends_with_def)

lemma block_of_names:
  "rb_name_to_offset (block_of w ps off (es @ [EReg r])) = names_of es @ [reg_item r]"
  by (simp add: names_of_def)

lemma make_intr_regs_ok:
  assumes w: "0 < w" and fit: "signals_fit w sigs"
  obtains rb a b c where "make_intr_regs sigs (RegBlock w ps) = Inr rb" and "reach_block w rb"
    and "rb_entries rb = [EReg a, EReg b, EReg c]" and "rb_offset rb = 3 * ((w + 7) div 8)"
    and "intr_register 0 ''INTR_STATE'' sigs a"
    and "intr_register ((w + 7) div 8) ''INTR_ENABLE'' sigs b"
    and "intr_register (2 * ((w + 7) div 8)) ''INTR_TEST'' sigs c"
proof -
  let ?sep = "(w + 7) div 8" and ?rb0 = "RegBlock w ps"
  have rb0: "?rb0 = block_of w ps 0 []"
    by (simp add: RegBlock_def block_of_def flat_of_def names_of_def)
  have wf0: "wf_block (block_of w ps 0 [])" using RegBlock_wf [OF w, of ps] by (simp only: rb0)
  from fit obtain hi where hi: "hi \<le> w" "chain (\<lambda>s. b_lsb (s_bits s)) sig_next 0 sigs hi"
    and ne: "sigs \<noteq> []" by (auto simp: signals_fit_def)
  have msb: "b_msb (s_bits (last sigs)) < w"
    using chain_bounds [OF hi(2), of "last sigs"] hi(1) ne by (simp add: sig_next_msb)
  obtain rb1 a where 1: "add_intr_alert_reg sigs ''INTR_STATE'' ''Interrupt State Register'' FmtNone
      ''rw1c'' ''hrw'' False [''excl:CsrNonInitTests:CsrExclWriteCheck''] (block_of w ps 0 []) = Inr rb1"
    "intr_register 0 ''INTR_STATE'' sigs a" "rb1 = block_of w ps ?sep [EReg a]" "wf_block rb1" "lay_sim (block_of w ps 0 []) rb1"
    by (rule add_intr_alert_reg_ok [OF wf0 _ sw_modes(1) hw_modes(1)])
       (use fit in \<open>auto simp: intr_shadowed names_of_def intro: intr_flags(1)\<close>)
  obtain rb2 b where 2: "add_intr_alert_reg sigs ''INTR_ENABLE'' ''Interrupt Enable Register''
      (FmtFun enable_desc) ''rw'' ''hro'' False [] rb1 = Inr rb2"
    "intr_register ?sep ''INTR_ENABLE'' sigs b" "rb2 = block_of w ps (?sep + ?sep) [EReg a, EReg b]"
    "wf_block rb2" "lay_sim rb1 rb2"
    by (rule add_intr_alert_reg_ok [OF 1(4) _ sw_modes(2) hw_modes(2)])
       (use fit 1(2,3) in \<open>auto simp: intr_shadowed names_of_def reg_item_def intr_register_def
          lower_names intro: intr_flags(1)\<close>)
  obtain rb3 c where 3: "add_intr_alert_reg sigs ''INTR_TEST'' ''Interrupt Test Register''
      (FmtFun test_desc) ''wo'' ''hro'' True [''excl:CsrNonInitTests:CsrExclWrite''] rb2 = Inr rb3"
    "intr_register (?sep + ?sep) ''INTR_TEST'' sigs c"
    "rb3 = block_of w ps (?sep + ?sep + ?sep) [EReg a, EReg b, EReg c]" "wf_block rb3" "lay_sim rb2 rb3"
    by (rule add_intr_alert_reg_ok [OF 2(4) _ sw_modes(3) hw_modes(2)])
       (use fit 1(2) 2(2,3) in \<open>auto simp: intr_shadowed names_of_def reg_item_def intr_register_def
          lower_names intro: intr_flags(2)\<close>)
  have "make_intr_regs sigs ?rb0 = Inr rb3"
    using ne msb by (simp add: make_intr_regs_def rb0 1(1) 2(1) 3(1))
  moreover have "2 * ?sep = ?sep + ?sep" "3 * ?sep = ?sep + ?sep + ?sep" by simp_all
  moreover have "reach_block w rb3"
    using reach_RegBlock [OF w, of ps] 1(4,5) 2(4,5) 3(4,5) unfolding rb0
    by (blast intro: lay_sim_reach)
  ultimately show ?thesis
    using that [of rb3 a b c] 1(2) 2(2) 3(2,3) by (simp only: block_of_sel)
qed

section \<open>Address width\<close>

lemma get_addr_width_spec:
  assumes "0 < rb_offset rb"
  shows "\<And>addr. 0 \<le> addr \<Longrightarrow> addr < rb_offset rb \<Longrightarrow> addr < 2 ^ get_addr_width rb"
    and "\<And>k. rb_offset rb \<le> 2 ^ k \<Longrightarrow> get_addr_width rb \<le> k"
proof -
  fix addr assume "0 \<le> addr" "addr < rb_offset rb"
  then show "addr < 2 ^ get_addr_width rb"
    using bit_length_less [of "rb_offset rb - 1"] by (simp add: get_addr_width_def)
next
  fix k assume "rb_offset rb \<le> 2 ^ k"
  then show "get_addr_width rb \<le> k"
    using assms by (simp add: get_addr_width_def bit_length_least)
qed

end
