(* ===== verification/Reggen_Bus.thy ===== *)
theory Reggen_Bus
  imports Reggen_Signals
begin

text \<open>
  \<open>reggen/bus_interfaces.py\<close>: the host and device interfaces of a block, at most one of each
  kind without a name, and the names of their ports.
\<close>

datatype bus_protocol = TLUL | REG_IFACE

definition protocol_values :: "(string \<times> bus_protocol) list" where
  "protocol_values = [(''tlul'', TLUL), (''reg_iface'', REG_IFACE)]"

definition has_value :: "string \<Rightarrow> bool" where
  "has_value v \<longleftrightarrow> py_in v protocol_values"

record interface =
  if_name :: "string option"
  if_protocol :: bus_protocol
  if_is_host :: bool

record bus_interfaces =
  bi_unnamed_host :: bool
  bi_named_hosts :: "string list"
  bi_unnamed_device :: bool
  bi_named_devices :: "string list"
  bi_interface_list :: "interface list"

definition BusInterfaces ::
  "bool \<Rightarrow> string list \<Rightarrow> bool \<Rightarrow> string list \<Rightarrow> interface list \<Rightarrow> bus_interfaces res" where
  "BusInterfaces unnamed_host named_hosts unnamed_device named_devices interface_list =
     bnd (py_assert (unnamed_device \<or> named_devices \<noteq> [])) (\<lambda>_.
     bnd (py_assert (distinct named_hosts)) (\<lambda>_.
     bnd (py_assert (distinct named_devices)) (\<lambda>_.
     Inr \<lparr>bi_unnamed_host = unnamed_host, bi_named_hosts = named_hosts,
          bi_unnamed_device = unnamed_device, bi_named_devices = named_devices,
          bi_interface_list = interface_list\<rparr>)))"

text \<open>The body of the parsing loop; its five variables are the fields of the record.\<close>

definition add_interface :: "bus_interfaces \<Rightarrow> bool \<Rightarrow> string option \<Rightarrow> bus_interfaces res" where
  "add_interface st is_host name =
     (if is_host then
        (case name of
           None \<Rightarrow>
             if bi_unnamed_host st then Inl (IpError MultipleUnnamedHosts)
             else Inr (st\<lparr>bi_unnamed_host := True\<rparr>)
         | Some n \<Rightarrow>
             if n \<in> set (bi_named_hosts st) then Inl (IpError (DuplicateHost n))
             else Inr (st\<lparr>bi_named_hosts := bi_named_hosts st @ [n]\<rparr>))
      else
        (case name of
           None \<Rightarrow>
             if bi_unnamed_device st then Inl (IpError MultipleUnnamedDevices)
             else Inr (st\<lparr>bi_unnamed_device := True\<rparr>)
         | Some n \<Rightarrow>
             if n \<in> set (bi_named_devices st) then Inl (IpError (DuplicateDevice n))
             else Inr (st\<lparr>bi_named_devices := bi_named_devices st @ [n]\<rparr>)))"

definition interface_step :: "bus_interfaces \<Rightarrow> pyobj \<Rightarrow> bus_interfaces res" where
  "interface_step st raw_entry =
     bnd (check_keys raw_entry [''protocol'', ''direction''] [''name'']) (\<lambda>ed.
     bnd (bnd (dindex ed ''protocol'') check_str) (\<lambda>protocol.
     if \<not> has_value protocol then Inl (IpError (UnknownProtocol protocol))
     else
     bnd (bnd (dindex ed ''direction'') check_str) (\<lambda>direction.
     if direction \<notin> set [''device'', ''host''] then Inl (IpError (UnknownDirection direction))
     else
     bnd (check_optional_str (dget ed ''name'')) (\<lambda>name.
     bnd (add_interface st (direction = ''host'') name) (\<lambda>st.
     Inr (st\<lparr>bi_interface_list := bi_interface_list st @
       [\<lparr>if_name = name, if_protocol = the (map_of protocol_values protocol),
         if_is_host = (direction = ''host'')\<rparr>]\<rparr>))))))"

definition no_interfaces :: bus_interfaces where
  "no_interfaces = \<lparr>bi_unnamed_host = False, bi_named_hosts = [], bi_unnamed_device = False,
     bi_named_devices = [], bi_interface_list = []\<rparr>"

definition bus_from_raw :: "pyobj \<Rightarrow> bus_interfaces res" where
  "bus_from_raw raw =
     bnd (check_list raw) (\<lambda>entries.
     bnd (foldR interface_step no_interfaces entries) (\<lambda>st.
     if \<not> (bi_unnamed_device st \<or> bi_named_devices st \<noteq> []) then Inl (IpError NoDevice)
     else BusInterfaces (bi_unnamed_host st) (bi_named_hosts st) (bi_unnamed_device st)
            (bi_named_devices st) (bi_interface_list st)))"

definition has_host :: "bus_interfaces \<Rightarrow> bool" where
  "has_host b \<longleftrightarrow> bi_unnamed_host b \<or> bi_named_hosts b \<noteq> []"

definition interfaces :: "bus_interfaces \<Rightarrow> (bool \<times> string option) list" where
  "interfaces b =
     (if bi_unnamed_host b then [(True, None)] else []) @
     map (\<lambda>name. (True, Some name)) (bi_named_hosts b) @
     (if bi_unnamed_device b then [(False, None)] else []) @
     map (\<lambda>name. (False, Some name)) (bi_named_devices b)"

definition if_dict :: "bool \<Rightarrow> string option \<Rightarrow> pydict" where
  "if_dict is_host name =
     [(''protocol'', PStr ''tlul''),
      (''direction'', PStr (if is_host then ''host'' else ''device''))] @ opt_item ''name'' name"

definition bus_as_dicts :: "bus_interfaces \<Rightarrow> pydict list" where
  "bus_as_dicts b = map (\<lambda>(is_host, name). if_dict is_host name) (interfaces b)"

definition get_port_name :: "bus_interfaces \<Rightarrow> bool \<Rightarrow> string option \<Rightarrow> string" where
  "get_port_name b is_host name =
     (let tl_suffix = (if is_host then ''tl_h'' else if has_host b then ''tl_d'' else ''tl'')
      in case name of None \<Rightarrow> tl_suffix | Some n \<Rightarrow> n @ ''_'' @ tl_suffix)"

definition get_port_names :: "bool \<Rightarrow> bool \<Rightarrow> bus_interfaces \<Rightarrow> string list" where
  "get_port_names inc_hosts inc_devices b =
     map (\<lambda>(is_host, name). get_port_name b is_host name)
       (filter (\<lambda>(is_host, name). if is_host then inc_hosts else inc_devices) (interfaces b))"

definition if_inter_signal :: "bus_interfaces \<Rightarrow> bool \<times> string option \<Rightarrow> inter_signal res" where
  "if_inter_signal b = (\<lambda>(is_host, name).
     InterSignal (get_port_name b is_host name) None ''tl'' (Some ''tlul_pkg'') ''req_rsp'' ''rsp'' 1 None)"

definition bus_inter_signals :: "bus_interfaces \<Rightarrow> inter_signal list res" where
  "bus_inter_signals b = mapR (if_inter_signal b) (interfaces b)"

definition has_interface :: "bus_interfaces \<Rightarrow> bool \<Rightarrow> string option \<Rightarrow> bool" where
  "has_interface b is_host name \<longleftrightarrow>
     (if is_host then
        (case name of None \<Rightarrow> bi_unnamed_host b | Some n \<Rightarrow> n \<in> set (bi_named_hosts b))
      else
        (case name of None \<Rightarrow> bi_unnamed_device b | Some n \<Rightarrow> n \<in> set (bi_named_devices b)))"

text \<open>The KeyError of the code carries a message; the model keeps the name it mentions.\<close>

definition find_port_name :: "bus_interfaces \<Rightarrow> bool \<Rightarrow> string option \<Rightarrow> string res" where
  "find_port_name b is_host name =
     (if \<not> has_interface b is_host name
      then Inl (KeyError (case name of None \<Rightarrow> [] | Some n \<Rightarrow> n))
      else Inr (get_port_name b is_host name))"

section \<open>The interfaces of a parsed description\<close>

text \<open>
  The invariant of the loop: names do not repeat, and the list of all interfaces holds the same
  interfaces as the four variables.
\<close>

definition wf_bus :: "bus_interfaces \<Rightarrow> bool" where
  "wf_bus b \<longleftrightarrow> distinct (bi_named_hosts b) \<and> distinct (bi_named_devices b) \<and>
     distinct (map (\<lambda>i. (if_is_host i, if_name i)) (bi_interface_list b)) \<and>
     (\<lambda>i. (if_is_host i, if_name i)) ` set (bi_interface_list b) = set (interfaces b)"

lemma in_interfaces: "(h, n) \<in> set (interfaces b) \<longleftrightarrow> has_interface b h n"
  by (auto simp: interfaces_def has_interface_def split: option.splits)

lemma interfaces_set: "set (interfaces b) = {x. has_interface b (fst x) (snd x)}"
  by (auto simp: in_interfaces)

lemma add_interface_Inr:
  assumes "add_interface st h n = Inr st'"
  shows "\<not> has_interface st h n"
    and "has_interface st' h' n' \<longleftrightarrow> has_interface st h' n' \<or> (h', n') = (h, n)"
    and "distinct (bi_named_hosts st) \<Longrightarrow> distinct (bi_named_hosts st')"
    and "distinct (bi_named_devices st) \<Longrightarrow> distinct (bi_named_devices st')"
    and "bi_interface_list st' = bi_interface_list st"
  using assms
  by (auto simp: add_interface_def has_interface_def split: if_splits option.splits)

lemma interfaces_update [simp]:
  "interfaces (b\<lparr>bi_interface_list := l\<rparr>) = interfaces b"
  by (simp add: interfaces_def)

lemma interface_step_wf:
  assumes wf: "wf_bus st" and step: "interface_step st raw = Inr st'"
  shows "wf_bus st'"
proof -
  from step obtain st1 h n p where add: "add_interface st h n = Inr st1"
    and st': "st' = st1\<lparr>bi_interface_list := bi_interface_list st1 @
       [\<lparr>if_name = n, if_protocol = p, if_is_host = h\<rparr>]\<rparr>"
    by (auto simp: interface_step_def split: if_splits)
  have "(h, n) \<notin> set (interfaces st)"
    using add_interface_Inr(1) [OF add] by (simp add: in_interfaces)
  moreover have "set (interfaces st1) = insert (h, n) (set (interfaces st))"
    using add_interface_Inr(2) [OF add] by (auto simp: interfaces_set)
  ultimately show ?thesis
    using wf add_interface_Inr(3-5) [OF add] by (auto simp: wf_bus_def st')
qed

interpretation bus_loop: invariant_step interface_step wf_bus
  by unfold_locales (rule interface_step_wf)

lemma wf_no_interfaces: "wf_bus no_interfaces"
  by (simp add: wf_bus_def no_interfaces_def interfaces_def)

lemma bus_from_raw_wf:
  assumes "bus_from_raw raw = Inr b"
  shows "wf_bus b" "bi_unnamed_device b \<or> bi_named_devices b \<noteq> []"
proof -
  from assms obtain l st where st: "foldR interface_step no_interfaces l = Inr st"
    and b: "BusInterfaces (bi_unnamed_host st) (bi_named_hosts st) (bi_unnamed_device st)
            (bi_named_devices st) (bi_interface_list st) = Inr b"
    by (auto simp: bus_from_raw_def split: if_splits)
  have "b = st" using b by (cases st) (auto simp: BusInterfaces_def)
  then show "wf_bus b" using bus_loop.fold_inv [OF wf_no_interfaces st] by simp
  show "bi_unnamed_device b \<or> bi_named_devices b \<noteq> []"
    using b by (auto simp: BusInterfaces_def)
qed

lemma raises_bus_from_raw [raises_intros]: "raises is_value_error (bus_from_raw raw)"
proof -
  have step: "raises is_value_error (interface_step st x)" for st x
    unfolding interface_step_def add_interface_def
    by (intro raises_intros) (simp_all add: check_keys_has)
  have "raises is_value_error (foldR interface_step no_interfaces l)" for l
    by (rule bus_loop.fold_raises [OF wf_no_interfaces]) (rule step)
  moreover have "distinct (bi_named_hosts st)" "distinct (bi_named_devices st)"
    if "foldR interface_step no_interfaces l = Inr st" for l st
    using bus_loop.fold_inv [OF wf_no_interfaces that] by (simp_all add: wf_bus_def)
  ultimately show ?thesis
    unfolding bus_from_raw_def BusInterfaces_def
    by (intro raises_intros) simp_all
qed

section \<open>Ports\<close>

lemma interfaces_distinct: "wf_bus b \<Longrightarrow> distinct (interfaces b)"
  by (auto simp: wf_bus_def interfaces_def distinct_map inj_on_def)

lemma port_name_inj:
  assumes "has_interface b h n" and "has_interface b h' n'"
    and eq: "get_port_name b h n = get_port_name b h' n'"
  shows "h = h' \<and> n = n'"
proof -
  define sfx where "sfx h = (if h then ''tl_h'' else if has_host b then ''tl_d'' else ''tl'')" for h
  have name: "get_port_name b h n = (case n of None \<Rightarrow> sfx h | Some s \<Rightarrow> s @ ''_'' @ sfx h)" for h n
    by (cases n) (simp_all add: get_port_name_def sfx_def Let_def)
  have last: "last (get_port_name b h n) = last (sfx h)" for h n
    by (cases n) (simp_all add: name sfx_def)
  have "h = h'"
  proof (rule ccontr)
    assume "h \<noteq> h'"
    then have "has_host b"
      using assms(1,2) by (auto simp: has_interface_def has_host_def split: if_splits option.splits)
    with \<open>h \<noteq> h'\<close> arg_cong [OF eq, of last] show False
      unfolding last by (simp add: sfx_def split: if_splits)
  qed
  with eq show ?thesis
    by (cases n; cases n') (auto simp: name dest: arg_cong [where f = length])
qed

lemma port_names_distinct: "wf_bus b \<Longrightarrow> distinct (get_port_names inc_hosts inc_devices b)"
  unfolding get_port_names_def distinct_map
  by (auto simp: interfaces_distinct in_interfaces inj_on_def dest: port_name_inj split: if_splits)

lemma raises_bus_inter_signals [raises_intros]: "raises is_value_error (bus_inter_signals b)"
  unfolding bus_inter_signals_def if_inter_signal_def InterSignal_def
  by (auto intro!: raises_intros)

section \<open>Printing and parsing interfaces\<close>

lemma interface_step_dict:
  "interface_step st (obj_of_dict (if_dict h n)) =
     bnd (add_interface st h n) (\<lambda>st.
     Inr (st\<lparr>bi_interface_list := bi_interface_list st @
       [\<lparr>if_name = n, if_protocol = TLUL, if_is_host = h\<rparr>]\<rparr>))"
proof -
  have "check_keys (obj_of_dict (if_dict h n)) [''protocol'', ''direction''] [''name''] = Inr (if_dict h n)"
    by (auto simp: check_keys_obj if_dict_def opt_item_def split: option.splits)
  moreover have "check_optional_str (dget (if_dict h n) ''name'') = Inr n"
    by (cases n) (simp_all add: dget_def if_dict_def opt_item_def check_optional_str_def check_str_def)
  ultimately show ?thesis
    by (simp add: interface_step_def dindex_def if_dict_def check_str_def has_value_def
        protocol_values_def)
qed

lemma bus_round_trip:
  assumes wf: "wf_bus b" and dev: "bi_unnamed_device b \<or> bi_named_devices b \<noteq> []"
  shows "bus_from_raw (PList (map obj_of_dict (bus_as_dicts b))) =
    Inr (b\<lparr>bi_interface_list :=
      map (\<lambda>(h, n). \<lparr>if_name = n, if_protocol = TLUL, if_is_host = h\<rparr>) (interfaces b)\<rparr>)"
proof -
  let ?i = "\<lambda>(h, n). \<lparr>if_name = n, if_protocol = TLUL, if_is_host = h\<rparr>"
  have hosts: "foldR interface_step st (map (\<lambda>n. obj_of_dict (if_dict True (Some n))) ns) =
      Inr (st\<lparr>bi_named_hosts := bi_named_hosts st @ ns,
              bi_interface_list := bi_interface_list st @ map (\<lambda>n. ?i (True, Some n)) ns\<rparr>)"
    if "distinct (bi_named_hosts st @ ns)" for st ns
    using that by (induction ns arbitrary: st) (auto simp: interface_step_dict add_interface_def)
  have devs: "foldR interface_step st (map (\<lambda>n. obj_of_dict (if_dict False (Some n))) ns) =
      Inr (st\<lparr>bi_named_devices := bi_named_devices st @ ns,
              bi_interface_list := bi_interface_list st @ map (\<lambda>n. ?i (False, Some n)) ns\<rparr>)"
    if "distinct (bi_named_devices st @ ns)" for st ns
    using that by (induction ns arbitrary: st) (auto simp: interface_step_dict add_interface_def)
  show ?thesis
    using wf dev
    by (cases b) (auto simp: bus_from_raw_def bus_as_dicts_def interfaces_def comp_def foldR_append
        hosts devs interface_step_dict add_interface_def no_interfaces_def wf_bus_def BusInterfaces_def)
qed

end
