(* ===== verification/Reggen_Ipblock.thy ===== *)
theory Reggen_Ipblock
  imports Regblock_Build Reggen_Bus
begin

text \<open>
  \<open>reggen/ip_block.py\<close>: a whole IP block, from its description to the object every generator
  starts from, and back to a description.
\<close>

section \<open>The block\<close>

record ip_block =
  ip_name :: string
  ip_regwidth :: int
  ip_params :: params
  ip_reg_blocks :: "(string option \<times> regblock) list"
  ip_interrupts :: "signal list"
  ip_no_auto_intr :: bool
  ip_alerts :: "alert list"
  ip_no_auto_alert :: bool
  ip_scan :: bool
  ip_inter_signals :: "inter_signal list"
  ip_bus_interfaces :: bus_interfaces
  ip_hier_path :: "string option"
  ip_clock_signals :: "string list"
  ip_reset_signals :: "string list"
  ip_xputs :: "signal list \<times> signal list \<times> signal list"
  ip_wakeups :: "signal list"
  ip_reset_requests :: "signal list"
  ip_scan_reset :: bool
  ip_scan_en :: bool

definition required_fields :: "string list" where
  "required_fields = [''name'', ''clock_primary'', ''bus_interfaces'', ''registers'']"

definition optional_fields :: "string list" where
  "optional_fields =
     [''alert_list'', ''available_inout_list'', ''available_input_list'', ''available_output_list'',
      ''hier_path'', ''interrupt_list'', ''inter_signal_list'', ''no_auto_alert_regs'',
      ''no_auto_intr_regs'', ''other_clock_list'', ''other_reset_list'', ''param_list'', ''regwidth'',
      ''reset_primary'', ''reset_request_list'', ''scan'', ''scan_reset'', ''scan_en'',
      ''SPDX-License-Identifier'', ''wakeup_list'']"

definition dev_if_names :: "bus_interfaces \<Rightarrow> string option list" where
  "dev_if_names b = map Some (bi_named_devices b) @ (if bi_unnamed_device b then [None] else [])"

text \<open>The constructor: three assertions on what it is given.\<close>

definition IpBlock :: "ip_block \<Rightarrow> ip_block res" where
  "IpBlock ip =
     bnd (py_assert (ip_reg_blocks ip \<noteq> [])) (\<lambda>_.
     bnd (py_assert (ip_clock_signals ip \<noteq> [])) (\<lambda>_.
     bnd (py_assert (ip_reset_signals ip \<noteq> [])) (\<lambda>_.
     bnd (py_assert (fst ` set (ip_reg_blocks ip) = set (dev_if_names (ip_bus_interfaces ip)))) (\<lambda>_.
     Inr ip))))"

section \<open>Parsing\<close>

definition parse_regwidth :: "pydict \<Rightarrow> int res" where
  "parse_regwidth rd =
     (if dget rd ''regwidth'' = PNone then Inr 32
      else bnd (check_int (dget rd ''regwidth'')) (\<lambda>regwidth.
           if regwidth \<le> 0 then Inl (IpError (RegwidthNotPositive regwidth)) else Inr regwidth))"

definition is_key_error :: "exn \<Rightarrow> bool" where
  "is_key_error e \<longleftrightarrow> (case e of KeyError k \<Rightarrow> True | _ \<Rightarrow> False)"

text \<open>\<open>try: ... except (ValueError, KeyError) as err: raise ValueError(...)\<close>\<close>

definition parse_params :: "(string \<times> string) list \<Rightarrow> pydict \<Rightarrow> params res" where
  "parse_params param_defaults rd =
     bnd (params_from_raw (dget_or rd ''param_list'' (PList []))) (\<lambda>params.
     case apply_defaults params param_defaults of
       Inr ps \<Rightarrow> Inr ps
     | Inl e \<Rightarrow> Inl (if is_value_error e \<or> is_key_error e then Rewrapped e else e))"

definition gen_intr_regs :: "int \<Rightarrow> bool \<Rightarrow> signal list \<Rightarrow> regblock \<Rightarrow> regblock res" where
  "gen_intr_regs regwidth no_auto_intr interrupts init_block =
     (if interrupts \<noteq> [] \<and> \<not> no_auto_intr then
        (if regwidth \<le> b_msb (s_bits (last interrupts))
         then Inl (IpError (InterruptsTooWide (b_msb (s_bits (last interrupts))) regwidth))
         else make_intr_regs interrupts init_block)
      else Inr init_block)"

definition gen_alert_regs :: "int \<Rightarrow> bool \<Rightarrow> alert list \<Rightarrow> regblock \<Rightarrow> regblock res" where
  "gen_alert_regs regwidth no_auto_alert alerts init_block =
     (if alerts \<noteq> [] \<and> \<not> no_auto_alert then
        (if regwidth < int (length alerts)
         then Inl (IpError (AlertsTooWide (int (length alerts)) regwidth))
         else make_alert_regs alerts init_block)
      else Inr init_block)"

definition add_num_alerts :: "alert list \<Rightarrow> params \<Rightarrow> params res" where
  "add_num_alerts alerts params =
     (if alerts = [] then Inr params
      else case map_of params ''NumAlerts'' of
        Some p \<Rightarrow>
          if \<not> is_LocalParam p \<or> p_type p \<noteq> ''int'' \<or> p_value p \<noteq> show_int (int (length alerts))
          then Inl (IpError NumAlertsConflict) else Inr params
      | None \<Rightarrow>
          params_add (LocalParam ''NumAlerts'' (Some ''Number of alerts'') ''int''
            (show_int (int (length alerts))) None) params)"

text \<open>
  The parameters are one object, shared by the block and its register blocks, so a parameter
  added after the first register block exists is seen by it: the model stores the new
  parameters in the register block as well.
\<close>

definition ip_from_raw :: "(string \<times> string) list \<Rightarrow> pyobj \<Rightarrow> ip_block res" where
  "ip_from_raw param_defaults raw =
     bnd (check_keys raw required_fields optional_fields) (\<lambda>rd.
     bnd (bnd (dindex rd ''name'') check_name) (\<lambda>name.
     bnd (parse_regwidth rd) (\<lambda>regwidth.
     bnd (parse_params param_defaults rd) (\<lambda>params.
     bnd (signals_from_raw_list (dget_or rd ''interrupt_list'' (PList []))) (\<lambda>interrupts.
     bnd (alerts_from_raw_list (dget_or rd ''alert_list'' (PList []))) (\<lambda>alerts.
     bnd (check_bool (dget_or rd ''no_auto_intr_regs'' (PBool (interrupts = [])))) (\<lambda>no_auto_intr.
     bnd (check_bool (dget_or rd ''no_auto_alert_regs'' (PBool (alerts = [])))) (\<lambda>no_auto_alert.
     bnd (gen_intr_regs regwidth no_auto_intr interrupts (RegBlock regwidth params)) (\<lambda>init_block.
     bnd (gen_alert_regs regwidth no_auto_alert alerts init_block) (\<lambda>init_block.
     bnd (add_num_alerts alerts params) (\<lambda>params.
     bnd (check_bool (dget_or rd ''scan'' (PBool False))) (\<lambda>scan.
     bnd (bnd (dindex rd ''registers'') (build_blocks (init_block\<lparr>rb_params := params\<rparr>))) (\<lambda>reg_blocks.
     bnd (check_list (dget_or rd ''inter_signal_list'' (PList []))) (\<lambda>r_inter_signals.
     bnd (mapR inter_signal_from_raw r_inter_signals) (\<lambda>inter_signals.
     bnd (bnd (dindex rd ''bus_interfaces'') bus_from_raw) (\<lambda>bus.
     bnd (bus_inter_signals bus) (\<lambda>bus_signals.
     bnd (check_optional_str (dget_or rd ''hier_path'' PNone)) (\<lambda>hier_path.
     bnd (bnd (dindex rd ''clock_primary'') check_name) (\<lambda>clock_primary.
     bnd (check_name_list (dget_or rd ''other_clock_list'' (PList []))) (\<lambda>other_clock_list.
     bnd (check_name (dget_or rd ''reset_primary'' (PStr ''rst_ni''))) (\<lambda>reset_primary.
     bnd (check_name_list (dget_or rd ''other_reset_list'' (PList []))) (\<lambda>other_reset_list.
     bnd (signals_from_raw_list (dget_or rd ''available_inout_list'' (PList []))) (\<lambda>inouts.
     bnd (signals_from_raw_list (dget_or rd ''available_input_list'' (PList []))) (\<lambda>inputs.
     bnd (signals_from_raw_list (dget_or rd ''available_output_list'' (PList []))) (\<lambda>outputs.
     bnd (signals_from_raw_list (dget_or rd ''wakeup_list'' (PList []))) (\<lambda>wakeups.
     bnd (signals_from_raw_list (dget_or rd ''reset_request_list'' (PList []))) (\<lambda>rst_reqs.
     bnd (check_bool (dget_or rd ''scan_reset'' (PBool False))) (\<lambda>scan_reset.
     bnd (check_bool (dget_or rd ''scan_en'' (PBool False))) (\<lambda>scan_en.
     if fst ` set reg_blocks \<noteq> set (dev_if_names bus)
     then Inl (IpError (InterfaceMismatch (dev_if_names bus) (map fst reg_blocks)))
     else IpBlock
       \<lparr>ip_name = name, ip_regwidth = regwidth, ip_params = params, ip_reg_blocks = reg_blocks,
        ip_interrupts = interrupts, ip_no_auto_intr = no_auto_intr, ip_alerts = alerts,
        ip_no_auto_alert = no_auto_alert, ip_scan = scan,
        ip_inter_signals = inter_signals @ bus_signals, ip_bus_interfaces = bus,
        ip_hier_path = hier_path, ip_clock_signals = clock_primary # other_clock_list,
        ip_reset_signals = reset_primary # other_reset_list, ip_xputs = (inouts, inputs, outputs),
        ip_wakeups = wakeups, ip_reset_requests = rst_reqs, ip_scan_reset = scan_reset,
        ip_scan_en = scan_en\<rparr>)))))))))))))))))))))))))))))"

text \<open>
  \<open>from_text\<close> and \<open>from_path\<close>: the Hjson parser and the file system are code outside the
  repository, parameters of the model.
\<close>

definition ip_from_text ::
  "(string \<Rightarrow> pyobj res) \<Rightarrow> string \<Rightarrow> (string \<times> string) list \<Rightarrow> ip_block res" where
  "ip_from_text hjson_loads txt param_defaults = bnd (hjson_loads txt) (ip_from_raw param_defaults)"

definition ip_from_path ::
  "(string \<Rightarrow> pyobj res) \<Rightarrow> (string \<Rightarrow> string res) \<Rightarrow> string \<Rightarrow> (string \<times> string) list \<Rightarrow>
     ip_block res" where
  "ip_from_path hjson_loads read_file path param_defaults =
     bnd (read_file path) (\<lambda>txt. ip_from_text hjson_loads txt param_defaults)"

section \<open>Printing\<close>

text \<open>
  \<open>_asdict\<close> puts objects into the dictionary, which the serialiser prints with their own
  \<open>_asdict\<close>; the model applies it at once.
\<close>

fun entry_as_obj :: "entry \<Rightarrow> pyobj" where
  "entry_as_obj (EReg r) = obj_of_dict (register_as_dict r)"
| "entry_as_obj (EMulti m) = obj_of_dict (multireg_as_dict m)"
| "entry_as_obj (EWin w) = obj_of_dict (window_as_dict w)"

fun listing_as_obj :: "listing \<Rightarrow> pyobj" where
  "listing_as_obj (Reserved n) = obj_of_dict [(''reserved'', PInt n)]"
| "listing_as_obj (Entry e) = entry_as_obj e"

definition reg_block_as_obj :: "regblock \<Rightarrow> pyobj res" where
  "reg_block_as_obj rb = bnd (regblock_as_dicts rb) (\<lambda>l. Inr (PList (map listing_as_obj l)))"

definition signals_obj :: "signal list \<Rightarrow> pyobj" where
  "signals_obj sigs = PList (map (\<lambda>s. obj_of_dict (signal_as_dict s)) sigs)"

definition nonempty_item :: "string \<Rightarrow> signal list \<Rightarrow> pydict" where
  "nonempty_item k sigs = (if sigs \<noteq> [] then [(k, signals_obj sigs)] else [])"

definition ip_registers_obj :: "ip_block \<Rightarrow> pyobj res" where
  "ip_registers_obj ip =
     (case ip_reg_blocks ip of
        [(None, rb)] \<Rightarrow> reg_block_as_obj rb
      | blocks \<Rightarrow>
          bnd (mapR (\<lambda>(k, v). bnd (reg_block_as_obj v) (\<lambda>o'.
                 Inr ((case k of None \<Rightarrow> PNone | Some s \<Rightarrow> PStr s), o'))) blocks) (\<lambda>items.
          Inr (PDict items)))"

definition ip_as_dict :: "ip_block \<Rightarrow> pydict res" where
  "ip_as_dict ip =
     bnd (ip_registers_obj ip) (\<lambda>registers.
     case ip_xputs ip of (inouts, inputs, outputs) \<Rightarrow>
     Inr ([(''name'', PStr (ip_name ip)), (''regwidth'', PInt (ip_regwidth ip)),
           (''registers'', registers),
           (''param_list'', PList (map obj_of_dict (params_as_dicts (ip_params ip)))),
           (''interrupt_list'', signals_obj (ip_interrupts ip)),
           (''no_auto_intr_regs'', PBool (ip_no_auto_intr ip)),
           (''alert_list'', PList (map (\<lambda>a. obj_of_dict (alert_as_dict a)) (ip_alerts ip))),
           (''no_auto_alert_regs'', PBool (ip_no_auto_alert ip)),
           (''scan'', PBool (ip_scan ip)),
           (''inter_signal_list'',
              PList (map (\<lambda>s. obj_of_dict (inter_signal_as_dict s)) (ip_inter_signals ip))),
           (''bus_interfaces'', PList (map obj_of_dict (bus_as_dicts (ip_bus_interfaces ip))))] @
          opt_item ''hier_path'' (ip_hier_path ip) @
          [(''clock_primary'', PStr (hd (ip_clock_signals ip)))] @
          (if 1 < length (ip_clock_signals ip)
           then [(''other_clock_list'', PList (map PStr (tl (ip_clock_signals ip))))] else []) @
          [(''reset_primary'', PStr (hd (ip_reset_signals ip)))] @
          (if 1 < length (ip_reset_signals ip)
           then [(''other_reset_list'', PList (map PStr (tl (ip_reset_signals ip))))] else []) @
          nonempty_item ''available_inout_list'' inouts @
          nonempty_item ''available_input_list'' inputs @
          nonempty_item ''available_output_list'' outputs @
          nonempty_item ''wakeup_list'' (ip_wakeups ip) @
          nonempty_item ''reset_request_list'' (ip_reset_requests ip) @
          [(''scan_reset'', PBool (ip_scan_reset ip)), (''scan_en'', PBool (ip_scan_en ip))]))"

section \<open>Queries\<close>

definition get_rnames :: "ip_block \<Rightarrow> string set" where
  "get_rnames ip = foldl (\<lambda>ret (k, rb). ret \<union> fst ` set (rb_name_to_offset rb)) {} (ip_reg_blocks ip)"

definition get_signals_as_list_of_dicts :: "ip_block \<Rightarrow> pydict list" where
  "get_signals_as_list_of_dicts ip =
     (case ip_xputs ip of (inouts, inputs, outputs) \<Rightarrow>
        concat (map (\<lambda>(iodir, xput). map (signal_as_nwt_dict iodir) xput)
          [(''inout'', inouts), (''input'', inputs), (''output'', outputs)]))"

definition get_signal_by_name_as_dict :: "ip_block \<Rightarrow> string \<Rightarrow> pydict res" where
  "get_signal_by_name_as_dict ip name =
     (case find (\<lambda>sig. map_of sig ''name'' = Some (PStr name)) (get_signals_as_list_of_dicts ip) of
        Some sig \<Rightarrow> Inr sig
      | None \<Rightarrow> Inl (IpError (NoSuchSignal name)))"

end
