(* ===== verification/Ipblock_Facts.thy ===== *)
theory Ipblock_Facts
  imports Reggen_Ipblock
begin

text \<open>
  What a parsed IP block satisfies: the generated interrupt registers come first, every
  register block keeps the contract of \<open>RegBlock\<close>, and the blocks match the device interfaces.
\<close>

lemma ip_from_raw_parts:
  assumes "ip_from_raw ds raw = Inr ip"
  shows "\<exists>rd params0 b0 b1 ri ra rr rbus.
     parse_regwidth rd = Inr (ip_regwidth ip) \<and> parse_params ds rd = Inr params0 \<and>
     signals_from_raw_list ri = Inr (ip_interrupts ip) \<and> alerts_from_raw_list ra = Inr (ip_alerts ip) \<and>
     gen_intr_regs (ip_regwidth ip) (ip_no_auto_intr ip) (ip_interrupts ip)
       (RegBlock (ip_regwidth ip) params0) = Inr b0 \<and>
     gen_alert_regs (ip_regwidth ip) (ip_no_auto_alert ip) (ip_alerts ip) b0 = Inr b1 \<and>
     add_num_alerts (ip_alerts ip) params0 = Inr (ip_params ip) \<and>
     build_blocks (b1\<lparr>rb_params := ip_params ip\<rparr>) rr = Inr (ip_reg_blocks ip) \<and>
     bus_from_raw rbus = Inr (ip_bus_interfaces ip) \<and>
     fst ` set (ip_reg_blocks ip) = set (dev_if_names (ip_bus_interfaces ip))"
  using assms unfolding ip_from_raw_def IpBlock_def
  apply (simp only: bnd_eq_Inr py_assert_Inr if_Inl_Inr sum.inject not_not)
  apply (elim exE conjE)
  apply hypsubst
  apply (simp only: ip_block.simps)
  apply (intro exI conjI)
           apply (assumption | rule TrueI)+
  done

section \<open>Generated registers of a parsed block\<close>

lemma parse_regwidth_pos: "parse_regwidth rd = Inr w \<Longrightarrow> 0 < w"
  by (auto simp: parse_regwidth_def split: if_splits)

lemma add_intr_alert_reg_distinct:
  assumes "add_intr_alert_reg sigs nm d fmt swk hwk tst tags rb = Inr rb'"
  shows "distinct (map s_name sigs)"
proof -
  from assms obtain sw hw r where "Register (rb_offset rb) nm d sw hw tst tst False None tags None False
      (map (intr_field fmt sw hw tst) sigs) None None = Inr r"
    by (auto simp: add_intr_alert_reg_def Let_def)
  then have "distinct (map f_name (sort_fields (map (intr_field fmt sw hw tst) sigs)))"
    by (simp add: Register_Inr)
  moreover have "distinct (map f (sort_fields fs)) \<Longrightarrow> distinct (map f fs)" for f :: "field \<Rightarrow> string" and fs
    by (metis card_distinct distinct_card length_map length_sort_fields set_map set_sort_fields)
  ultimately have "distinct (map f_name (map (intr_field fmt sw hw tst) sigs))" by blast
  then show ?thesis by (simp add: comp_def)
qed

lemma interrupts_fit:
  assumes "signals_from_raw_list raw = Inr sigs" and "make_intr_regs sigs rb = Inr rb'"
  shows "signals_fit (rb_reg_width rb) sigs"
proof -
  from assms(2) obtain rb1 where ne: "sigs \<noteq> []" "b_msb (s_bits (last sigs)) < rb_reg_width rb"
    and add: "add_intr_alert_reg sigs ''INTR_STATE'' ''Interrupt State Register'' FmtNone
            ''rw1c'' ''hrw'' False [''excl:CsrNonInitTests:CsrExclWriteCheck''] rb = Inr rb1"
    by (auto simp: make_intr_regs_def)
  obtain b where b: "tiled (\<lambda>s. b_lsb (s_bits s)) sig_next 0 sigs b"
    using signals_from_raw_list_tiled [OF assms(1)] by blast
  have "b = sig_next (last sigs)" using tiled_last [OF b ne(1)] .
  then have "b \<le> rb_reg_width rb" using ne(2) by (simp add: sig_next_msb)
  then show ?thesis
    using signals_from_raw_list_tiled(1) [OF assms(1)] tiled_chain [OF b] ne(1)
      add_intr_alert_reg_distinct [OF add]
    unfolding signals_fit_def by blast
qed

lemma alerts_fit:
  assumes al: "alerts_from_raw_list raw = Inr al" and "al \<noteq> []" and "int (length al) \<le> w"
    and "distinct (map s_name al)"
  shows "signals_fit w (map signal.truncate al)"
proof -
  have nth: "s_bits (al ! i) = \<lparr>b_msb = int i, b_lsb = int i\<rparr> \<and> valid_name (s_name (al ! i))"
    if "i < length al" for i
    using alerts_from_raw_list_nth [OF al that] by (simp add: wf_alert_def)
  have sel: "s_bits (signal.truncate a) = s_bits a" "s_name (signal.truncate a) = s_name a" for a :: alert
    by (simp_all add: signal.truncate_def)
  have "chain (\<lambda>s. b_lsb (s_bits s)) sig_next 0 (map signal.truncate al)
      (0 + int (length (map signal.truncate al)) * 1)"
    by (rule chain_evenly) (use nth in \<open>auto simp: sel sig_next_msb\<close>)
  moreover have "list_all wf_signal (map signal.truncate al)"
    using nth by (auto simp: list_all_length wf_signal_def wf_bits_def sel)
  ultimately show ?thesis
    using assms(2-4) by (auto simp: signals_fit_def comp_def sel)
qed

lemma gen_intr_regs_ok:
  assumes g: "gen_intr_regs w no_auto sigs (RegBlock w ps) = Inr b0"
    and sigs: "signals_from_raw_list raw = Inr sigs" and w: "0 < w"
  shows "reach_block w b0"
    and "sigs \<noteq> [] \<Longrightarrow> \<not> no_auto \<Longrightarrow> \<exists>a b c. rb_entries b0 = [EReg a, EReg b, EReg c] \<and>
      intr_register 0 ''INTR_STATE'' sigs a \<and> intr_register ((w + 7) div 8) ''INTR_ENABLE'' sigs b \<and>
      intr_register (2 * ((w + 7) div 8)) ''INTR_TEST'' sigs c"
    and "sigs = [] \<or> no_auto \<Longrightarrow> b0 = RegBlock w ps"
proof -
  show "b0 = RegBlock w ps" if "sigs = [] \<or> no_auto"
    using g that by (auto simp: gen_intr_regs_def)
  note none = this
  have gen: "reach_block w b0 \<and> (\<exists>a b c. rb_entries b0 = [EReg a, EReg b, EReg c] \<and>
      intr_register 0 ''INTR_STATE'' sigs a \<and> intr_register ((w + 7) div 8) ''INTR_ENABLE'' sigs b \<and>
      intr_register (2 * ((w + 7) div 8)) ''INTR_TEST'' sigs c)" if "\<not> (sigs = [] \<or> no_auto)"
  proof -
    have m: "make_intr_regs sigs (RegBlock w ps) = Inr b0"
      using g that by (simp add: gen_intr_regs_def split: if_splits)
    have "signals_fit w sigs" using interrupts_fit [OF sigs m] by (simp add: RegBlock_def)
    from make_intr_regs_ok [OF w this, of ps] m show ?thesis by (metis sum.inject(2))
  qed
  show "reach_block w b0"
    using none gen reach_RegBlock [OF w] by (cases "sigs = [] \<or> no_auto") auto
  show "\<exists>a b c. rb_entries b0 = [EReg a, EReg b, EReg c] \<and>
      intr_register 0 ''INTR_STATE'' sigs a \<and> intr_register ((w + 7) div 8) ''INTR_ENABLE'' sigs b \<and>
      intr_register (2 * ((w + 7) div 8)) ''INTR_TEST'' sigs c" if "sigs \<noteq> []" "\<not> no_auto"
    using gen that by blast
qed

lemma make_alert_regs_ok:
  assumes m: "make_alert_regs al b0 = Inr b1" and al: "alerts_from_raw_list raw = Inr al"
    and b0: "reach_block w b0"
  shows "reach_block w b1" and "\<exists>r. rb_entries b1 = rb_entries b0 @ [EReg r] \<and>
      intr_register (rb_offset b0) ''ALERT_TEST'' (map signal.truncate al) r"
proof -
  have wf: "wf_block b0" "rb_reg_width b0 = w" using b0 by (simp_all add: reach_block_def)
  let ?sigs = "map signal.truncate al"
  have ne: "al \<noteq> []" "int (length al) < w"
    and add: "add_intr_alert_reg ?sigs ''ALERT_TEST'' ''Alert Test Register''
       (FmtStr ''Write 1 to trigger one alert event of this kind.'') ''wo'' ''hro'' True [] b0 = Inr b1"
    using m wf(2) by (auto simp: make_alert_regs_def)
  have "distinct (map s_name al)"
    using add_intr_alert_reg_distinct [OF add] by (simp add: comp_def signal.truncate_def)
  then have fit: "signals_fit (rb_reg_width b0) ?sigs"
    using alerts_fit [OF al ne(1)] ne(2) wf(2) by simp
  have fresh: "map_of (rb_name_to_offset b0) (str_lower ''ALERT_TEST'') = None"
  proof (cases "map_of (rb_name_to_offset b0) (str_lower ''ALERT_TEST'')")
    case (Some other)
    with add show ?thesis
      by (auto simp: add_intr_alert_reg_def Let_def add_register_def Register_Inr reg_record_def)
  qed
  obtain rb' r where "add_intr_alert_reg ?sigs ''ALERT_TEST'' ''Alert Test Register''
       (FmtStr ''Write 1 to trigger one alert event of this kind.'') ''wo'' ''hro'' True [] b0 = Inr rb'"
    "intr_register (rb_offset b0) ''ALERT_TEST'' ?sigs r" "wf_block rb'" "lay_sim b0 rb'"
    "rb' = block_of (rb_reg_width b0) (rb_params b0) (rb_offset b0 + rb_addrsep b0)
           (rb_entries b0 @ [EReg r])"
    by (rule add_intr_alert_reg_ok [OF wf(1) fit sw_modes(3) hw_modes(2) intr_flags(2)
          intr_shadowed(4) fresh]) simp_all
  then show "reach_block w b1" "\<exists>r. rb_entries b1 = rb_entries b0 @ [EReg r] \<and>
      intr_register (rb_offset b0) ''ALERT_TEST'' ?sigs r"
    using add b0 by (auto intro: lay_sim_reach)
qed

lemma gen_alert_regs_ok:
  assumes g: "gen_alert_regs w no_auto al b0 = Inr b1" and al: "alerts_from_raw_list raw = Inr al"
    and b0: "reach_block w b0"
  shows "reach_block w b1" and "\<exists>es. rb_entries b1 = rb_entries b0 @ es"
proof -
  have "Inr b1 = (Inr b0 :: regblock res) \<or> make_alert_regs al b0 = Inr b1"
    using g unfolding gen_alert_regs_def by (cases "al \<noteq> [] \<and> \<not> no_auto"; cases "w < int (length al)") simp_all
  then have "reach_block w b1 \<and> (\<exists>es. rb_entries b1 = rb_entries b0 @ es)"
  proof
    assume "(Inr b1 :: regblock res) = Inr b0"
    with b0 show ?thesis by simp
  next
    assume "make_alert_regs al b0 = Inr b1"
    from make_alert_regs_ok [OF this al b0] show ?thesis by blast
  qed
  then show "reach_block w b1" "\<exists>es. rb_entries b1 = rb_entries b0 @ es" by blast+
qed

section \<open>A parsed block\<close>

lemma ip_blocks_ok:
  assumes "ip_from_raw ds raw = Inr ip"
  shows "0 < ip_regwidth ip" and "blocks_ok (ip_regwidth ip) (ip_reg_blocks ip)"
    and "fst ` set (ip_reg_blocks ip) = set (dev_if_names (ip_bus_interfaces ip))"
    and "wf_bus (ip_bus_interfaces ip)" and "ip_reg_blocks ip \<noteq> []"
    and "ip_interrupts ip \<noteq> [] \<Longrightarrow> \<not> ip_no_auto_intr ip \<Longrightarrow>
      \<exists>a b c es. rb_entries (snd (hd (ip_reg_blocks ip))) = EReg a # EReg b # EReg c # es \<and>
        intr_register 0 ''INTR_STATE'' (ip_interrupts ip) a \<and>
        intr_register ((ip_regwidth ip + 7) div 8) ''INTR_ENABLE'' (ip_interrupts ip) b \<and>
        intr_register (2 * ((ip_regwidth ip + 7) div 8)) ''INTR_TEST'' (ip_interrupts ip) c"
proof -
  let ?w = "ip_regwidth ip"
  from ip_from_raw_parts [OF assms] obtain rd params0 b0 b1 ri ra rr rbus where
    w: "parse_regwidth rd = Inr ?w" and
    i: "signals_from_raw_list ri = Inr (ip_interrupts ip)" and
    a: "alerts_from_raw_list ra = Inr (ip_alerts ip)" and
    b0: "gen_intr_regs ?w (ip_no_auto_intr ip) (ip_interrupts ip) (RegBlock ?w params0) = Inr b0" and
    b1: "gen_alert_regs ?w (ip_no_auto_alert ip) (ip_alerts ip) b0 = Inr b1" and
    blocks: "build_blocks (b1\<lparr>rb_params := ip_params ip\<rparr>) rr = Inr (ip_reg_blocks ip)" and
    bus: "bus_from_raw rbus = Inr (ip_bus_interfaces ip)" and
    names: "fst ` set (ip_reg_blocks ip) = set (dev_if_names (ip_bus_interfaces ip))"
    by (elim exE conjE) (rule that)
  show pos: "0 < ?w" using w by (rule parse_regwidth_pos)
  show "fst ` set (ip_reg_blocks ip) = set (dev_if_names (ip_bus_interfaces ip))" by (rule names)
  show "wf_bus (ip_bus_interfaces ip)" using bus by (rule bus_from_raw_wf)
  show ne: "ip_reg_blocks ip \<noteq> []"
    using names bus_from_raw_wf(2) [OF bus] by (auto simp: dev_if_names_def split: if_splits)
  note r0 = gen_intr_regs_ok [OF b0 i pos]
  note r1 = gen_alert_regs_ok [OF b1 a r0(1)]
  have start: "reach_block ?w (b1\<lparr>rb_params := ip_params ip\<rparr>)" using r1(1) by (rule reach_params)
  show "blocks_ok ?w (ip_reg_blocks ip)" using start blocks by (rule build_blocks_ok)
  from build_blocks_first [OF start blocks ne] r1(2)
  have "\<exists>es. rb_entries (snd (hd (ip_reg_blocks ip))) = rb_entries b0 @ es" by auto
  then show "\<exists>a b c es. rb_entries (snd (hd (ip_reg_blocks ip))) = EReg a # EReg b # EReg c # es \<and>
        intr_register 0 ''INTR_STATE'' (ip_interrupts ip) a \<and>
        intr_register ((ip_regwidth ip + 7) div 8) ''INTR_ENABLE'' (ip_interrupts ip) b \<and>
        intr_register (2 * ((ip_regwidth ip + 7) div 8)) ''INTR_TEST'' (ip_interrupts ip) c"
    if "ip_interrupts ip \<noteq> []" "\<not> ip_no_auto_intr ip"
    using r0(2) [OF that] by force
qed

text \<open>
  The width check of the caller admits one alert too many: with exactly \<open>regwidth\<close> alerts it
  passes, and the assertion of \<open>make_alert_regs\<close> fails.
\<close>

lemma alerts_off_by_one:
  "0 < w \<Longrightarrow> int (length al) = w \<Longrightarrow> rb_reg_width rb = w \<Longrightarrow>
     gen_alert_regs w False al rb = Inl AssertionError"
  by (auto simp: gen_alert_regs_def make_alert_regs_def)

end
