(* ===== verification/Block_Roundtrip.thy ===== *)
theory Block_Roundtrip
  imports Ipblock_Facts
begin

text \<open>
  Printing a block of registers and parsing the text again: the listing of \<open>as_dicts\<close>, each
  entry printed by its own \<open>_asdict\<close>, is a registers field that builds the same entries.
\<close>

lemma add_raw_reserved:
  "0 < n \<Longrightarrow> add_raw rb (listing_as_obj (Reserved n)) =
     Inr (rb\<lparr>rb_offset := rb_offset rb + rb_addrsep rb * n\<rparr>)"
  by (simp add: add_raw_def entry_type_def type_step_def dget_def handlers_def handle_reserved_def)

lemma register_dict_plain:
  "t \<in> {''reserved'', ''skipto'', ''window'', ''multireg''} \<Longrightarrow> dget (register_as_dict r) t = PNone"
proof -
  assume t: "t \<in> {''reserved'', ''skipto'', ''window'', ''multireg''}"
  have "fst ` set (optional_item k x) \<subseteq> {k}" for k x
    by (cases x) (simp_all add: optional_item_def)
  then have "fst ` set (register_as_dict r) \<subseteq> set (register_required @ register_optional)"
    unfolding register_as_dict_def register_required_def register_optional_def
    by (simp add: image_Un) blast
  moreover have "t \<notin> set (register_required @ register_optional)"
    using t by (auto simp: register_required_def register_optional_def)
  ultimately have "map_of (register_as_dict r) t = None" by (auto simp: map_of_eq_None_iff)
  then show ?thesis by (simp add: dget_def)
qed

lemma add_raw_register:
  "add_raw rb (obj_of_dict (register_as_dict r)) =
     handle_register (obj_of_dict (register_as_dict r)) rb"
  by (simp add: add_raw_def entry_type_def type_step_def register_dict_plain handlers_def)

lemma handle_printed_register:
  assumes wf: "wf_block rb" and r: "wf_register (rb_reg_width rb) r" "printable r"
    and off: "r_offset r = rb_offset rb"
    and fresh: "distinct (map fst (names_of (rb_entries rb @ [EReg r])))"
  shows "add_raw rb (listing_as_obj (Entry (EReg r))) =
     Inr (block_of (rb_reg_width rb) (rb_params rb) (r_offset r + rb_addrsep rb) (rb_entries rb @ [EReg r]))"
proof -
  have "register_from_raw (rb_reg_width rb) (rb_offset rb) (rb_params rb)
      (obj_of_dict (register_as_dict r)) = Inr r"
    using register_round_trip [OF r] off by simp
  moreover have "map_of (rb_name_to_offset rb) (str_lower (r_name r)) = None"
    using fresh by (simp add: wf_block_sel(2) [OF wf] names_of_def reg_item_def map_of_eq_None_iff)
  ultimately show ?thesis
    using add_register_eq [OF wf off] by (simp add: add_raw_register handle_register_def)
qed

definition plain_register :: "int \<Rightarrow> entry \<Rightarrow> bool" where
  "plain_register w e \<longleftrightarrow> (\<exists>r. e = EReg r \<and> wf_register w r \<and> printable r)"

lemma listing_step_parse:
  assumes step: "listing_step (rb_addrsep rb) (acc, rb_offset rb) e = Inr (acc1, off1)"
    and wf: "wf_block rb" and e: "plain_register (rb_reg_width rb) e"
    and fresh: "distinct (map fst (names_of (rb_entries rb @ [e])))"
  obtains g where "acc1 = acc @ g"
    and "foldR add_raw rb (map listing_as_obj g) =
      Inr (block_of (rb_reg_width rb) (rb_params rb) off1 (rb_entries rb @ [e]))"
    and "wf_block (block_of (rb_reg_width rb) (rb_params rb) off1 (rb_entries rb @ [e]))"
proof -
  let ?sep = "rb_addrsep rb" and ?gap = "entry_offset e - rb_offset rb"
  let ?g = "(if ?gap = 0 then [] else [Reserved (?gap div ?sep)])"
  from e obtain r where r: "e = EReg r" "wf_register (rb_reg_width rb) r" "printable r"
    by (auto simp: plain_register_def)
  from step have acc1: "acc1 = acc @ ?g @ [Entry e]" and off1: "off1 = r_offset r + ?sep"
    and gap: "?gap mod ?sep = 0" "0 \<le> ?gap"
    by (auto simp: listing_step_def Let_def r register_next_offset_def split: if_splits)
  define rb1 where "rb1 = rb\<lparr>rb_offset := r_offset r\<rparr>"
  have sep: "0 < ?sep" using wf_block_sep [OF wf] by blast
  have wf1: "wf_block rb1" unfolding rb1_def using wf gap(2) by (intro wf_block_advance) (simp_all add: r)
  have skip: "foldR add_raw rb (map listing_as_obj ?g) = Inr rb1"
  proof (cases "?gap = 0")
    case True
    then show ?thesis by (simp add: rb1_def r)
  next
    case False
    have "?sep * (?gap div ?sep) = ?gap" using gap(1) mult_div_mod_eq [of ?sep ?gap] by simp
    moreover have "0 < ?gap div ?sep"
      using False gap sep calculation by (metis less_le mult_zero_right pos_imp_zdiv_nonneg_iff)
    ultimately show ?thesis using False by (simp add: add_raw_reserved rb1_def r del: listing_as_obj.simps)
  qed
  have sel: "rb_reg_width rb1 = rb_reg_width rb" "rb_params rb1 = rb_params rb" "rb_addrsep rb1 = ?sep"
    "rb_entries rb1 = rb_entries rb" "rb_offset rb1 = r_offset r" by (simp_all add: rb1_def)
  have add: "add_raw rb1 (listing_as_obj (Entry (EReg r))) =
      Inr (block_of (rb_reg_width rb) (rb_params rb) off1 (rb_entries rb @ [e]))"
    using handle_printed_register [OF wf1, of r] r fresh by (simp only: sel off1)
  show ?thesis
  proof (rule that)
    show "acc1 = acc @ ?g @ [Entry e]" by (rule acc1)
    show "foldR add_raw rb (map listing_as_obj (?g @ [Entry e])) =
      Inr (block_of (rb_reg_width rb) (rb_params rb) off1 (rb_entries rb @ [e]))"
      unfolding map_append foldR_append skip using add by (simp add: r(1) del: listing_as_obj.simps)
    show "wf_block (block_of (rb_reg_width rb) (rb_params rb) off1 (rb_entries rb @ [e]))"
      using wf1 add by (rule add_raw_wf)
  qed
qed

lemma listing_parse:
  "foldR (listing_step (rb_addrsep rb)) (acc, rb_offset rb) es = Inr (l, off') \<Longrightarrow> wf_block rb \<Longrightarrow>
     list_all (plain_register (rb_reg_width rb)) es \<Longrightarrow>
     distinct (map fst (names_of (rb_entries rb @ es))) \<Longrightarrow>
     \<exists>g rb'. l = acc @ g \<and> foldR add_raw rb (map listing_as_obj g) = Inr rb' \<and>
       rb_entries rb' = rb_entries rb @ es \<and> rb_offset rb' = off'"
proof (induction es arbitrary: rb acc)
  case (Cons e es)
  from Cons.prems(1) obtain acc1 off1 where
    step: "listing_step (rb_addrsep rb) (acc, rb_offset rb) e = Inr (acc1, off1)"
    and rest: "foldR (listing_step (rb_addrsep rb)) (acc1, off1) es = Inr (l, off')"
    by (auto simp del: bnd_eq_Inr simp: bnd_def split: sum.splits)
  have "distinct (map fst (names_of (rb_entries rb @ [e])))"
    using Cons.prems(4) by (simp add: names_of_def) blast
  with step Cons.prems(2,3) obtain g where g: "acc1 = acc @ g"
    "foldR add_raw rb (map listing_as_obj g) =
      Inr (block_of (rb_reg_width rb) (rb_params rb) off1 (rb_entries rb @ [e]))"
    "wf_block (block_of (rb_reg_width rb) (rb_params rb) off1 (rb_entries rb @ [e]))"
    by (elim listing_step_parse) simp_all
  let ?rb = "block_of (rb_reg_width rb) (rb_params rb) off1 (rb_entries rb @ [e])"
  have sep: "rb_addrsep ?rb = rb_addrsep rb" using wf_block_sep [OF Cons.prems(2)] by simp
  have "\<exists>g' rb'. l = acc1 @ g' \<and> foldR add_raw ?rb (map listing_as_obj g') = Inr rb' \<and>
       rb_entries rb' = rb_entries ?rb @ es \<and> rb_offset rb' = off'"
  proof (rule Cons.IH [OF _ g(3)])
    show "foldR (listing_step (rb_addrsep ?rb)) (acc1, rb_offset ?rb) es = Inr (l, off')"
      using rest by (simp only: sep block_of_sel(4))
  qed (use Cons.prems(3,4) in simp_all)
  then obtain g' rb' where "l = acc1 @ g'" "foldR add_raw ?rb (map listing_as_obj g') = Inr rb'"
    "rb_entries rb' = rb_entries rb @ e # es" "rb_offset rb' = off'" by auto
  then show ?case
    using g(1,2) by (intro exI [of _ "g @ g'"] exI [of _ rb']) (simp add: foldR_append)
qed auto

lemma regblock_round_trip_aux:
  assumes wf: "wf_block rb" and l: "regblock_as_dicts rb = Inr l"
    and plain: "list_all (plain_register (rb_reg_width rb)) (rb_entries rb)"
  shows "\<exists>rb'. add_raw_registers (PList (map listing_as_obj l)) (RegBlock (rb_reg_width rb) ps) = Inr rb' \<and>
     rb_entries rb' = rb_entries rb"
proof -
  let ?rb0 = "RegBlock (rb_reg_width rb) ps"
  have pos: "0 < rb_reg_width rb" and dist: "distinct (map fst (names_of (rb_entries rb)))"
    using wf unfolding wf_block_def by blast+
  from l obtain off' where f: "foldR (listing_step (rb_addrsep rb)) ([], 0) (rb_entries rb) = Inr (l, off')"
    by (auto simp: regblock_as_dicts_def)
  have sel: "rb_offset ?rb0 = 0" "rb_entries ?rb0 = []" "rb_reg_width ?rb0 = rb_reg_width rb"
    "rb_addrsep ?rb0 = rb_addrsep rb"
    using wf_block_sep [OF wf] by (simp_all add: RegBlock_def)
  have "\<exists>g rb'. l = [] @ g \<and> foldR add_raw ?rb0 (map listing_as_obj g) = Inr rb' \<and>
       rb_entries rb' = rb_entries ?rb0 @ rb_entries rb \<and> rb_offset rb' = off'"
    by (rule listing_parse) (simp_all only: sel f RegBlock_wf [OF pos] plain dist append_Nil)
  then show ?thesis by (auto simp: add_raw_registers_def check_list_def sel)
qed

text \<open>Blocks all of whose entries are registers that can be printed.\<close>

definition printable_entry :: "entry \<Rightarrow> bool" where
  "printable_entry e \<longleftrightarrow> (case e of EReg r \<Rightarrow> printable r | _ \<Rightarrow> False)"

lemma plain_entries:
  assumes wf: "wf_block rb" and "list_all printable_entry (rb_entries rb)"
  shows "list_all (plain_register (rb_reg_width rb)) (rb_entries rb)"
proof -
  have "list_all (wf_entry (rb_reg_width rb) (rb_addrsep rb)) (rb_entries rb)"
    using wf unfolding wf_block_def by blast
  moreover have "plain_register w e" if "wf_entry w sep e" "printable_entry e" for w sep e
    using that by (cases e) (auto simp: plain_register_def printable_entry_def)
  ultimately show ?thesis using assms(2) by (auto simp: list_all_iff)
qed

end
