(* ===== verification/Example_Uart.thy ===== *)
theory Example_Uart
  imports Block_Roundtrip "HOL-Library.Code_Target_Numeral"
begin

text \<open>
  Concrete descriptions, as \<open>hjson.loads\<close> would return them: a registers field with a register, a
  multi-register, address gaps and a memory window, and a whole block with an interrupt list.
  They show that the hypotheses of the theorems can hold; the model parses them by evaluation.
\<close>

definition ctrl_desc :: pyobj where
  "ctrl_desc = obj_of_dict
     [(''name'', PStr ''CTRL''), (''desc'', PStr ''control''), (''swaccess'', PStr ''rw''),
      (''fields'', PList
         [obj_of_dict [(''bits'', PStr ''15:8''), (''name'', PStr ''DIV''), (''desc'', PStr ''divider''),
            (''resval'', PStr ''3'')],
          obj_of_dict [(''bits'', PStr ''0''), (''name'', PStr ''EN''), (''desc'', PStr ''enable'')]])]"

definition timer_desc :: pyobj where
  "timer_desc = obj_of_dict
     [(''name'', PStr ''TIMER''), (''desc'', PStr ''timers''), (''count'', PStr ''6''),
      (''cname'', PStr ''T''), (''swaccess'', PStr ''rw''),
      (''fields'', PList [obj_of_dict
         [(''bits'', PStr ''7:0''), (''name'', PStr ''V''), (''desc'', PStr ''value'')]])]"

definition regwen_desc :: pyobj where
  "regwen_desc = obj_of_dict
     [(''name'', PStr ''REGWEN''), (''desc'', PStr ''lock''), (''swaccess'', PStr ''rw0c''),
      (''fields'', PList [obj_of_dict
         [(''bits'', PStr ''0''), (''name'', PStr ''L''), (''desc'', PStr ''l''), (''resval'', PStr ''1'')]])]"

definition guarded_desc :: pyobj where
  "guarded_desc = obj_of_dict
     [(''name'', PStr ''CFG''), (''desc'', PStr ''configuration''), (''regwen'', PStr ''REGWEN''),
      (''fields'', PList [obj_of_dict
         [(''bits'', PStr ''7:4''), (''name'', PStr ''M''), (''desc'', PStr ''mode'')]])]"

definition window_desc :: pyobj where
  "window_desc = obj_of_dict
     [(''name'', PStr ''BUF''), (''desc'', PStr ''buffer''), (''items'', PStr ''16''),
      (''swaccess'', PStr ''rw'')]"

definition uart_registers :: "pyobj list" where
  "uart_registers =
     [ctrl_desc, obj_of_dict [(''reserved'', PInt 2)],
      obj_of_dict [(''multireg'', timer_desc)], obj_of_dict [(''skipto'', PStr ''0x30'')],
      obj_of_dict [(''window'', window_desc)]]"

definition uart_desc :: pyobj where
  "uart_desc = obj_of_dict
     [(''name'', PStr ''uart''), (''clock_primary'', PStr ''clk_i''),
      (''bus_interfaces'', PList
         [obj_of_dict [(''protocol'', PStr ''tlul''), (''direction'', PStr ''device'')]]),
      (''interrupt_list'', PList
         [obj_of_dict [(''name'', PStr ''rx''), (''desc'', PStr ''received''), (''width'', PStr ''2'')]]),
      (''registers'', PList [ctrl_desc, obj_of_dict [(''skipto'', PStr ''0x40'')]])]"

definition uart :: ip_block where
  "uart = (case ip_from_raw [] uart_desc of Inr ip \<Rightarrow> ip | Inl e \<Rightarrow> undefined)"

definition summary ::
  "ip_block \<Rightarrow> (string option \<times> (int \<times> int) list \<times> int \<times> int) list" where
  "summary ip =
     map (\<lambda>(k, rb). (k, map (\<lambda>e. (entry_offset e, entry_next (rb_addrsep rb) e)) (rb_entries rb),
       rb_offset rb, rb_addrsep rb)) (ip_reg_blocks ip)"

lemma uart_parses_raw:
  "(case ip_from_raw [] uart_desc of
      Inl e \<Rightarrow> None
    | Inr ip \<Rightarrow> Some (ip_regwidth ip, ip_no_auto_intr ip, length (ip_interrupts ip), summary ip)) =
   Some (32, False, 1, [(None, [(0, 4), (4, 8), (8, 12), (12, 16)], 64, 4)])"
  by code_simp

lemma uart_parses: "ip_from_raw [] uart_desc = Inr uart"
  using uart_parses_raw by (cases "ip_from_raw [] uart_desc") (simp_all add: uart_def)

lemma uart_facts:
  "ip_regwidth uart = 32" "\<not> ip_no_auto_intr uart" "ip_interrupts uart \<noteq> []"
  "summary uart = [(None, [(0, 4), (4, 8), (8, 12), (12, 16)], 64, 4)]"
  using uart_parses_raw by (auto simp: uart_parses)

text \<open>Its only register block.\<close>

definition uart_regs :: regblock where
  "uart_regs = snd (hd (ip_reg_blocks uart))"

lemma uart_regs_facts:
  "(None, uart_regs) \<in> set (ip_reg_blocks uart)"
  "length (rb_entries uart_regs) = 4" "rb_offset uart_regs = 64" "rb_addrsep uart_regs = 4"
  "map entry_offset (rb_entries uart_regs) = [0, 4, 8, 12]"
proof -
  obtain rb where blocks: "ip_reg_blocks uart = [(None, rb)]"
    and rb: "map (\<lambda>e. (entry_offset e, entry_next (rb_addrsep rb) e)) (rb_entries rb) =
        [(0, 4), (4, 8), (8, 12), (12, 16)]" "rb_offset rb = 64" "rb_addrsep rb = 4"
    using uart_facts(4) by (auto simp: summary_def)
  have eq: "uart_regs = rb" by (simp add: uart_regs_def blocks)
  show "(None, uart_regs) \<in> set (ip_reg_blocks uart)" by (simp add: eq blocks)
  show "rb_offset uart_regs = 64" "rb_addrsep uart_regs = 4" using rb by (simp_all add: eq)
  show "length (rb_entries uart_regs) = 4" using arg_cong [OF rb(1), of length] by (simp add: eq)
  have "map fst (map (\<lambda>e. (entry_offset e, entry_next (rb_addrsep rb) e)) (rb_entries rb)) = [0, 4, 8, 12]"
    unfolding rb(1) by simp
  then show "map entry_offset (rb_entries uart_regs) = [0, 4, 8, 12]" by (simp add: eq comp_def)
qed

definition uart_block :: regblock where
  "uart_block = (case add_raw_registers (PList uart_registers) (RegBlock 32 []) of
     Inr rb \<Rightarrow> rb | Inl e \<Rightarrow> undefined)"

lemma uart_block_raw:
  "(case add_raw_registers (PList uart_registers) (RegBlock 32 []) of
      Inl e \<Rightarrow> None
    | Inr rb \<Rightarrow> Some (map entry_offset (rb_entries rb), rb_offset rb, map r_offset (rb_flat_regs rb))) =
   Some ([0, 12, 64], 128, [0, 12, 16])"
  by code_simp

lemma uart_block_parses: "add_raw_registers (PList uart_registers) (RegBlock 32 []) = Inr uart_block"
  using uart_block_raw
  by (cases "add_raw_registers (PList uart_registers) (RegBlock 32 [])") (simp_all add: uart_block_def)

lemma uart_block_facts:
  "rb_offset uart_block = 128" "map r_offset (rb_flat_regs uart_block) = [0, 12, 16]"
  "map entry_offset (rb_entries uart_block) = [0, 12, 64]"
  using uart_block_raw by (auto simp: uart_block_parses)

lemma uart_block_reach: "reach_block 32 uart_block"
  by (rule reach_add_raw_registers(1) [OF _ uart_block_parses]) (simp add: reach_RegBlock)

section \<open>A block with a write enable, of registers only\<close>

definition plain_registers :: pyobj where
  "plain_registers = PList [regwen_desc, obj_of_dict [(''skipto'', PStr ''8'')], guarded_desc]"

definition plain_block :: regblock where
  "plain_block = (case add_raw_registers plain_registers (RegBlock 32 []) of
     Inr rb \<Rightarrow> rb | Inl e \<Rightarrow> undefined)"

lemma plain_block_raw:
  "(case add_raw_registers plain_registers (RegBlock 32 []) of
      Inl e \<Rightarrow> None
    | Inr rb \<Rightarrow> Some (map printable_entry (rb_entries rb), map entry_offset (rb_entries rb),
                  rb_wennames rb, validate rb)) =
   Some ([True, True], [0, 8], [''REGWEN''], Inr ())"
  by code_simp

lemma plain_block_parses: "add_raw_registers plain_registers (RegBlock 32 []) = Inr plain_block"
  using plain_block_raw
  by (cases "add_raw_registers plain_registers (RegBlock 32 [])") (simp_all add: plain_block_def)

lemma plain_block_facts:
  "list_all printable_entry (rb_entries plain_block)"
  "map entry_offset (rb_entries plain_block) = [0, 8]"
  "rb_wennames plain_block = [''REGWEN'']" "validate plain_block = Inr ()"
proof -
  have m: "map printable_entry (rb_entries plain_block) = [True, True]"
    using plain_block_raw by (simp add: plain_block_parses)
  have "b" if "b \<in> set (map printable_entry (rb_entries plain_block))" for b
    using that unfolding m by simp
  then show "list_all printable_entry (rb_entries plain_block)" by (auto simp: list_all_iff)
  show "map entry_offset (rb_entries plain_block) = [0, 8]"
    "rb_wennames plain_block = [''REGWEN'']" "validate plain_block = Inr ()"
    using plain_block_raw by (simp_all add: plain_block_parses)
qed

lemma plain_block_reach: "reach_block 32 plain_block"
  by (rule reach_add_raw_registers(1) [OF _ plain_block_parses]) (simp add: reach_RegBlock)

lemma plain_block_prints: "\<exists>l. regblock_as_dicts plain_block = Inr l"
proof -
  have r: "reach_block (8 * 2 ^ 2) plain_block" using plain_block_reach by simp
  then have sep: "rb_addrsep plain_block = 2 ^ 2"
    using wf_block_sep [of plain_block] by (simp add: reach_block_def)
  have "aligned (2 ^ 2) (layout plain_block)"
  proof (rule lays_aligned)
    show "(lay (8 * 2 ^ 2) (2 ^ 2))\<^sup>*\<^sup>* (0, []) (layout plain_block)"
      using r by (simp only: reach_block_def sep)
  qed (simp add: aligned_def)
  then show ?thesis using r sep by (intro as_dicts_ok) (simp_all only: reach_block_def)
qed

end
