(* ===== verification/Regblock_Runs.thy ===== *)
theory Regblock_Runs
  imports Regblock_Facts
begin

text \<open>
  The layout machine with the raw entries as labels. Each entry of a description has one kind, which
  says what becomes of the end offset and which object, parsed from the entry, is placed at the end.
  A run consumes the whole list of entries, one step for each.
\<close>

section \<open>What a raw entry asks for\<close>

text \<open>
  A dictionary whose only key is one of four names is of that kind, with the value as its body; a
  dictionary with none of them is a register.
\<close>

definition special_kinds :: "string list" where
  "special_kinds = [''reserved'', ''skipto'', ''window'', ''multireg'']"

definition entry_kind :: "pyobj \<Rightarrow> string \<Rightarrow> pyobj \<Rightarrow> bool" where
  "entry_kind x t body \<longleftrightarrow> (\<exists>d. x = PDict (map (\<lambda>(s, v). (PStr s, v)) d) \<and>
     (t \<in> set special_kinds \<and> d = [(t, body)] \<and> body \<noteq> PNone \<or>
      t = ''register'' \<and> body = x \<and> list_all (\<lambda>k. dget d k = PNone) special_kinds))"

lemma one_entry: "length d = 1 \<Longrightarrow> dget d t \<noteq> PNone \<Longrightarrow> d = [(t, dget d t)]"
  by (cases d) (auto simp: dget_def split: if_splits option.splits)

lemma other_kind_None: "d = [(t, body)] \<Longrightarrow> k \<noteq> t \<Longrightarrow> dget d k = PNone"
  by (simp add: dget_def)

lemma type_step_Inr:
  "type_step off d found t = Inr found' \<longleftrightarrow>
     (dget d t = PNone \<and> found' = found \<or> dget d t \<noteq> PNone \<and> length d = 1 \<and> found' = (t, dget d t))"
  by (auto simp: type_step_def Let_def)

lemma type_loop_Inr:
  "foldR (type_step off d) found ts = Inr f \<Longrightarrow>
     f = found \<and> list_all (\<lambda>k. dget d k = PNone) ts \<or>
     (\<exists>t \<in> set ts. length d = 1 \<and> dget d t \<noteq> PNone \<and> f = (t, dget d t))"
proof (induction ts arbitrary: found)
  case Nil
  then show ?case by simp
next
  case (Cons t ts)
  then obtain found' where step: "type_step off d found t = Inr found'" and rest: "foldR (type_step off d) found' ts = Inr f"
    by auto
  from step have "dget d t = PNone \<and> found' = found \<or> dget d t \<noteq> PNone \<and> length d = 1 \<and> found' = (t, dget d t)"
    by (simp only: type_step_Inr)
  with Cons.IH [OF rest] show ?case by auto
qed

lemma entry_type_kind:
  assumes "check_str_dict x = Inr d" and "entry_type off d x = Inr (t, body)"
  shows "entry_kind x t body"
proof -
  have x: "x = PDict (map (\<lambda>(s, v). (PStr s, v)) d)" using assms(1) by (simp add: check_str_dict_Inr)
  from assms(2) have "foldR (type_step off d) (''register'', x) special_kinds = Inr (t, body)"
    by (simp only: entry_type_def special_kinds_def)
  from type_loop_Inr [OF this] show ?thesis
  proof (elim disjE conjE bexE)
    assume "(t, body) = (''register'', x)" "list_all (\<lambda>k. dget d k = PNone) special_kinds"
    then show ?thesis unfolding entry_kind_def prod.inject by (intro exI [of _ d] conjI x disjI2) (simp_all only:)
  next
    fix k assume k: "k \<in> set special_kinds" "length d = 1" "dget d k \<noteq> PNone" "(t, body) = (k, dget d k)"
    have "d = [(k, dget d k)]" using k(2,3) by (rule one_entry)
    with k show ?thesis unfolding entry_kind_def prod.inject by (intro exI [of _ d] conjI x disjI1) (simp_all only: not_False_eq_True)
  qed
qed

section \<open>Steps and runs\<close>

inductive place ::
    "int \<Rightarrow> int \<Rightarrow> params \<Rightarrow> pyobj \<Rightarrow> int \<times> entry list \<Rightarrow> int \<times> entry list \<Rightarrow> bool" for w sep ps where
  place_reserved: "entry_kind x ''reserved'' body \<Longrightarrow> check_int body = Inr n \<Longrightarrow> 0 < n \<Longrightarrow>
    place w sep ps x (off, es) (off + sep * n, es)"
| place_skipto: "entry_kind x ''skipto'' body \<Longrightarrow> check_int body = Inr dst \<Longrightarrow> off \<le> dst \<Longrightarrow> sep dvd dst \<Longrightarrow>
    place w sep ps x (off, es) (dst, es)"
| place_register: "entry_kind x ''register'' body \<Longrightarrow> register_from_raw w off ps body = Inr r \<Longrightarrow>
    place w sep ps x (off, es) (off + sep, es @ [EReg r])"
| place_multireg: "entry_kind x ''multireg'' body \<Longrightarrow> MultiRegister off sep w ps body = Inr m \<Longrightarrow>
    place w sep ps x (off, es) (off + int (length (m_regs m)) * sep, es @ [EMulti m])"
| place_window: "entry_kind x ''window'' body \<Longrightarrow> window_from_raw off w ps body = Inr win \<Longrightarrow>
    place w sep ps x (off, es) (w_offset win + w_size win, es @ [EWin win])"

inductive places ::
    "int \<Rightarrow> int \<Rightarrow> params \<Rightarrow> pyobj list \<Rightarrow> int \<times> entry list \<Rightarrow> int \<times> entry list \<Rightarrow> bool" for w sep ps where
  places_Nil: "places w sep ps [] s s"
| places_Cons: "place w sep ps x s s1 \<Longrightarrow> places w sep ps xs s1 s2 \<Longrightarrow> places w sep ps (x # xs) s s2"

inductive_simps places_simps: "places w sep ps [] s t" "places w sep ps (x # xs) s t"

text \<open>A run adds one entry for each raw entry that is no gap.\<close>

definition is_gap :: "pyobj \<Rightarrow> bool" where
  "is_gap x \<longleftrightarrow> (\<exists>body. entry_kind x ''reserved'' body \<or> entry_kind x ''skipto'' body)"

lemma entry_kind_unique: "entry_kind x t body \<Longrightarrow> entry_kind x t' body' \<Longrightarrow> t = t'"
proof -
  assume a: "entry_kind x t body" "entry_kind x t' body'"
  have inj: "map (\<lambda>(s, v). (PStr s, v)) d = map (\<lambda>(s, v). (PStr s, v)) d' \<longleftrightarrow> d = d'" for d d' :: pydict
    by (rule inj_map_eq_map) (auto simp: inj_def)
  have none: "dget [(t, body)] t = body" for t body by (simp add: dget_def)
  show ?thesis using a unfolding entry_kind_def
    by (elim exE conjE disjE) (auto simp: inj none list_all_iff)
qed

lemma place_adds:
  assumes "place w sep ps x s t"
  shows "length (snd t) = length (snd s) + (if is_gap x then 0 else 1)"
  using assms
proof cases
  case (place_register body off r es)
  then have "\<not> is_gap x" by (auto simp: is_gap_def dest: entry_kind_unique)
  then show ?thesis by (simp add: place_register)
next
  case (place_multireg body off m es)
  then have "\<not> is_gap x" by (auto simp: is_gap_def dest: entry_kind_unique)
  then show ?thesis by (simp add: place_multireg)
next
  case (place_window body off win es)
  then have "\<not> is_gap x" by (auto simp: is_gap_def dest: entry_kind_unique)
  then show ?thesis by (simp add: place_window)
qed (auto simp: is_gap_def)

lemma places_add:
  assumes "places w sep ps xs s t"
  shows "length (snd t) = length (snd s) + length (filter (\<lambda>x. \<not> is_gap x) xs)"
  using assms
proof induction
  case (places_Cons x s s1 xs s2)
  then show ?case using place_adds [of w sep ps x s s1] by simp
qed simp

section \<open>The parser runs the machine\<close>

definition parse_sim :: "pyobj \<Rightarrow> regblock \<Rightarrow> regblock \<Rightarrow> bool" where
  "parse_sim x rb rb' \<longleftrightarrow>
     place (rb_reg_width rb) (rb_addrsep rb) (rb_params rb) x (layout rb) (layout rb') \<and> same_frame rb rb'"

lemma add_raw_place:
  assumes wf: "wf_block rb" and add: "add_raw rb x = Inr rb'"
  shows "parse_sim x rb rb'"
proof -
  from add obtain d where d: "check_str_dict x = Inr d" by (cases "check_str_dict x") (simp_all add: add_raw_def)
  with add obtain t body where tb: "entry_type (rb_offset rb) d x = Inr (t, body)"
    by (cases "entry_type (rb_offset rb) d x") (auto simp add: add_raw_def)
  note kind = entry_type_kind [OF d tb]
  have h: "(case map_of handlers t of None \<Rightarrow> Inl (KeyError t) | Some handler \<Rightarrow> handler body rb) = Inr rb'"
    using add d tb by (simp add: add_raw_def)
  have "t \<in> {''register'', ''reserved'', ''skipto'', ''window'', ''multireg''}"
    using entry_type_known [OF tb] by (simp add: handlers_def)
  then consider "t = ''register''" "handle_register body rb = Inr rb'"
    | "t = ''reserved''" "handle_reserved body rb = Inr rb'" | "t = ''skipto''" "handle_skipto body rb = Inr rb'"
    | "t = ''window''" "handle_window body rb = Inr rb'" | "t = ''multireg''" "handle_multireg body rb = Inr rb'"
    using h by (auto simp: handlers_def)
  then have "place (rb_reg_width rb) (rb_addrsep rb) (rb_params rb) x (layout rb) (layout rb')"
  proof cases
    case 1
    then obtain reg where reg: "register_from_raw (rb_reg_width rb) (rb_offset rb) (rb_params rb) body = Inr reg"
      and add: "add_register reg rb = Inr rb'" by (auto simp: handle_register_def)
    have r: "wf_register (rb_reg_width rb) reg" "r_offset reg = rb_offset rb"
      using register_from_raw_wf [OF reg] register_from_raw_offset [OF reg] by blast+
    show ?thesis using place_register [OF kind [unfolded 1(1)] reg] by (simp add: layout_def add_register_wf(2) [OF wf r add])
  next
    case 2
    then obtain n where n: "check_int body = Inr n" "0 < n" "rb' = rb\<lparr>rb_offset := rb_offset rb + rb_addrsep rb * n\<rparr>"
      by (auto simp: handle_reserved_def split: if_splits)
    show ?thesis using place_reserved [OF kind [unfolded 2(1)] n(1,2)] by (simp add: layout_def n(3))
  next
    case 3
    then obtain v where v: "check_int body = Inr v" "rb_offset rb \<le> v" "rb_addrsep rb dvd v" "rb' = rb\<lparr>rb_offset := v\<rparr>"
      by (auto simp: handle_skipto_def split: if_splits)
    show ?thesis using place_skipto [OF kind [unfolded 3(1)] v(1-3)] by (simp add: layout_def v(4))
  next
    case 4
    show ?thesis
      by (rule handle_window_eq [OF wf 4(2)]) (simp add: layout_def place_window [OF kind [unfolded 4(1)]])
  next
    case 5
    show ?thesis
    proof (rule handle_multireg_eq [OF wf 5(2)])
      fix m assume m: "MultiRegister (rb_offset rb) (rb_addrsep rb) (rb_reg_width rb) (rb_params rb) body = Inr m"
        and rb': "rb' = block_of (rb_reg_width rb) (rb_params rb) (multireg_next_offset (rb_addrsep rb) m)
          (rb_entries rb @ [EMulti m])"
      then show ?thesis using place_multireg [OF kind [unfolded 5(1)] m]
        by (simp add: layout_def multireg_next_offset_def MultiRegister_wf(2) [OF m])
    qed
  qed
  with add_raw_lay [OF wf add] show ?thesis by (simp add: parse_sim_def lay_sim_def)
qed

lemma add_raws_places:
  assumes "wf_block rb" and "foldR add_raw rb xs = Inr rb'"
  shows "places (rb_reg_width rb) (rb_addrsep rb) (rb_params rb) xs (layout rb) (layout rb')"
  using assms
proof (induction xs arbitrary: rb)
  case Nil
  then show ?case by (simp add: places_Nil)
next
  case (Cons x xs)
  from Cons.prems obtain rb1 where one: "add_raw rb x = Inr rb1" and rest: "foldR add_raw rb1 xs = Inr rb'" by auto
  have "wf_block rb1" using Cons.prems(1) one by (rule add_raw_wf)
  from Cons.IH [OF this rest] add_raw_place [OF Cons.prems(1) one] show ?case
    by (auto simp: parse_sim_def same_frame_def intro: places_Cons)
qed

section \<open>The names of a block\<close>

lemma names_of_parts:
  "fst ` set (rb_name_to_offset (block_of w ps off es)) =
     (str_lower \<circ> r_name) ` set (rb_flat_regs (block_of w ps off es)) \<union>
     (str_lower \<circ> w_name) ` set (rb_windows (block_of w ps off es))"
proof (induction es)
  case Nil
  show ?case by (simp add: block_of_def names_of_def flat_of_def)
next
  case (Cons e es)
  then show ?case by (cases e) (auto simp: block_of_def names_of_def flat_of_def reg_item_def image_Un image_image)
qed

end
