(* ===== verification/Block_Theorems.thy ===== *)
theory Block_Theorems
  imports Example_Uart Regblock_Runs
begin

text \<open>
  The properties of register blocks and of whole IP blocks, each over the operations of
  \<open>reggen/reg_block.py\<close>, \<open>reggen/ip_block.py\<close>, \<open>reggen/signal.py\<close> and
  \<open>reggen/bus_interfaces.py\<close>.
\<close>

text \<open>
  C1. A registers field that is accepted is a list of entries, and the parser runs the layout machine over
  it: each entry, in the order of the list, is one step that the entry itself determines. A number of
  reserved words moves the end; a skip moves it to an aligned offset that is not behind it; a register, a
  multi-register or a window, parsed at that end, is placed there and becomes the next entry. No
  entry is dropped: there are as many new entries of the block as raw entries that are no gaps. The
  block object that results is, in all of its lists and dictionaries, the one its entries determine.
\<close>

theorem block_refines_layout:
  assumes "wf_block rb" and "add_raw_registers raw rb = Inr rb'"
  shows "(\<exists>xs. raw = PList xs \<and>
      places (rb_reg_width rb) (rb_addrsep rb) (rb_params rb) xs (layout rb) (layout rb') \<and>
      length (rb_entries rb') = length (rb_entries rb) + length (filter (\<lambda>x. \<not> is_gap x) xs)) \<and>
    (lay (rb_reg_width rb) (rb_addrsep rb))\<^sup>*\<^sup>* (layout rb) (layout rb') \<and>
    rb' = block_of (rb_reg_width rb) (rb_params rb) (rb_offset rb') (rb_entries rb') \<and> wf_block rb'"
proof -
  from assms(2) obtain xs where raw: "raw = PList xs" and xs: "foldR add_raw rb xs = Inr rb'"
    by (auto simp: add_raw_registers_def)
  note run = add_raws_places [OF assms(1) xs]
  from add_raws_lay [OF assms(1) xs] have lay:
      "(lay (rb_reg_width rb) (rb_addrsep rb))\<^sup>*\<^sup>* (layout rb) (layout rb')"
    and frame: "rb_reg_width rb' = rb_reg_width rb" "rb_params rb' = rb_params rb"
    by (simp_all add: same_frame_def)
  have wf: "wf_block rb'" using assms by (rule add_raw_registers_wf)
  then have "rb' = block_of (rb_reg_width rb') (rb_params rb') (rb_offset rb') (rb_entries rb')"
    unfolding wf_block_def by blast
  moreover have "length (rb_entries rb') = length (rb_entries rb) + length (filter (\<lambda>x. \<not> is_gap x) xs)"
    using places_add [OF run] by (simp add: layout_def)
  ultimately show ?thesis using raw run lay wf by (simp only: frame) blast
qed

theorem block_refines_layout_witness:
  "(\<exists>xs. PList uart_registers = PList xs \<and> places 32 4 [] xs (0, []) (layout uart_block)) \<and> rb_offset uart_block = 128"
proof -
  have wf: "wf_block (RegBlock 32 [])" by (rule RegBlock_wf) simp
  from block_refines_layout [OF wf uart_block_parses]
  have "\<exists>xs. PList uart_registers = PList xs \<and> places 32 4 [] xs (0, []) (layout uart_block)"
    by (auto simp: RegBlock_def layout_def)
  with uart_block_facts(1) show ?thesis by blast
qed

text \<open>
  C2. In every register block of a parsed IP block the entries lie one after the other without
  overlap: each takes at least one address, ends before the next one begins, and lies between 0
  and the block's offset.
\<close>

theorem ip_entries_apart:
  assumes "ip_from_raw ds raw = Inr ip" and "(k, rb) \<in> set (ip_reg_blocks ip)"
    and "i < j" and "j < length (rb_entries rb)"
  shows "0 \<le> entry_offset (rb_entries rb ! i) \<and>
    entry_offset (rb_entries rb ! i) < entry_next (rb_addrsep rb) (rb_entries rb ! i) \<and>
    entry_next (rb_addrsep rb) (rb_entries rb ! i) \<le> entry_offset (rb_entries rb ! j) \<and>
    entry_next (rb_addrsep rb) (rb_entries rb ! j) \<le> rb_offset rb"
proof -
  have "reach_block (ip_regwidth ip) rb"
    using ip_blocks_ok(2) [OF assms(1)] assms(2) by (force simp: blocks_ok_def)
  then have wf: "wf_block rb" by (simp add: reach_block_def)
  then have c: "chain entry_offset (entry_next (rb_addrsep rb)) 0 (rb_entries rb) (rb_offset rb)"
    and v: "list_all (wf_entry (rb_reg_width rb) (rb_addrsep rb)) (rb_entries rb)"
    unfolding wf_block_def by blast+
  have "wf_entry (rb_reg_width rb) (rb_addrsep rb) (rb_entries rb ! i)"
    using v assms(3,4) by (simp add: list_all_length)
  then have "entry_offset (rb_entries rb ! i) < entry_next (rb_addrsep rb) (rb_entries rb ! i)"
    using wf_block_sep [OF wf] by (intro entries.nonempty) simp
  moreover have "rb_entries rb ! i \<in> set (rb_entries rb)" using assms(3,4) by simp
  ultimately show ?thesis
    using chain_bounds [OF c] chain_order [OF c assms(3,4)] nth_mem [OF assms(4)] by fast
qed

theorem ip_entries_apart_witness:
  "entry_next 4 (rb_entries uart_regs ! 1) \<le> entry_offset (rb_entries uart_regs ! 3)"
  using ip_entries_apart [OF uart_parses uart_regs_facts(1), of 1 3] uart_regs_facts by simp

text \<open>
  C16. When a parsed block has an interrupt list and the generation is not turned off, its first
  register block starts with the three interrupt registers, one word apart; each has one field
  per interrupt, with the interrupt's name and bits, and resets to zero.
\<close>

theorem ip_interrupt_registers:
  assumes "ip_from_raw ds raw = Inr ip" and "ip_interrupts ip \<noteq> []" and "\<not> ip_no_auto_intr ip"
  shows "\<exists>a b c es. rb_entries (snd (hd (ip_reg_blocks ip))) = EReg a # EReg b # EReg c # es \<and>
    intr_register 0 ''INTR_STATE'' (ip_interrupts ip) a \<and>
    intr_register ((ip_regwidth ip + 7) div 8) ''INTR_ENABLE'' (ip_interrupts ip) b \<and>
    intr_register (2 * ((ip_regwidth ip + 7) div 8)) ''INTR_TEST'' (ip_interrupts ip) c"
  using assms by (rule ip_blocks_ok(6))

theorem ip_interrupt_registers_witness:
  "\<exists>a b c es. rb_entries uart_regs = EReg a # EReg b # EReg c # es \<and>
    r_name b = ''INTR_ENABLE'' \<and> r_offset b = 4 \<and>
    map f_bits (r_fields b) = map s_bits (ip_interrupts uart)"
  using ip_interrupt_registers [OF uart_parses uart_facts(3,2)]
  by (fastforce simp: uart_regs_def uart_facts(1) intr_register_def)

text \<open>
  C18. The register blocks of a parsed IP block are in bijection with its device interfaces: no
  two blocks share a name, and the names are those of the device interfaces (the block without a
  name stands for the interface without one). Every block satisfies the contract of \<open>RegBlock\<close>.
\<close>

theorem ip_blocks_match_interfaces:
  assumes "ip_from_raw ds raw = Inr ip"
  shows "distinct (map fst (ip_reg_blocks ip)) \<and>
    fst ` set (ip_reg_blocks ip) = set (dev_if_names (ip_bus_interfaces ip)) \<and>
    length (ip_reg_blocks ip) = length (dev_if_names (ip_bus_interfaces ip)) \<and>
    (\<forall>rb \<in> snd ` set (ip_reg_blocks ip). wf_block rb \<and> rb_reg_width rb = ip_regwidth ip)"
proof -
  note facts = ip_blocks_ok(2,3,4) [OF assms]
  have d: "distinct (map fst (ip_reg_blocks ip))" using facts(1) by (simp add: blocks_ok_def)
  have "distinct (dev_if_names (ip_bus_interfaces ip))"
    using facts(3) by (auto simp: dev_if_names_def wf_bus_def distinct_map inj_on_def)
  with d facts(2) have "length (ip_reg_blocks ip) = length (dev_if_names (ip_bus_interfaces ip))"
    by (metis distinct_card length_map set_map)
  with d facts(1,2) show ?thesis by (auto simp: blocks_ok_def reach_block_def)
qed

theorem ip_blocks_match_interfaces_witness:
  "length (ip_reg_blocks uart) = length (dev_if_names (ip_bus_interfaces uart)) \<and> wf_block uart_regs"
proof -
  have "uart_regs \<in> snd ` set (ip_reg_blocks uart)" using uart_regs_facts(1) by force
  with ip_blocks_match_interfaces [OF uart_parses] show ?thesis by blast
qed

text \<open>
  C29. With a register width of \<open>8 * 2^k\<close> bits every register block of a parsed IP block can be
  printed: the assertions of \<open>as_dicts\<close> hold, and a reader who counts the reserved words of the
  listing finds each entry at the offset it has in the block.
\<close>

theorem ip_blocks_print:
  assumes "ip_from_raw ds raw = Inr ip" and "ip_regwidth ip = 8 * 2 ^ k"
    and "(key, rb) \<in> set (ip_reg_blocks ip)"
  shows "\<exists>l. regblock_as_dicts rb = Inr l \<and>
    replay (2 ^ k) 0 l = map (\<lambda>e. (entry_offset e, e)) (rb_entries rb)"
proof -
  have r: "reach_block (8 * 2 ^ k) rb"
    using ip_blocks_ok(2) [OF assms(1)] assms(2,3) by (force simp: blocks_ok_def)
  have "rb_addrsep rb = (8 * 2 ^ k + 7) div 8"
    using r wf_block_sep [of rb] by (simp add: reach_block_def)
  also have "\<dots> = 2 ^ k" by (simp add: div_add1_eq)
  finally have sep: "rb_addrsep rb = 2 ^ k" .
  have "aligned (2 ^ k) (layout rb)"
  proof (rule lays_aligned)
    show "(lay (8 * 2 ^ k) (2 ^ k))\<^sup>*\<^sup>* (0, []) (layout rb)" using r by (simp add: reach_block_def sep)
  qed (simp add: aligned_def)
  then have al: "aligned (rb_addrsep rb) (layout rb)" by (simp only: sep)
  have "wf_block rb" using r by (simp add: reach_block_def)
  from as_dicts_ok [OF this al] obtain l where l: "regblock_as_dicts rb = Inr l" ..
  with as_dicts_replay [OF l] show ?thesis by (simp add: sep)
qed

theorem ip_blocks_print_witness:
  "\<exists>l. regblock_as_dicts uart_regs = Inr l \<and> map fst (replay 4 0 l) = [0, 4, 8, 12]"
proof -
  have w: "ip_regwidth uart = 8 * 2 ^ 2" by (simp add: uart_facts(1))
  from ip_blocks_print [OF uart_parses w uart_regs_facts(1)] obtain l where
    l: "regblock_as_dicts uart_regs = Inr l"
    and r4: "replay (2 ^ 2) 0 l = map (\<lambda>e. (entry_offset e, e)) (rb_entries uart_regs)"
    by (elim exE conjE)
  have "map fst (map (\<lambda>e. (entry_offset e, e)) es) = map entry_offset es" for es
    by (induction es) simp_all
  then have "map fst (replay (2 ^ 2) 0 l) = [0, 4, 8, 12]"
    by (simp only: r4 uart_regs_facts(5))
  then have "map fst (replay 4 0 l) = [0, 4, 8, 12]" by simp
  with l show ?thesis by (intro exI conjI)
qed

text \<open>
  C17. Adding the entries of a list to a block whose width is a multiple of 8 can only fail with a
  ValueError: no assertion of the block, of a window or of a multi-register can fail, and no key
  lookup, as long as the keys of each dictionary are distinct, which a Python dictionary
  guarantees.
\<close>

theorem add_raw_only_value_errors:
  assumes "wf_block rb" and "8 dvd rb_reg_width rb" and "list_all py_dict l"
    and "add_raw_registers (PList l) rb = Inl e"
  shows "is_value_error e"
proof -
  have "raises is_value_error (add_raw_registers (PList l) rb)"
    using assms(1-3) by (intro raises_add_raw_registers) (auto simp: list_all_iff)
  then show ?thesis using assms(4) by (rule raisesD)
qed

theorem add_raw_only_value_errors_witness:
  "add_raw_registers (PList [PDict [(PStr ''reserved'', PInt 0)]]) (RegBlock 32 []) =
     Inl (BlockError (ReservedNotPositive 0)) \<and> is_value_error (BlockError (ReservedNotPositive 0))"
proof -
  have e: "add_raw_registers (PList [PDict [(PStr ''reserved'', PInt 0)]]) (RegBlock 32 []) =
     Inl (BlockError (ReservedNotPositive 0))"
    by code_simp
  have "is_value_error (BlockError (ReservedNotPositive 0))"
    by (rule add_raw_only_value_errors [OF RegBlock_wf _ _ e])
       (simp_all add: RegBlock_def py_dict_def)
  with e show ?thesis ..
qed

text \<open>
  C24. The check of the write enables passes exactly when every register that stands as an entry of its own
  and names a write enable is guarded by a register of the same block: the name follows the convention, it
  is found whatever the case of the letters, and the guard is either rw0c with a nonzero reset value
  or ro for software and hwo for hardware. So nothing is asked of the write enables that the registers
  of a multi-register name.
\<close>

theorem validated_write_enables:
  assumes "wf_block rb"
  shows "validate rb = Inr () \<longleftrightarrow>
    (\<forall>r s. EReg r \<in> set (rb_entries rb) \<longrightarrow> r_regwen r = Some s \<longrightarrow>
       regwen_name s \<and> (\<exists>wen \<in> set (rb_flat_regs rb). str_lower (r_name wen) = str_lower s \<and> wen_ok wen))"
proof -
  have names: "rb_name_to_flat_reg rb = map (\<lambda>r. (str_lower (r_name r), r)) (rb_flat_regs rb)"
    using assms by (elim wf_blockE) simp
  have look: "map_of (rb_name_to_flat_reg rb) n = Some wen \<longleftrightarrow>
      wen \<in> set (rb_flat_regs rb) \<and> str_lower (r_name wen) = n" for n wen
    unfolding names using block_names_distinct [OF assms] by (auto simp: map_of_eq_Some_iff comp_def)
  have "set (rb_wennames rb) = {s. \<exists>r. EReg r \<in> set (rb_entries rb) \<and> r_regwen r = Some s}"
    by (simp add: wf_block_sel(3) [OF assms] set_wennames)
  then show ?thesis by (simp add: validate_Inr check_wen_Inr look Bex_def conj_assoc) blast
qed

theorem validated_write_enables_witness:
  "\<exists>r \<in> set (rb_flat_regs plain_block). str_lower (r_name r) = str_lower ''REGWEN'' \<and> wen_ok r"
proof -
  have wf: "wf_block plain_block" using plain_block_reach by (simp add: reach_block_def)
  have "''REGWEN'' \<in> set (foldl add_wen [] (rb_entries plain_block))"
    using plain_block_facts(3) by (simp add: wf_block_sel(3) [OF wf])
  then obtain r where r: "EReg r \<in> set (rb_entries plain_block)" "r_regwen r = Some ''REGWEN''"
    by (auto simp: set_wennames)
  from validated_write_enables [OF wf] plain_block_facts(4) r show ?thesis by blast
qed

text \<open>
  C33. The dictionaries of every register block of a parsed description are exact: the names of its
  registers, those of multi-registers and of the generated interrupt and alert registers among them, are
  distinct up to case; each register is indexed under its lower-case name with its own offset and object;
  nothing else is indexed but the windows; and a name can be given to the next register exactly when it is
  not indexed.
\<close>

theorem block_names_indexed:
  assumes "ip_from_raw ds raw = Inr ip" and "(key, rb) \<in> set (ip_reg_blocks ip)"
  shows "distinct (map (\<lambda>r. str_lower (r_name r)) (rb_flat_regs rb)) \<and>
    (\<forall>r \<in> set (rb_flat_regs rb).
       map_of (rb_name_to_offset rb) (str_lower (r_name r)) = Some (r_offset r) \<and>
       map_of (rb_name_to_flat_reg rb) (str_lower (r_name r)) = Some r) \<and>
    fst ` set (rb_name_to_offset rb) =
      (str_lower \<circ> r_name) ` set (rb_flat_regs rb) \<union> (str_lower \<circ> w_name) ` set (rb_windows rb) \<and>
    (\<forall>reg. r_offset reg = rb_offset rb \<longrightarrow>
       (\<exists>rb'. add_register reg rb = Inr rb') = (map_of (rb_name_to_offset rb) (str_lower (r_name reg)) = None))"
proof -
  have "reach_block (ip_regwidth ip) rb" using ip_blocks_ok(2) [OF assms(1)] assms(2) by (force simp: blocks_ok_def)
  then have wf: "wf_block rb" by (simp add: reach_block_def)
  from wf obtain w ps off es where rb: "rb = block_of w ps off es" by (rule wf_blockE)
  have "fst ` set (rb_name_to_offset rb) =
      (str_lower \<circ> r_name) ` set (rb_flat_regs rb) \<union> (str_lower \<circ> w_name) ` set (rb_windows rb)"
    unfolding rb by (rule names_of_parts)
  with block_names_distinct [OF wf] block_lookup [OF wf] add_register_eq [OF wf] show ?thesis
    by (auto split: option.splits)
qed

theorem block_names_indexed_witness:
  "distinct (map (\<lambda>r. str_lower (r_name r)) (rb_flat_regs uart_regs)) \<and> length (rb_entries uart_regs) = 4"
  using block_names_indexed [OF uart_parses uart_regs_facts(1)] uart_regs_facts(2) by blast

text \<open>
  C32. The address width of a block that has at least one byte is the least number of bits that
  addresses every byte of it.
\<close>

theorem addr_width_least:
  assumes "0 < rb_offset rb"
  shows "(\<forall>addr. 0 \<le> addr \<and> addr < rb_offset rb \<longrightarrow> addr < 2 ^ get_addr_width rb) \<and>
    (\<forall>k. rb_offset rb \<le> 2 ^ k \<longrightarrow> get_addr_width rb \<le> k)"
  using get_addr_width_spec [OF assms] by blast

theorem addr_width_least_witness: "127 < (2 :: int) ^ get_addr_width uart_block \<and> get_addr_width uart_block \<le> 7"
  using addr_width_least [of uart_block] uart_block_facts(1)
  by (auto dest: spec [of _ 127] spec [of _ 7])

text \<open>
  C8. A block whose entries are registers only, whose fields all have a description and the write and read
  strobes of their register, and whose names are valid, prints to a registers field that parses back: the
  listing of \<open>as_dicts\<close>, each entry printed by its own \<open>_asdict\<close>, builds the same entries at the
  same offsets, gaps included. Fields without a description, windows and multi-registers are not covered.
\<close>

theorem regblock_round_trip:
  assumes "wf_block rb" and "regblock_as_dicts rb = Inr l"
    and "list_all printable_entry (rb_entries rb)"
  shows "\<exists>rb'. add_raw_registers (PList (map listing_as_obj l)) (RegBlock (rb_reg_width rb) ps) = Inr rb' \<and>
    rb_entries rb' = rb_entries rb"
  using assms(1,2) plain_entries [OF assms(1,3)] by (rule regblock_round_trip_aux)

theorem regblock_round_trip_witness:
  "\<exists>l rb'. regblock_as_dicts plain_block = Inr l \<and>
    add_raw_registers (PList (map listing_as_obj l)) (RegBlock 32 []) = Inr rb' \<and>
    rb_entries rb' = rb_entries plain_block \<and> map entry_offset (rb_entries rb') = [0, 8]"
proof -
  have wf: "wf_block plain_block" "rb_reg_width plain_block = 32"
    using plain_block_reach by (simp_all add: reach_block_def)
  obtain l where l: "regblock_as_dicts plain_block = Inr l" using plain_block_prints by blast
  from regblock_round_trip [OF wf(1) l plain_block_facts(1), of "[]"] l plain_block_facts(2) show ?thesis
    unfolding wf(2) by auto
qed

end
