(* ===== verification/Interface_Theorems.thy ===== *)
theory Interface_Theorems
  imports Ipblock_Facts "HOL-Library.Code_Target_Numeral"
begin

text \<open>
  The properties of the signals, alerts and bus interfaces of an IP block.
\<close>

text \<open>
  C34. An accepted list of signals has one signal for each entry, in order. Every entry declares a width of
  at least one bit (one, if it says nothing); each signal has exactly that many bits, from where the
  one before it ends on, starting at bit 0. So every bit up to the last signal's highest belongs to exactly
  one signal.
\<close>

theorem signals_tile_bits:
  assumes "signals_from_raw_list raw = Inr sigs"
  shows "(\<exists>entries ws. raw = PList entries \<and> map declared_width entries = map Some ws \<and>
      list_all (\<lambda>w. 1 \<le> w) ws \<and> map s_bits sigs = signal_places 0 ws) \<and>
    (\<forall>p. sigs \<noteq> [] \<and> 0 \<le> p \<and> p \<le> b_msb (s_bits (last sigs)) \<longrightarrow>
      (\<exists>!i. i < length sigs \<and> b_lsb (s_bits (sigs ! i)) \<le> p \<and> p \<le> b_msb (s_bits (sigs ! i))))"
proof (intro conjI allI impI)
  from assms obtain entries b where "raw = PList entries" "foldR signal_step (0, []) entries = Inr (b, sigs)"
    by (auto simp: signals_from_raw_list_def)
  with signals_widths [of 0 "[]" entries b sigs]
  show "\<exists>entries ws. raw = PList entries \<and> map declared_width entries = map Some ws \<and>
      list_all (\<lambda>w. 1 \<le> w) ws \<and> map s_bits sigs = signal_places 0 ws" by auto
next
  fix p assume p: "sigs \<noteq> [] \<and> 0 \<le> p \<and> p \<le> b_msb (s_bits (last sigs))"
  obtain b where b: "tiled (\<lambda>s. b_lsb (s_bits s)) sig_next 0 sigs b"
    using signals_from_raw_list_tiled(2) [OF assms] by blast
  have "p < b" using tiled_last [OF b] p by (simp add: sig_next_msb)
  with sig.tiled_owner [OF b _ this] p
  show "\<exists>!i. i < length sigs \<and> b_lsb (s_bits (sigs ! i)) \<le> p \<and> p \<le> b_msb (s_bits (sigs ! i))"
    by (simp add: sig_next_msb zless_add1_eq order_le_less)
qed

definition two_signals :: pyobj where
  "two_signals = PList
     [obj_of_dict [(''name'', PStr ''tx''), (''desc'', PStr ''sent''), (''width'', PStr ''3'')],
      obj_of_dict [(''name'', PStr ''rx''), (''desc'', PStr ''received'')]]"

lemma two_signals_parse: "signals_from_raw_list two_signals =
    Inr [\<lparr>s_name = ''tx'', s_desc = ''sent'', s_bits = \<lparr>b_msb = 2, b_lsb = 0\<rparr>\<rparr>,
         \<lparr>s_name = ''rx'', s_desc = ''received'', s_bits = \<lparr>b_msb = 3, b_lsb = 3\<rparr>\<rparr>]"
  by code_simp

theorem signals_tile_bits_witness:
  "\<exists>entries ws. two_signals = PList entries \<and> map declared_width entries = map Some ws \<and>
    [\<lparr>b_msb = 2, b_lsb = 0\<rparr>, \<lparr>b_msb = 3, b_lsb = 3\<rparr>] = signal_places 0 ws"
  using signals_tile_bits [OF two_signals_parse] by auto

text \<open>
  Printing a parsed list of signals and parsing it again gives the same signals at the same
  bits.
\<close>

theorem signals_round_trip:
  assumes "signals_from_raw_list raw = Inr sigs"
  shows "signals_from_raw_list (PList (map (\<lambda>s. obj_of_dict (signal_as_dict s)) sigs)) = Inr sigs"
proof -
  obtain b where b: "tiled (\<lambda>s. b_lsb (s_bits s)) sig_next 0 sigs b"
    using signals_from_raw_list_tiled(2) [OF assms] by blast
  from signals_round_trip_aux [OF b signals_from_raw_list_tiled(1) [OF assms], of "[]"] show ?thesis
    by (simp add: signals_from_raw_list_def check_list_def)
qed

theorem signals_round_trip_witness:
  "\<exists>sigs. signals_from_raw_list two_signals = Inr sigs \<and> length sigs = 2 \<and>
    signals_from_raw_list (PList (map (\<lambda>s. obj_of_dict (signal_as_dict s)) sigs)) = Inr sigs"
  using signals_round_trip [OF two_signals_parse] two_signals_parse by auto

text \<open>
  Alerts take one bit each, in list order, and printing then parsing one at its position gives
  it back; the prefix of its name decides whether it is fatal.
\<close>

theorem alerts_round_trip:
  assumes "alerts_from_raw_list raw = Inr al" and "i < length al"
  shows "s_bits (al ! i) = \<lparr>b_msb = int i, b_lsb = int i\<rparr> \<and>
    hd (str_split CHR ''_'' (s_name (al ! i))) = (if a_fatal (al ! i) then ''fatal'' else ''recov'') \<and>
    alert_from_raw (int i) (obj_of_dict (alert_as_dict (al ! i))) = Inr (al ! i)"
  using alerts_from_raw_list_nth [OF assms] alert_round_trip [of "al ! i"]
  by (simp add: wf_alert_def)

theorem alerts_round_trip_witness:
  "\<exists>al. alerts_from_raw_list (PList
      [obj_of_dict [(''name'', PStr ''recov_a''), (''desc'', PStr ''d'')],
       obj_of_dict [(''name'', PStr ''fatal_b''), (''desc'', PStr ''d'')]]) = Inr al \<and>
     s_bits (al ! 1) = \<lparr>b_msb = 1, b_lsb = 1\<rparr> \<and> a_fatal (al ! 1)"
proof -
  let ?al = "[\<lparr>s_name = ''recov_a'', s_desc = ''d'', s_bits = \<lparr>b_msb = 0, b_lsb = 0\<rparr>, a_bit = 0, a_fatal = False\<rparr>,
    \<lparr>s_name = ''fatal_b'', s_desc = ''d'', s_bits = \<lparr>b_msb = 1, b_lsb = 1\<rparr>, a_bit = 1, a_fatal = True\<rparr>]"
  have e: "alerts_from_raw_list (PList
      [obj_of_dict [(''name'', PStr ''recov_a''), (''desc'', PStr ''d'')],
       obj_of_dict [(''name'', PStr ''fatal_b''), (''desc'', PStr ''d'')]]) = Inr ?al"
    by code_simp
  then show ?thesis using alerts_round_trip [OF e, of 1] by auto
qed

text \<open>
  A block with exactly as many alerts as its registers have bits passes the width check of
  the parser and then fails an assertion of the register block.
\<close>

theorem full_width_alerts_fail:
  assumes "0 < w" and "int (length al) = w" and "rb_reg_width rb = w"
  shows "gen_alert_regs w False al rb = Inl AssertionError"
  using assms by (rule alerts_off_by_one)

theorem full_width_alerts_fail_witness:
  "gen_alert_regs 1 False
     [\<lparr>s_name = ''fatal_x'', s_desc = ''d'', s_bits = \<lparr>b_msb = 0, b_lsb = 0\<rparr>, a_bit = 0, a_fatal = True\<rparr>]
     (RegBlock 1 []) = Inl AssertionError"
  by (rule full_width_alerts_fail) (simp_all add: RegBlock_def)

text \<open>
  The port names of parsed bus interfaces are distinct, whichever of the hosts and devices
  are asked for, and \<open>find_port_name\<close> finds exactly the interfaces there are.
\<close>

theorem bus_port_names:
  assumes "bus_from_raw raw = Inr b"
  shows "distinct (get_port_names inc_hosts inc_devices b) \<and>
    (\<forall>h n. (\<exists>p. find_port_name b h n = Inr p) = ((h, n) \<in> set (interfaces b))) \<and>
    (\<forall>h n p. find_port_name b h n = Inr p \<longrightarrow> p \<in> set (get_port_names True True b))"
  using port_names_distinct [OF bus_from_raw_wf(1) [OF assms]]
  by (auto simp: find_port_name_def in_interfaces [symmetric] get_port_names_def
      intro!: image_eqI [of _ _ "(_, _)"] split: if_splits)

definition two_interfaces :: pyobj where
  "two_interfaces = PList
     [obj_of_dict [(''protocol'', PStr ''tlul''), (''direction'', PStr ''host''), (''name'', PStr ''dma'')],
      obj_of_dict [(''protocol'', PStr ''reg_iface''), (''direction'', PStr ''device'')]]"

lemma two_interfaces_parse: "bus_from_raw two_interfaces =
    Inr \<lparr>bi_unnamed_host = False, bi_named_hosts = [''dma''], bi_unnamed_device = True,
      bi_named_devices = [], bi_interface_list =
        [\<lparr>if_name = Some ''dma'', if_protocol = TLUL, if_is_host = True\<rparr>,
         \<lparr>if_name = None, if_protocol = REG_IFACE, if_is_host = False\<rparr>]\<rparr>"
  by code_simp

theorem bus_port_names_witness:
  "\<exists>b. bus_from_raw two_interfaces = Inr b \<and> get_port_names True True b = [''dma_tl_h'', ''tl_d''] \<and>
     distinct (get_port_names True True b)"
  using bus_port_names [OF two_interfaces_parse, of True True] two_interfaces_parse
  by (simp add: get_port_names_def interfaces_def get_port_name_def has_host_def)

text \<open>
  C37. Printing parsed bus interfaces and parsing them again keeps the hosts and the devices, but
  every interface comes back with the protocol \<open>tlul\<close>: the printer does not print the protocol
  that was parsed.
\<close>

theorem bus_round_trip_protocol:
  assumes "bus_from_raw raw = Inr b"
  shows "\<exists>b'. bus_from_raw (PList (map obj_of_dict (bus_as_dicts b))) = Inr b' \<and>
    interfaces b' = interfaces b \<and> (\<forall>i \<in> set (bi_interface_list b'). if_protocol i = TLUL)"
  using bus_round_trip [OF bus_from_raw_wf [OF assms]] by auto

theorem bus_round_trip_protocol_witness:
  "\<exists>b b'. bus_from_raw two_interfaces = Inr b \<and> map if_protocol (bi_interface_list b) = [TLUL, REG_IFACE] \<and>
    bus_from_raw (PList (map obj_of_dict (bus_as_dicts b))) = Inr b' \<and>
    (\<forall>i \<in> set (bi_interface_list b'). if_protocol i = TLUL)"
  using bus_round_trip_protocol [OF two_interfaces_parse] two_interfaces_parse by auto

text \<open>
  A signal between modules that the parser accepted prints to a description that parses back
  to it, absent description, package and default included.
\<close>

theorem inter_signal_prints_back:
  assumes "inter_signal_from_raw raw = Inr s"
  shows "inter_signal_from_raw (obj_of_dict (inter_signal_as_dict s)) = Inr s"
  using inter_signal_from_raw_wf [OF assms] by (rule inter_signal_round_trip)

theorem inter_signal_prints_back_witness:
  "\<exists>s. inter_signal_from_raw (obj_of_dict [(''name'', PStr ''irq''), (''struct'', PStr ''logic''),
       (''type'', PStr ''uni''), (''act'', PStr ''req''), (''package'', PStr '''')]) = Inr s \<and>
     is_package s = None \<and> inter_signal_from_raw (obj_of_dict (inter_signal_as_dict s)) = Inr s"
proof -
  have e: "inter_signal_from_raw (obj_of_dict [(''name'', PStr ''irq''), (''struct'', PStr ''logic''),
       (''type'', PStr ''uni''), (''act'', PStr ''req''), (''package'', PStr '''')]) =
     Inr \<lparr>is_name = ''irq'', is_desc = None, is_struct = ''logic'', is_package = None, is_type = ''uni'',
       is_act = ''req'', is_width = 1, is_default = None\<rparr>"
    by code_simp
  then show ?thesis using inter_signal_prints_back [OF e] by auto
qed

end
