(* ===== verification/Register_Theorems.thy ===== *)
theory Register_Theorems
  imports Reggen_Multireg Reggen_Window "HOL-Library.Code_Target_Numeral"
begin

text \<open>
  The properties of registers, multi-registers and windows.
\<close>

definition ctl_desc :: pyobj where
  "ctl_desc = obj_of_dict
     [(''name'', PStr ''CTL''), (''desc'', PStr ''c''), (''swaccess'', PStr ''rw''),
      (''fields'', PList
         [obj_of_dict [(''bits'', PStr ''7:4''), (''name'', PStr ''HI''), (''desc'', PStr ''h''), (''resval'', PStr ''9'')],
          obj_of_dict [(''bits'', PStr ''2:0''), (''name'', PStr ''LO''), (''desc'', PStr ''l''), (''resval'', PStr ''5'')]])]"

definition ctl :: register where
  "ctl = (case register_from_raw 32 0 [] ctl_desc of Inr r \<Rightarrow> r | Inl e \<Rightarrow> undefined)"

lemma ctl_raw:
  "(case register_from_raw 32 0 [] ctl_desc of Inl e \<Rightarrow> None | Inr r \<Rightarrow>
      Some (map f_name (r_fields r), map (\<lambda>f. (b_msb (f_bits f), b_lsb (f_bits f))) (r_fields r),
        map f_resval (r_fields r), r_resval r, printable r)) =
    Some ([''LO'', ''HI''], [(2, 0), (7, 4)], [Some 5, Some 9], 149, True)"
  by code_simp

lemma ctl_parses: "register_from_raw 32 0 [] ctl_desc = Inr ctl"
  using ctl_raw by (cases "register_from_raw 32 0 [] ctl_desc") (simp_all add: ctl_def)

lemma ctl_facts:
  "printable ctl" "r_resval ctl = 149"
  "\<exists>lo hi. r_fields ctl = [lo, hi] \<and> f_name lo = ''LO'' \<and> f_name hi = ''HI'' \<and>
     f_bits lo = \<lparr>b_msb = 2, b_lsb = 0\<rparr> \<and> f_bits hi = \<lparr>b_msb = 7, b_lsb = 4\<rparr> \<and> f_resval hi = Some 9"
proof -
  show "printable ctl" "r_resval ctl = 149" using ctl_raw by (simp_all add: ctl_parses)
  have n: "map f_name (r_fields ctl) = [''LO'', ''HI'']"
    and b: "map (\<lambda>f. (b_msb (f_bits f), b_lsb (f_bits f))) (r_fields ctl) = [(2, 0), (7, 4)]"
    and r: "map f_resval (r_fields ctl) = [Some 5, Some 9]"
    using ctl_raw by (simp_all add: ctl_parses)
  from n obtain lo hi where f: "r_fields ctl = [lo, hi]" by auto
  with n b r show "\<exists>lo hi. r_fields ctl = [lo, hi] \<and> f_name lo = ''LO'' \<and> f_name hi = ''HI'' \<and>
     f_bits lo = \<lparr>b_msb = 2, b_lsb = 0\<rparr> \<and> f_bits hi = \<lparr>b_msb = 7, b_lsb = 4\<rparr> \<and> f_resval hi = Some 9"
    by simp
qed

text \<open>
  C21. The reset value of a parsed register is the combination of its fields' reset values: when
  the fields are disjoint, extracting a field from the register's reset value gives the field's own
  reset value, or 0 for "x", and the register's width covers the field.
\<close>

theorem register_resets_fields:
  assumes "register_from_raw w off ps raw = Inr r" and "fields_disjoint (r_fields r)"
    and "f \<in> set (r_fields r)"
  shows "extract_field (f_bits f) (r_resval r) = (case f_resval f of None \<Rightarrow> 0 | Some v \<Rightarrow> v) \<and>
    b_msb (f_bits f) < register_get_width r"
  using reset_value_of_field [OF register_from_raw_wf [OF assms(1)] assms(2,3)]
    register_width_covers [OF register_from_raw_wf [OF assms(1)] assms(2,3)] by blast

theorem register_resets_fields_witness: "extract_field \<lparr>b_msb = 7, b_lsb = 4\<rparr> 149 = 9 \<and> 7 < register_get_width ctl"
proof -
  from ctl_facts(3) obtain lo hi where f: "r_fields ctl = [lo, hi]" "f_name lo = ''LO''" "f_name hi = ''HI''"
    "f_bits lo = \<lparr>b_msb = 2, b_lsb = 0\<rparr>" "f_bits hi = \<lparr>b_msb = 7, b_lsb = 4\<rparr>" "f_resval hi = Some 9"
    by blast
  then have "fields_disjoint (r_fields ctl)" by (simp add: fields_disjoint_def)
  from register_resets_fields [OF ctl_parses this, of hi] f ctl_facts(2) show ?thesis by simp
qed

text \<open>
  A parsed register whose names are symbols and whose fields have descriptions prints to a
  dictionary that parses back to it at the same offset.
\<close>

theorem register_prints_back:
  assumes "register_from_raw w off ps raw = Inr r" and "printable r"
  shows "register_from_raw w (r_offset r) qs (obj_of_dict (register_as_dict r)) = Inr r"
  using register_from_raw_wf [OF assms(1)] assms(2) by (rule register_round_trip)

theorem register_prints_back_witness:
  "register_from_raw 32 (r_offset ctl) [] (obj_of_dict (register_as_dict ctl)) = Inr ctl"
  using register_prints_back [OF ctl_parses ctl_facts(1)] .

text \<open>
  C39. The check that the fields of a register are disjoint never rejects anything: the
  constructor does not raise its error on any list of fields, so overlapping fields are accepted.
\<close>

theorem disjointness_never_checked:
  assumes "Register offset name desc sw hw hwext hwqe hwre regwen tags resval shadowed fs uea sea = Inl e"
  shows "e \<noteq> RegError (NonDisjointFields rn fn m)"
proof
  assume e: "e = RegError (NonDisjointFields rn fn m)"
  have names: "foldR (name_step name) d fs \<noteq> Inl (RegError (NonDisjointFields rn fn m))" for d fs
    by (induction fs arbitrary: d) (auto simp: name_step_def split: if_splits)
  show False
    using assms names unfolding e
    by (auto simp: Register_def Let_def disjoint_loop check_flags_def check_shadowed_def split: if_splits)
qed

definition one_bit :: "string \<Rightarrow> field" where
  "one_bit n = \<lparr>f_name = n, f_desc = None, f_tags = [],
     f_swaccess = \<lparr>sw_key = ''rw'', sw_value = the (map_of swaccess_permitted ''rw'')\<rparr>,
     f_hwaccess = \<lparr>hw_key = ''hro'', hw_value = the (map_of hwaccess_permitted ''hro'')\<rparr>,
     f_hwqe = False, f_hwre = False, f_bits = \<lparr>b_msb = 0, b_lsb = 0\<rparr>, f_resval = None, f_enum = None\<rparr>"

theorem disjointness_never_checked_witness:
  "(case Register 0 ''R'' [] (f_swaccess (one_bit [])) (f_hwaccess (one_bit [])) False False False None [] None
      False [one_bit ''A'', one_bit ''B''] None None of Inl e \<Rightarrow> False | Inr r \<Rightarrow> r_resmask r = 1) \<and>
   (\<exists>e. Register 0 ''R'' [] (f_swaccess (one_bit [])) (f_hwaccess (one_bit [])) False False False None [] None
      False [one_bit ''A'', one_bit ''A''] None None = Inl e \<and> e \<noteq> RegError (NonDisjointFields ''R'' ''A'' 1))"
proof
  show "case Register 0 ''R'' [] (f_swaccess (one_bit [])) (f_hwaccess (one_bit [])) False False False None [] None
      False [one_bit ''A'', one_bit ''B''] None None of Inl e \<Rightarrow> False | Inr r \<Rightarrow> r_resmask r = 1"
    by code_simp
  have e: "Register 0 ''R'' [] (f_swaccess (one_bit [])) (f_hwaccess (one_bit [])) False False False None [] None
      False [one_bit ''A'', one_bit ''A''] None None = Inl (RegError (DuplicateFields ''R'' ''A''))"
    by code_simp
  from disjointness_never_checked [OF e] e
  show "\<exists>e. Register 0 ''R'' [] (f_swaccess (one_bit [])) (f_hwaccess (one_bit [])) False False False None [] None
      False [one_bit ''A'', one_bit ''A''] None None = Inl e \<and> e \<noteq> RegError (NonDisjointFields ''R'' ''A'' 1)"
    by blast
qed

definition regs_desc :: pyobj where
  "regs_desc = obj_of_dict
     [(''name'', PStr ''TIMER''), (''desc'', PStr ''timers''), (''count'', PStr ''6''),
      (''cname'', PStr ''T''), (''swaccess'', PStr ''rw''),
      (''fields'', PList [obj_of_dict
         [(''bits'', PStr ''7:1''), (''name'', PStr ''V''), (''desc'', PStr ''value'')]])]"

definition regs :: multireg where
  "regs = (case MultiRegister 16 4 32 [] regs_desc of Inr m \<Rightarrow> m | Inl e \<Rightarrow> undefined)"

lemma regs_raw:
  "(case MultiRegister 16 4 32 [] regs_desc of Inl e \<Rightarrow> None | Inr m \<Rightarrow>
      Some (m_compact m, m_count m, multi_per 32 m, map f_name (r_fields (m_reg m)), length (m_regs m))) =
    Some (True, 6, 4, [''V''], 2)"
  by code_simp

lemma regs_parses: "MultiRegister 16 4 32 [] regs_desc = Inr regs"
  using regs_raw by (cases "MultiRegister 16 4 32 [] regs_desc") (simp_all add: regs_def)

lemma regs_facts:
  "m_compact regs" "m_count regs = 6" "multi_per 32 regs = 4" "map f_name (r_fields (m_reg regs)) = [''V'']"
  "length (m_regs regs) = 2"
  using regs_raw by (simp_all add: regs_parses)

text \<open>
  C23. A multi-register with one field packs its replicas in order: with \<open>p\<close> replicas to a
  register, replica \<open>k\<close> is field \<open>k mod p\<close> of register \<open>k div p\<close>, \<open>k mod p\<close> slots above the field
  it copies; the slots of a register fit in its width, and the registers follow each other one
  word apart.
\<close>

theorem multireg_places_replicas:
  assumes "MultiRegister off sep w ps raw = Inr m" and "m_compact m" and "0 \<le> k" and "k < m_count m"
  shows "nat (k div multi_per w m) < length (m_regs m) \<and>
    (let r = m_regs m ! nat (k div multi_per w m); f = r_fields (m_reg m) ! 0;
         g = r_fields r ! nat (k mod multi_per w m); shift = (b_msb (f_bits f) + 1) * (k mod multi_per w m)
     in nat (k mod multi_per w m) < length (r_fields r) \<and> f_name g = f_name f @ ''_'' @ show_int k \<and>
        f_bits g = \<lparr>b_msb = b_msb (f_bits f) + shift, b_lsb = b_lsb (f_bits f) + shift\<rparr> \<and>
        b_msb (f_bits g) < w \<and> r_offset r = off + (k div multi_per w m) * sep)"
proof -
  have m: "wf_multireg w sep m" and off: "m_offset m = off" using assms(1) by (rule MultiRegister_wf)+
  note rep = multireg_replica [OF m assms(2-4)]
  let ?i = "nat (k div multi_per w m)" and ?j = "nat (k mod multi_per w m)"
  have "0 \<le> k div multi_per w m" using assms(3) multi_per_pos [OF m] by (simp add: pos_imp_zdiv_nonneg_iff)
  then have "r_offset (m_regs m ! ?i) = off + (k div multi_per w m) * sep"
    using multireg_regs_wf(2) [OF m rep(1)] by (simp add: off)
  moreover have "b_msb (f_bits (r_fields (m_regs m ! ?i) ! ?j)) < w"
    using multireg_regs_wf(1) [OF m rep(1)] nth_mem [OF rep(2)] by (simp add: wf_register_def)
  ultimately show ?thesis
    using rep by (simp add: Let_def)
qed

theorem multireg_places_replicas_witness:
  "f_name (r_fields (m_regs regs ! 1) ! 1) = ''V_5'' \<and> r_offset (m_regs regs ! 1) = 20"
proof -
  have "f_name (r_fields (m_reg regs) ! 0) = ''V''"
    using regs_facts(4) by (cases "r_fields (m_reg regs)") simp_all
  moreover have "show_int 5 = ''5''" by code_simp
  ultimately show ?thesis
    using multireg_places_replicas [OF regs_parses regs_facts(1), of 5] regs_facts(2,3)
    by (simp add: Let_def)
qed

text \<open>
  Reading the fields of a packed multi-register from first register to last gives the replicas
  0, 1, ..., count - 1 in order, each exactly once.
\<close>

theorem multireg_fields_in_order:
  assumes "MultiRegister off sep w ps raw = Inr m" and "m_compact m"
  shows "map f_name (multireg_get_field_list m) =
    map (\<lambda>k. f_name (r_fields (m_reg m) ! 0) @ ''_'' @ show_int k) [0 .. m_count m - 1]"
  using MultiRegister_wf(1) [OF assms(1)] assms(2) by (rule multireg_field_names)

theorem multireg_fields_in_order_witness:
  "map f_name (multireg_get_field_list regs) = [''V_0'', ''V_1'', ''V_2'', ''V_3'', ''V_4'', ''V_5'']"
proof -
  have f: "f_name (r_fields (m_reg regs) ! 0) = ''V''"
    using regs_facts(4) by (cases "r_fields (m_reg regs)") simp_all
  have "map (\<lambda>k. ''V'' @ ''_'' @ show_int k) [0 .. 6 - 1] =
      [''V_0'', ''V_1'', ''V_2'', ''V_3'', ''V_4'', ''V_5'']" by code_simp
  then show ?thesis
    using multireg_fields_in_order [OF regs_parses regs_facts(1)] by (simp only: f regs_facts(2))
qed

text \<open>
  Parsing a multi-register can only fail with a ValueError: the assertions about the number of
  copies, their indices and the width of a copy cannot fail.
\<close>

theorem multireg_only_value_errors:
  assumes "MultiRegister off sep w ps raw = Inl e"
  shows "is_value_error e"
  using raises_MultiRegister assms by (rule raisesD)

theorem multireg_only_value_errors_witness:
  "\<exists>e. MultiRegister 0 4 32 [] (PDict []) = Inl e \<and> is_value_error e"
proof -
  have e: "MultiRegister 0 4 32 [] (PDict []) = Inl (LibError (WrongKeys multireg_required []))" by code_simp
  from multireg_only_value_errors [OF e] e show ?thesis by blast
qed

text \<open>
  A shadowed multi-register never expands to more than one register: the numbered names
  of its registers would lose the suffix that marks a shadowed register.
\<close>

theorem shadowed_multireg_is_single:
  assumes "MultiRegister off sep w ps raw = Inr m" and "r_shadowed (m_reg m)"
  shows "length (m_regs m) = 1"
  using shadowed_multireg_single [OF MultiRegister_wf(1) [OF assms(1)] assms(2)]
    length_cregs [OF MultiRegister_wf(1) [OF assms(1)]] by simp

definition shadow_desc :: pyobj where
  "shadow_desc = obj_of_dict
     [(''name'', PStr ''S_shadowed''), (''desc'', PStr ''s''), (''count'', PStr ''2''),
      (''cname'', PStr ''T''), (''shadowed'', PBool True),
      (''fields'', PList [obj_of_dict [(''bits'', PStr ''0''), (''name'', PStr ''V''), (''desc'', PStr ''v'')]])]"

theorem shadowed_multireg_is_single_witness:
  "\<exists>m. MultiRegister 0 4 32 [] shadow_desc = Inr m \<and> m_count m = 2 \<and> length (m_regs m) = 1"
proof -
  have e: "(case MultiRegister 0 4 32 [] shadow_desc of Inl e \<Rightarrow> None
      | Inr m \<Rightarrow> Some (r_shadowed (m_reg m), m_count m)) = Some (True, 2)" by code_simp
  then obtain m where m: "MultiRegister 0 4 32 [] shadow_desc = Inr m" "r_shadowed (m_reg m)" "m_count m = 2"
    by (cases "MultiRegister 0 4 32 [] shadow_desc") auto
  with shadowed_multireg_is_single [OF m(1,2)] show ?thesis by blast
qed

text \<open>
  C35. A parsed window starts at the least multiple of its rounded size from the current offset on;
  the rounded size is the least power of two that holds the window, and equals its size unless the
  window is marked unusual.
\<close>

theorem window_aligned_least:
  assumes "window_from_raw off w ps raw = Inr win"
  shows "po2_size (w_size win) dvd w_offset win \<and> off \<le> w_offset win \<and>
    w_offset win < off + po2_size (w_size win) \<and> w_size win \<le> po2_size (w_size win) \<and>
    (\<forall>k. w_size win \<le> 2 ^ k \<longrightarrow> po2_size (w_size win) \<le> 2 ^ k) \<and>
    (w_unusual win \<or> po2_size (w_size win) = w_size win)"
proof -
  have wf: "wf_window w win" and o: "w_offset win = align_offset (w_size win) off"
    using assms by (rule window_from_raw_wf)+
  have pos: "0 < w_size win" using wf by (simp add: wf_window_def)
  have u: "w_unusual win \<or> po2_size (w_size win) = w_size win"
    using wf unfolding wf_window_def by blast
  show ?thesis
    unfolding o using align_offset_spec [where s = "w_size win" and x = off] po2_size_ge [OF pos] po2_size_least [OF pos] u
    by blast
qed

theorem window_aligned_least_witness:
  "\<exists>win. window_from_raw 20 32 [] (obj_of_dict [(''name'', PStr ''BUF''), (''desc'', PStr ''b''),
      (''items'', PStr ''16''), (''swaccess'', PStr ''rw'')]) = Inr win \<and>
     w_offset win = 64 \<and> 64 dvd w_offset win \<and> w_offset win < 20 + 64"
proof -
  let ?raw = "obj_of_dict [(''name'', PStr ''BUF''), (''desc'', PStr ''b''),
      (''items'', PStr ''16''), (''swaccess'', PStr ''rw'')]"
  have e: "(case window_from_raw 20 32 [] ?raw of Inl e \<Rightarrow> None
      | Inr win \<Rightarrow> Some (w_offset win, po2_size (w_size win))) = Some (64, 64)" by code_simp
  then obtain win where win: "window_from_raw 20 32 [] ?raw = Inr win" "w_offset win = 64"
      "po2_size (w_size win) = 64"
    by (cases "window_from_raw 20 32 [] ?raw") auto
  with window_aligned_least [OF win(1)] show ?thesis by auto
qed

end
