(* ===== verification/Parsing_Theorems.thy ===== *)
theory Parsing_Theorems
  imports Reggen_Multireg "HOL-Library.Code_Target_Numeral"
begin

text \<open>
  The properties of what the other parts stand on: the checks of \<open>lib.py\<close>, the expressions of
  \<open>params.py\<close>, the bit ranges of \<open>bits.py\<close> and the enumerations of \<open>field.py\<close>.
\<close>

section \<open>Expressions over parameters\<close>

text \<open>
  C28. The text of a sum or difference of literals and local parameters, in any order and of any
  length, expands to the value of the sum: \<open>expand\<close> reads the signs and the names as written.
\<close>

theorem expand_computes_sum:
  assumes "expr_ok ps e"
  shows "expand ps (expr_text e) = Inr (expr_value ps e)"
  using assms by (rule expand_expr_text)

definition two_params :: params where
  "two_params = [(''N'', LocalParam ''N'' None ''int'' ''10'' None), (''K'', LocalParam ''K'' None ''int'' ''0x4'' None)]"

theorem expand_computes_sum_witness:
  "expand two_params ''N - K + 3'' = Inr 9"
proof -
  let ?e = "(Ref ''N'', [(True, Ref ''K''), (False, Lit 3)]) :: expr"
  have "expr_ok two_params ?e" "expr_text ?e = ''N - K + 3''" "expr_value two_params ?e = 9"
    by code_simp+
  with expand_computes_sum [of two_params ?e] show ?thesis by simp
qed

text \<open>
  Overriding defaults never changes what an expression expands to: the override of a local
  parameter reaches only its stored default, which no expansion reads.
\<close>

theorem defaults_never_expand:
  assumes "apply_defaults ps ds = Inr ps'"
  shows "expand ps' text = expand ps text"
  using same_expansion_expand [OF apply_defaults_same [OF assms]] by simp

theorem defaults_never_expand_witness:
  "\<exists>ps'. apply_defaults two_params [(''N'', ''99'')] = Inr ps' \<and> ps' \<noteq> two_params \<and>
     expand ps' ''N'' = Inr 10"
proof -
  have "(case apply_defaults two_params [(''N'', ''99'')] of Inl e \<Rightarrow> None
      | Inr ps' \<Rightarrow> Some (map snd ps' = map snd two_params)) = Some False"
    by code_simp
  then obtain ps' where ps': "apply_defaults two_params [(''N'', ''99'')] = Inr ps'" "ps' \<noteq> two_params"
    by (cases "apply_defaults two_params [(''N'', ''99'')]") auto
  have "expand two_params ''N'' = Inr 10" by code_simp
  with defaults_never_expand [OF ps'(1), of "''N''"] ps' show ?thesis by auto
qed

section \<open>Bit ranges\<close>

text \<open>
  A range that fits the register, printed as the generators print it, is parsed back to the same
  range, a single bit included.
\<close>

theorem bits_print_parse:
  assumes "wf_bits b" and "b_msb b < w"
  shows "bits_from_raw w ps (PStr (bits_as_str b)) = Inr b"
  using assms by (rule bits_round_trip)

theorem bits_print_parse_witness:
  "bits_from_raw 32 [] (PStr ''11:4'') = Inr \<lparr>b_msb = 11, b_lsb = 4\<rparr>"
proof -
  have "bits_as_str \<lparr>b_msb = 11, b_lsb = 4\<rparr> = ''11:4''" by code_simp
  with bits_print_parse [of "\<lparr>b_msb = 11, b_lsb = 4\<rparr>" 32 "[]"] show ?thesis
    by (simp add: wf_bits_def)
qed

text \<open>
  The mask of a range has exactly its bits; two masks are disjoint exactly when the ranges are;
  a field's value lies between 0 and its maximum; and placing a value in a field and extracting it
  gives the value.
\<close>

theorem bits_mask_and_extract:
  assumes "wf_bits b" and "wf_bits c"
  shows "(\<forall>n. bit (bitmask b) n \<longleftrightarrow> b_lsb b \<le> int n \<and> int n \<le> b_msb b) \<and>
    (bitmask b AND bitmask c = 0 \<longleftrightarrow> b_msb b < b_lsb c \<or> b_msb c < b_lsb b) \<and>
    (\<forall>v. 0 \<le> extract_field b v \<and> extract_field b v \<le> max_value b) \<and>
    (\<forall>v. 0 \<le> v \<and> v \<le> max_value b \<longrightarrow> extract_field b (push_bit (nat (b_lsb b)) v) = v)"
  using bit_bitmask [OF assms(1)] bitmask_disjoint [OF assms] extract_field_range [OF assms(1)]
    extract_field_shift [OF assms(1)] by blast

theorem bits_mask_and_extract_witness:
  "bitmask \<lparr>b_msb = 3, b_lsb = 0\<rparr> AND bitmask \<lparr>b_msb = 7, b_lsb = 4\<rparr> = 0"
  using bits_mask_and_extract [of "\<lparr>b_msb = 3, b_lsb = 0\<rparr>" "\<lparr>b_msb = 7, b_lsb = 4\<rparr>"]
  by (simp add: wf_bits_def)

section \<open>Enumerations\<close>

text \<open>
  C36. A parsed field with an enumeration is reported complete exactly when every value its bits can
  hold has an entry, although the code compares only the number of entries with the maximal value.
\<close>

theorem enum_completeness_exact:
  assumes "field_from_raw rn i n sw hw rv w hwqe hwre ps raw = Inr f"
    and "wf_swaccess sw" and "wf_hwaccess hw" and "f_enum f = Some es"
  shows "\<not> has_incomplete_enum f \<longleftrightarrow>
    (\<forall>v. 0 \<le> v \<and> v \<le> max_value (f_bits f) \<longrightarrow> (\<exists>e \<in> set es. e_value e = v))"
  using field_from_raw_wf(1) [OF assms(1-3)] assms(4) by (rule enum_complete)

definition mode_desc :: pyobj where
  "mode_desc = obj_of_dict
     [(''bits'', PStr ''0''), (''name'', PStr ''MODE''), (''desc'', PStr ''m''),
      (''enum'', PList
        [obj_of_dict [(''value'', PStr ''0''), (''name'', PStr ''off''), (''desc'', PStr ''o'')],
         obj_of_dict [(''value'', PStr ''1''), (''name'', PStr ''on''), (''desc'', PStr ''n'')]])]"

definition rw_access :: swaccess where
  "rw_access = \<lparr>sw_key = ''rw'', sw_value = the (map_of swaccess_permitted ''rw'')\<rparr>"

definition hro_access :: hwaccess where
  "hro_access = \<lparr>hw_key = ''hro'', hw_value = the (map_of hwaccess_permitted ''hro'')\<rparr>"

theorem enum_completeness_exact_witness:
  "\<exists>f es. field_from_raw ''CTRL'' 0 1 rw_access hro_access None 32 False False [] mode_desc = Inr f \<and>
     f_enum f = Some es \<and> (\<exists>e \<in> set es. e_value e = 1)"
proof -
  let ?r = "field_from_raw ''CTRL'' 0 1 rw_access hro_access None 32 False False [] mode_desc"
  have wf: "wf_swaccess rw_access" "wf_hwaccess hro_access" by code_simp+
  have e: "(case ?r of Inl e \<Rightarrow> None
      | Inr f \<Rightarrow> Some (has_incomplete_enum f, f_enum f = None, max_value (f_bits f))) = Some (False, False, 1)"
    by code_simp
  then obtain f es where f: "?r = Inr f" "\<not> has_incomplete_enum f" "f_enum f = Some es"
      "max_value (f_bits f) = 1"
    by (cases ?r) auto
  have "\<exists>e \<in> set es. e_value e = 1"
    using enum_completeness_exact [OF f(1) wf f(3)] f(2,4) by simp
  with f show ?thesis by blast
qed

section \<open>Checks of a raw description\<close>

text \<open>
  C38. The key check accepts an object exactly when it is a dictionary whose keys are strings, that
  has every required key and no key outside the allowed ones; what it returns is that dictionary, in
  its order.
\<close>

theorem check_keys_exact:
  "check_keys obj req opt = Inr od \<longleftrightarrow>
     obj = PDict (map (\<lambda>(s, v). (PStr s, v)) od) \<and> distinct (req @ opt) \<and>
     set req \<subseteq> fst ` set od \<and> fst ` set od \<subseteq> set (req @ opt)"
  by (rule check_keys_Inr)

text \<open>
  An accepted name is an identifier that is not a keyword, except that the pattern's dollar sign also
  lets through an identifier followed by one newline; nothing else is accepted, and what is returned is the
  string itself.
\<close>

theorem check_name_language:
  "check_name obj = Inr s \<longleftrightarrow>
     obj = PStr s \<and> s \<notin> set verilog_keywords \<and> (\<exists>t. is_symbol t \<and> (s = t \<or> s = t @ [newline]))"
proof -
  have "match_name s \<longleftrightarrow> (\<exists>t. is_symbol t \<and> (s = t \<or> s = t @ [newline]))"
    by (cases s rule: rev_cases) (auto simp: match_name_def)
  then show ?thesis by (auto simp: check_name_Inr)
qed

end
