(* ===== verification/Pygen_Enums.thy ===== *)
theory Pygen_Enums
  imports Py_Values
begin

text \<open>
  The enumerations of the random instruction generator, \<open>pygen_src/riscv_instr_pkg.py\<close>, that its
  modelled parts use. A small enumeration is a datatype with the constructors of the source; where the
  code reads \<open>.name\<close> or the integer value of a member, that is a function on it. The members of
  the two large ones, the instruction names and the control registers, are represented by their names,
  with the lists of the members in the order of the source.
\<close>

section \<open>Small enumerations\<close>

datatype imm_t =
    IMM | UIMM | NZUIMM | NZIMM

primrec imm_name :: "imm_t \<Rightarrow> string" where
  "imm_name IMM = ''IMM''"
| "imm_name UIMM = ''UIMM''"
| "imm_name NZUIMM = ''NZUIMM''"
| "imm_name NZIMM = ''NZIMM''"

datatype privileged_mode_t =
    USER_MODE | SUPERVISOR_MODE | RESERVED_MODE | MACHINE_MODE

primrec mode_name :: "privileged_mode_t \<Rightarrow> string" where
  "mode_name USER_MODE = ''USER_MODE''"
| "mode_name SUPERVISOR_MODE = ''SUPERVISOR_MODE''"
| "mode_name RESERVED_MODE = ''RESERVED_MODE''"
| "mode_name MACHINE_MODE = ''MACHINE_MODE''"

datatype satp_mode_t =
    BARE | SV32 | SV39 | SV48 | SV57 | SV64

datatype riscv_instr_group_t =
    RV32I | RV64I | RV32M | RV64M | RV32A | RV64A | RV32F | RV32FC | RV64F | RV32D | RV32DC |
    RV64D | RV32C | RV64C | RV128I | RV128C | RV32V | RV32B | RV64V | RV64B | RV32X | RV64X | RVV

primrec group_name :: "riscv_instr_group_t \<Rightarrow> string" where
  "group_name RV32I = ''RV32I''"
| "group_name RV64I = ''RV64I''"
| "group_name RV32M = ''RV32M''"
| "group_name RV64M = ''RV64M''"
| "group_name RV32A = ''RV32A''"
| "group_name RV64A = ''RV64A''"
| "group_name RV32F = ''RV32F''"
| "group_name RV32FC = ''RV32FC''"
| "group_name RV64F = ''RV64F''"
| "group_name RV32D = ''RV32D''"
| "group_name RV32DC = ''RV32DC''"
| "group_name RV64D = ''RV64D''"
| "group_name RV32C = ''RV32C''"
| "group_name RV64C = ''RV64C''"
| "group_name RV128I = ''RV128I''"
| "group_name RV128C = ''RV128C''"
| "group_name RV32V = ''RV32V''"
| "group_name RV32B = ''RV32B''"
| "group_name RV64V = ''RV64V''"
| "group_name RV64B = ''RV64B''"
| "group_name RV32X = ''RV32X''"
| "group_name RV64X = ''RV64X''"
| "group_name RVV = ''RVV''"

datatype riscv_instr_format_t =
    J_FORMAT | U_FORMAT | I_FORMAT | B_FORMAT | R_FORMAT | S_FORMAT | R4_FORMAT | CI_FORMAT |
    CB_FORMAT | CJ_FORMAT | CR_FORMAT | CA_FORMAT | CL_FORMAT | CS_FORMAT | CSS_FORMAT |
    CIW_FORMAT | VSET_FORMAT | VA_FORMAT | VS2_FORMAT | VL_FORMAT | VS_FORMAT

primrec format_name :: "riscv_instr_format_t \<Rightarrow> string" where
  "format_name J_FORMAT = ''J_FORMAT''"
| "format_name U_FORMAT = ''U_FORMAT''"
| "format_name I_FORMAT = ''I_FORMAT''"
| "format_name B_FORMAT = ''B_FORMAT''"
| "format_name R_FORMAT = ''R_FORMAT''"
| "format_name S_FORMAT = ''S_FORMAT''"
| "format_name R4_FORMAT = ''R4_FORMAT''"
| "format_name CI_FORMAT = ''CI_FORMAT''"
| "format_name CB_FORMAT = ''CB_FORMAT''"
| "format_name CJ_FORMAT = ''CJ_FORMAT''"
| "format_name CR_FORMAT = ''CR_FORMAT''"
| "format_name CA_FORMAT = ''CA_FORMAT''"
| "format_name CL_FORMAT = ''CL_FORMAT''"
| "format_name CS_FORMAT = ''CS_FORMAT''"
| "format_name CSS_FORMAT = ''CSS_FORMAT''"
| "format_name CIW_FORMAT = ''CIW_FORMAT''"
| "format_name VSET_FORMAT = ''VSET_FORMAT''"
| "format_name VA_FORMAT = ''VA_FORMAT''"
| "format_name VS2_FORMAT = ''VS2_FORMAT''"
| "format_name VL_FORMAT = ''VL_FORMAT''"
| "format_name VS_FORMAT = ''VS_FORMAT''"

datatype riscv_instr_category_t =
    LOAD | STORE | SHIFT | ARITHMETIC | LOGICAL | COMPARE | BRANCH | JUMP | SYNCH | SYSTEM |
    COUNTER | CSR | CHANGELEVEL | TRAP | INTERRUPT | AMO

primrec category_name :: "riscv_instr_category_t \<Rightarrow> string" where
  "category_name LOAD = ''LOAD''"
| "category_name STORE = ''STORE''"
| "category_name SHIFT = ''SHIFT''"
| "category_name ARITHMETIC = ''ARITHMETIC''"
| "category_name LOGICAL = ''LOGICAL''"
| "category_name COMPARE = ''COMPARE''"
| "category_name BRANCH = ''BRANCH''"
| "category_name JUMP = ''JUMP''"
| "category_name SYNCH = ''SYNCH''"
| "category_name SYSTEM = ''SYSTEM''"
| "category_name COUNTER = ''COUNTER''"
| "category_name CSR = ''CSR''"
| "category_name CHANGELEVEL = ''CHANGELEVEL''"
| "category_name TRAP = ''TRAP''"
| "category_name INTERRUPT = ''INTERRUPT''"
| "category_name AMO = ''AMO''"

datatype riscv_reg_t =
    ZERO | RA | SP | GP | TP | T0 | T1 | T2 | S0 | S1 | A0 | A1 | A2 | A3 | A4 | A5 | A6 | A7 |
    S2 | S3 | S4 | S5 | S6 | S7 | S8 | S9 | S10 | S11 | T3 | T4 | T5 | T6

primrec reg_name :: "riscv_reg_t \<Rightarrow> string" where
  "reg_name ZERO = ''ZERO''"
| "reg_name RA = ''RA''"
| "reg_name SP = ''SP''"
| "reg_name GP = ''GP''"
| "reg_name TP = ''TP''"
| "reg_name T0 = ''T0''"
| "reg_name T1 = ''T1''"
| "reg_name T2 = ''T2''"
| "reg_name S0 = ''S0''"
| "reg_name S1 = ''S1''"
| "reg_name A0 = ''A0''"
| "reg_name A1 = ''A1''"
| "reg_name A2 = ''A2''"
| "reg_name A3 = ''A3''"
| "reg_name A4 = ''A4''"
| "reg_name A5 = ''A5''"
| "reg_name A6 = ''A6''"
| "reg_name A7 = ''A7''"
| "reg_name S2 = ''S2''"
| "reg_name S3 = ''S3''"
| "reg_name S4 = ''S4''"
| "reg_name S5 = ''S5''"
| "reg_name S6 = ''S6''"
| "reg_name S7 = ''S7''"
| "reg_name S8 = ''S8''"
| "reg_name S9 = ''S9''"
| "reg_name S10 = ''S10''"
| "reg_name S11 = ''S11''"
| "reg_name T3 = ''T3''"
| "reg_name T4 = ''T4''"
| "reg_name T5 = ''T5''"
| "reg_name T6 = ''T6''"

primrec reg_val :: "riscv_reg_t \<Rightarrow> int" where
  "reg_val ZERO = 0"
| "reg_val RA = 1"
| "reg_val SP = 2"
| "reg_val GP = 3"
| "reg_val TP = 4"
| "reg_val T0 = 5"
| "reg_val T1 = 6"
| "reg_val T2 = 7"
| "reg_val S0 = 8"
| "reg_val S1 = 9"
| "reg_val A0 = 10"
| "reg_val A1 = 11"
| "reg_val A2 = 12"
| "reg_val A3 = 13"
| "reg_val A4 = 14"
| "reg_val A5 = 15"
| "reg_val A6 = 16"
| "reg_val A7 = 17"
| "reg_val S2 = 18"
| "reg_val S3 = 19"
| "reg_val S4 = 20"
| "reg_val S5 = 21"
| "reg_val S6 = 22"
| "reg_val S7 = 23"
| "reg_val S8 = 24"
| "reg_val S9 = 25"
| "reg_val S10 = 26"
| "reg_val S11 = 27"
| "reg_val T3 = 28"
| "reg_val T4 = 29"
| "reg_val T5 = 30"
| "reg_val T6 = 31"

datatype riscv_fpr_t =
    FT0 | FT1 | FT2 | FT3 | FT4 | FT5 | FT6 | FT7 | FS0 | FS1 | FA0 | FA1 | FA2 | FA3 | FA4 |
    FA5 | FA6 | FA7 | FS2 | FS3 | FS4 | FS5 | FS6 | FS7 | FS8 | FS9 | FS10 | FS11 | FT8 | FT9 |
    FT10 | FT11

primrec fpr_name :: "riscv_fpr_t \<Rightarrow> string" where
  "fpr_name FT0 = ''FT0''"
| "fpr_name FT1 = ''FT1''"
| "fpr_name FT2 = ''FT2''"
| "fpr_name FT3 = ''FT3''"
| "fpr_name FT4 = ''FT4''"
| "fpr_name FT5 = ''FT5''"
| "fpr_name FT6 = ''FT6''"
| "fpr_name FT7 = ''FT7''"
| "fpr_name FS0 = ''FS0''"
| "fpr_name FS1 = ''FS1''"
| "fpr_name FA0 = ''FA0''"
| "fpr_name FA1 = ''FA1''"
| "fpr_name FA2 = ''FA2''"
| "fpr_name FA3 = ''FA3''"
| "fpr_name FA4 = ''FA4''"
| "fpr_name FA5 = ''FA5''"
| "fpr_name FA6 = ''FA6''"
| "fpr_name FA7 = ''FA7''"
| "fpr_name FS2 = ''FS2''"
| "fpr_name FS3 = ''FS3''"
| "fpr_name FS4 = ''FS4''"
| "fpr_name FS5 = ''FS5''"
| "fpr_name FS6 = ''FS6''"
| "fpr_name FS7 = ''FS7''"
| "fpr_name FS8 = ''FS8''"
| "fpr_name FS9 = ''FS9''"
| "fpr_name FS10 = ''FS10''"
| "fpr_name FS11 = ''FS11''"
| "fpr_name FT8 = ''FT8''"
| "fpr_name FT9 = ''FT9''"
| "fpr_name FT10 = ''FT10''"
| "fpr_name FT11 = ''FT11''"

datatype reg_field_access_t =
    WPRI | WLRL | WARL

datatype data_pattern_t =
    RAND_DATA | ALL_ZERO | INCR_VAL

datatype riscv_pseudo_instr_name_t =
    LI | LA

primrec pseudo_name :: "riscv_pseudo_instr_name_t \<Rightarrow> string" where
  "pseudo_name LI = ''LI''"
| "pseudo_name LA = ''LA''"

section \<open>Instruction names\<close>

type_synonym riscv_instr_name_t = string

definition names_integer :: "riscv_instr_name_t list" where
  "names_integer =
    [''LUI'', ''AUIPC'', ''JAL'', ''JALR'', ''BEQ'', ''BNE'', ''BLT'', ''BGE'', ''BLTU'',
     ''BGEU'', ''LB'', ''LH'', ''LW'', ''LBU'', ''LHU'', ''SB'', ''SH'', ''SW'', ''ADDI'',
     ''SLTI'', ''SLTIU'', ''XORI'', ''ORI'', ''ANDI'', ''SLLI'', ''SRLI'', ''SRAI'', ''ADD'',
     ''SUB'', ''SLL'', ''SLT'', ''SLTU'', ''XOR'', ''SRL'', ''SRA'', ''OR'', ''AND'', ''NOP'',
     ''FENCE'', ''FENCE_I'', ''ECALL'', ''EBREAK'', ''CSRRW'', ''CSRRS'', ''CSRRC'', ''CSRRWI'',
     ''CSRRSI'', ''CSRRCI'', ''ANDN'', ''ORN'', ''XNOR'', ''GORC'', ''SLO'', ''SRO'', ''ROL'',
     ''ROR'', ''SBCLR'', ''SBSET'', ''SBINV'', ''SBEXT'', ''GREV'', ''SLOI'', ''SROI'', ''RORI'',
     ''SBCLRI'', ''SBSETI'', ''SBINVI'', ''SBEXTI'', ''GORCI'', ''GREVI'', ''CMIX'', ''CMOV'',
     ''FSL'', ''FSR'', ''FSRI'', ''CLZ'', ''CTZ'', ''PCNT'', ''SEXT_B'', ''SEXT_H'', ''CRC32_B'',
     ''CRC32_H'', ''CRC32_W'', ''CRC32C_B'', ''CRC32C_H'', ''CRC32C_W'', ''CLMUL'', ''CLMULR'',
     ''CLMULH'', ''MIN'', ''MAX'', ''MINU'', ''MAXU'', ''SHFL'', ''UNSHFL'', ''BDEP'', ''BEXT'',
     ''PACK'', ''PACKU'', ''BMATOR'', ''BMATXOR'', ''PACKH'', ''BFP'', ''SHFLI'', ''UNSHFLI'']"

definition names_bitmanip64_mul_float :: "riscv_instr_name_t list" where
  "names_bitmanip64_mul_float =
    [''ADDIWU'', ''SLLIU_W'', ''ADDWU'', ''SUBWU'', ''BMATFLIP'', ''CRC32_D'', ''CRC32C_D'',
     ''ADDU_W'', ''SUBU_W'', ''SLOW'', ''SROW'', ''ROLW'', ''RORW'', ''SBCLRW'', ''SBSETW'',
     ''SBINVW'', ''SBEXTW'', ''GORCW'', ''GREVW'', ''SLOIW'', ''SROIW'', ''RORIW'', ''SBCLRIW'',
     ''SBSETIW'', ''SBINVIW'', ''GORCIW'', ''GREVIW'', ''FSLW'', ''FSRW'', ''FSRIW'', ''CLZW'',
     ''CTZW'', ''PCNTW'', ''CLMULW'', ''CLMULRW'', ''CLMULHW'', ''SHFLW'', ''UNSHFLW'',
     ''BDEPW'', ''BEXTW'', ''PACKW'', ''PACKUW'', ''BFPW'', ''MUL'', ''MULH'', ''MULHSU'',
     ''MULHU'', ''DIV'', ''DIVU'', ''REM'', ''REMU'', ''MULW'', ''DIVW'', ''DIVUW'', ''REMW'',
     ''REMUW'', ''FLW'', ''FSW'', ''FMADD_S'', ''FMSUB_S'', ''FNMSUB_S'', ''FNMADD_S'',
     ''FADD_S'', ''FSUB_S'', ''FMUL_S'', ''FDIV_S'', ''FSQRT_S'', ''FSGNJ_S'', ''FSGNJN_S'',
     ''FSGNJX_S'', ''FMIN_S'', ''FMAX_S'', ''FCVT_W_S'', ''FCVT_WU_S'', ''FMV_X_W'', ''FEQ_S'',
     ''FLT_S'', ''FLE_S'', ''FCLASS_S'', ''FCVT_S_W'', ''FCVT_S_WU'', ''FMV_W_X'', ''FCVT_L_S'',
     ''FCVT_LU_S'', ''FCVT_S_L'', ''FCVT_S_LU'', ''FLD'', ''FSD'', ''FMADD_D'', ''FMSUB_D'',
     ''FNMSUB_D'', ''FNMADD_D'', ''FADD_D'', ''FSUB_D'', ''FMUL_D'', ''FDIV_D'', ''FSQRT_D'',
     ''FSGNJ_D'', ''FSGNJN_D'', ''FSGNJX_D'', ''FMIN_D'', ''FMAX_D'', ''FCVT_S_D'', ''FCVT_D_S'',
     ''FEQ_D'', ''FLT_D'', ''FLE_D'', ''FCLASS_D'', ''FCVT_W_D'', ''FCVT_WU_D'', ''FCVT_D_W'',
     ''FCVT_D_WU'', ''FCVT_L_D'', ''FCVT_LU_D'', ''FMV_X_D'', ''FCVT_D_L'', ''FCVT_D_LU'',
     ''FMV_D_X'']"

definition names_compressed_atomic :: "riscv_instr_name_t list" where
  "names_compressed_atomic =
    [''LWU'', ''LD'', ''SD'', ''ADDIW'', ''SLLIW'', ''SRLIW'', ''SRAIW'', ''ADDW'', ''SUBW'',
     ''SLLW'', ''SRLW'', ''SRAW'', ''C_LW'', ''C_SW'', ''C_LWSP'', ''C_SWSP'', ''C_ADDI4SPN'',
     ''C_ADDI'', ''C_LI'', ''C_ADDI16SP'', ''C_LUI'', ''C_SRLI'', ''C_SRAI'', ''C_ANDI'',
     ''C_SUB'', ''C_XOR'', ''C_OR'', ''C_AND'', ''C_BEQZ'', ''C_BNEZ'', ''C_SLLI'', ''C_MV'',
     ''C_EBREAK'', ''C_ADD'', ''C_NOP'', ''C_J'', ''C_JAL'', ''C_JR'', ''C_JALR'', ''C_ADDIW'',
     ''C_SUBW'', ''C_ADDW'', ''C_LD'', ''C_SD'', ''C_LDSP'', ''C_SDSP'', ''C_SRLI64'',
     ''C_SRAI64'', ''C_SLLI64'', ''C_LQ'', ''C_SQ'', ''C_LQSP'', ''C_SQSP'', ''C_FLW'',
     ''C_FSW'', ''C_FLWSP'', ''C_FSWSP'', ''C_FLD'', ''C_FSD'', ''C_FLDSP'', ''C_FSDSP'',
     ''LR_W'', ''SC_W'', ''AMOSWAP_W'', ''AMOADD_W'', ''AMOAND_W'', ''AMOOR_W'', ''AMOXOR_W'',
     ''AMOMIN_W'', ''AMOMAX_W'', ''AMOMINU_W'', ''AMOMAXU_W'', ''LR_D'', ''SC_D'', ''AMOSWAP_D'',
     ''AMOADD_D'', ''AMOAND_D'', ''AMOOR_D'', ''AMOXOR_D'', ''AMOMIN_D'', ''AMOMAX_D'',
     ''AMOMINU_D'', ''AMOMAXU_D'']"

definition names_vector :: "riscv_instr_name_t list" where
  "names_vector =
    [''VSETVL'', ''VSETVLI'', ''VADD'', ''VSUB'', ''VRSUB'', ''VWADDU'', ''VWSUBU'', ''VWADD'',
     ''VWSUB'', ''VADC'', ''VMADC'', ''VSBC'', ''VMSBC'', ''VAND'', ''VOR'', ''VXOR'', ''VSLL'',
     ''VSRL'', ''VSRA'', ''VNSRL'', ''VNSRA'', ''VMSEQ'', ''VMSNE'', ''VMSLTU'', ''VMSLT'',
     ''VMSLEU'', ''VMSLE'', ''VMSGTU'', ''VMSGT'', ''VMINU'', ''VMIN'', ''VMAXU'', ''VMAX'',
     ''VMUL'', ''VMULH'', ''VMULHU'', ''VMULHSU'', ''VDIVU'', ''VDIV'', ''VREMU'', ''VREM'',
     ''VWMUL'', ''VWMULU'', ''VWMULSU'', ''VMACC'', ''VNMSAC'', ''VMADD'', ''VNMSUB'',
     ''VWMACCU'', ''VWMACC'', ''VWMACCSU'', ''VWMACCUS'', ''VMERGE'', ''VMV'', ''VSADDU'',
     ''VSADD'', ''VSSUBU'', ''VSSUB'', ''VAADDU'', ''VAADD'', ''VASUBU'', ''VASUB'', ''VSSRL'',
     ''VSSRA'', ''VNCLIPU'', ''VNCLIP'', ''VFADD'', ''VFSUB'', ''VFRSUB'', ''VFMUL'', ''VFDIV'',
     ''VFRDIV'', ''VFWMUL'', ''VFMACC'', ''VFNMACC'', ''VFMSAC'', ''VFNMSAC'', ''VFMADD'',
     ''VFNMADD'', ''VFMSUB'', ''VFNMSUB'', ''VFWMACC'', ''VFWNMACC'', ''VFWMSAC'', ''VFWNMSAC'',
     ''VFSQRT_V'', ''VFMIN'', ''VFMAX'', ''VFSGNJ'', ''VFSGNJN'', ''VFSGNJX'', ''VMFEQ'',
     ''VMFNE'', ''VMFLT'', ''VMFLE'', ''VMFGT'', ''VMFGE'', ''VFCLASS_V'', ''VFMERGE'', ''VFMV'',
     ''VFCVT_XU_F_V'', ''VFCVT_X_F_V'', ''VFCVT_F_XU_V'', ''VFCVT_F_X_V'', ''VFWCVT_XU_F_V'',
     ''VFWCVT_X_F_V'', ''VFWCVT_F_XU_V'', ''VFWCVT_F_X_V'', ''VFWCVT_F_F_V'', ''VFNCVT_XU_F_W'',
     ''VFNCVT_X_F_W'', ''VFNCVT_F_XU_W'', ''VFNCVT_F_X_W'', ''VFNCVT_F_F_W'',
     ''VFNCVT_ROD_F_F_W'', ''VREDSUM_VS'', ''VREDMAXU_VS'', ''VREDMAX_VS'', ''VREDMINU_VS'',
     ''VREDMIN_VS'', ''VREDAND_VS'', ''VREDOR_VS'', ''VREDXOR_VS'', ''VWREDSUMU_VS'',
     ''VWREDSUM_VS'', ''VFREDOSUM_VS'', ''VFREDSUM_VS'', ''VFREDMAX_VS'', ''VFWREDOSUM_VS'',
     ''VFWREDSUM_VS'']"

definition names_vector_rest :: "riscv_instr_name_t list" where
  "names_vector_rest =
    [''VMAND_MM'', ''VMNAND_MM'', ''VMANDNOT_MM'', ''VMXOR_MM'', ''VMOR_MM'', ''VMNOR_MM'',
     ''VMORNOT_MM'', ''VMXNOR_MM'', ''VPOPC_M'', ''VFIRST_M'', ''VMSBF_M'', ''VMSIF_M'',
     ''VMSOF_M'', ''VIOTA_M'', ''VID_V'', ''VMV_X_S'', ''VMV_S_X'', ''VFMV_F_S'', ''VFMV_S_F'',
     ''VSLIDEUP'', ''VSLIDEDOWN'', ''VSLIDE1UP'', ''VSLIDE1DOWN'', ''VRGATHER'', ''VCOMPRESS'',
     ''VMV1R_V'', ''VMV2R_V'', ''VMV4R_V'', ''VMV8R_V'', ''VLE_V'', ''VSE_V'', ''VLSE_V'',
     ''VSSE_V'', ''VLXEI_V'', ''VSXEI_V'', ''VSUXEI_V'', ''VLEFF_V'', ''VLSEGE_V'', ''VSSEGE_V'',
     ''VLSEGEFF_V'', ''VLSSEGE_V'', ''VSSSEGE_V'', ''VLXSEGEI_V'', ''VSXSEGEI_V'',
     ''VSUXSEGEI_V'', ''VAMOSWAPE_V'', ''VAMOADDE_V'', ''VAMOXORE_V'', ''VAMOANDE_V'',
     ''VAMOORE_V'', ''VAMOMINE_V'', ''VAMOMAXE_V'', ''VAMOMINUE_V'', ''VAMOMAXUE_V'', ''DRET'',
     ''MRET'', ''URET'', ''SRET'', ''WFI'', ''SFENCE_VMA'', ''INVALID_INSTR'']"

definition instr_name_members :: "riscv_instr_name_t list" where
  "instr_name_members =
     names_integer @ names_bitmanip64_mul_float @ names_compressed_atomic @ names_vector @ names_vector_rest"

section \<open>Control and status registers\<close>

type_synonym privileged_reg_t = string

definition csr_user_supervisor :: "(privileged_reg_t \<times> int) list" where
  "csr_user_supervisor =
    [(''USTATUS'', 0x0), (''UIE'', 0x4), (''UTVEC'', 0x5), (''USCRATCH'', 0x40),
     (''UEPC'', 0x41), (''UCAUSE'', 0x42), (''UTVAL'', 0x43), (''UIP'', 0x44), (''FFLAGS'', 0x1),
     (''FRM'', 0x2), (''FCSR'', 0x3), (''CYCLE'', 0xC00), (''TIME'', 0xC01),
     (''INSTRET'', 0xC02), (''HPMCOUNTER3'', 0xC03), (''HPMCOUNTER4'', 0xC04),
     (''HPMCOUNTER5'', 0xC05), (''HPMCOUNTER6'', 0xC06), (''HPMCOUNTER7'', 0xC07),
     (''HPMCOUNTER8'', 0xC08), (''HPMCOUNTER9'', 0xC09), (''HPMCOUNTER10'', 0xC0A),
     (''HPMCOUNTER11'', 0xC0B), (''HPMCOUNTER12'', 0xC0C), (''HPMCOUNTER13'', 0xC0D),
     (''HPMCOUNTER14'', 0xC0E), (''HPMCOUNTER15'', 0xC0F), (''HPMCOUNTER16'', 0xC10),
     (''HPMCOUNTER17'', 0xC11), (''HPMCOUNTER18'', 0xC12), (''HPMCOUNTER19'', 0xC13),
     (''HPMCOUNTER20'', 0xC14), (''HPMCOUNTER21'', 0xC15), (''HPMCOUNTER22'', 0xC16),
     (''HPMCOUNTER23'', 0xC17), (''HPMCOUNTER24'', 0xC18), (''HPMCOUNTER25'', 0xC19),
     (''HPMCOUNTER26'', 0xC1A), (''HPMCOUNTER27'', 0xC1B), (''HPMCOUNTER28'', 0xC1C),
     (''HPMCOUNTER29'', 0xC1D), (''HPMCOUNTER30'', 0xC1E), (''HPMCOUNTER31'', 0xC1F),
     (''CYCLEH'', 0xC80), (''TIMEH'', 0xC81), (''INSTRETH'', 0xC82), (''HPMCOUNTER3H'', 0xC83),
     (''HPMCOUNTER4H'', 0xC84), (''HPMCOUNTER5H'', 0xC85), (''HPMCOUNTER6H'', 0xC86),
     (''HPMCOUNTER7H'', 0xC87), (''HPMCOUNTER8H'', 0xC88), (''HPMCOUNTER9H'', 0xC89),
     (''HPMCOUNTER10H'', 0xC8A), (''HPMCOUNTER11H'', 0xC8B), (''HPMCOUNTER12H'', 0xC8C),
     (''HPMCOUNTER13H'', 0xC8D), (''HPMCOUNTER14H'', 0xC8E), (''HPMCOUNTER15H'', 0xC8F),
     (''HPMCOUNTER16H'', 0xC90), (''HPMCOUNTER17H'', 0xC91), (''HPMCOUNTER18H'', 0xC92),
     (''HPMCOUNTER19H'', 0xC93), (''HPMCOUNTER20H'', 0xC94), (''HPMCOUNTER21H'', 0xC95),
     (''HPMCOUNTER22H'', 0xC96), (''HPMCOUNTER23H'', 0xC97), (''HPMCOUNTER24H'', 0xC98),
     (''HPMCOUNTER25H'', 0xC99), (''HPMCOUNTER26H'', 0xC9A), (''HPMCOUNTER27H'', 0xC9B),
     (''HPMCOUNTER28H'', 0xC9C), (''HPMCOUNTER29H'', 0xC9D), (''HPMCOUNTER30H'', 0xC9E),
     (''HPMCOUNTER31H'', 0xC9F), (''SSTATUS'', 0x100), (''SEDELEG'', 0x102),
     (''SIDELEG'', 0x103), (''SIE'', 0x104), (''STVEC'', 0x105), (''SCOUNTEREN'', 0x106),
     (''SSCRATCH'', 0x140), (''SEPC'', 0x141), (''SCAUSE'', 0x142), (''STVAL'', 0x143),
     (''SIP'', 0x144), (''SATP'', 0x180), (''MVENDORID'', 0xF11), (''MARCHID'', 0xF12),
     (''MIMPID'', 0xF13), (''MHARTID'', 0xF14), (''MSTATUS'', 0x300), (''MISA'', 0x301),
     (''MEDELEG'', 0x302), (''MIDELEG'', 0x303), (''MIE'', 0x304)]"

definition csr_machine :: "(privileged_reg_t \<times> int) list" where
  "csr_machine =
    [(''MTVEC'', 0x305), (''MCOUNTEREN'', 0x306), (''MSCRATCH'', 0x340), (''MEPC'', 0x341),
     (''MCAUSE'', 0x342), (''MTVAL'', 0x343), (''MIP'', 0x344), (''MSECCFG'', 0x747),
     (''MSECCFGH'', 0x757), (''PMPCFG0'', 0x3A0), (''PMPCFG1'', 0x3A1), (''PMPCFG2'', 0x3A2),
     (''PMPCFG3'', 0x3A3), (''PMPADDR0'', 0x3B0), (''PMPADDR1'', 0x3B1), (''PMPADDR2'', 0x3B2),
     (''PMPADDR3'', 0x3B3), (''PMPADDR4'', 0x3B4), (''PMPADDR5'', 0x3B5), (''PMPADDR6'', 0x3B6),
     (''PMPADDR7'', 0x3B7), (''PMPADDR8'', 0x3B8), (''PMPADDR9'', 0x3B9), (''PMPADDR10'', 0x3BA),
     (''PMPADDR11'', 0x3BB), (''PMPADDR12'', 0x3BC), (''PMPADDR13'', 0x3BD),
     (''PMPADDR14'', 0x3BE), (''PMPADDR15'', 0x3BF), (''MCYCLE'', 0xB00), (''MINSTRET'', 0xB02),
     (''MHPMCOUNTER3'', 0xB03), (''MHPMCOUNTER4'', 0xB04), (''MHPMCOUNTER5'', 0xB05),
     (''MHPMCOUNTER6'', 0xB06), (''MHPMCOUNTER7'', 0xB07), (''MHPMCOUNTER8'', 0xB08),
     (''MHPMCOUNTER9'', 0xB09), (''MHPMCOUNTER10'', 0xB0A), (''MHPMCOUNTER11'', 0xB0B),
     (''MHPMCOUNTER12'', 0xB0C), (''MHPMCOUNTER13'', 0xB0D), (''MHPMCOUNTER14'', 0xB0E),
     (''MHPMCOUNTER15'', 0xB0F), (''MHPMCOUNTER16'', 0xB10), (''MHPMCOUNTER17'', 0xB11),
     (''MHPMCOUNTER18'', 0xB12), (''MHPMCOUNTER19'', 0xB13), (''MHPMCOUNTER20'', 0xB14),
     (''MHPMCOUNTER21'', 0xB15), (''MHPMCOUNTER22'', 0xB16), (''MHPMCOUNTER23'', 0xB17),
     (''MHPMCOUNTER24'', 0xB18), (''MHPMCOUNTER25'', 0xB19), (''MHPMCOUNTER26'', 0xB1A),
     (''MHPMCOUNTER27'', 0xB1B), (''MHPMCOUNTER28'', 0xB1C), (''MHPMCOUNTER29'', 0xB1D),
     (''MHPMCOUNTER30'', 0xB1E), (''MHPMCOUNTER31'', 0xB1F), (''MCYCLEH'', 0xB80),
     (''MINSTRETH'', 0xB82), (''MHPMCOUNTER3H'', 0xB83), (''MHPMCOUNTER4H'', 0xB84),
     (''MHPMCOUNTER5H'', 0xB85), (''MHPMCOUNTER6H'', 0xB86), (''MHPMCOUNTER7H'', 0xB87),
     (''MHPMCOUNTER8H'', 0xB88), (''MHPMCOUNTER9H'', 0xB89), (''MHPMCOUNTER10H'', 0xB8A),
     (''MHPMCOUNTER11H'', 0xB8B), (''MHPMCOUNTER12H'', 0xB8C), (''MHPMCOUNTER13H'', 0xB8D),
     (''MHPMCOUNTER14H'', 0xB8E), (''MHPMCOUNTER15H'', 0xB8F), (''MHPMCOUNTER16H'', 0xB8F),
     (''MHPMCOUNTER17H'', 0xB90), (''MHPMCOUNTER18H'', 0xB91), (''MHPMCOUNTER19H'', 0xB92),
     (''MHPMCOUNTER20H'', 0xB93), (''MHPMCOUNTER21H'', 0xB94), (''MHPMCOUNTER22H'', 0xB95),
     (''MHPMCOUNTER23H'', 0xB96), (''MHPMCOUNTER24H'', 0xB97), (''MHPMCOUNTER25H'', 0xB98),
     (''MHPMCOUNTER26H'', 0xB99), (''MHPMCOUNTER27H'', 0xB9A), (''MHPMCOUNTER28H'', 0xB9B),
     (''MHPMCOUNTER29H'', 0xB9C), (''MHPMCOUNTER30H'', 0xB9D), (''MHPMCOUNTER31H'', 0xB9E),
     (''MCOUNTINHIBIT'', 0x320F), (''MHPMEVENT3'', 0x323), (''MHPMEVENT4'', 0x324),
     (''MHPMEVENT5'', 0x325), (''MHPMEVENT6'', 0x326), (''MHPMEVENT7'', 0x327),
     (''MHPMEVENT8'', 0x328), (''MHPMEVENT9'', 0x329), (''MHPMEVENT10'', 0x32A),
     (''MHPMEVENT11'', 0x32B), (''MHPMEVENT12'', 0x32C), (''MHPMEVENT13'', 0x32D),
     (''MHPMEVENT14'', 0x32E), (''MHPMEVENT15'', 0x32F), (''MHPMEVENT16'', 0x330),
     (''MHPMEVENT17'', 0x331), (''MHPMEVENT18'', 0x332), (''MHPMEVENT19'', 0x333),
     (''MHPMEVENT20'', 0x334), (''MHPMEVENT21'', 0x335), (''MHPMEVENT22'', 0x336),
     (''MHPMEVENT23'', 0x337), (''MHPMEVENT24'', 0x338), (''MHPMEVENT25'', 0x339),
     (''MHPMEVENT26'', 0x33A), (''MHPMEVENT27'', 0x33B), (''MHPMEVENT28'', 0x33C),
     (''MHPMEVENT29'', 0x33D), (''MHPMEVENT30'', 0x33E), (''MHPMEVENT31'', 0x33F),
     (''TSELECT'', 0x7A0), (''TDATA1'', 0x7A1), (''TDATA2'', 0x7A2), (''TDATA3'', 0x7A3),
     (''TINFO'', 0x7A4), (''TCONTROL'', 0x7A5), (''MCONTEXT'', 0x7A8), (''SCONTEXT'', 0x7AA),
     (''DCSR'', 0x7B0), (''DPC'', 0x7B1), (''DSCRATCH0'', 0x7B2), (''DSCRATCH1'', 0x7B3),
     (''VSTART'', 0x8), (''VXSTAT'', 0x9), (''VXRM'', 0xA), (''VL'', 0xC20), (''VTYPE'', 0xC21),
     (''VLENB'', 0xC22)]"

definition csr_addr :: "privileged_reg_t \<Rightarrow> int" where
  "csr_addr r = (case map_of (csr_user_supervisor @ csr_machine) r of Some a \<Rightarrow> a | None \<Rightarrow> 0)"

end
