(* ===== verification/Pygen_Attrs.thy ===== *)
theory Pygen_Attrs
  imports Pygen_Enums
begin

text \<open>
  The two tables that say what an instruction is: the attribute dictionary of
  \<open>riscv_instr_pkg.get_attr_list\<close>, used by the coverage code, and the registrations of
  \<open>pygen_src/isa/rv*_instr.py\<close>, from which the generator builds its instruction objects.
\<close>

section \<open>The attribute dictionary\<close>

type_synonym attr_list =
  "riscv_instr_format_t \<times> riscv_instr_category_t \<times> riscv_instr_group_t \<times> imm_t option"

definition attrs_rv32i :: "(riscv_instr_name_t \<times> attr_list) list" where
  "attrs_rv32i =
    [(''LB'', I_FORMAT, LOAD, RV32I, None), (''LH'', I_FORMAT, LOAD, RV32I, None),
     (''LW'', I_FORMAT, LOAD, RV32I, None), (''LBU'', I_FORMAT, LOAD, RV32I, None),
     (''LHU'', I_FORMAT, LOAD, RV32I, None), (''SB'', S_FORMAT, STORE, RV32I, None),
     (''SH'', S_FORMAT, STORE, RV32I, None), (''SW'', S_FORMAT, STORE, RV32I, None),
     (''SLL'', R_FORMAT, SHIFT, RV32I, None), (''SLLI'', I_FORMAT, SHIFT, RV32I, None),
     (''SRL'', R_FORMAT, SHIFT, RV32I, None), (''SRLI'', I_FORMAT, SHIFT, RV32I, None),
     (''SRA'', R_FORMAT, SHIFT, RV32I, None), (''SRAI'', I_FORMAT, SHIFT, RV32I, None),
     (''ADD'', R_FORMAT, ARITHMETIC, RV32I, None), (''ADDI'', I_FORMAT, ARITHMETIC, RV32I, None),
     (''NOP'', I_FORMAT, ARITHMETIC, RV32I, None), (''SUB'', R_FORMAT, ARITHMETIC, RV32I, None),
     (''LUI'', U_FORMAT, ARITHMETIC, RV32I, Some UIMM),
     (''AUIPC'', U_FORMAT, ARITHMETIC, RV32I, Some UIMM),
     (''XOR'', R_FORMAT, LOGICAL, RV32I, None), (''XORI'', I_FORMAT, LOGICAL, RV32I, None),
     (''OR'', R_FORMAT, LOGICAL, RV32I, None), (''ORI'', I_FORMAT, LOGICAL, RV32I, None),
     (''AND'', R_FORMAT, LOGICAL, RV32I, None), (''ANDI'', I_FORMAT, LOGICAL, RV32I, None),
     (''SLT'', R_FORMAT, COMPARE, RV32I, None), (''SLTI'', I_FORMAT, COMPARE, RV32I, None),
     (''SLTU'', R_FORMAT, COMPARE, RV32I, None), (''SLTIU'', I_FORMAT, COMPARE, RV32I, None),
     (''BEQ'', B_FORMAT, BRANCH, RV32I, None), (''BNE'', B_FORMAT, BRANCH, RV32I, None),
     (''BLT'', B_FORMAT, BRANCH, RV32I, None), (''BGE'', B_FORMAT, BRANCH, RV32I, None),
     (''BLTU'', B_FORMAT, BRANCH, RV32I, None), (''BGEU'', B_FORMAT, BRANCH, RV32I, None),
     (''JAL'', J_FORMAT, JUMP, RV32I, None), (''JALR'', I_FORMAT, JUMP, RV32I, None),
     (''FENCE'', I_FORMAT, SYNCH, RV32I, None), (''FENCE_I'', I_FORMAT, SYNCH, RV32I, None),
     (''SFENCE_VMA'', R_FORMAT, SYNCH, RV32I, None), (''ECALL'', I_FORMAT, SYSTEM, RV32I, None),
     (''EBREAK'', I_FORMAT, SYSTEM, RV32I, None), (''URET'', I_FORMAT, SYSTEM, RV32I, None),
     (''SRET'', I_FORMAT, SYSTEM, RV32I, None), (''MRET'', I_FORMAT, SYSTEM, RV32I, None),
     (''DRET'', I_FORMAT, SYSTEM, RV32I, None), (''WFI'', I_FORMAT, INTERRUPT, RV32I, None),
     (''CSRRW'', R_FORMAT, CSR, RV32I, Some UIMM), (''CSRRS'', R_FORMAT, CSR, RV32I, Some UIMM),
     (''CSRRC'', R_FORMAT, CSR, RV32I, Some UIMM), (''CSRRWI'', I_FORMAT, CSR, RV32I, Some UIMM),
     (''CSRRSI'', I_FORMAT, CSR, RV32I, Some UIMM), (''CSRRCI'', I_FORMAT, CSR, RV32I, Some UIMM)]"

definition attrs_rv32m_rv32c :: "(riscv_instr_name_t \<times> attr_list) list" where
  "attrs_rv32m_rv32c =
    [(''MUL'', R_FORMAT, ARITHMETIC, RV32M, None), (''MULH'', R_FORMAT, ARITHMETIC, RV32M, None),
     (''MULHU'', R_FORMAT, ARITHMETIC, RV32M, None),
     (''MULHSU'', R_FORMAT, ARITHMETIC, RV32M, None),
     (''DIV'', R_FORMAT, ARITHMETIC, RV32M, None), (''DIVU'', R_FORMAT, ARITHMETIC, RV32M, None),
     (''REM'', R_FORMAT, ARITHMETIC, RV32M, None), (''REMU'', R_FORMAT, ARITHMETIC, RV32M, None),
     (''C_LW'', CL_FORMAT, LOAD, RV32C, Some UIMM),
     (''C_SW'', CS_FORMAT, STORE, RV32C, Some UIMM),
     (''C_LWSP'', CI_FORMAT, LOAD, RV32C, Some UIMM),
     (''C_SWSP'', CSS_FORMAT, STORE, RV32C, Some UIMM),
     (''C_ADDI4SPN'', CIW_FORMAT, ARITHMETIC, RV32C, Some NZUIMM),
     (''C_ADDI'', CI_FORMAT, ARITHMETIC, RV32C, Some NZIMM),
     (''C_ADDI16SP'', CI_FORMAT, ARITHMETIC, RV32C, Some NZIMM),
     (''C_LI'', CI_FORMAT, ARITHMETIC, RV32C, None),
     (''C_LUI'', CI_FORMAT, ARITHMETIC, RV32C, Some NZIMM),
     (''C_SUB'', CA_FORMAT, ARITHMETIC, RV32C, None),
     (''C_ADD'', CR_FORMAT, ARITHMETIC, RV32C, None),
     (''C_NOP'', CI_FORMAT, ARITHMETIC, RV32C, None),
     (''C_MV'', CR_FORMAT, ARITHMETIC, RV32C, None),
     (''C_ANDI'', CB_FORMAT, LOGICAL, RV32C, None), (''C_XOR'', CA_FORMAT, LOGICAL, RV32C, None),
     (''C_OR'', CA_FORMAT, LOGICAL, RV32C, None), (''C_AND'', CA_FORMAT, LOGICAL, RV32C, None),
     (''C_BEQZ'', CB_FORMAT, BRANCH, RV32C, None), (''C_BNEZ'', CB_FORMAT, BRANCH, RV32C, None),
     (''C_SRLI'', CB_FORMAT, SHIFT, RV32C, Some NZUIMM),
     (''C_SRAI'', CB_FORMAT, SHIFT, RV32C, Some NZUIMM),
     (''C_SLLI'', CI_FORMAT, SHIFT, RV32C, Some NZUIMM), (''C_J'', CJ_FORMAT, JUMP, RV32C, None),
     (''C_JAL'', CJ_FORMAT, JUMP, RV32C, None), (''C_JR'', CR_FORMAT, JUMP, RV32C, None),
     (''C_JALR'', CR_FORMAT, JUMP, RV32C, None), (''C_EBREAK'', CI_FORMAT, SYSTEM, RV32C, None)]"

definition attrs_rv32f :: "(riscv_instr_name_t \<times> attr_list) list" where
  "attrs_rv32f =
    [(''FLW'', I_FORMAT, LOAD, RV32F, None), (''FSW'', S_FORMAT, STORE, RV32F, None),
     (''FMADD_S'', R4_FORMAT, ARITHMETIC, RV32F, None),
     (''FMSUB_S'', R4_FORMAT, ARITHMETIC, RV32F, None),
     (''FNMSUB_S'', R4_FORMAT, ARITHMETIC, RV32F, None),
     (''FNMADD_S'', R4_FORMAT, ARITHMETIC, RV32F, None),
     (''FADD_S'', R_FORMAT, ARITHMETIC, RV32F, None),
     (''FSUB_S'', R_FORMAT, ARITHMETIC, RV32F, None),
     (''FMUL_S'', R_FORMAT, ARITHMETIC, RV32F, None),
     (''FDIV_S'', R_FORMAT, ARITHMETIC, RV32F, None),
     (''FSQRT_S'', I_FORMAT, ARITHMETIC, RV32F, None),
     (''FSGNJ_S'', R_FORMAT, ARITHMETIC, RV32F, None),
     (''FSGNJN_S'', R_FORMAT, ARITHMETIC, RV32F, None),
     (''FSGNJX_S'', R_FORMAT, ARITHMETIC, RV32F, None),
     (''FMIN_S'', R_FORMAT, ARITHMETIC, RV32F, None),
     (''FMAX_S'', R_FORMAT, ARITHMETIC, RV32F, None),
     (''FCVT_W_S'', I_FORMAT, ARITHMETIC, RV32F, None),
     (''FCVT_WU_S'', I_FORMAT, ARITHMETIC, RV32F, None),
     (''FMV_X_W'', I_FORMAT, ARITHMETIC, RV32F, None),
     (''FEQ_S'', R_FORMAT, COMPARE, RV32F, None), (''FLT_S'', R_FORMAT, COMPARE, RV32F, None),
     (''FLE_S'', R_FORMAT, COMPARE, RV32F, None),
     (''FCLASS_S'', R_FORMAT, ARITHMETIC, RV32F, None),
     (''FCVT_S_W'', I_FORMAT, ARITHMETIC, RV32F, None),
     (''FCVT_S_WU'', I_FORMAT, ARITHMETIC, RV32F, None),
     (''FMV_W_X'', I_FORMAT, ARITHMETIC, RV32F, None)]"

definition attrs_rv32d :: "(riscv_instr_name_t \<times> attr_list) list" where
  "attrs_rv32d =
    [(''FLD'', I_FORMAT, LOAD, RV32D, None), (''FSD'', I_FORMAT, LOAD, RV32D, None),
     (''FMADD_D'', R4_FORMAT, ARITHMETIC, RV32D, None),
     (''FMSUB_D'', R4_FORMAT, ARITHMETIC, RV32D, None),
     (''FNMSUB_D'', R4_FORMAT, ARITHMETIC, RV32D, None),
     (''FNMADD_D'', R4_FORMAT, ARITHMETIC, RV32D, None),
     (''FADD_D'', R_FORMAT, ARITHMETIC, RV32D, None),
     (''FSUB_D'', R_FORMAT, ARITHMETIC, RV32D, None),
     (''FMUL_D'', R_FORMAT, ARITHMETIC, RV32D, None),
     (''FDIV_D'', R_FORMAT, ARITHMETIC, RV32D, None),
     (''FSQRT_D'', I_FORMAT, ARITHMETIC, RV32D, None),
     (''FSGNJ_D'', R_FORMAT, ARITHMETIC, RV32D, None),
     (''FSGNJN_D'', R_FORMAT, ARITHMETIC, RV32D, None),
     (''FSGNJX_D'', R_FORMAT, ARITHMETIC, RV32D, None),
     (''FMIN_D'', R_FORMAT, ARITHMETIC, RV32D, None),
     (''FMAX_D'', R_FORMAT, ARITHMETIC, RV32D, None),
     (''FCVT_S_D'', I_FORMAT, ARITHMETIC, RV32D, None),
     (''FCVT_D_S'', I_FORMAT, ARITHMETIC, RV32D, None),
     (''FEQ_D'', R_FORMAT, COMPARE, RV32D, None), (''FLT_D'', R_FORMAT, COMPARE, RV32D, None),
     (''FLE_D'', R_FORMAT, COMPARE, RV32D, None),
     (''FCLASS_D'', R_FORMAT, ARITHMETIC, RV32D, None),
     (''FCVT_W_D'', I_FORMAT, ARITHMETIC, RV32D, None),
     (''FCVT_WU_D'', I_FORMAT, ARITHMETIC, RV32D, None),
     (''FCVT_D_W'', I_FORMAT, ARITHMETIC, RV32D, None),
     (''FCVT_D_WU'', I_FORMAT, ARITHMETIC, RV32D, None)]"

definition attrs_rv64 :: "(riscv_instr_name_t \<times> attr_list) list" where
  "attrs_rv64 =
    [(''LWU'', I_FORMAT, LOAD, RV64I, None), (''LD'', I_FORMAT, LOAD, RV64I, None),
     (''SD'', S_FORMAT, STORE, RV64I, None), (''SLLW'', R_FORMAT, SHIFT, RV64I, None),
     (''SLLIW'', I_FORMAT, SHIFT, RV64I, None), (''SRLW'', R_FORMAT, SHIFT, RV64I, None),
     (''SRLIW'', I_FORMAT, SHIFT, RV64I, None), (''SRAW'', R_FORMAT, SHIFT, RV64I, None),
     (''SRAIW'', I_FORMAT, SHIFT, RV64I, None), (''ADDW'', R_FORMAT, ARITHMETIC, RV64I, None),
     (''ADDIW'', I_FORMAT, ARITHMETIC, RV64I, None),
     (''SUBW'', R_FORMAT, ARITHMETIC, RV64I, None),
     (''MULW'', R_FORMAT, ARITHMETIC, RV64M, None),
     (''DIVW'', R_FORMAT, ARITHMETIC, RV64M, None),
     (''DIVUW'', R_FORMAT, ARITHMETIC, RV64M, None),
     (''REMW'', R_FORMAT, ARITHMETIC, RV64M, None),
     (''REMUW'', R_FORMAT, ARITHMETIC, RV64M, None),
     (''C_ADDIW'', CI_FORMAT, ARITHMETIC, RV64C, None),
     (''C_SUBW'', CA_FORMAT, ARITHMETIC, RV64C, None),
     (''C_ADDW'', CA_FORMAT, ARITHMETIC, RV64C, None),
     (''C_LD'', CL_FORMAT, LOAD, RV64C, Some UIMM),
     (''C_SD'', CS_FORMAT, STORE, RV64C, Some UIMM),
     (''C_LDSP'', CI_FORMAT, LOAD, RV64C, Some UIMM),
     (''C_SDSP'', CSS_FORMAT, STORE, RV64C, Some UIMM)]"

definition attr_switcher :: "(riscv_instr_name_t \<times> attr_list) list" where
  "attr_switcher = attrs_rv32i @ attrs_rv32m_rv32c @ attrs_rv32f @ attrs_rv32d @ attrs_rv64"

text \<open>The default of the lookup is the text \<open>Cannot find instruction\<close>: here \<open>None\<close>.\<close>

definition get_attr_list :: "riscv_instr_name_t \<Rightarrow> attr_list option" where
  "get_attr_list instr_name = map_of attr_switcher instr_name"

section \<open>The registrations\<close>

text \<open>Which of the functions of \<open>riscv_defines.py\<close> makes the class, that is, its base class.\<close>

datatype definer =
    DEFINE_INSTR | DEFINE_C_INSTR | DEFINE_FP_INSTR | DEFINE_FC_INSTR | DEFINE_B_INSTR | DEFINE_AMO_INSTR

record registration =
  reg_definer :: definer
  reg_instr :: riscv_instr_name_t
  reg_format :: riscv_instr_format_t
  reg_category :: riscv_instr_category_t
  reg_group :: riscv_instr_group_t
  reg_imm :: imm_t

definition mk_registration :: "definer \<Rightarrow> riscv_instr_name_t \<Rightarrow> riscv_instr_format_t \<Rightarrow>
    riscv_instr_category_t \<Rightarrow> riscv_instr_group_t \<Rightarrow> imm_t option \<Rightarrow> registration" where
  "mk_registration d n f c g i =
     \<lparr>reg_definer = d, reg_instr = n, reg_format = f, reg_category = c, reg_group = g,
      reg_imm = (case i of None \<Rightarrow> IMM | Some t \<Rightarrow> t)\<rparr>"

definition rv32i_instrs :: "registration list" where
  "rv32i_instrs = map (\<lambda>(n, f, c, g, i). mk_registration DEFINE_INSTR n f c g i)
    [(''LB'', I_FORMAT, LOAD, RV32I, None), (''LH'', I_FORMAT, LOAD, RV32I, None),
     (''LW'', I_FORMAT, LOAD, RV32I, None), (''LBU'', I_FORMAT, LOAD, RV32I, None),
     (''LHU'', I_FORMAT, LOAD, RV32I, None), (''SB'', S_FORMAT, STORE, RV32I, None),
     (''SH'', S_FORMAT, STORE, RV32I, None), (''SW'', S_FORMAT, STORE, RV32I, None),
     (''SLL'', R_FORMAT, SHIFT, RV32I, None), (''SLLI'', I_FORMAT, SHIFT, RV32I, None),
     (''SRL'', R_FORMAT, SHIFT, RV32I, None), (''SRLI'', I_FORMAT, SHIFT, RV32I, None),
     (''SRA'', R_FORMAT, SHIFT, RV32I, None), (''SRAI'', I_FORMAT, SHIFT, RV32I, None),
     (''ADD'', R_FORMAT, ARITHMETIC, RV32I, None), (''ADDI'', I_FORMAT, ARITHMETIC, RV32I, None),
     (''NOP'', I_FORMAT, ARITHMETIC, RV32I, None), (''SUB'', R_FORMAT, ARITHMETIC, RV32I, None),
     (''LUI'', U_FORMAT, ARITHMETIC, RV32I, Some UIMM),
     (''AUIPC'', U_FORMAT, ARITHMETIC, RV32I, Some UIMM),
     (''XOR'', R_FORMAT, LOGICAL, RV32I, None), (''XORI'', I_FORMAT, LOGICAL, RV32I, None),
     (''OR'', R_FORMAT, LOGICAL, RV32I, None), (''ORI'', I_FORMAT, LOGICAL, RV32I, None),
     (''AND'', R_FORMAT, LOGICAL, RV32I, None), (''ANDI'', I_FORMAT, LOGICAL, RV32I, None),
     (''SLT'', R_FORMAT, COMPARE, RV32I, None), (''SLTI'', I_FORMAT, COMPARE, RV32I, None),
     (''SLTU'', R_FORMAT, COMPARE, RV32I, None), (''SLTIU'', I_FORMAT, COMPARE, RV32I, None),
     (''BEQ'', B_FORMAT, BRANCH, RV32I, None), (''BNE'', B_FORMAT, BRANCH, RV32I, None),
     (''BLT'', B_FORMAT, BRANCH, RV32I, None), (''BGE'', B_FORMAT, BRANCH, RV32I, None),
     (''BLTU'', B_FORMAT, BRANCH, RV32I, None), (''BGEU'', B_FORMAT, BRANCH, RV32I, None),
     (''JAL'', J_FORMAT, JUMP, RV32I, None), (''JALR'', I_FORMAT, JUMP, RV32I, None),
     (''FENCE'', I_FORMAT, SYNCH, RV32I, None), (''FENCE_I'', I_FORMAT, SYNCH, RV32I, None),
     (''SFENCE_VMA'', R_FORMAT, SYNCH, RV32I, None), (''ECALL'', I_FORMAT, SYSTEM, RV32I, None),
     (''EBREAK'', I_FORMAT, SYSTEM, RV32I, None), (''URET'', I_FORMAT, SYSTEM, RV32I, None),
     (''SRET'', I_FORMAT, SYSTEM, RV32I, None), (''MRET'', I_FORMAT, SYSTEM, RV32I, None),
     (''DRET'', I_FORMAT, SYSTEM, RV32I, None), (''WFI'', I_FORMAT, INTERRUPT, RV32I, None),
     (''CSRRW'', R_FORMAT, CSR, RV32I, Some UIMM), (''CSRRS'', R_FORMAT, CSR, RV32I, Some UIMM),
     (''CSRRC'', R_FORMAT, CSR, RV32I, Some UIMM), (''CSRRWI'', I_FORMAT, CSR, RV32I, Some UIMM),
     (''CSRRSI'', I_FORMAT, CSR, RV32I, Some UIMM), (''CSRRCI'', I_FORMAT, CSR, RV32I, Some UIMM)]"

definition rv32m_instrs :: "registration list" where
  "rv32m_instrs = map (\<lambda>(n, f, c, g, i). mk_registration DEFINE_INSTR n f c g i)
    [(''MUL'', R_FORMAT, ARITHMETIC, RV32M, None), (''MULH'', R_FORMAT, ARITHMETIC, RV32M, None),
     (''MULHSU'', R_FORMAT, ARITHMETIC, RV32M, None),
     (''MULHU'', R_FORMAT, ARITHMETIC, RV32M, None),
     (''DIV'', R_FORMAT, ARITHMETIC, RV32M, None), (''DIVU'', R_FORMAT, ARITHMETIC, RV32M, None),
     (''REM'', R_FORMAT, ARITHMETIC, RV32M, None), (''REMU'', R_FORMAT, LOAD, RV32M, None)]"

definition rv32c_instrs :: "registration list" where
  "rv32c_instrs = map (\<lambda>(n, f, c, g, i). mk_registration DEFINE_C_INSTR n f c g i)
    [(''C_LW'', CL_FORMAT, LOAD, RV32C, Some UIMM),
     (''C_SW'', CS_FORMAT, STORE, RV32C, Some UIMM),
     (''C_LWSP'', CI_FORMAT, LOAD, RV32C, Some UIMM),
     (''C_SWSP'', CSS_FORMAT, STORE, RV32C, Some UIMM),
     (''C_ADDI4SPN'', CIW_FORMAT, ARITHMETIC, RV32C, Some NZUIMM),
     (''C_ADDI'', CI_FORMAT, ARITHMETIC, RV32C, Some NZIMM),
     (''C_ADDI16SP'', CI_FORMAT, ARITHMETIC, RV32C, Some NZIMM),
     (''C_LI'', CI_FORMAT, ARITHMETIC, RV32C, None),
     (''C_LUI'', CI_FORMAT, ARITHMETIC, RV32C, Some NZIMM),
     (''C_SUB'', CA_FORMAT, ARITHMETIC, RV32C, None),
     (''C_ADD'', CR_FORMAT, ARITHMETIC, RV32C, None),
     (''C_NOP'', CI_FORMAT, ARITHMETIC, RV32C, None),
     (''C_MV'', CR_FORMAT, ARITHMETIC, RV32C, None),
     (''C_ANDI'', CB_FORMAT, LOGICAL, RV32C, None), (''C_XOR'', CA_FORMAT, LOGICAL, RV32C, None),
     (''C_OR'', CA_FORMAT, LOGICAL, RV32C, None), (''C_AND'', CA_FORMAT, LOGICAL, RV32C, None),
     (''C_BEQZ'', CB_FORMAT, BRANCH, RV32C, None), (''C_BNEZ'', CB_FORMAT, BRANCH, RV32C, None),
     (''C_SRLI'', CB_FORMAT, SHIFT, RV32C, Some NZUIMM),
     (''C_SRAI'', CB_FORMAT, SHIFT, RV32C, Some NZUIMM),
     (''C_SLLI'', CI_FORMAT, SHIFT, RV32C, Some NZUIMM), (''C_J'', CJ_FORMAT, JUMP, RV32C, None),
     (''C_JAL'', CJ_FORMAT, JUMP, RV32C, None), (''C_JR'', CR_FORMAT, JUMP, RV32C, None),
     (''C_JALR'', CR_FORMAT, JUMP, RV32C, None), (''C_EBREAK'', CI_FORMAT, SYSTEM, RV32C, None)]"

definition rv32a_instrs :: "registration list" where
  "rv32a_instrs = map (\<lambda>(n, f, c, g, i). mk_registration DEFINE_AMO_INSTR n f c g i)
    [(''LR_W'', R_FORMAT, LOAD, RV32A, None), (''SC_W'', R_FORMAT, STORE, RV32A, None),
     (''AMOSWAP_W'', R_FORMAT, AMO, RV32A, None), (''AMOADD_W'', R_FORMAT, AMO, RV32A, None),
     (''AMOAND_W'', R_FORMAT, AMO, RV32A, None), (''AMOOR_W'', R_FORMAT, AMO, RV32A, None),
     (''AMOXOR_W'', R_FORMAT, AMO, RV32A, None), (''AMOMIN_W'', R_FORMAT, AMO, RV32A, None),
     (''AMOMAX_W'', R_FORMAT, AMO, RV32A, None), (''AMOMINU_W'', R_FORMAT, AMO, RV32A, None),
     (''AMOMAXU_W'', R_FORMAT, AMO, RV32A, None)]"

definition rv32f_instrs :: "registration list" where
  "rv32f_instrs = map (\<lambda>(n, f, c, g, i). mk_registration DEFINE_FP_INSTR n f c g i)
    [(''FLW'', I_FORMAT, LOAD, RV32F, None), (''FSW'', S_FORMAT, STORE, RV32F, None),
     (''FMADD_S'', R4_FORMAT, ARITHMETIC, RV32F, None),
     (''FMSUB_S'', R4_FORMAT, ARITHMETIC, RV32F, None),
     (''FNMSUB_S'', R4_FORMAT, ARITHMETIC, RV32F, None),
     (''FNMADD_S'', R4_FORMAT, ARITHMETIC, RV32F, None),
     (''FADD_S'', R_FORMAT, ARITHMETIC, RV32F, None),
     (''FSUB_S'', R_FORMAT, ARITHMETIC, RV32F, None),
     (''FMUL_S'', R_FORMAT, ARITHMETIC, RV32F, None),
     (''FDIV_S'', R_FORMAT, ARITHMETIC, RV32F, None),
     (''FSQRT_S'', I_FORMAT, ARITHMETIC, RV32F, None),
     (''FSGNJ_S'', R_FORMAT, ARITHMETIC, RV32F, None),
     (''FSGNJN_S'', R_FORMAT, ARITHMETIC, RV32F, None),
     (''FSGNJX_S'', R_FORMAT, ARITHMETIC, RV32F, None),
     (''FMIN_S'', R_FORMAT, ARITHMETIC, RV32F, None),
     (''FMAX_S'', R_FORMAT, ARITHMETIC, RV32F, None),
     (''FCVT_W_S'', I_FORMAT, ARITHMETIC, RV32F, None),
     (''FCVT_WU_S'', I_FORMAT, ARITHMETIC, RV32F, None),
     (''FMV_X_W'', I_FORMAT, ARITHMETIC, RV32F, None),
     (''FEQ_S'', R_FORMAT, COMPARE, RV32F, None), (''FLT_S'', R_FORMAT, COMPARE, RV32F, None),
     (''FLE_S'', R_FORMAT, COMPARE, RV32F, None),
     (''FCLASS_S'', R_FORMAT, ARITHMETIC, RV32F, None),
     (''FCVT_S_W'', I_FORMAT, ARITHMETIC, RV32F, None),
     (''FCVT_S_WU'', I_FORMAT, ARITHMETIC, RV32F, None),
     (''FMV_W_X'', I_FORMAT, ARITHMETIC, RV32F, None)]"

definition rv32fc_instrs :: "registration list" where
  "rv32fc_instrs = map (\<lambda>(n, f, c, g, i). mk_registration DEFINE_FC_INSTR n f c g i)
    [(''C_FLW'', CL_FORMAT, LOAD, RV32FC, Some UIMM),
     (''C_FSW'', CS_FORMAT, STORE, RV32FC, Some UIMM),
     (''C_FLWSP'', CI_FORMAT, LOAD, RV32FC, Some UIMM),
     (''C_FSWSP'', CSS_FORMAT, STORE, RV32FC, Some UIMM)]"

definition rv32d_instrs :: "registration list" where
  "rv32d_instrs = map (\<lambda>(n, f, c, g, i). mk_registration DEFINE_FP_INSTR n f c g i)
    [(''FLD'', I_FORMAT, LOAD, RV32D, None), (''FSD'', S_FORMAT, STORE, RV32D, None),
     (''FMADD_D'', R4_FORMAT, ARITHMETIC, RV32D, None),
     (''FMSUB_D'', R4_FORMAT, ARITHMETIC, RV32D, None),
     (''FNMSUB_D'', R4_FORMAT, ARITHMETIC, RV32D, None),
     (''FNMADD_D'', R4_FORMAT, ARITHMETIC, RV32D, None),
     (''FADD_D'', R_FORMAT, ARITHMETIC, RV32D, None),
     (''FSUB_D'', R_FORMAT, ARITHMETIC, RV32D, None),
     (''FMUL_D'', R_FORMAT, ARITHMETIC, RV32D, None),
     (''FDIV_D'', R_FORMAT, ARITHMETIC, RV32D, None),
     (''FSQRT_D'', I_FORMAT, ARITHMETIC, RV32D, None),
     (''FSGNJ_D'', R_FORMAT, ARITHMETIC, RV32D, None),
     (''FSGNJN_D'', R_FORMAT, ARITHMETIC, RV32D, None),
     (''FSGNJX_D'', R_FORMAT, ARITHMETIC, RV32D, None),
     (''FMIN_D'', R_FORMAT, ARITHMETIC, RV32D, None),
     (''FMAX_D'', R_FORMAT, ARITHMETIC, RV32D, None),
     (''FCVT_S_D'', I_FORMAT, ARITHMETIC, RV32D, None),
     (''FCVT_D_S'', I_FORMAT, ARITHMETIC, RV32D, None),
     (''FEQ_D'', R_FORMAT, COMPARE, RV32D, None), (''FLT_D'', R_FORMAT, COMPARE, RV32D, None),
     (''FLE_D'', R_FORMAT, COMPARE, RV32D, None),
     (''FCLASS_D'', R_FORMAT, ARITHMETIC, RV32D, None),
     (''FCVT_W_D'', I_FORMAT, ARITHMETIC, RV32D, None),
     (''FCVT_WU_D'', I_FORMAT, ARITHMETIC, RV32D, None),
     (''FCVT_D_W'', I_FORMAT, ARITHMETIC, RV32D, None),
     (''FCVT_D_WU'', I_FORMAT, ARITHMETIC, RV32D, None)]"

definition rv32dc_instrs :: "registration list" where
  "rv32dc_instrs = map (\<lambda>(n, f, c, g, i). mk_registration DEFINE_FC_INSTR n f c g i)
    [(''C_FLD'', CL_FORMAT, LOAD, RV32DC, Some UIMM),
     (''C_FSD'', CS_FORMAT, STORE, RV32DC, Some UIMM),
     (''C_FLDSP'', CI_FORMAT, LOAD, RV32DC, Some UIMM),
     (''C_FSDSP'', CSS_FORMAT, STORE, RV32DC, Some UIMM)]"

definition rv32b_instrs :: "registration list" where
  "rv32b_instrs = map (\<lambda>(n, f, c, g, i). mk_registration DEFINE_B_INSTR n f c g i)
    [(''SEXT_B'', R_FORMAT, LOGICAL, RV32B, None), (''SEXT_H'', R_FORMAT, LOGICAL, RV32B, None),
     (''ANDN'', R_FORMAT, LOGICAL, RV32B, None), (''ORN'', R_FORMAT, LOGICAL, RV32B, None),
     (''XNOR'', R_FORMAT, LOGICAL, RV32B, None), (''GORC'', R_FORMAT, LOGICAL, RV32B, None),
     (''GORCI'', I_FORMAT, LOGICAL, RV32B, Some UIMM),
     (''CMIX'', R4_FORMAT, LOGICAL, RV32B, None), (''CMOV'', R4_FORMAT, LOGICAL, RV32B, None),
     (''PACK'', R_FORMAT, LOGICAL, RV32B, None), (''PACKU'', R_FORMAT, LOGICAL, RV32B, None),
     (''PACKH'', R_FORMAT, LOGICAL, RV32B, None), (''SLO'', R_FORMAT, SHIFT, RV32B, None),
     (''SRO'', R_FORMAT, SHIFT, RV32B, None), (''ROL'', R_FORMAT, SHIFT, RV32B, None),
     (''ROR'', R_FORMAT, SHIFT, RV32B, None), (''SBCLR'', R_FORMAT, SHIFT, RV32B, None),
     (''SBSET'', R_FORMAT, SHIFT, RV32B, None), (''SBINV'', R_FORMAT, SHIFT, RV32B, None),
     (''SBEXT'', R_FORMAT, SHIFT, RV32B, None), (''GREV'', R_FORMAT, SHIFT, RV32B, None),
     (''GREVI'', I_FORMAT, SHIFT, RV32B, Some UIMM),
     (''SLOI'', I_FORMAT, SHIFT, RV32B, Some UIMM),
     (''SROI'', I_FORMAT, SHIFT, RV32B, Some UIMM),
     (''RORI'', I_FORMAT, SHIFT, RV32B, Some UIMM),
     (''SBCLRI'', I_FORMAT, SHIFT, RV32B, Some UIMM),
     (''SBSETI'', I_FORMAT, SHIFT, RV32B, Some UIMM),
     (''SBINVI'', I_FORMAT, SHIFT, RV32B, Some UIMM),
     (''SBEXTI'', I_FORMAT, SHIFT, RV32B, Some UIMM), (''FSL'', R4_FORMAT, SHIFT, RV32B, None),
     (''FSR'', R4_FORMAT, SHIFT, RV32B, None), (''FSRI'', I_FORMAT, SHIFT, RV32B, Some UIMM),
     (''CLZ'', R_FORMAT, ARITHMETIC, RV32B, None), (''CTZ'', R_FORMAT, ARITHMETIC, RV32B, None),
     (''PCNT'', R_FORMAT, ARITHMETIC, RV32B, None),
     (''CRC32_B'', R_FORMAT, ARITHMETIC, RV32B, None),
     (''CRC32_H'', R_FORMAT, ARITHMETIC, RV32B, None),
     (''CRC32_W'', R_FORMAT, ARITHMETIC, RV32B, None),
     (''CRC32C_B'', R_FORMAT, ARITHMETIC, RV32B, None),
     (''CRC32C_H'', R_FORMAT, ARITHMETIC, RV32B, None),
     (''CRC32C_W'', R_FORMAT, ARITHMETIC, RV32B, None),
     (''CLMUL'', R_FORMAT, ARITHMETIC, RV32B, None),
     (''CLMULR'', R_FORMAT, ARITHMETIC, RV32B, None),
     (''CLMULH'', R_FORMAT, ARITHMETIC, RV32B, None),
     (''MIN'', R_FORMAT, ARITHMETIC, RV32B, None), (''MAX'', R_FORMAT, ARITHMETIC, RV32B, None),
     (''MINU'', R_FORMAT, ARITHMETIC, RV32B, None),
     (''MAXU'', R_FORMAT, ARITHMETIC, RV32B, None),
     (''SHFL'', R_FORMAT, ARITHMETIC, RV32B, None),
     (''UNSHFL'', R_FORMAT, ARITHMETIC, RV32B, None),
     (''BDEP'', R_FORMAT, ARITHMETIC, RV32B, None),
     (''BEXT'', R_FORMAT, ARITHMETIC, RV32B, None), (''BFP'', R_FORMAT, ARITHMETIC, RV32B, None),
     (''SHFLI'', I_FORMAT, ARITHMETIC, RV32B, Some UIMM),
     (''UNSHFLI'', I_FORMAT, ARITHMETIC, RV32B, Some UIMM)]"

definition rv64i_instrs :: "registration list" where
  "rv64i_instrs = map (\<lambda>(n, f, c, g, i). mk_registration DEFINE_INSTR n f c g i)
    [(''LWU'', I_FORMAT, LOAD, RV64I, None), (''LD'', I_FORMAT, LOAD, RV64I, None),
     (''SD'', S_FORMAT, STORE, RV64I, None), (''SLLW'', R_FORMAT, SHIFT, RV64I, None),
     (''SLLIW'', I_FORMAT, SHIFT, RV64I, None), (''SRLW'', R_FORMAT, SHIFT, RV64I, None),
     (''SRLIW'', I_FORMAT, SHIFT, RV64I, None), (''SRAW'', R_FORMAT, SHIFT, RV64I, None),
     (''SRAIW'', I_FORMAT, SHIFT, RV64I, None), (''ADDW'', R_FORMAT, ARITHMETIC, RV64I, None),
     (''ADDIW'', I_FORMAT, ARITHMETIC, RV64I, None),
     (''SUBW'', R_FORMAT, ARITHMETIC, RV64I, None)]"

definition rv64m_instrs :: "registration list" where
  "rv64m_instrs = map (\<lambda>(n, f, c, g, i). mk_registration DEFINE_INSTR n f c g i)
    [(''MULW'', R_FORMAT, ARITHMETIC, RV64M, None),
     (''DIVW'', R_FORMAT, ARITHMETIC, RV64M, None),
     (''DIVUW'', R_FORMAT, ARITHMETIC, RV64M, None),
     (''REMW'', R_FORMAT, ARITHMETIC, RV64M, None),
     (''REMUW'', R_FORMAT, ARITHMETIC, RV64M, None)]"

definition rv64c_instrs :: "registration list" where
  "rv64c_instrs = map (\<lambda>(n, f, c, g, i). mk_registration DEFINE_C_INSTR n f c g i)
    [(''C_ADDIW'', CI_FORMAT, ARITHMETIC, RV64C, None),
     (''C_SUBW'', CA_FORMAT, ARITHMETIC, RV64C, None),
     (''C_ADDW'', CA_FORMAT, ARITHMETIC, RV64C, None), (''C_LD'', CL_FORMAT, LOAD, RV64C, None),
     (''C_SD'', CS_FORMAT, STORE, RV64C, None), (''C_LDSP'', CI_FORMAT, LOAD, RV64C, None),
     (''C_SDSP'', CSS_FORMAT, STORE, RV64C, None)]"

definition rv64a_instrs :: "registration list" where
  "rv64a_instrs = map (\<lambda>(n, f, c, g, i). mk_registration DEFINE_AMO_INSTR n f c g i)
    [(''LR_D'', R_FORMAT, LOAD, RV64A, None), (''SC_D'', R_FORMAT, STORE, RV64A, None),
     (''AMOSWAP_D'', R_FORMAT, AMO, RV64A, None), (''AMOADD_D'', R_FORMAT, AMO, RV64A, None),
     (''AMOAND_D'', R_FORMAT, AMO, RV64A, None), (''AMOOR_D'', R_FORMAT, AMO, RV64A, None),
     (''AMOXOR_D'', R_FORMAT, AMO, RV64A, None), (''AMOMIN_D'', R_FORMAT, AMO, RV64A, None),
     (''AMOMAX_D'', R_FORMAT, AMO, RV64A, None), (''AMOMINU_D'', R_FORMAT, AMO, RV64A, None),
     (''AMOMAXU_D'', R_FORMAT, AMO, RV64A, None)]"

definition rv64f_instrs :: "registration list" where
  "rv64f_instrs = map (\<lambda>(n, f, c, g, i). mk_registration DEFINE_FP_INSTR n f c g i)
    [(''FCVT_L_S'', I_FORMAT, ARITHMETIC, RV64F, None),
     (''FCVT_LU_S'', I_FORMAT, ARITHMETIC, RV64F, None),
     (''FCVT_S_L'', I_FORMAT, ARITHMETIC, RV64F, None),
     (''FCVT_S_LU'', I_FORMAT, ARITHMETIC, RV64F, None)]"

definition rv64d_instrs :: "registration list" where
  "rv64d_instrs = map (\<lambda>(n, f, c, g, i). mk_registration DEFINE_FP_INSTR n f c g i)
    [(''FMV_X_D'', I_FORMAT, ARITHMETIC, RV64D, None),
     (''FMV_D_X'', I_FORMAT, ARITHMETIC, RV64D, None),
     (''FCVT_L_D'', I_FORMAT, ARITHMETIC, RV64D, None),
     (''FCVT_LU_D'', I_FORMAT, ARITHMETIC, RV64D, None),
     (''FCVT_D_L'', I_FORMAT, ARITHMETIC, RV64D, None),
     (''FCVT_D_LU'', I_FORMAT, ARITHMETIC, RV64D, None)]"

text \<open>The registrations of a list of loaded modules, in the order of loading.\<close>

definition instr_registry :: "registration list" where
  "instr_registry =
     rv32i_instrs @ rv32m_instrs @ rv32c_instrs @ rv32a_instrs @ rv32f_instrs @ rv32fc_instrs @
     rv32d_instrs @ rv32dc_instrs @ rv32b_instrs @ rv64i_instrs @ rv64m_instrs @ rv64c_instrs @
     rv64a_instrs @ rv64f_instrs @ rv64d_instrs"

end
