(* ===== verification/Pygen_Instr.thy ===== *)
theory Pygen_Instr
  imports Pygen_Attrs
begin

text \<open>
  The instruction objects of the random instruction generator: \<open>pygen_src/isa/riscv_instr.py\<close> and
  its subclasses for compressed, floating-point, bit-manipulation and atomic instructions. An object is
  a record; its class is the function of \<open>riscv_defines.py\<close> that made it, and a method that a
  subclass overrides is a case distinction on the class. The operands are chosen by the constraint
  solver, a library outside the repository: they are fields of the record with any value. The fields
  that are Python ints used as flags are booleans.
\<close>

section \<open>Helpers of riscv_instr_pkg\<close>

definition MAX_INSTR_STR_LEN :: nat where "MAX_INSTR_STR_LEN = 11"
definition LABEL_STR_LEN :: nat where "LABEL_STR_LEN = 18"

text \<open>Pads with blanks up to a length; a longer text is returned as it is.\<close>

definition format_string :: "string \<Rightarrow> nat \<Rightarrow> string" where
  "format_string s len =
     (if len < length s then s else s @ take (len - length s) (replicate len (CHR '' '')))"

text \<open>The part of the core settings (\<open>target/*/riscv_core_setting.py\<close>) that is used.\<close>

record core_setting =
  cs_XLEN :: nat
  cs_NUM_HARTS :: nat
  cs_SATP_MODE :: satp_mode_t
  cs_implemented_csr :: "privileged_reg_t list"
  cs_supported_isa :: "riscv_instr_group_t list"
  cs_unsupported_instr :: "riscv_instr_name_t list"
  cs_support_pmp :: bool

definition hart_prefix :: "core_setting \<Rightarrow> nat \<Rightarrow> string" where
  "hart_prefix rcs hart = (if cs_NUM_HARTS rcs \<le> 1 then '''' else ''h'' @ show_nat hart @ ''_'')"

definition get_label :: "core_setting \<Rightarrow> string \<Rightarrow> nat \<Rightarrow> string" where
  "get_label rcs label hart = hart_prefix rcs hart @ label"

section \<open>The object\<close>

record instr =
  in_class :: definer
  in_name :: riscv_instr_name_t
  in_format :: riscv_instr_format_t
  in_category :: riscv_instr_category_t
  in_group :: riscv_instr_group_t
  in_imm_type :: imm_t
  in_imm_len :: nat
  in_imm_mask :: int
  in_imm_align :: nat
  in_csr :: int
  in_rs1 :: riscv_reg_t
  in_rs2 :: riscv_reg_t
  in_rs3 :: riscv_reg_t
  in_rd :: riscv_reg_t
  in_fs1 :: riscv_fpr_t
  in_fs2 :: riscv_fpr_t
  in_fs3 :: riscv_fpr_t
  in_fd :: riscv_fpr_t
  in_imm :: int
  in_aq :: bool
  in_rl :: bool
  has_rs1 :: bool
  has_rs2 :: bool
  has_rs3 :: bool
  has_rd :: bool
  has_imm :: bool
  has_fs1 :: bool
  has_fs2 :: bool
  has_fs3 :: bool
  has_fd :: bool
  in_is_compressed :: bool
  in_imm_str :: "string option"
  in_comment :: string
  in_label :: string
  in_has_label :: bool
  in_atomic :: bool
  in_branch_assigned :: bool
  in_is_branch_target :: bool
  in_is_illegal_instr :: "int option"
  in_is_hint_instr :: "int option"
  in_is_local_numeric_label :: bool
  in_idx :: int

text \<open>The 32-bit mask \<open>shift_t\<close>, and \<open>mask\<close>, the width.\<close>

definition shift_t :: int where "shift_t = 0xFFFFFFFF"
definition mask_width :: nat where "mask_width = 32"

text \<open>
  \<open>riscv_instr.__init__\<close> and the constructors of the subclasses. The operands have the values the
  solver gives them; only a compressed instruction starts from \<open>S0\<close>.
\<close>

record operands =
  op_csr :: int
  op_rs1 :: riscv_reg_t
  op_rs2 :: riscv_reg_t
  op_rs3 :: riscv_reg_t
  op_rd :: riscv_reg_t
  op_fs1 :: riscv_fpr_t
  op_fs2 :: riscv_fpr_t
  op_fs3 :: riscv_fpr_t
  op_fd :: riscv_fpr_t
  op_imm :: int
  op_aq :: bool
  op_rl :: bool

definition is_c_class :: "definer \<Rightarrow> bool" where
  "is_c_class d \<longleftrightarrow> d = DEFINE_C_INSTR \<or> d = DEFINE_FC_INSTR"

definition init_instr :: "operands \<Rightarrow> registration \<Rightarrow> instr" where
  "init_instr ops r =
     (let c = is_c_class (reg_definer r); fp = (reg_definer r = DEFINE_FP_INSTR)
      in \<lparr>in_class = reg_definer r, in_name = reg_instr r, in_format = reg_format r,
          in_category = reg_category r, in_group = reg_group r, in_imm_type = reg_imm r,
          in_imm_len = 0, in_imm_mask = 0xFFFFFFFF, in_imm_align = 0, in_csr = op_csr ops,
          in_rs1 = (if c then S0 else op_rs1 ops), in_rs2 = (if c then S0 else op_rs2 ops),
          in_rs3 = op_rs3 ops, in_rd = (if c then S0 else op_rd ops),
          in_fs1 = op_fs1 ops, in_fs2 = op_fs2 ops, in_fs3 = op_fs3 ops, in_fd = op_fd ops,
          in_imm = op_imm ops, in_aq = op_aq ops, in_rl = op_rl ops,
          has_rs1 = True, has_rs2 = True, has_rs3 = False, has_rd = True, has_imm = True,
          has_fs1 = fp, has_fs2 = fp, has_fs3 = False, has_fd = fp, in_is_compressed = c,
          in_imm_str = None, in_comment = [], in_label = [], in_has_label = True,
          in_atomic = False, in_branch_assigned = False, in_is_branch_target = False,
          in_is_illegal_instr = None, in_is_hint_instr = None, in_is_local_numeric_label = False, in_idx = - 1\<rparr>)"

section \<open>Which operands an instruction has\<close>

subsection \<open>The base class\<close>

definition base_rand_format :: "instr \<Rightarrow> instr" where
  "base_rand_format i =
     (if in_format i = R_FORMAT then i\<lparr>has_imm := False\<rparr>
      else if in_format i = I_FORMAT then i\<lparr>has_rs2 := False\<rparr>
      else if in_format i \<in> {S_FORMAT, B_FORMAT} then i\<lparr>has_rd := False\<rparr>
      else if in_format i \<in> {U_FORMAT, J_FORMAT} then i\<lparr>has_rs1 := False, has_rs2 := False\<rparr>
      else i)"

definition base_set_rand_mode :: "instr \<Rightarrow> instr" where
  "base_set_rand_mode i =
     (let j = base_rand_format i
      in if in_category i = CSR
         then (if in_format i = I_FORMAT then j\<lparr>has_rs2 := False, has_rs1 := False\<rparr>
               else j\<lparr>has_rs2 := False\<rparr>)
         else j)"

subsection \<open>Compressed instructions\<close>

definition c_set_rand_mode :: "instr \<Rightarrow> instr" where
  "c_set_rand_mode i =
     (if in_format i = CR_FORMAT
      then (if in_category i = JUMP then i\<lparr>has_rd := False, has_imm := False\<rparr>
            else i\<lparr>has_rs1 := False, has_imm := False\<rparr>)
      else if in_format i \<in> {CI_FORMAT, CIW_FORMAT} then i\<lparr>has_rs2 := False, has_rs1 := False\<rparr>
      else if in_format i = CSS_FORMAT then i\<lparr>has_rs1 := False, has_rd := False\<rparr>
      else if in_format i = CL_FORMAT then i\<lparr>has_rs2 := False\<rparr>
      else if in_format i = CS_FORMAT then i\<lparr>has_rd := False\<rparr>
      else if in_format i = CA_FORMAT then i\<lparr>has_rs1 := False, has_imm := False\<rparr>
      else if in_format i = CJ_FORMAT then i\<lparr>has_rs1 := False, has_rs2 := False, has_rd := False\<rparr>
      else if in_format i = CB_FORMAT
      then (if in_name i \<noteq> ''C_ANDI'' then i\<lparr>has_rd := False, has_rs2 := False\<rparr>
            else i\<lparr>has_rs2 := False\<rparr>)
      else i)"

subsection \<open>Floating-point instructions\<close>

definition fp_to_int :: "riscv_instr_name_t list" where
  "fp_to_int = [''FMV_X_W'', ''FMV_X_D'', ''FCVT_W_S'', ''FCVT_WU_S'', ''FCVT_L_S'', ''FCVT_LU_S'',
     ''FCVT_L_D'', ''FCVT_LU_D'', ''FCVT_W_D'', ''FCVT_WU_D'']"

definition int_to_fp :: "riscv_instr_name_t list" where
  "int_to_fp = [''FMV_W_X'', ''FMV_D_X'', ''FCVT_S_W'', ''FCVT_S_WU'', ''FCVT_S_L'', ''FCVT_D_L'',
     ''FCVT_S_LU'', ''FCVT_D_W'', ''FCVT_D_LU'', ''FCVT_D_WU'']"

definition fclass_names :: "riscv_instr_name_t list" where
  "fclass_names = [''FCLASS_S'', ''FCLASS_D'']"

text \<open>The code assigns 0 to the register \<open>rd\<close>, not to \<open>has_rd\<close>.\<close>

definition fp_set_rand_mode :: "instr \<Rightarrow> instr" where
  "fp_set_rand_mode i0 =
     (let i = i0\<lparr>has_rs1 := False, has_rs2 := False, in_rd := ZERO, has_imm := False\<rparr>
      in if in_format i = I_FORMAT
      then (if in_category i = LOAD then i\<lparr>has_fs2 := False, has_imm := True\<rparr>
            else if in_name i \<in> set fp_to_int then i\<lparr>has_fs2 := False, has_fd := False, has_rd := True\<rparr>
            else if in_name i \<in> set int_to_fp then i\<lparr>has_fs2 := False, has_rs1 := True, has_fs1 := False\<rparr>
            else i\<lparr>has_fs2 := False\<rparr>)
      else if in_format i = S_FORMAT
      then i\<lparr>has_imm := True, has_rs1 := True, has_fs1 := False, has_fs3 := False\<rparr>
      else if in_format i = R_FORMAT
      then (if in_category i = COMPARE then i\<lparr>has_rd := True, has_fd := False\<rparr>
            else if in_name i \<in> set fclass_names
            then i\<lparr>has_rd := True, has_fd := False, has_fs2 := False\<rparr>
            else i)
      else if in_format i = R4_FORMAT then i\<lparr>has_fs3 := True\<rparr>
      else if in_format i = CL_FORMAT
      then i\<lparr>has_imm := True, has_rs1 := True, has_fs1 := False, has_fs2 := False\<rparr>
      else if in_format i = CS_FORMAT
      then i\<lparr>has_imm := True, has_rs1 := True, has_fs1 := False, has_fd := False\<rparr>
      else i)"

subsection \<open>Bit-manipulation instructions\<close>

definition b_unary :: "riscv_instr_name_t list" where
  "b_unary = [''CLZW'', ''CTZW'', ''PCNTW'', ''SEXT_B'', ''SEXT_H'', ''CLZ'', ''CTZ'', ''PCNT'',
     ''BMATFLIP'', ''CRC32_B'', ''CRC32_H'', ''CRC32_W'', ''CRC32C_B'', ''CRC32C_H'', ''CRC32C_W'',
     ''CRC32_D'', ''CRC32C_D'']"

definition b_set_rand_mode :: "instr \<Rightarrow> instr" where
  "b_set_rand_mode i0 =
     (let i = (base_set_rand_mode i0)\<lparr>has_rs3 := False\<rparr>
      in if in_format i = R_FORMAT
      then (if in_name i \<in> set b_unary then i\<lparr>has_rs2 := False\<rparr> else i)
      else if in_format i = R4_FORMAT then i\<lparr>has_imm := False, has_rs3 := True\<rparr>
      else if in_format i = I_FORMAT
      then (if in_name i \<in> {''FSRI'', ''FSRIW''} then i\<lparr>has_rs2 := False, has_rs3 := True\<rparr>
            else i\<lparr>has_rs2 := False\<rparr>)
      else i)"

definition set_rand_mode :: "instr \<Rightarrow> instr" where
  "set_rand_mode i =
     (case in_class i of
        DEFINE_C_INSTR \<Rightarrow> c_set_rand_mode i
      | DEFINE_FC_INSTR \<Rightarrow> c_set_rand_mode i
      | DEFINE_FP_INSTR \<Rightarrow> fp_set_rand_mode i
      | DEFINE_B_INSTR \<Rightarrow> b_set_rand_mode i
      | _ \<Rightarrow> base_set_rand_mode i)"

section \<open>Immediates\<close>

definition base_set_imm_len :: "instr \<Rightarrow> instr" where
  "base_set_imm_len i =
     (let len = (if in_format i \<in> {U_FORMAT, J_FORMAT} then 20
                 else if in_format i \<in> {I_FORMAT, S_FORMAT, B_FORMAT}
                 then (if in_imm_type i = UIMM then 5 else 12)
                 else in_imm_len i)
      in i\<lparr>in_imm_len := len, in_imm_mask := push_bit len (in_imm_mask i) AND shift_t\<rparr>)"

definition c_imm_len :: "instr \<Rightarrow> nat" where
  "c_imm_len i =
     (if in_format i \<in> {CI_FORMAT, CSS_FORMAT} then 6
      else if in_format i \<in> {CL_FORMAT, CS_FORMAT} then 5
      else if in_format i = CJ_FORMAT then 11
      else if in_format i = CB_FORMAT then (if in_name i = ''C_ANDI'' then 6 else 7)
      else if in_format i = CIW_FORMAT then 8
      else in_imm_len i)"

definition c_imm_align :: "instr \<Rightarrow> nat" where
  "c_imm_align i =
     (if in_name i \<in> {''C_SQ'', ''C_LQ'', ''C_LQSP'', ''C_SQSP'', ''C_ADDI16SP''} then 4
      else if in_name i \<in> {''C_SD'', ''C_LD'', ''C_LDSP'', ''C_SDSP''} then 3
      else if in_name i \<in> {''C_SW'', ''C_LW'', ''C_LWSP'', ''C_SWSP'', ''C_ADDI4SPN''} then 2
      else if in_name i = ''C_LUI'' then 12
      else if in_name i \<in> {''C_J'', ''C_JAL'', ''C_BNEZ'', ''C_BEQZ''} then 1
      else in_imm_align i)"

text \<open>A compressed instruction keeps its mask: the override does not shift it.\<close>

definition c_set_imm_len :: "instr \<Rightarrow> instr" where
  "c_set_imm_len i = i\<lparr>in_imm_len := c_imm_len i, in_imm_align := c_imm_align i\<rparr>"

text \<open>
  \<open>math.ceil(math.log2(XLEN))\<close> is the bit length of \<open>XLEN - 1\<close>. The test
  \<open>group.name == riscv_instr_group_t.RV64B\<close> compares a string with a member of an enumeration and
  is never true.
\<close>

definition b_imm_len :: "core_setting \<Rightarrow> instr \<Rightarrow> nat" where
  "b_imm_len rcs i =
     (if in_format i = I_FORMAT
      then (let l1 = (if in_category i \<in> {SHIFT, LOGICAL} then nat_bits (cs_XLEN rcs - 1) else in_imm_len i);
                l2 = (if in_name i \<in> {''SHFLI'', ''UNSHFLI''} then nat_bits (cs_XLEN rcs - 1) - 1 else l1)
            in if in_name i = ''ADDIWU'' then 12 else l2)
      else in_imm_len i)"

definition b_set_imm_len :: "core_setting \<Rightarrow> instr \<Rightarrow> instr" where
  "b_set_imm_len rcs i =
     (let len = b_imm_len rcs i
      in i\<lparr>in_imm_len := len, in_imm_mask := push_bit len (in_imm_mask i)\<rparr>)"

definition set_imm_len :: "core_setting \<Rightarrow> instr \<Rightarrow> instr" where
  "set_imm_len rcs i =
     (case in_class i of
        DEFINE_C_INSTR \<Rightarrow> c_set_imm_len i
      | DEFINE_FC_INSTR \<Rightarrow> c_set_imm_len i
      | DEFINE_B_INSTR \<Rightarrow> b_set_imm_len rcs i
      | _ \<Rightarrow> base_set_imm_len i)"

text \<open>The object that the class made by \<open>DEFINE_*_INSTR\<close> constructs.\<close>

definition create_instr :: "core_setting \<Rightarrow> operands \<Rightarrow> registration \<Rightarrow> instr" where
  "create_instr rcs ops r = set_rand_mode (set_imm_len rcs (init_instr ops r))"

text \<open>
  \<open>imm\<close> is a 32-bit field of the solver's library: \<open>store\<close> is what it keeps of a value that is
  assigned to it. The sign is bit 31 after the immediate has been moved to the top.
\<close>

definition base_extend_imm :: "(int \<Rightarrow> int) \<Rightarrow> instr \<Rightarrow> instr" where
  "base_extend_imm store i =
     (let top = store (push_bit (32 - in_imm_len i) (in_imm i) AND shift_t);
          sign = drop_bit 31 (top AND 0x80000000);
          low = store (drop_bit (32 - in_imm_len i) top AND shift_t)
      in i\<lparr>in_imm :=
             (if sign \<noteq> 0 \<and> \<not> (in_format i = U_FORMAT \<or> in_imm_type i \<in> {UIMM, NZUIMM})
              then store (in_imm_mask i OR low) else low)\<rparr>)"

definition extend_imm :: "(int \<Rightarrow> int) \<Rightarrow> instr \<Rightarrow> instr" where
  "extend_imm store i =
     (if is_c_class (in_class i)
      then (if in_name i \<noteq> ''C_LUI''
            then let j = base_extend_imm store i
                 in j\<lparr>in_imm := store (push_bit (in_imm_align i) (in_imm j))\<rparr>
            else i)
      else base_extend_imm store i)"

definition uintToInt :: "int \<Rightarrow> int" where
  "uintToInt x = (if 2 * x < 2 ^ mask_width then x else x - 2 ^ mask_width)"

definition update_imm_str :: "instr \<Rightarrow> instr" where
  "update_imm_str i = i\<lparr>in_imm_str := Some (show_int (uintToInt (in_imm i)))\<rparr>"

definition post_randomize :: "(int \<Rightarrow> int) \<Rightarrow> instr \<Rightarrow> instr" where
  "post_randomize store i = update_imm_str (extend_imm store i)"

text \<open>\<open>get_imm\<close>, formatted: an unset text prints as \<open>None\<close>.\<close>

definition get_imm :: "instr \<Rightarrow> string" where
  "get_imm i = (case in_imm_str i of None \<Rightarrow> ''None'' | Some s \<Rightarrow> s)"

definition clear_unused_label :: "instr \<Rightarrow> instr" where
  "clear_unused_label i =
     (if in_has_label i \<and> \<not> in_is_branch_target i \<and> in_is_local_numeric_label i
      then i\<lparr>in_has_label := False\<rparr> else i)"

end
