(* ===== verification/Pygen_Random.thy ===== *)
theory Pygen_Random
  imports Py_Strings "HOL-Library.Multiset"
begin

text \<open>
  What the random instruction generator (\<open>pygen_src\<close>) stands on: its exceptions and its source of
  random numbers. A run of the generator is a function of the numbers that \<open>random\<close> draws. They
  are an explicit tape of natural numbers; a draw takes the next one and brings it into the range asked
  for, so that every tape is a possible run and every possible run has a tape. An exhausted tape goes
  on with zeros.
\<close>

section \<open>Exceptions\<close>

datatype pg_exn =
    PyIndexError
  | PyValueError
  | PyTypeError
  | PyAttributeError string
  | PyKeyError string
  | PyUnboundLocalError string
  | PyNameError string
  | SystemExit int

type_synonym tape = "nat list"
type_synonym 'a pg = "pg_exn + 'a"

section \<open>Draws\<close>

text \<open>\<open>random.randint(a, b)\<close>: both ends included, a \<open>ValueError\<close> on an empty range.\<close>

fun randint :: "int \<Rightarrow> int \<Rightarrow> tape \<Rightarrow> (int \<times> tape) pg" where
  "randint a b [] = (if b < a then Inl PyValueError else Inr (a, []))"
| "randint a b (x # t) = (if b < a then Inl PyValueError else Inr (a + int x mod (b - a + 1), t))"

text \<open>\<open>random.randrange(a, b)\<close> excludes \<open>b\<close>.\<close>

definition randrange :: "int \<Rightarrow> int \<Rightarrow> tape \<Rightarrow> (int \<times> tape) pg" where
  "randrange a b = randint a (b - 1)"

definition choice :: "'a list \<Rightarrow> tape \<Rightarrow> ('a \<times> tape) pg" where
  "choice xs t =
     (if xs = [] then Inl PyIndexError
      else bnd (randint 0 (int (length xs) - 1) t) (\<lambda>(i, t'). Inr (xs ! nat i, t')))"

text \<open>\<open>random.shuffle\<close>: from the last index down to 1, exchange with an index not above.\<close>

definition swap :: "nat \<Rightarrow> nat \<Rightarrow> 'a list \<Rightarrow> 'a list" where
  "swap i j xs = xs[i := xs ! j, j := xs ! i]"

fun shuffle_from :: "nat \<Rightarrow> 'a list \<Rightarrow> tape \<Rightarrow> ('a list \<times> tape) pg" where
  "shuffle_from 0 xs t = Inr (xs, t)"
| "shuffle_from (Suc i) xs t =
     bnd (randint 0 (int (Suc i)) t) (\<lambda>(j, t'). shuffle_from i (swap (Suc i) (nat j) xs) t')"

definition shuffle :: "'a list \<Rightarrow> tape \<Rightarrow> ('a list \<times> tape) pg" where
  "shuffle xs = shuffle_from (length xs - 1) xs"

text \<open>\<open>n\<close> draws from one range.\<close>

fun randints :: "nat \<Rightarrow> int \<Rightarrow> int \<Rightarrow> tape \<Rightarrow> (int list \<times> tape) pg" where
  "randints 0 a b t = Inr ([], t)"
| "randints (Suc n) a b t =
     bnd (randint a b t) (\<lambda>(x, t'). bnd (randints n a b t') (\<lambda>(xs, t''). Inr (x # xs, t'')))"

lemma randint_range: "randint a b t = Inr (i, t') \<Longrightarrow> a \<le> i \<and> i \<le> b"
proof (cases t)
  case (Cons x u)
  assume r: "randint a b t = Inr (i, t')"
  with Cons have le: "a \<le> b" and i: "i = a + int x mod (b - a + 1)" by (auto split: if_splits)
  from le have "0 \<le> int x mod (b - a + 1)" "int x mod (b - a + 1) < b - a + 1"
    by (simp, intro pos_mod_bound, simp)
  with i show ?thesis by linarith
qed (auto split: if_splits)

lemma randint_total: "a \<le> b \<Longrightarrow> \<exists>i t'. randint a b t = Inr (i, t')"
  by (cases t) auto

lemma randint_any: "a \<le> i \<Longrightarrow> i \<le> b \<Longrightarrow> \<exists>n. randint a b (n # t) = Inr (i, t)"
  by (rule exI [of _ "nat (i - a)"]) (simp add: mod_pos_pos_trivial)

lemma randints_range:
  "randints n a b t = Inr (xs, t') \<Longrightarrow> length xs = n \<and> (\<forall>x \<in> set xs. a \<le> x \<and> x \<le> b)"
proof (induction n arbitrary: xs t)
  case (Suc n)
  then show ?case by (fastforce dest: randint_range)
qed simp

lemma randints_total: "a \<le> b \<Longrightarrow> \<exists>xs t'. randints n a b t = Inr (xs, t')"
proof (induction n arbitrary: t)
  case (Suc n)
  from randint_total [OF Suc.prems, of t] obtain x t1 where x: "randint a b t = Inr (x, t1)" by blast
  from Suc.IH [OF Suc.prems, of t1] obtain xs t2 where "randints n a b t1 = Inr (xs, t2)" by blast
  with x show ?case by simp
qed simp

lemma set_swap: "i < length xs \<Longrightarrow> j < length xs \<Longrightarrow> mset (swap i j xs) = mset xs"
  unfolding swap_def by (cases "i = j") (simp_all add: mset_swap)

lemma length_swap [simp]: "length (swap i j xs) = length xs"
  by (simp add: swap_def)

lemma shuffle_from_mset:
  "shuffle_from k xs t = Inr (ys, t') \<Longrightarrow> k < length xs \<or> k = 0 \<Longrightarrow> mset ys = mset xs"
proof (induction k arbitrary: xs t)
  case (Suc k)
  from Suc.prems obtain j t1 where j: "randint 0 (int (Suc k)) t = Inr (j, t1)"
    and rec: "shuffle_from k (swap (Suc k) (nat j) xs) t1 = Inr (ys, t')" by auto
  from randint_range [OF j] Suc.prems(2) have "nat j < length xs" "Suc k < length xs" by auto
  with Suc.IH [OF rec] show ?case by (simp add: set_swap)
qed simp

lemma shuffle_mset: "shuffle xs t = Inr (ys, t') \<Longrightarrow> mset ys = mset xs"
  unfolding shuffle_def by (erule shuffle_from_mset) (cases xs, auto)

lemma shuffle_from_total: "\<exists>ys t'. shuffle_from k xs t = Inr (ys, t')"
proof (induction k arbitrary: xs t)
  case (Suc k)
  from randint_total [of 0 "int (Suc k)" t] obtain j t1 where
    j: "randint 0 (int (Suc k)) t = Inr (j, t1)" by auto
  from Suc.IH [of "swap (Suc k) (nat j) xs" t1] obtain ys t2 where
    "shuffle_from k (swap (Suc k) (nat j) xs) t1 = Inr (ys, t2)" by blast
  with j show ?case by simp
qed simp

lemma shuffle_total: "\<exists>ys t'. shuffle xs t = Inr (ys, t')"
  unfolding shuffle_def by (rule shuffle_from_total)

end
