(* ===== verification/Pygen_Registry.thy ===== *)
theory Pygen_Registry
  imports Pygen_Instr Pygen_Random
begin

text \<open>
  The class state of \<open>pygen_src/isa/riscv_instr.py\<close>: which of the registered instructions a
  configuration admits, the lists by category and group, and the random choice of an instruction.
\<close>

section \<open>Configuration\<close>

text \<open>The part of \<open>riscv_instr_gen_config.py\<close> that the modelled code reads.\<close>

record gen_cfg =
  cfg_enable_sfence :: bool
  cfg_disable_compressed_instr :: bool
  cfg_enable_floating_point :: bool
  cfg_enable_b_extension :: bool
  cfg_enable_bitmanip_groups :: "string list"
  cfg_reserved_regs :: "riscv_reg_t list"
  cfg_no_ebreak :: bool
  cfg_no_dret :: bool
  cfg_no_fence :: bool
  cfg_no_csr_instr :: bool
  cfg_no_wfi :: bool
  cfg_init_privileged_mode :: privileged_mode_t
  cfg_enable_illegal_csr_instruction :: bool
  cfg_enable_access_invalid_csr_level :: bool
  cfg_invalid_priv_mode_csrs :: "privileged_reg_t list"
  cfg_enable_ebreak_in_debug_rom :: bool
  cfg_max_branch_step :: int

text \<open>
  In Python a member of an enumeration is never equal to a string, whatever its name: the code makes
  this comparison in several places.
\<close>

definition enum_eq_str :: "'e \<Rightarrow> string \<Rightarrow> bool" where
  "enum_eq_str member text = False"

section \<open>The class state\<close>

text \<open>
  An element of a list of candidates: a member of the enumeration, a bare string, or a whole list that
  \<open>append\<close> added as one element. Only the first can be a key of \<open>instr_template\<close>.
\<close>

datatype candidate =
    Member riscv_instr_name_t | Text string | Nested "riscv_instr_name_t list"

record instr_db =
  db_template :: "(riscv_instr_name_t \<times> instr) list"
  db_names :: "riscv_instr_name_t list"
  db_category :: "(string \<times> riscv_instr_name_t list) list"
  db_group :: "(string \<times> riscv_instr_name_t list) list"
  db_basic :: "candidate list"
  db_include_reg :: "privileged_reg_t list"
  db_exclude_reg :: "privileged_reg_t list"

text \<open>A \<open>defaultdict(list)\<close>: reading a missing key gives the empty list.\<close>

definition dd_get :: "(string \<times> 'a list) list \<Rightarrow> string \<Rightarrow> 'a list" where
  "dd_get d k = (case map_of d k of None \<Rightarrow> [] | Some xs \<Rightarrow> xs)"

definition dd_append :: "string \<Rightarrow> 'a \<Rightarrow> (string \<times> 'a list) list \<Rightarrow> (string \<times> 'a list) list" where
  "dd_append k x d = AList.update k (dd_get d k @ [x]) d"

section \<open>Support by the configuration\<close>

definition zbb_names :: "riscv_instr_name_t list" where
  "zbb_names = [''CLZ'', ''CTZ'', ''CLZW'', ''CTZW'', ''PCNT'', ''PCNTW'', ''SLO'', ''SLOI'', ''SLOW'',
     ''SLOIW'', ''SRO'', ''SROI'', ''SROW'', ''SROIW'', ''MIN'', ''MINU'', ''MAX'', ''MAXU'', ''ADDWU'',
     ''ADDIWU'', ''SUBWU'', ''ADDU_W'', ''SUBU_W'', ''SLLIU_W'', ''ANDN'', ''ORN'', ''XNOR'', ''PACK'',
     ''PACKW'', ''PACKU'', ''PACKUW'', ''PACKH'', ''ROL'', ''ROLW'', ''ROR'', ''RORW'', ''RORI'',
     ''RORIW'']"

definition zb_other_names :: "(string \<times> riscv_instr_name_t list) list" where
  "zb_other_names =
     [(''ZBS'', [''SBSET'', ''SBSETW'', ''SBSETI'', ''SBSETIW'', ''SBCLR'', ''SBCLRW'', ''SBCLRI'',
        ''SBCLRIW'', ''SBINV'', ''SBINVW'', ''SBINVI'', ''SBINVIW'', ''SBEXT'', ''SBEXTW'', ''SBEXTI'']),
      (''ZBP'', [''GREV'', ''GREVW'', ''GREVI'', ''GREVIW'', ''GORC'', ''GORCW'', ''GORCI'', ''GORCIW'',
        ''SHFL'', ''SHFLW'', ''UNSHFL'', ''UNSHFLW'', ''SHFLI'', ''UNSHFLI'']),
      (''ZBF'', [''BFP'', ''BFPW'']),
      (''ZBC'', [''CLMUL'', ''CLMULW'', ''CLMULH'', ''CLMULHW'', ''CLMULR'', ''CLMULRW'']),
      (''ZBR'', [''CRC32_B'', ''CRC32_H'', ''CRC32_W'', ''CRC32_D'', ''CRC32C_B'', ''CRC32C_H'',
        ''CRC32C_W'', ''CRC32C_D'']),
      (''ZBM'', [''BMATOR'', ''BMATXOR'', ''BMATFLIP'']),
      (''ZBT'', [''CMOV'', ''CMIX'', ''FSL'', ''FSLW'', ''FSR'', ''FSRW'', ''FSRI'', ''FSRIW'']),
      (''ZB_TMP'', [''SEXT_B'', ''SEXT_H''])]"

definition zbe_names :: "string list" where
  "zbe_names = [''BEXT'', ''BEXTW'', ''BDEP'', ''BDEPW'']"

text \<open>
  The precedence of the source: the extension's switch is conjoined with the first group only, and the
  group ZBE compares the member itself with the strings.
\<close>

definition b_is_supported :: "gen_cfg \<Rightarrow> instr \<Rightarrow> bool" where
  "b_is_supported cfg i \<longleftrightarrow>
     (cfg_enable_b_extension cfg \<and> ''ZBB'' \<in> set (cfg_enable_bitmanip_groups cfg) \<and>
        in_name i \<in> set zbb_names) \<or>
     (''ZBE'' \<in> set (cfg_enable_bitmanip_groups cfg) \<and>
        list_ex (enum_eq_str (in_name i)) zbe_names) \<or>
     list_ex (\<lambda>(g, ns). g \<in> set (cfg_enable_bitmanip_groups cfg) \<and> in_name i \<in> set ns) zb_other_names"

definition is_supported :: "gen_cfg \<Rightarrow> instr \<Rightarrow> bool" where
  "is_supported cfg i \<longleftrightarrow> (in_class i = DEFINE_B_INSTR \<longrightarrow> b_is_supported cfg i)"

section \<open>Building the lists\<close>

definition compressed_groups :: "string list" where
  "compressed_groups = [''RV32C'', ''RV64C'', ''RV32DC'', ''RV32FC'', ''RV128C'']"

definition float_groups :: "string list" where
  "float_groups = [''RV32F'', ''RV64F'', ''RV32D'', ''RV64D'']"

definition skipped_names :: "riscv_instr_name_t list" where
  "skipped_names = [''FENCE'', ''FENCE_I'', ''SFENCE_VMA'']"

definition admits :: "core_setting \<Rightarrow> gen_cfg \<Rightarrow> instr \<Rightarrow> bool" where
  "admits rcs cfg i \<longleftrightarrow>
     is_supported cfg i \<and>
     \<not> (cs_XLEN rcs \<noteq> 32 \<and> in_name i = ''C_JAL'') \<and>
     \<not> (SP \<in> set (cfg_reserved_regs cfg) \<and> in_name i = ''C_ADDI16SP'') \<and>
     \<not> (cfg_enable_sfence cfg \<and> in_name i = ''SFENCE_VMA'') \<and>
     in_name i \<notin> set skipped_names \<and>
     in_group i \<in> set (cs_supported_isa rcs) \<and>
     \<not> (cfg_disable_compressed_instr cfg \<and> group_name (in_group i) \<in> set compressed_groups) \<and>
     \<not> (\<not> cfg_enable_floating_point cfg \<and> group_name (in_group i) \<in> set float_groups)"

definition add_instr :: "instr \<Rightarrow> instr_db \<Rightarrow> instr_db" where
  "add_instr i db =
     db\<lparr>db_category := dd_append (category_name (in_category i)) (in_name i) (db_category db),
        db_group := dd_append (group_name (in_group i)) (in_name i) (db_group db),
        db_names := db_names db @ [in_name i]\<rparr>"

text \<open>One turn of the loop over \<open>instr_registry\<close>. \<open>vals\<close> gives the operands of a new object.\<close>

definition registry_step ::
  "core_setting \<Rightarrow> gen_cfg \<Rightarrow> (riscv_instr_name_t \<Rightarrow> operands) \<Rightarrow> registration \<Rightarrow> instr_db \<Rightarrow> instr_db" where
  "registry_step rcs cfg vals r db =
     (if reg_instr r \<in> set (cs_unsupported_instr rcs) then db
      else let i = create_instr rcs (vals (reg_instr r)) r;
               db' = db\<lparr>db_template := AList.update (reg_instr r) i (db_template db)\<rparr>
           in if admits rcs cfg i then add_instr i db' else db')"

definition basic_categories :: "instr_db \<Rightarrow> riscv_instr_name_t list" where
  "basic_categories db =
     dd_get (db_category db) ''SHIFT'' @ dd_get (db_category db) ''ARITHMETIC'' @
     dd_get (db_category db) ''LOGICAL'' @ dd_get (db_category db) ''COMPARE''"

definition build_basic_instruction_list :: "core_setting \<Rightarrow> gen_cfg \<Rightarrow> instr_db \<Rightarrow> instr_db" where
  "build_basic_instruction_list rcs cfg db =
     db\<lparr>db_basic :=
       map Member (basic_categories db) @
       (if \<not> cfg_no_ebreak cfg
        then Text ''EBREAK'' #
          (if RV32C \<in> set (cs_supported_isa rcs) \<and> \<not> cfg_disable_compressed_instr cfg
           then [Text ''C_EBREAK''] else [])
        else []) @
       (if \<not> cfg_no_dret cfg then [Text ''DRET''] else []) @
       (if \<not> cfg_no_fence cfg then [Nested (dd_get (db_category db) ''SYNCH'')] else []) @
       (if \<not> cfg_no_csr_instr cfg \<and> enum_eq_str (cfg_init_privileged_mode cfg) ''MACHINE_MODE''
        then [Nested (dd_get (db_category db) ''CSR'')] else []) @
       (if \<not> cfg_no_wfi cfg then [Text ''WFI''] else [])\<rparr>"

definition create_csr_filter :: "core_setting \<Rightarrow> gen_cfg \<Rightarrow> instr_db \<Rightarrow> instr_db" where
  "create_csr_filter rcs cfg db0 =
     (let db = db0\<lparr>db_include_reg := [], db_exclude_reg := []\<rparr>
      in if cfg_enable_illegal_csr_instruction cfg
         then db\<lparr>db_exclude_reg := cs_implemented_csr rcs\<rparr>
         else if cfg_enable_access_invalid_csr_level cfg
         then db\<lparr>db_include_reg := cfg_invalid_priv_mode_csrs cfg\<rparr>
         else if enum_eq_str (cfg_init_privileged_mode cfg) ''MACHINE_MODE''
         then db\<lparr>db_include_reg := [''MSCRATCH'']\<rparr>
         else if enum_eq_str (cfg_init_privileged_mode cfg) ''SUPERVISOR_MODE''
         then db\<lparr>db_include_reg := [''SSCRATCH'']\<rparr>
         else db\<lparr>db_include_reg := [''USCRATCH'']\<rparr>)"

text \<open>The templates of an earlier call stay.\<close>

definition create_instr_list ::
  "core_setting \<Rightarrow> gen_cfg \<Rightarrow> (riscv_instr_name_t \<Rightarrow> operands) \<Rightarrow> registration list \<Rightarrow> instr_db \<Rightarrow> instr_db" where
  "create_instr_list rcs cfg vals registry db =
     create_csr_filter rcs cfg
       (build_basic_instruction_list rcs cfg
         (fold (registry_step rcs cfg vals) registry
           (db\<lparr>db_names := [], db_group := [], db_category := []\<rparr>)))"

section \<open>Choosing an instruction\<close>

text \<open>\<open>instr_template[name]\<close>: a string is no key, a list is not hashable.\<close>

definition template_of :: "instr_db \<Rightarrow> candidate \<Rightarrow> instr pg" where
  "template_of db c =
     (case c of
        Member n \<Rightarrow> (case map_of (db_template db) n of None \<Rightarrow> Inl (PyKeyError n) | Some i \<Rightarrow> Inr i)
      | Text s \<Rightarrow> Inl (PyKeyError s)
      | Nested ns \<Rightarrow> Inl PyTypeError)"

text \<open>\<open>try: ... except Exception: sys.exit(1)\<close>\<close>

definition or_exit :: "'a pg \<Rightarrow> 'a pg" where
  "or_exit m = (case m of Inl e \<Rightarrow> Inl (SystemExit 1) | Inr x \<Rightarrow> Inr x)"

definition pick_below_last :: "candidate list \<Rightarrow> tape \<Rightarrow> (candidate \<times> tape) pg" where
  "pick_below_last xs t =
     bnd (randrange 0 (int (length xs) - 1) t) (\<lambda>(i, t'). Inr (xs ! nat i, t'))"

definition pick_plain :: "instr_db \<Rightarrow> candidate list \<Rightarrow> candidate list \<Rightarrow> tape \<Rightarrow> (candidate \<times> tape) pg" where
  "pick_plain db include_instr allowed_instr t =
     (if include_instr \<noteq> []
      then (if length include_instr = 1 then Inr (include_instr ! 0, t)
            else pick_below_last include_instr t)
      else if allowed_instr \<noteq> [] then pick_below_last allowed_instr t
      else pick_below_last (map Member (db_names db)) t)"

text \<open>With anything excluded, the choices are drawn one after the other and the last one counts.\<close>

definition pick_excluding ::
  "instr_db \<Rightarrow> candidate list \<Rightarrow> candidate list \<Rightarrow> tape \<Rightarrow> (candidate \<times> tape) pg" where
  "pick_excluding db include_instr allowed_instr t0 =
     bnd (choice (map Member (db_names db)) t0) (\<lambda>(name, t).
     bnd (if include_instr \<noteq> [] then choice include_instr t else Inr (name, t)) (\<lambda>(name, t).
     if allowed_instr \<noteq> [] then choice allowed_instr t else Inr (name, t)))"

record selection =
  sel_include_instr :: "candidate list"
  sel_exclude_instr :: "candidate list"
  sel_include_category :: "string list"
  sel_exclude_category :: "string list"
  sel_include_group :: "string list"
  sel_exclude_group :: "string list"

definition allowed_of :: "instr_db \<Rightarrow> selection \<Rightarrow> candidate list" where
  "allowed_of db s =
     map Member (concat (map (dd_get (db_category db)) (sel_include_category s)) @
       concat (map (dd_get (db_group db)) (sel_include_group s)))"

definition disallowed_of :: "instr_db \<Rightarrow> selection \<Rightarrow> candidate list" where
  "disallowed_of db s =
     map Member (concat (map (dd_get (db_category db)) (sel_exclude_category s)) @
       concat (map (dd_get (db_group db)) (sel_exclude_group s))) @ sel_exclude_instr s"

definition get_rand_instr :: "instr_db \<Rightarrow> selection \<Rightarrow> tape \<Rightarrow> (instr \<times> tape) pg" where
  "get_rand_instr db s t =
     bnd (or_exit (if disallowed_of db s = []
                   then pick_plain db (sel_include_instr s) (allowed_of db s) t
                   else pick_excluding db (sel_include_instr s) (allowed_of db s) t)) (\<lambda>(name, t').
     bnd (template_of db name) (\<lambda>i. Inr (i, t')))"

definition get_load_store_instr :: "instr_db \<Rightarrow> riscv_instr_name_t list \<Rightarrow> tape \<Rightarrow> (instr \<times> tape) pg" where
  "get_load_store_instr db load_store t =
     (let ls = (if load_store = []
                then dd_get (db_category db) ''LOAD'' @ dd_get (db_category db) ''STORE'' else load_store)
      in bnd (pick_below_last (map Member ls) t) (\<lambda>(name, t').
         bnd (template_of db name) (\<lambda>i. Inr (i, t'))))"

definition get_instr :: "instr_db \<Rightarrow> riscv_instr_name_t \<Rightarrow> instr pg" where
  "get_instr db name =
     (case map_of (db_template db) name of None \<Rightarrow> Inl (SystemExit 1) | Some i \<Rightarrow> Inr i)"

end
