(* ===== verification/Pygen_Asm.thy ===== *)
theory Pygen_Asm
  imports Pygen_Instr Pygen_Random
begin

text \<open>
  The assembly text of an instruction: \<open>convert2asm\<close> of \<open>pygen_src/isa/riscv_instr.py\<close> and of
  its subclasses.
\<close>

section \<open>Names\<close>

definition dots :: "string \<Rightarrow> string" where
  "dots s = map (\<lambda>c. if c = CHR ''_'' then CHR ''.'' else c) s"

text \<open>Atomic instructions cut the width off the name and add their ordering; other groups abort.\<close>

definition amo_order :: "instr \<Rightarrow> string" where
  "amo_order i = (if in_aq i then ''.aq'' else if in_rl i then ''.rl'' else [])"

definition amo_instr_name :: "instr \<Rightarrow> string pg" where
  "amo_instr_name i =
     (let stem = take (length (in_name i) - 2) (in_name i)
      in if in_group i = RV32A then Inr (stem @ ''.w'' @ amo_order i)
         else if in_group i = RV64A then Inr (stem @ ''.d'' @ amo_order i)
         else Inl (SystemExit 1))"

definition get_instr_name :: "instr \<Rightarrow> string" where
  "get_instr_name i = dots (in_name i)"

definition padded_name :: "instr \<Rightarrow> string" where
  "padded_name i = format_string (get_instr_name i) MAX_INSTR_STR_LEN"

definition with_comment :: "instr \<Rightarrow> string \<Rightarrow> string" where
  "with_comment i s = (if in_comment i \<noteq> [] then s @ '' #'' @ in_comment i else s)"

text \<open>The operands as they are printed.\<close>

definition rs1_name :: "instr \<Rightarrow> string" where "rs1_name i = reg_name (in_rs1 i)"
definition rs2_name :: "instr \<Rightarrow> string" where "rs2_name i = reg_name (in_rs2 i)"
definition rs3_name :: "instr \<Rightarrow> string" where "rs3_name i = reg_name (in_rs3 i)"
definition rd_name :: "instr \<Rightarrow> string" where "rd_name i = reg_name (in_rd i)"
definition fs1_name :: "instr \<Rightarrow> string" where "fs1_name i = fpr_name (in_fs1 i)"
definition fs2_name :: "instr \<Rightarrow> string" where "fs2_name i = fpr_name (in_fs2 i)"
definition fs3_name :: "instr \<Rightarrow> string" where "fs3_name i = fpr_name (in_fs3 i)"
definition fd_name :: "instr \<Rightarrow> string" where "fd_name i = fpr_name (in_fd i)"

text \<open>\<open>n a, b, c\<close>; \<open>n a, imm (b)\<close> and \<open>n a, imm(b)\<close>; the address of a control register.\<close>

definition asm2 :: "string \<Rightarrow> string \<Rightarrow> string \<Rightarrow> string" where
  "asm2 n a b = n @ a @ '', '' @ b"

definition asm3 :: "string \<Rightarrow> string \<Rightarrow> string \<Rightarrow> string \<Rightarrow> string" where
  "asm3 n a b c = n @ a @ '', '' @ b @ '', '' @ c"

definition asm4 :: "string \<Rightarrow> string \<Rightarrow> string \<Rightarrow> string \<Rightarrow> string \<Rightarrow> string" where
  "asm4 n a b c d = n @ a @ '', '' @ b @ '', '' @ c @ '', '' @ d"

definition asm_mem :: "string \<Rightarrow> string \<Rightarrow> string \<Rightarrow> string \<Rightarrow> string" where
  "asm_mem n a offset b = n @ a @ '', '' @ offset @ ''('' @ b @ '')''"

definition csr_text :: "instr \<Rightarrow> string" where
  "csr_text i = ''0x'' @ show_int (in_csr i)"

section \<open>The base class\<close>

definition base_asm_i :: "string \<Rightarrow> instr \<Rightarrow> string" where
  "base_asm_i n i =
     (if in_name i = ''NOP'' then ''nop''
      else if in_name i = ''WFI'' then ''wfi''
      else if in_name i = ''FENCE'' then ''fence''
      else if in_name i = ''FENCE_I'' then ''fence.i''
      else if in_category i = LOAD then asm_mem n (rd_name i) (get_imm i @ '' '') (rs1_name i)
      else if in_category i = CSR then asm3 n (rd_name i) (csr_text i) (get_imm i)
      else asm3 n (rd_name i) (rs1_name i) (get_imm i))"

definition base_asm_store :: "string \<Rightarrow> instr \<Rightarrow> string" where
  "base_asm_store n i =
     (if in_category i = STORE then asm_mem n (rs2_name i) (get_imm i @ '' '') (rs1_name i)
      else asm3 n (rs1_name i) (rs2_name i) (get_imm i))"

definition base_asm_r :: "string \<Rightarrow> instr \<Rightarrow> string" where
  "base_asm_r n i =
     (if in_category i = CSR then asm3 n (rd_name i) (csr_text i) (rs1_name i)
      else if in_name i = ''SFENCE_VMA'' then ''sfence.vma x0, x0''
      else asm3 n (rd_name i) (rs1_name i) (rs2_name i))"

definition base_asm :: "instr \<Rightarrow> string" where
  "base_asm i =
     (let n = padded_name i @ '' ''
      in str_lower (with_comment i
        (if in_category i \<noteq> SYSTEM
         then (if in_format i \<in> {J_FORMAT, U_FORMAT} then asm2 n (rd_name i) (get_imm i)
               else if in_format i = I_FORMAT then base_asm_i n i
               else if in_format i \<in> {S_FORMAT, B_FORMAT} then base_asm_store n i
               else if in_format i = R_FORMAT then base_asm_r n i
               else ''Fatal_unsupported_format: '' @ format_name (in_format i) @ '' '' @ in_name i)
         else if in_name i = ''EBREAK'' then ''.4byte 0x00100073 # ebreak''
         else padded_name i)))"

section \<open>Compressed instructions\<close>

definition c_asm_ci :: "string \<Rightarrow> instr \<Rightarrow> string" where
  "c_asm_ci n i =
     (if in_name i = ''C_NOP'' then ''c.nop''
      else if in_name i = ''C_ADDI16SP'' then n @ ''sp, '' @ get_imm i
      else if in_name i = ''C_ADDI4SPN'' then asm3 n (rd_name i) ''sp'' (get_imm i)
      else if in_name i \<in> {''C_LDSP'', ''C_LWSP'', ''C_LQSP''}
      then asm_mem n (rd_name i) (get_imm i) ''sp''
      else asm2 n (rd_name i) (get_imm i))"

definition c_asm_body :: "instr \<Rightarrow> string" where
  "c_asm_body i =
     (let n = padded_name i @ '' '' in
      if in_format i \<in> {CI_FORMAT, CIW_FORMAT} then c_asm_ci n i
      else if in_format i = CL_FORMAT then asm_mem n (rd_name i) (get_imm i) (rs1_name i)
      else if in_format i = CS_FORMAT
      then (if in_category i = STORE then asm_mem n (rs2_name i) (get_imm i) (rs1_name i)
            else asm2 n (rs1_name i) (rs2_name i))
      else if in_format i = CA_FORMAT then asm2 n (rd_name i) (rs2_name i)
      else if in_format i = CB_FORMAT then asm2 n (rs1_name i) (get_imm i)
      else if in_format i = CSS_FORMAT
      then (if in_category i = STORE then asm_mem n (rs2_name i) (get_imm i) ''sp''
            else asm2 n (rs2_name i) (get_imm i))
      else if in_format i = CR_FORMAT
      then (if in_name i \<in> {''C_JR'', ''C_JALR''} then n @ rs1_name i
            else asm2 n (rd_name i) (rs2_name i))
      else if in_format i = CJ_FORMAT then n @ get_imm i
      else padded_name i)"

text \<open>The comment is appended only on the branch for system instructions.\<close>

definition c_asm :: "instr \<Rightarrow> string" where
  "c_asm i =
     str_lower
       (if in_category i \<noteq> SYSTEM then c_asm_body i
        else with_comment i (if in_name i = ''C_EBREAK'' then ''c.ebreak;c.nop;'' else padded_name i))"

section \<open>Floating-point instructions\<close>

definition fp_asm_i :: "string \<Rightarrow> instr \<Rightarrow> string" where
  "fp_asm_i n i =
     (if in_category i = LOAD then asm_mem n (fd_name i) (get_imm i) (rs1_name i)
      else if in_name i \<in> set fp_to_int then asm2 n (rd_name i) (fs1_name i)
      else if in_name i \<in> set int_to_fp then asm2 n (fd_name i) (rs1_name i)
      else asm2 n (fd_name i) (fs1_name i))"

definition fp_asm_r :: "string \<Rightarrow> instr \<Rightarrow> string" where
  "fp_asm_r n i =
     (if in_category i = COMPARE then asm3 n (rd_name i) (fs1_name i) (fs2_name i)
      else if in_name i \<in> set fclass_names then asm2 n (rd_name i) (fs1_name i)
      else asm3 n (fd_name i) (fs1_name i) (fs2_name i))"

definition fp_asm :: "instr \<Rightarrow> string" where
  "fp_asm i =
     (let n = padded_name i
      in str_lower (with_comment i
        (if in_format i = I_FORMAT then fp_asm_i n i
         else if in_format i = S_FORMAT then asm_mem n (fs2_name i) (get_imm i) (rs1_name i)
         else if in_format i = R_FORMAT then fp_asm_r n i
         else if in_format i = R4_FORMAT
         then asm4 n (fd_name i) (fs1_name i) (fs2_name i) (fs3_name i)
         else if in_format i = CL_FORMAT then asm_mem n (fd_name i) (get_imm i) (rs1_name i)
         else if in_format i = CS_FORMAT then asm_mem n (fs2_name i) (get_imm i) (rs1_name i)
         else n)))"

section \<open>Bit-manipulation instructions\<close>

text \<open>An empty text, the value before any case matched, falls back to the base class.\<close>

definition b_asm_final :: "instr \<Rightarrow> string" where
  "b_asm_final i =
     (let n = padded_name i in
      if in_format i = I_FORMAT
      then (if in_name i \<in> {''FSRI'', ''FSRIW''}
            then asm4 n (rd_name i) (rs1_name i) (rs3_name i) (get_imm i) else [])
      else if in_format i = R_FORMAT
      then (if \<not> has_rs2 i then asm2 n (rd_name i) (rs1_name i) else [])
      else if in_format i = R4_FORMAT
      then asm4 n (rd_name i) (rs1_name i) (rs2_name i) (rs3_name i)
      else [])"

definition b_asm :: "instr \<Rightarrow> string" where
  "b_asm i =
     (if b_asm_final i = [] then base_asm i else str_lower (with_comment i (b_asm_final i)))"

section \<open>Atomic instructions\<close>

definition amo_asm :: "instr \<Rightarrow> string pg" where
  "amo_asm i =
     bnd (amo_instr_name i) (\<lambda>name.
     let n = format_string name MAX_INSTR_STR_LEN @ '' '' in
     if in_group i \<in> {RV32A, RV64A}
     then Inr (str_lower (with_comment i
            (if in_name i \<in> {''LR_W'', ''LR_D''} then n @ rd_name i @ '', ('' @ rs1_name i @ '')''
             else n @ rd_name i @ '', '' @ rs2_name i @ '', ('' @ rs1_name i @ '')'')))
     else Inl (SystemExit 1))"

section \<open>Dispatch\<close>

definition convert2asm :: "instr \<Rightarrow> string pg" where
  "convert2asm i =
     (case in_class i of
        DEFINE_INSTR \<Rightarrow> Inr (base_asm i)
      | DEFINE_C_INSTR \<Rightarrow> Inr (c_asm i)
      | DEFINE_FC_INSTR \<Rightarrow> Inr (c_asm i)
      | DEFINE_FP_INSTR \<Rightarrow> Inr (fp_asm i)
      | DEFINE_B_INSTR \<Rightarrow> Inr (b_asm i)
      | DEFINE_AMO_INSTR \<Rightarrow> amo_asm i)"

end
