(* ===== verification/Pygen_Stream.thy ===== *)
theory Pygen_Stream
  imports Pygen_Registry Pygen_Asm
begin

text \<open>
  Instruction streams, \<open>pygen_src/riscv_instr_stream.py\<close>: inserting an instruction or a stream,
  mixing two streams, and generating a random one. A stream is the list of its instructions; the draws
  of \<open>random\<close> come from a tape.
\<close>

section \<open>Inserting\<close>

text \<open>\<open>xs.insert(idx, x)\<close> for an index within the list, and \<open>xs[idx]\<close>.\<close>

definition insert_at :: "int \<Rightarrow> 'a \<Rightarrow> 'a list \<Rightarrow> 'a list" where
  "insert_at idx x xs = take (nat idx) xs @ x # drop (nat idx) xs"

definition index_list :: "'a list \<Rightarrow> int \<Rightarrow> 'a pg" where
  "index_list xs idx =
     (if 0 \<le> idx \<and> idx < int (length xs) then Inr (xs ! nat idx) else Inl PyIndexError)"

text \<open>
  The search for a place that is not atomic: it moves on while the instruction there is atomic and
  gives up, appending, when it reaches the last index. From the last index itself it runs out of the
  list. \<open>None\<close> means append.
\<close>

function probe :: "instr list \<Rightarrow> int \<Rightarrow> int option pg" where
  "probe xs idx =
     bnd (index_list xs idx) (\<lambda>i.
     if in_atomic i
     then (if idx + 1 = int (length xs) - 1 then Inr None else probe xs (idx + 1))
     else Inr (Some idx))"
  by auto
termination
  by (relation "measure (\<lambda>(xs, idx). nat (int (length xs) - idx))")
     (auto simp: index_list_def split: if_splits)

declare probe.simps [simp del]

definition insert_instr :: "instr list \<Rightarrow> instr \<Rightarrow> int \<Rightarrow> tape \<Rightarrow> (instr list \<times> tape) pg" where
  "insert_instr xs x idx t =
     (if idx = -1
      then bnd (randint 0 (int (length xs) - 1) t) (\<lambda>(start, t').
           bnd (probe xs start) (\<lambda>place.
           case place of
             None \<Rightarrow> Inr (xs @ [x], t')
           | Some k \<Rightarrow> Inr (insert_at k x xs, t')))
      else if idx > int (length xs) \<or> idx < 0 then Inl (SystemExit 1)
      else Inr (insert_at idx x xs, t))"

text \<open>
  Ten attempts at another index, which stop as soon as the instruction at the index is atomic; then, if
  it is, the first index that is not atomic.
\<close>

fun retry :: "nat \<Rightarrow> instr list \<Rightarrow> int \<Rightarrow> tape \<Rightarrow> (int \<times> tape) pg" where
  "retry 0 xs idx t = Inr (idx, t)"
| "retry (Suc n) xs idx t =
     (if in_atomic (xs ! nat idx) then Inr (idx, t)
      else bnd (randint 0 (int (length xs) - 1) t) (\<lambda>(idx', t'). retry n xs idx' t'))"

fun first_free :: "instr list \<Rightarrow> nat option" where
  "first_free [] = None"
| "first_free (x # xs) = (if \<not> in_atomic x then Some 0 else map_option Suc (first_free xs))"

definition choose_place :: "instr list \<Rightarrow> tape \<Rightarrow> (int \<times> tape) pg" where
  "choose_place xs t0 =
     bnd (randint 0 (int (length xs) - 1) t0) (\<lambda>(idx0, t1).
     bnd (retry 10 xs idx0 t1) (\<lambda>(idx, t).
     if in_atomic (xs ! nat idx)
     then (case first_free xs of None \<Rightarrow> Inl (SystemExit 1) | Some k \<Rightarrow> Inr (int k, t))
     else Inr (idx, t)))"

text \<open>Replacing hands the label of the old instruction to the head of the new stream.\<close>

definition splice :: "instr list \<Rightarrow> instr list \<Rightarrow> int \<Rightarrow> bool \<Rightarrow> instr list pg" where
  "splice xs new_instr idx replace =
     (if replace
      then bnd (index_list new_instr 0) (\<lambda>h.
           bnd (index_list xs idx) (\<lambda>old.
           Inr (take (nat idx) xs @
             new_instr[0 := h\<lparr>in_label := in_label old, in_has_label := in_has_label old\<rparr>] @
             drop (nat idx + 1) xs)))
      else Inr (take (nat idx) xs @ new_instr @ drop (nat idx) xs))"

definition insert_instr_stream ::
  "instr list \<Rightarrow> instr list \<Rightarrow> int \<Rightarrow> bool \<Rightarrow> tape \<Rightarrow> (instr list \<times> tape) pg" where
  "insert_instr_stream xs new_instr idx replace t =
     (if xs = [] then Inr (new_instr, t)
      else bnd (if idx = -1 then choose_place xs t
                else if idx > int (length xs) \<or> idx < 0 then Inl (SystemExit 1)
                else Inr (idx, t)) (\<lambda>(place, t').
           bnd (splice xs new_instr place replace) (\<lambda>ys. Inr (ys, t'))))"

section \<open>Mixing\<close>

definition mix_positions :: "nat \<Rightarrow> nat \<Rightarrow> bool \<Rightarrow> tape \<Rightarrow> (int list \<times> tape) pg" where
  "mix_positions old_cnt new_cnt inside t =
     bnd (randints new_cnt 0 (int old_cnt) t) (\<lambda>(ps, t').
     let qs = sort ps
     in if inside
        then (if new_cnt = 0 then Inl PyIndexError
              else Inr (if new_cnt > 1 then qs[0 := 0, new_cnt - 1 := int old_cnt - 1] else qs[0 := 0], t'))
        else Inr (qs, t'))"

fun mix_from :: "int \<Rightarrow> instr list \<Rightarrow> instr list \<Rightarrow> int list \<Rightarrow> tape \<Rightarrow> (instr list \<times> tape) pg" where
  "mix_from i xs (y # ys) (p # ps) t =
     bnd (insert_instr xs y (p + i) t) (\<lambda>(xs', t'). mix_from (i + 1) xs' ys ps t')"
| "mix_from i xs _ _ t = Inr (xs, t)"

definition mix_instr_stream ::
  "instr list \<Rightarrow> instr list \<Rightarrow> bool \<Rightarrow> tape \<Rightarrow> (instr list \<times> tape) pg" where
  "mix_instr_stream xs new_instr inside t =
     bnd (mix_positions (length xs) (length new_instr) inside t) (\<lambda>(ps, t').
     mix_from 0 xs new_instr ps t')"

definition convert2string :: "instr list \<Rightarrow> string pg" where
  "convert2string xs = bnd (mapR convert2asm xs) (\<lambda>lines. Inr (concat (map (\<lambda>l. l @ [CHR 0x0A]) lines)))"

section \<open>The random stream\<close>

text \<open>
  \<open>self.allowed_instr = riscv_instr.basic_instr\<close> does not copy: what \<open>extend\<close> adds, it adds to
  the class's list. The operation returns the class state, and the allowed instructions are its
  \<open>db_basic\<close>.
\<close>

definition setup_allowed_instr :: "bool \<Rightarrow> bool \<Rightarrow> instr_db \<Rightarrow> instr_db" where
  "setup_allowed_instr no_branch no_load_store db =
     db\<lparr>db_basic := db_basic db @
       (if \<not> no_branch then map Member (dd_get (db_category db) ''BRANCH'') else []) @
       (if \<not> no_load_store
        then map Member (dd_get (db_category db) ''LOAD'' @ dd_get (db_category db) ''STORE'') else [])\<rparr>"

definition ebreak_names :: "candidate list" where
  "ebreak_names = [Text ''EBREAK'', Text ''C_EBREAK'']"

definition sp_names :: "candidate list" where
  "sp_names = [Text ''C_ADDI4SPN'', Text ''C_ADDI16SP'', Text ''C_LWSP'', Text ''C_LDSP'']"

text \<open>
  \<open>solve\<close> is the constraint solver's \<open>randomize_gpr\<close>. In debug mode the list that is extended is
  again the class's.
\<close>

definition randomize_instr ::
  "gen_cfg \<Rightarrow> riscv_reg_t list \<Rightarrow> riscv_reg_t list \<Rightarrow> (instr \<Rightarrow> instr) \<Rightarrow> bool \<Rightarrow> string list \<Rightarrow>
     instr_db \<Rightarrow> tape \<Rightarrow> (instr \<times> instr_db \<times> tape) pg" where
  "randomize_instr cfg avail_regs reserved_rd solve is_in_debug include_group db0 t =
     (let sp_excluded = (SP \<in> set reserved_rd \<or> SP \<in> set (cfg_reserved_regs cfg) \<or>
                         avail_regs \<noteq> [] \<and> SP \<notin> set avail_regs);
          db = (if is_in_debug \<and> cfg_no_ebreak cfg \<and> cfg_enable_ebreak_in_debug_rom cfg
                then db0\<lparr>db_basic := db_basic db0 @ ebreak_names\<rparr> else db0);
          excl = (if sp_excluded then sp_names else []) @
                 (if is_in_debug \<and> \<not> cfg_no_ebreak cfg \<and> \<not> cfg_enable_ebreak_in_debug_rom cfg
                  then ebreak_names else [])
      in bnd (get_rand_instr db
               \<lparr>sel_include_instr = db_basic db, sel_exclude_instr = excl, sel_include_category = [],
                sel_exclude_category = [], sel_include_group = include_group,
                sel_exclude_group = []\<rparr> t) (\<lambda>(i, t').
         Inr (solve i, db, t')))"

fun randomize_n ::
  "gen_cfg \<Rightarrow> riscv_reg_t list \<Rightarrow> riscv_reg_t list \<Rightarrow> (instr \<Rightarrow> instr) \<Rightarrow> bool \<Rightarrow> nat \<Rightarrow>
     instr_db \<Rightarrow> tape \<Rightarrow> (instr list \<times> instr_db \<times> tape) pg" where
  "randomize_n cfg av rs solve dbg 0 db t = Inr ([], db, t)"
| "randomize_n cfg av rs solve dbg (Suc n) db t =
     bnd (randomize_instr cfg av rs solve dbg [] db t) (\<lambda>(i, db', t').
     bnd (randomize_n cfg av rs solve dbg n db' t') (\<lambda>(is, db'', t'').
     Inr (i # is, db'', t'')))"

text \<open>\<open>while xs[-1].category == BRANCH: xs.pop(); if len(xs) == 0: break\<close>\<close>

function strip_branches :: "instr list \<Rightarrow> instr list pg" where
  "strip_branches xs =
     (if xs = [] then Inl PyIndexError
      else if in_category (last xs) = BRANCH
      then (if butlast xs = [] then Inr [] else strip_branches (butlast xs))
      else Inr xs)"
  by auto
termination by (relation "measure length") auto

declare strip_branches.simps [simp del]

definition stream_gen_instr ::
  "gen_cfg \<Rightarrow> riscv_reg_t list \<Rightarrow> riscv_reg_t list \<Rightarrow> (instr \<Rightarrow> instr) \<Rightarrow> bool \<Rightarrow> bool \<Rightarrow> bool \<Rightarrow> nat \<Rightarrow>
     instr_db \<Rightarrow> tape \<Rightarrow> (instr list \<times> instr_db \<times> tape) pg" where
  "stream_gen_instr cfg av rs solve no_branch no_load_store dbg cnt db t =
     bnd (randomize_n cfg av rs solve dbg cnt (setup_allowed_instr no_branch no_load_store db) t)
       (\<lambda>(xs, db', t'). bnd (strip_branches xs) (\<lambda>ys. Inr (ys, db', t')))"

end
