(* ===== verification/Pygen_Stream_Facts.thy ===== *)
theory Pygen_Stream_Facts
  imports Pygen_Stream
begin

text \<open>
  What inserting and mixing do: an insertion at a position in range splits the stream there, a mix
  whose positions ascend is a shuffle of the two streams, and the search for a place finds an
  instruction that is not atomic.
\<close>

section \<open>Inserting at a known index\<close>

lemma insert_instr_in_range:
  "0 \<le> idx \<Longrightarrow> idx \<le> int (length xs) \<Longrightarrow> insert_instr xs x idx t = Inr (insert_at idx x xs, t)"
  by (simp add: insert_instr_def)

lemma length_insert_at [simp]: "length (insert_at idx x xs) = Suc (length xs)"
  by (simp add: insert_at_def)

lemma insert_at_append:
  "0 \<le> k \<Longrightarrow> insert_at (int (length L) + k) x (L @ R) = L @ insert_at k x R"
  by (simp add: insert_at_def nat_add_distrib)

section \<open>Shuffles\<close>

lemma shuffles_take_left:
  "zs \<in> shuffles (drop n xs) ys \<Longrightarrow> take n xs @ zs \<in> shuffles xs ys"
proof (induction xs arbitrary: n)
  case (Cons x xs)
  then show ?case by (cases n) (auto intro: Cons_in_shuffles_leftI)
qed simp

text \<open>
  A mix from the middle: the part \<open>L\<close> is done, it holds \<open>c\<close> old and \<open>i\<close> new instructions, and the
  remaining positions ascend from \<open>c\<close> on.
\<close>

lemma mix_from_shuffles:
  assumes "length L = c + i" and "sorted ps" and "\<forall>p \<in> set ps. int c \<le> p \<and> p \<le> int (c + length R)"
    and "length ys = length ps"
  shows "\<exists>zs. mix_from (int i) (L @ R) ys ps t = Inr (L @ zs, t) \<and> zs \<in> shuffles R ys"
  using assms
proof (induction ys arbitrary: L R ps c i)
  case Nil
  then show ?case by simp
next
  case (Cons y ys)
  then obtain p qs where ps: "ps = p # qs" by (cases ps) auto
  define k where "k = nat (p - int c)"
  have p: "p = int (c + k)" and k: "k \<le> length R"
    using Cons.prems(3) by (auto simp: ps k_def)
  let ?L = "L @ take k R @ [y]" and ?R = "drop k R"
  have pi: "p + int i = int (length L) + int k" using Cons.prems(1) p by simp
  have ins: "insert_instr (L @ R) y (p + int i) t = Inr (?L @ ?R, t)"
    unfolding pi using k by (subst insert_instr_in_range) (simp_all add: insert_at_append, simp add: insert_at_def)
  have "\<exists>zs. mix_from (int (Suc i)) (?L @ ?R) ys qs t = Inr (?L @ zs, t) \<and> zs \<in> shuffles ?R ys"
  proof (rule Cons.IH)
    show "length ?L = (c + k) + Suc i" using Cons.prems(1) k by simp
    show "sorted qs" using Cons.prems(2) by (simp add: ps)
    show "\<forall>q \<in> set qs. int (c + k) \<le> q \<and> q \<le> int (c + k + length ?R)"
      using Cons.prems(2,3) p k by (auto simp: ps)
    show "length ys = length qs" using Cons.prems(4) by (simp add: ps)
  qed
  then obtain zs where zs: "mix_from (int (Suc i)) (?L @ ?R) ys qs t = Inr (?L @ zs, t)"
    "zs \<in> shuffles ?R ys" by blast
  have "mix_from (int i) (L @ R) (y # ys) ps t = Inr (L @ (take k R @ y # zs), t)"
    using ins zs(1) by (simp add: ps add.commute)
  moreover have "take k R @ y # zs \<in> shuffles R (y # ys)"
    using zs(2) by (intro shuffles_take_left Cons_in_shuffles_rightI)
  ultimately show ?case by blast
qed

lemma mix_from_all:
  assumes "sorted ps" and "\<forall>p \<in> set ps. 0 \<le> p \<and> p \<le> int (length xs)" and "length ys = length ps"
  shows "\<exists>zs. mix_from 0 xs ys ps t = Inr (zs, t) \<and> zs \<in> shuffles xs ys"
  using mix_from_shuffles [where L = "[]" and c = 0 and i = 0, OF _ assms(1), of xs ys t] assms by simp

lemma mix_from_snoc:
  "length ys = length ps \<Longrightarrow>
    mix_from i xs (ys @ [y]) (ps @ [p]) t =
      bnd (mix_from i xs ys ps t) (\<lambda>(zs, t'). insert_instr zs y (p + i + int (length ys)) t')"
proof (induction ys ps arbitrary: i xs t rule: list_induct2)
  case Nil
  then show ?case by (cases "insert_instr xs y (p + i) t") auto
next
  case (Cons z zs q qs)
  then show ?case
    by (cases "insert_instr xs z (q + i) t") (auto simp: algebra_simps)
qed

lemma length_shuffle: "zs \<in> shuffles xs ys \<Longrightarrow> length zs = length xs + length ys"
  by (rule length_shuffles)

text \<open>When the first position is 0, the first instruction of the mix is the first new one.\<close>

lemma mix_from_zero_first:
  assumes "sorted ps" and "\<forall>p \<in> set ps. 0 \<le> p \<and> p \<le> int (length xs)" and "length ys = length ps"
  shows "\<exists>zs. mix_from 0 xs (y # ys) (0 # ps) t = Inr (y # zs, t) \<and> zs \<in> shuffles xs ys"
proof -
  have "insert_instr xs y 0 t = Inr ([y] @ xs, t)"
    by (simp add: insert_instr_in_range insert_at_def)
  moreover have "\<exists>zs. mix_from (int 1) ([y] @ xs) ys ps t = Inr ([y] @ zs, t) \<and> zs \<in> shuffles xs ys"
    using assms by (intro mix_from_shuffles [where c = 0]) auto
  ultimately show ?thesis by auto
qed

section \<open>The positions\<close>

lemma mix_positions_plain:
  "\<exists>ps t'. mix_positions n k False t = Inr (ps, t') \<and> sorted ps \<and> length ps = k \<and>
     (\<forall>p \<in> set ps. 0 \<le> p \<and> p \<le> int n)"
proof -
  from randints_total [of 0 "int n" k t] obtain ps t' where r: "randints k 0 (int n) t = Inr (ps, t')"
    by auto
  from randints_range [OF r] r show ?thesis by (auto simp: mix_positions_def)
qed

text \<open>With \<open>contained\<close> and at least two new instructions: 0, an ascending middle, the last index.\<close>

lemma mix_positions_contained:
  assumes "2 \<le> k"
  shows "\<exists>ms t'. mix_positions n k True t = Inr (0 # ms @ [int n - 1], t') \<and> sorted ms \<and>
     length ms = k - 2 \<and> (\<forall>p \<in> set ms. 0 \<le> p \<and> p \<le> int n)"
proof -
  from randints_total [of 0 "int n" k t] obtain ps t' where r: "randints k 0 (int n) t = Inr (ps, t')"
    by auto
  from randints_range [OF r] have ps: "length ps = k" "\<forall>p \<in> set ps. 0 \<le> p \<and> p \<le> int n" by auto
  define qs where "qs = sort ps"
  have qs: "length qs = k" "sorted qs" "\<forall>p \<in> set qs. 0 \<le> p \<and> p \<le> int n"
    using ps by (simp_all add: qs_def)
  then obtain a as where a: "qs = a # as" "as \<noteq> []" using assms by (cases qs) (auto simp: Suc_le_eq)
  then obtain ms z where z: "as = ms @ [z]" by (cases as rule: rev_cases) auto
  have len: "length ms = k - 2" "k - 1 = Suc (length ms)" using qs(1) assms by (auto simp: a z)
  have "qs[0 := 0, k - 1 := int n - 1] = 0 # ms @ [int n - 1]"
    unfolding len(2) a(1) z by simp
  then have "mix_positions n k True t = Inr (0 # ms @ [int n - 1], t')"
    using assms r by (simp add: mix_positions_def qs_def Let_def)
  moreover have "sorted ms" "\<forall>p \<in> set ms. 0 \<le> p \<and> p \<le> int n"
    using qs by (auto simp: a z sorted_append)
  ultimately show ?thesis using len(1) by blast
qed

lemma mix_plain:
  "\<exists>zs t'. mix_instr_stream xs new False t = Inr (zs, t') \<and> zs \<in> shuffles xs new"
proof -
  from mix_positions_plain [of "length xs" "length new" t] obtain ps t' where
    ps: "mix_positions (length xs) (length new) False t = Inr (ps, t')" "sorted ps"
      "length ps = length new" "\<forall>p \<in> set ps. 0 \<le> p \<and> p \<le> int (length xs)" by blast
  from mix_from_all [OF ps(2,4) ps(3) [symmetric], of t'] obtain zs where
    "mix_from 0 xs new ps t' = Inr (zs, t')" "zs \<in> shuffles xs new" by blast
  with ps(1) show ?thesis by (simp add: mix_instr_stream_def)
qed

text \<open>
  The contained mix: a shuffle of the old stream and the new one without its last instruction, with
  that last one put before the last place.
\<close>

lemma mix_contained:
  assumes "xs \<noteq> []" and "2 \<le> length new"
  shows "\<exists>zs t'. mix_instr_stream xs new True t = Inr (hd new # butlast zs @ [last new, last zs], t') \<and>
    zs \<in> shuffles xs (butlast (tl new)) \<and> zs \<noteq> []"
proof -
  obtain y ys z where new: "new = y # ys @ [z]"
    using assms(2) by (cases new; cases "tl new" rule: rev_cases) auto
  from mix_positions_contained [OF assms(2), of "length xs" t] obtain ms t' where
    ms: "mix_positions (length xs) (length new) True t = Inr (0 # ms @ [int (length xs) - 1], t')"
      "sorted ms" "length ms = length new - 2" "\<forall>p \<in> set ms. 0 \<le> p \<and> p \<le> int (length xs)" by blast
  have len: "length ys = length ms" using ms(3) by (simp add: new)
  from mix_from_zero_first [OF ms(2,4) len] obtain zs where
    zs: "mix_from 0 xs (y # ys) (0 # ms) t' = Inr (y # zs, t')" "zs \<in> shuffles xs ys" by blast
  have lz: "length zs = length xs + length ys" using zs(2) by (rule length_shuffle)
  then have ne: "zs \<noteq> []" using assms(1) by auto
  have pos: "int (length xs) - 1 + 0 + int (length (y # ys)) = int (length (y # butlast zs))"
    using lz ne assms(1) by (cases xs) auto
  have ins: "insert_instr (y # zs) z (int (length (y # butlast zs))) t' =
      Inr ((y # butlast zs) @ z # [last zs], t')"
    using insert_at_append [of 0 "y # butlast zs" z "[last zs]"] ne
    by (subst insert_instr_in_range) (simp_all add: insert_at_def)
  have snoc: "mix_from 0 xs ((y # ys) @ [z]) ((0 # ms) @ [int (length xs) - 1]) t' =
      bnd (mix_from 0 xs (y # ys) (0 # ms) t')
        (\<lambda>(zs, t'). insert_instr zs z (int (length xs) - 1 + 0 + int (length (y # ys))) t')"
    using len by (intro mix_from_snoc) simp
  have "mix_from 0 xs ((y # ys) @ [z]) ((0 # ms) @ [int (length xs) - 1]) t' =
      Inr (y # butlast zs @ [z, last zs], t')"
    unfolding snoc zs(1) bnd_simps prod.case pos ins by simp
  with ms(1) zs(2) ne show ?thesis
    by (auto simp: mix_instr_stream_def new)
qed

section \<open>Finding a place\<close>

lemma retry_range:
  "retry n xs idx t = Inr (k, t') \<Longrightarrow> 0 \<le> idx \<and> idx < int (length xs) \<Longrightarrow> 0 \<le> k \<and> k < int (length xs)"
proof (induction n arbitrary: idx t)
  case (Suc n)
  show ?case
  proof (cases "in_atomic (xs ! nat idx)")
    case False
    with Suc.prems(1) obtain i u where r: "randint 0 (int (length xs) - 1) t = Inr (i, u)"
      "retry n xs i u = Inr (k, t')" by auto
    from randint_range [OF r(1)] Suc.IH [OF r(2)] show ?thesis by simp
  qed (use Suc.prems in auto)
qed simp

lemma retry_total: "xs \<noteq> [] \<Longrightarrow> \<exists>k t'. retry n xs idx t = Inr (k, t')"
proof (induction n arbitrary: idx t)
  case (Suc n)
  have "0 \<le> int (length xs) - 1" using Suc.prems by (cases xs) auto
  from randint_total [OF this, of t] obtain i u where "randint 0 (int (length xs) - 1) t = Inr (i, u)"
    by blast
  with Suc.IH [OF Suc.prems, of i u] show ?case by auto
qed simp

lemma first_free_Some: "first_free xs = Some k \<Longrightarrow> k < length xs \<and> \<not> in_atomic (xs ! k)"
  by (induction xs arbitrary: k) (auto split: if_splits)

lemma first_free_None: "first_free xs = None \<longleftrightarrow> (\<forall>x \<in> set xs. in_atomic x)"
  by (induction xs) auto

lemma choose_place_cases:
  assumes "xs \<noteq> []"
  shows "(\<forall>x \<in> set xs. in_atomic x) \<and> choose_place xs t = Inl (SystemExit 1) \<or>
    (\<exists>k t'. choose_place xs t = Inr (int k, t') \<and> k < length xs \<and> \<not> in_atomic (xs ! k))"
proof -
  have "0 \<le> int (length xs) - 1" using assms by (cases xs) auto
  from randint_total [OF this, of t] obtain i u where i: "randint 0 (int (length xs) - 1) t = Inr (i, u)"
    by blast
  from retry_total [OF assms] obtain k t' where k: "retry 10 xs i u = Inr (k, t')" by blast
  from retry_range [OF k] randint_range [OF i] have r: "0 \<le> k" "k < int (length xs)" by auto
  then have rn: "nat k < length xs" by simp
  have e: "choose_place xs t =
     (if in_atomic (xs ! nat k)
      then (case first_free xs of None \<Rightarrow> Inl (SystemExit 1) | Some k \<Rightarrow> Inr (int k, t'))
      else Inr (k, t'))"
    using i k by (simp add: choose_place_def)
  show ?thesis
  proof (cases "in_atomic (xs ! nat k)")
    case True
    show ?thesis
    proof (cases "first_free xs")
      case None
      with True show ?thesis by (simp add: e first_free_None [THEN iffD1])
    next
      case (Some j)
      with True first_free_Some [OF Some] show ?thesis by (auto simp: e)
    qed
  next
    case False
    with r rn show ?thesis by (auto simp: e intro!: exI [of _ "nat k"])
  qed
qed

end
