(* ===== verification/Pygen_Sequence.thy ===== *)
theory Pygen_Sequence
  imports Pygen_Stream_Facts
begin

text \<open>
  The post-processing of a program, \<open>pygen_src/riscv_instr_sequence.py\<close>: the directed streams are
  inserted, every instruction gets an index and every instruction outside an atomic block a numeric
  label, every open branch gets a label at or after its index as its target, and labels that are no
  target are dropped. Then the printing of the program.
\<close>

section \<open>Labels\<close>

text \<open>
  The attribute \<open>insert_illegal_instr\<close>, read when the percentage of illegal instructions is not 0,
  is defined nowhere. \<open>None == 0\<close> is false: a hint needs an \<open>is_illegal_instr\<close> that was set to 0.
\<close>

definition set_hint :: "int \<Rightarrow> instr \<Rightarrow> tape \<Rightarrow> (instr \<times> tape) pg" where
  "set_hint hint_pct x t =
     (if 0 < hint_pct \<and> in_is_illegal_instr x = Some 0 \<and> in_is_compressed x
      then bnd (randrange 0 (min 100 hint_pct) t) (\<lambda>(h, t'). Inr (x\<lparr>in_is_hint_instr := Some h\<rparr>, t'))
      else Inr (x, t))"

definition label_step :: "int \<Rightarrow> int \<Rightarrow> int \<Rightarrow> instr \<Rightarrow> tape \<Rightarrow> (instr \<times> int \<times> tape) pg" where
  "label_step illegal_pct hint_pct label_idx x0 t =
     (let x = x0\<lparr>in_idx := label_idx\<rparr>
      in if in_has_label x \<and> \<not> in_atomic x
         then if 0 < illegal_pct then Inl (PyAttributeError ''insert_illegal_instr'')
              else bnd (set_hint hint_pct x t) (\<lambda>(y, t').
                   Inr (y\<lparr>in_label := show_int label_idx, in_is_local_numeric_label := True\<rparr>,
                        label_idx + 1, t'))
         else Inr (x, label_idx, t))"

fun label_all :: "int \<Rightarrow> int \<Rightarrow> int \<Rightarrow> instr list \<Rightarrow> tape \<Rightarrow> (instr list \<times> int \<times> tape) pg" where
  "label_all illegal_pct hint_pct n [] t = Inr ([], n, t)"
| "label_all illegal_pct hint_pct n (x # xs) t =
     bnd (label_step illegal_pct hint_pct n x t) (\<lambda>(y, n', t').
     bnd (label_all illegal_pct hint_pct n' xs t') (\<lambda>(ys, n'', t''). Inr (y # ys, n'', t'')))"

section \<open>Branches\<close>

record branch_state =
  br_cnt :: nat
  br_idx :: "int list"
  br_target :: "int set"
  br_tape :: tape

definition open_branch :: "instr \<Rightarrow> bool" where
  "open_branch x \<longleftrightarrow> in_category x = BRANCH \<and> \<not> in_branch_assigned x \<and>
     (in_is_illegal_instr x = None \<or> in_is_illegal_instr x = Some 0)"

definition next_branch_idx :: "branch_state \<Rightarrow> branch_state pg" where
  "next_branch_idx st =
     (if br_cnt st + 1 = length (br_idx st)
      then bnd (shuffle (br_idx st) (br_tape st)) (\<lambda>(bi, t).
           Inr (st\<lparr>br_cnt := 0, br_idx := bi, br_tape := t\<rparr>))
      else Inr (st\<lparr>br_cnt := br_cnt st + 1\<rparr>))"

definition target_label :: "int \<Rightarrow> branch_state \<Rightarrow> instr \<Rightarrow> int" where
  "target_label label_idx st x =
     (let b = in_idx x + br_idx st ! br_cnt st in if label_idx \<le> b then label_idx - 1 else b)"

definition assign_branch :: "int \<Rightarrow> branch_state \<Rightarrow> instr \<Rightarrow> (instr \<times> branch_state) pg" where
  "assign_branch label_idx st x =
     (if open_branch x
      then let target = target_label label_idx st x
           in bnd (next_branch_idx st) (\<lambda>st'.
              bnd (convert2asm x) (\<lambda>_.
              Inr (x\<lparr>in_imm_str := Some (show_int target @ ''f''), in_branch_assigned := True\<rparr>,
                   st'\<lparr>br_target := insert target (br_target st')\<rparr>)))
      else Inr (x, st))"

definition drop_label :: "branch_state \<Rightarrow> instr \<Rightarrow> instr pg" where
  "drop_label st x =
     (if in_has_label x \<and> in_is_local_numeric_label x
      then (case py_int (in_label x) of
              None \<Rightarrow> Inl PyValueError
            | Some n \<Rightarrow> Inr (if n \<in> br_target st then x else x\<lparr>in_has_label := False\<rparr>))
      else Inr x)"

fun resolve :: "int \<Rightarrow> branch_state \<Rightarrow> instr list \<Rightarrow> (instr list \<times> branch_state) pg" where
  "resolve label_idx st [] = Inr ([], st)"
| "resolve label_idx st (x # xs) =
     bnd (assign_branch label_idx st x) (\<lambda>(y, st').
     bnd (drop_label st' y) (\<lambda>z.
     bnd (resolve label_idx st' xs) (\<lambda>(zs, st''). Inr (z # zs, st''))))"

definition insert_directed :: "instr list \<Rightarrow> instr list list \<Rightarrow> tape \<Rightarrow> (instr list \<times> tape) pg" where
  "insert_directed xs directed t =
     foldR (\<lambda>(ys, u) new. insert_instr_stream ys new (-1) False u) (xs, t) directed"

definition post_process_instr ::
  "gen_cfg \<Rightarrow> int \<Rightarrow> int \<Rightarrow> instr list list \<Rightarrow> instr list \<Rightarrow> tape \<Rightarrow> (instr list \<times> tape) pg" where
  "post_process_instr cfg illegal_pct hint_pct directed xs t0 =
     bnd (insert_directed xs directed t0) (\<lambda>(ys, t1).
     bnd (label_all illegal_pct hint_pct 0 ys t1) (\<lambda>(zs, label_idx, t2).
     bnd (randints 30 1 (cfg_max_branch_step cfg) t2) (\<lambda>(bi, t3).
     bnd (resolve label_idx \<lparr>br_cnt = 0, br_idx = bi, br_target = {}, br_tape = t3\<rparr> zs) (\<lambda>(ws, st).
     Inr (ws, br_tape st)))))"

section \<open>Printing the program\<close>

definition is_infix :: "string \<Rightarrow> string \<Rightarrow> bool" where
  "is_infix p s \<longleftrightarrow> list_ex (\<lambda>k. take (length p) (drop k s) = p) [0..<length s + 1]"

definition line_prefix :: "bool \<Rightarrow> string \<Rightarrow> nat \<Rightarrow> instr \<Rightarrow> string" where
  "line_prefix no_label label_name i x =
     format_string
       (if i = 0 then (if no_label then '' '' else label_name @ '':'')
        else if in_has_label x then in_label x @ '':'' else '' '') LABEL_STR_LEN"

text \<open>With memory protection, every instruction of a program other than main adds an alignment line.\<close>

definition line_step ::
  "core_setting \<Rightarrow> bool \<Rightarrow> string \<Rightarrow> string list \<Rightarrow> nat \<times> instr \<Rightarrow> string list pg" where
  "line_step rcs no_label label_name acc = (\<lambda>(i, x).
     bnd (convert2asm (if i = 0 then x\<lparr>in_has_label := True\<rparr> else x)) (\<lambda>s.
     let acc' = acc @ [line_prefix no_label label_name i x @ s]
     in Inr (if cs_support_pmp rcs \<and> \<not> is_infix ''main'' label_name then ''.align 2'' # acc' else acc')))"

definition instr_lines ::
  "core_setting \<Rightarrow> bool \<Rightarrow> string \<Rightarrow> instr list \<Rightarrow> string list pg" where
  "instr_lines rcs no_label label_name xs =
     foldR (line_step rcs no_label label_name) [] (enumerate 0 xs)"

text \<open>
  The return of a subprogram: \<open>ra\<close> is the register the solver picks and \<open>cfg_ra\<close> the text of the
  configured one. \<open>randrange(0, len - 1)\<close> on one candidate raises.
\<close>

definition return_jumps :: "gen_cfg \<Rightarrow> riscv_instr_name_t list" where
  "return_jumps cfg =
     ''JALR'' # (if cfg_disable_compressed_instr cfg then []
                 else ''C_JR'' # (if RA \<in> set (cfg_reserved_regs cfg) then [] else [''C_JALR'']))"

definition return_jump_text :: "riscv_instr_name_t \<Rightarrow> riscv_reg_t \<Rightarrow> string pg" where
  "return_jump_text n ra =
     (if n = ''C_JALR'' then Inr (''c.jalr x'' @ show_int (reg_val ra))
      else if n = ''C_JR'' then Inr (''c.jr x'' @ show_int (reg_val ra))
      else if n = ''JALR''
      then Inr (''jalr x'' @ show_int (reg_val ra) @ '' x'' @ show_int (reg_val ra) @ '' 0'')
      else Inl (SystemExit 1))"

definition generate_return_routine ::
  "gen_cfg \<Rightarrow> string \<Rightarrow> riscv_reg_t \<Rightarrow> string \<Rightarrow> tape \<Rightarrow> (string list \<times> tape) pg" where
  "generate_return_routine cfg cfg_ra ra pre t0 =
     bnd (randrange 0 1 t0) (\<lambda>(rand_lsb, t1).
     bnd (randrange 0 (int (length (return_jumps cfg)) - 1) t1) (\<lambda>(i, t2).
     bnd (return_jump_text (return_jumps cfg ! nat i) ra) (\<lambda>jump.
     Inr ([pre @ ''addi x'' @ show_int (reg_val ra) @ '' x'' @ cfg_ra @ '' '' @ show_int rand_lsb,
           pre @ jump], t2))))"

end
