(* ===== verification/Pygen_Sequence_Facts.thy ===== *)
theory Pygen_Sequence_Facts
  imports Pygen_Sequence
begin

text \<open>
  Why every branch of a processed program goes forward to a label that exists: the labels ascend, the
  target of a branch is at or after the next label, and a target is recorded before its label is
  considered for removal.
\<close>

section \<open>The labelling\<close>

definition labelled :: "instr \<Rightarrow> bool" where
  "labelled x \<longleftrightarrow> in_has_label x \<and> \<not> in_atomic x"

definition with_label :: "int \<Rightarrow> instr \<Rightarrow> instr" where
  "with_label n x =
     (if labelled x
      then x\<lparr>in_idx := n, in_label := show_int n, in_is_local_numeric_label := True\<rparr>
      else x\<lparr>in_idx := n\<rparr>)"

definition after_label :: "int \<Rightarrow> instr \<Rightarrow> int" where
  "after_label n x = (if labelled x then n + 1 else n)"

fun assign_labels :: "int \<Rightarrow> instr list \<Rightarrow> instr list" where
  "assign_labels n [] = []"
| "assign_labels n (x # xs) = with_label n x # assign_labels (after_label n x) xs"

fun end_label :: "int \<Rightarrow> instr list \<Rightarrow> int" where
  "end_label n [] = n"
| "end_label n (x # xs) = end_label (after_label n x) xs"

lemma label_all_plain:
  assumes "p \<le> 0" and "h \<le> 0"
  shows "label_all p h n xs t = Inr (assign_labels n xs, end_label n xs, t)"
proof (induction xs arbitrary: n)
  case (Cons x xs)
  have h: "set_hint h y u = Inr (y, u)" for y u
    using assms(2) by (simp add: set_hint_def)
  have l: "in_has_label (x\<lparr>in_idx := n\<rparr>) \<and> \<not> in_atomic (x\<lparr>in_idx := n\<rparr>) \<longleftrightarrow> labelled x"
    by (simp add: labelled_def)
  have np: "\<not> 0 < p" using assms(1) by simp
  have "label_step p h n x t = Inr (with_label n x, after_label n x, t)"
  proof (cases "labelled x")
    case True
    then show ?thesis
      unfolding label_step_def Let_def l with_label_def after_label_def if_P [OF True] if_not_P [OF np] h
      by (simp only: bnd_simps prod.case)
  next
    case False
    show ?thesis
      unfolding label_step_def Let_def l with_label_def after_label_def if_not_P [OF False] by (rule refl)
  qed
  with Cons show ?case by simp
qed simp

lemma with_label_simps [simp]:
  "in_category (with_label n x) = in_category x"
  "in_branch_assigned (with_label n x) = in_branch_assigned x"
  "in_is_illegal_instr (with_label n x) = in_is_illegal_instr x"
  "in_class (with_label n x) = in_class x"
  "in_idx (with_label n x) = n"
  "in_has_label (with_label n x) = in_has_label x"
  by (simp_all add: with_label_def)

lemma open_branch_label [simp]: "open_branch (with_label n x) = open_branch x"
  by (simp add: open_branch_def)

lemma length_assign_labels [simp]: "length (assign_labels n xs) = length xs"
  by (induction xs arbitrary: n) auto

lemma end_label_mono: "n \<le> end_label n xs"
proof (induction xs arbitrary: n)
  case (Cons x xs)
  from Cons.IH [of "after_label n x"] show ?case by (auto simp: after_label_def split: if_splits)
qed simp

lemma end_label_last:
  assumes "xs \<noteq> []" and "labelled (last xs)"
  shows "n + 1 \<le> end_label n xs"
  using assms
proof (induction xs arbitrary: n)
  case (Cons x xs)
  show ?case
  proof (cases "xs = []")
    case True
    with Cons.prems show ?thesis by (simp add: after_label_def)
  next
    case False
    with Cons.prems Cons.IH [of "after_label n x"] show ?thesis
      by (auto simp: after_label_def split: if_splits)
  qed
qed simp

lemma label_found:
  assumes "n \<le> L" and "L < end_label n xs"
  shows "\<exists>z \<in> set (assign_labels n xs). in_has_label z \<and> in_is_local_numeric_label z \<and> in_label z = show_int L"
  using assms
proof (induction xs arbitrary: n)
  case (Cons x xs)
  show ?case
  proof (cases "labelled x \<and> L = n")
    case True
    then show ?thesis by (auto simp: with_label_def labelled_def)
  next
    case False
    with Cons.prems have "after_label n x \<le> L" by (auto simp: after_label_def)
    with Cons.IH [of "after_label n x"] Cons.prems show ?thesis by auto
  qed
qed simp

section \<open>The branch targets\<close>

definition ok_state :: "branch_state \<Rightarrow> bool" where
  "ok_state st \<longleftrightarrow> br_cnt st < length (br_idx st) \<and> (\<forall>b \<in> set (br_idx st). 1 \<le> b)"

lemma next_branch_idx_ok:
  assumes "ok_state st"
  shows "\<exists>st'. next_branch_idx st = Inr st' \<and> ok_state st' \<and> br_target st' = br_target st"
proof (cases "br_cnt st + 1 = length (br_idx st)")
  case True
  obtain bi t where s: "shuffle (br_idx st) (br_tape st) = Inr (bi, t)" using shuffle_total by blast
  then have m: "mset bi = mset (br_idx st)" by (rule shuffle_mset)
  have "length bi = length (br_idx st)" "set bi = set (br_idx st)"
    using mset_eq_length [OF m] mset_eq_setD [OF m] by simp_all
  with True s assms show ?thesis by (auto simp: next_branch_idx_def ok_state_def)
next
  case False
  with assms show ?thesis by (auto simp: next_branch_idx_def ok_state_def)
qed

lemma target_label_bounds:
  assumes "ok_state st"
  shows "target_label N st x \<le> N - 1 \<and> (target_label N st x = N - 1 \<or> in_idx x + 1 \<le> target_label N st x)"
proof -
  have "1 \<le> br_idx st ! br_cnt st" using assms by (simp add: ok_state_def)
  then show ?thesis by (simp add: target_label_def Let_def)
qed

lemma convert2asm_ok: "in_class x \<noteq> DEFINE_AMO_INSTR \<Longrightarrow> \<exists>s. convert2asm x = Inr s"
  by (cases "in_class x") (simp_all add: convert2asm_def)

lemma assign_branch_open:
  assumes "ok_state st" and "open_branch x" and "in_class x \<noteq> DEFINE_AMO_INSTR"
  shows "\<exists>st'. assign_branch N st x =
      Inr (x\<lparr>in_imm_str := Some (show_int (target_label N st x) @ ''f''), in_branch_assigned := True\<rparr>, st') \<and>
    ok_state st' \<and> br_target st' = insert (target_label N st x) (br_target st)"
proof -
  from next_branch_idx_ok [OF assms(1)] obtain st' where
    st': "next_branch_idx st = Inr st'" "ok_state st'" "br_target st' = br_target st" by blast
  from convert2asm_ok [OF assms(3)] obtain s where "convert2asm x = Inr s" by blast
  with st' assms(2) show ?thesis
    by (auto simp: assign_branch_def Let_def ok_state_def)
qed

lemma assign_branch_ok:
  assumes "ok_state st" and "in_category x = BRANCH \<Longrightarrow> in_class x \<noteq> DEFINE_AMO_INSTR"
  shows "\<exists>y st'. assign_branch N st x = Inr (y, st') \<and> ok_state st' \<and> br_target st \<subseteq> br_target st' \<and>
    in_has_label y = in_has_label x \<and> in_label y = in_label x \<and>
    in_is_local_numeric_label y = in_is_local_numeric_label x \<and>
    (open_branch x \<longrightarrow> in_imm_str y = Some (show_int (target_label N st x) @ ''f'') \<and>
      target_label N st x \<in> br_target st')"
proof (cases "open_branch x")
  case True
  then have "in_class x \<noteq> DEFINE_AMO_INSTR" using assms(2) by (simp add: open_branch_def)
  from assign_branch_open [OF assms(1) True this] show ?thesis by fastforce
qed (use assms(1) in \<open>auto simp: assign_branch_def\<close>)

text \<open>A numeric label is never lost as a text, and it is kept when it is a target.\<close>

definition numeric :: "instr \<Rightarrow> bool" where
  "numeric x \<longleftrightarrow> (in_is_local_numeric_label x \<longrightarrow> (\<exists>n. in_label x = show_int n))"

lemma drop_label_ok:
  assumes "numeric x"
  shows "\<exists>y. drop_label st x = Inr y \<and> in_imm_str y = in_imm_str x \<and> in_label y = in_label x \<and>
    (in_has_label x \<and> in_is_local_numeric_label x \<and> in_label x = show_int L \<and> L \<in> br_target st
      \<longrightarrow> in_has_label y)"
  using assms
  by (auto simp: drop_label_def numeric_def py_int_show show_int_inj)

lemma numeric_with_label: "\<not> in_is_local_numeric_label x \<Longrightarrow> numeric (with_label n x)"
  by (auto simp: numeric_def with_label_def)

text \<open>What the loop keeps of a suffix: the labels that already are targets.\<close>

definition keeps :: "int set \<Rightarrow> instr list \<Rightarrow> instr list \<Rightarrow> bool" where
  "keeps bt zs ys \<longleftrightarrow>
     list_all2 (\<lambda>z y. in_label y = in_label z \<and>
       (\<forall>L \<in> bt. in_has_label z \<and> in_is_local_numeric_label z \<and> in_label z = show_int L
         \<longrightarrow> in_has_label y)) zs ys"

fun forward :: "instr list \<Rightarrow> instr list \<Rightarrow> bool" where
  "forward (x # xs) (y # ys) \<longleftrightarrow>
     (open_branch x \<longrightarrow> (\<exists>L. in_imm_str y = Some (show_int L @ ''f'') \<and>
        (\<exists>z \<in> set ys. in_has_label z \<and> in_label z = show_int L))) \<and> forward xs ys"
| "forward _ _ \<longleftrightarrow> True"

lemma keeps_found:
  assumes "keeps bt zs ys" and "L \<in> bt"
    and "\<exists>z \<in> set zs. in_has_label z \<and> in_is_local_numeric_label z \<and> in_label z = show_int L"
  shows "\<exists>y \<in> set ys. in_has_label y \<and> in_label y = show_int L"
  using assms unfolding keeps_def
  by (induction zs ys rule: list_all2_induct) auto

lemma resolve_forward:
  assumes "ok_state st" and "\<forall>x \<in> set xs. \<not> in_is_local_numeric_label x"
    and "\<forall>x \<in> set xs. in_category x = BRANCH \<longrightarrow> in_class x \<noteq> DEFINE_AMO_INSTR"
    and "xs \<noteq> [] \<Longrightarrow> labelled (last xs) \<and> in_category (last xs) \<noteq> BRANCH"
    and "N = end_label n xs"
  shows "\<exists>ys st'. resolve N st (assign_labels n xs) = Inr (ys, st') \<and>
    keeps (br_target st) (assign_labels n xs) ys \<and> forward xs ys"
  using assms
proof (induction xs arbitrary: st n)
  case Nil
  then show ?case by (simp add: keeps_def)
next
  case (Cons x xs)
  let ?z = "with_label n x" and ?n = "after_label n x"
  have "in_category ?z = BRANCH \<Longrightarrow> in_class ?z \<noteq> DEFINE_AMO_INSTR" using Cons.prems(3) by simp
  from assign_branch_ok [OF Cons.prems(1) this, of N] obtain y st1 where
    y: "assign_branch N st ?z = Inr (y, st1)" "ok_state st1" "br_target st \<subseteq> br_target st1"
      "in_has_label y = in_has_label ?z" "in_label y = in_label ?z"
      "in_is_local_numeric_label y = in_is_local_numeric_label ?z"
      "open_branch x \<Longrightarrow> in_imm_str y = Some (show_int (target_label N st ?z) @ ''f'') \<and>
        target_label N st ?z \<in> br_target st1"
    by auto
  have num: "numeric y" using numeric_with_label [of x n] Cons.prems(2) y(5,6) by (simp add: numeric_def)
  from drop_label_ok [OF num] obtain w where
    w: "drop_label st1 y = Inr w" "in_imm_str w = in_imm_str y" "in_label w = in_label y"
    and kept: "\<And>L. in_has_label y \<and> in_is_local_numeric_label y \<and> in_label y = show_int L \<and>
      L \<in> br_target st1 \<Longrightarrow> in_has_label w"
    by (metis sum.inject(2))
  have "\<exists>ys st'. resolve N st1 (assign_labels ?n xs) = Inr (ys, st') \<and>
    keeps (br_target st1) (assign_labels ?n xs) ys \<and> forward xs ys"
    using Cons.prems y(2) by (intro Cons.IH) auto
  then obtain ys st' where ys: "resolve N st1 (assign_labels ?n xs) = Inr (ys, st')"
    "keeps (br_target st1) (assign_labels ?n xs) ys" "forward xs ys" by blast
  have "\<exists>z \<in> set ys. in_has_label z \<and> in_label z = show_int (target_label N st ?z)" if "open_branch x"
  proof (rule keeps_found [OF ys(2)])
    show "target_label N st ?z \<in> br_target st1" using y(7) [OF that] by simp
    have "xs \<noteq> []" using that Cons.prems(4) by (auto simp: open_branch_def)
    then have "labelled (last xs)" "xs \<noteq> []" using Cons.prems(4) by auto
    with end_label_last have "?n + 1 \<le> N" using Cons.prems(5) by simp
    then show "\<exists>z \<in> set (assign_labels ?n xs). in_has_label z \<and> in_is_local_numeric_label z \<and>
        in_label z = show_int (target_label N st ?z)"
      using target_label_bounds [OF Cons.prems(1), of N ?z] Cons.prems(5)
      by (intro label_found) (auto simp: after_label_def split: if_splits)
  qed
  then have "forward (x # xs) (w # ys)" using y(7) w(2) ys(3) by auto
  moreover have "keeps (br_target st) (?z # assign_labels ?n xs) (w # ys)"
    using ys(2) y(3-6) w(3) kept unfolding keeps_def
    by (auto elim!: list_all2_mono)
  moreover have "resolve N st (assign_labels n (x # xs)) = Inr (w # ys, st')"
    using y(1) w(1) ys(1) by simp
  ultimately show ?case unfolding assign_labels.simps by (intro exI conjI)
qed

lemma forward_nth:
  "forward xs ys \<Longrightarrow> length ys = length xs \<Longrightarrow> j < length xs \<Longrightarrow> open_branch (xs ! j) \<Longrightarrow>
    \<exists>L k. in_imm_str (ys ! j) = Some (show_int L @ ''f'') \<and> j < k \<and> k < length ys \<and>
      in_has_label (ys ! k) \<and> in_label (ys ! k) = show_int L"
proof (induction xs ys arbitrary: j rule: forward.induct)
  case (1 x xs y ys)
  show ?case
  proof (cases j)
    case 0
    with 1 obtain L z where L: "in_imm_str y = Some (show_int L @ ''f'')" "z \<in> set ys" "in_has_label z"
      "in_label z = show_int L" by auto
    then obtain k where "k < length ys" "z = ys ! k" by (auto simp: in_set_conv_nth)
    with L 0 show ?thesis by (intro exI [of _ L] exI [of _ "Suc k"]) auto
  next
    case (Suc i)
    with 1 have "\<exists>L k. in_imm_str (ys ! i) = Some (show_int L @ ''f'') \<and> i < k \<and> k < length ys \<and>
      in_has_label (ys ! k) \<and> in_label (ys ! k) = show_int L" by (intro "1.IH") auto
    then obtain L k where "in_imm_str (ys ! i) = Some (show_int L @ ''f'')" "i < k" "k < length ys"
      "in_has_label (ys ! k)" "in_label (ys ! k) = show_int L" by blast
    with Suc show ?thesis by (intro exI [of _ L] exI [of _ "Suc k"]) auto
  qed
qed auto

lemma keeps_length: "keeps bt zs ys \<Longrightarrow> length ys = length zs"
  by (auto simp: keeps_def dest: list_all2_lengthD)

section \<open>Inserting the directed streams\<close>

text \<open>An insertion at a random place keeps the last instruction where it is.\<close>

definition sound_stream :: "instr list \<Rightarrow> bool" where
  "sound_stream xs \<longleftrightarrow> xs \<noteq> [] \<and> labelled (last xs) \<and> in_category (last xs) \<noteq> BRANCH"

lemma insert_stream_random:
  assumes "xs \<noteq> []" and "\<exists>x \<in> set xs. \<not> in_atomic x"
  shows "\<exists>k t'. insert_instr_stream xs new (-1) False t = Inr (take k xs @ new @ drop k xs, t') \<and>
    k < length xs \<and> \<not> in_atomic (xs ! k)"
proof -
  from choose_place_cases [OF assms(1), of t] assms(2) obtain k t' where
    "choose_place xs t = Inr (int k, t')" "k < length xs" "\<not> in_atomic (xs ! k)" by auto
  with assms(1) show ?thesis by (auto simp: insert_instr_stream_def splice_def)
qed

lemma insert_directed_ok:
  assumes "sound_stream xs"
  shows "\<exists>ys t'. insert_directed xs ds t = Inr (ys, t') \<and> sound_stream ys \<and>
    set ys = set xs \<union> (\<Union>d \<in> set ds. set d)"
  using assms
proof (induction ds arbitrary: xs t)
  case Nil
  then show ?case by (simp add: insert_directed_def)
next
  case (Cons d ds)
  have ne: "xs \<noteq> []" and "\<not> in_atomic (last xs)" using Cons.prems by (auto simp: sound_stream_def labelled_def)
  then have "\<exists>x \<in> set xs. \<not> in_atomic x" by (intro bexI [of _ "last xs"]) simp_all
  from insert_stream_random [OF ne this, of d t] obtain k t1 where
    ins: "insert_instr_stream xs d (-1) False t = Inr (take k xs @ d @ drop k xs, t1)" and k: "k < length xs"
    by blast
  let ?ys = "take k xs @ d @ drop k xs"
  have "last ?ys = last xs" using k by simp
  then have "sound_stream ?ys" using Cons.prems k by (simp add: sound_stream_def)
  from Cons.IH [OF this, of t1] obtain ys t' where
    ys: "insert_directed ?ys ds t1 = Inr (ys, t')" "sound_stream ys" "set ys = set ?ys \<union> (\<Union>d \<in> set ds. set d)"
    by blast
  have "set ?ys = set xs \<union> set d"
    using set_append [of "take k xs" "drop k xs"] by auto
  with ys ins show ?case by (auto simp: insert_directed_def)
qed

lemma randints_ge: "randints n a b t = Inr (xs, t') \<Longrightarrow> length xs = n \<and> (\<forall>x \<in> set xs. a \<le> x)"
  by (auto dest: randints_range)

section \<open>The processed program\<close>

definition plain_instr :: "instr \<Rightarrow> bool" where
  "plain_instr x \<longleftrightarrow> \<not> in_is_local_numeric_label x \<and>
     (in_category x = BRANCH \<longrightarrow> in_class x \<noteq> DEFINE_AMO_INSTR)"

lemma post_process_forward:
  assumes xs: "sound_stream xs" and plain: "\<forall>x \<in> set xs \<union> (\<Union>d \<in> set ds. set d). plain_instr x"
    and step: "1 \<le> cfg_max_branch_step cfg" and pct: "p \<le> 0" "h \<le> 0"
  shows "\<exists>ys t1 ws t2. insert_directed xs ds t = Inr (ys, t1) \<and>
    post_process_instr cfg p h ds xs t = Inr (ws, t2) \<and> length ws = length ys \<and> forward ys ws"
proof -
  from insert_directed_ok [OF xs, of ds t] obtain ys t1 where
    ys: "insert_directed xs ds t = Inr (ys, t1)" "sound_stream ys" "set ys = set xs \<union> (\<Union>d \<in> set ds. set d)"
    by blast
  from randints_total [OF step, of 30 t1] obtain bi t3 where
    bi: "randints 30 1 (cfg_max_branch_step cfg) t1 = Inr (bi, t3)" by blast
  let ?st = "\<lparr>br_cnt = 0, br_idx = bi, br_target = {}, br_tape = t3\<rparr>"
  have "ok_state ?st" using randints_range [OF bi] by (auto simp: ok_state_def)
  moreover have "\<forall>x \<in> set ys. \<not> in_is_local_numeric_label x"
    "\<forall>x \<in> set ys. in_category x = BRANCH \<longrightarrow> in_class x \<noteq> DEFINE_AMO_INSTR"
    using plain by (simp_all add: ys(3) plain_instr_def)
  moreover have "labelled (last ys) \<and> in_category (last ys) \<noteq> BRANCH" using ys(2) by (simp add: sound_stream_def)
  ultimately have "\<exists>ws st'. resolve (end_label 0 ys) ?st (assign_labels 0 ys) = Inr (ws, st') \<and>
    keeps (br_target ?st) (assign_labels 0 ys) ws \<and> forward ys ws"
    by (intro resolve_forward [OF _ _ _ _ refl]) simp_all
  then obtain ws st' where
    ws: "resolve (end_label 0 ys) ?st (assign_labels 0 ys) = Inr (ws, st')"
      "keeps (br_target ?st) (assign_labels 0 ys) ws" "forward ys ws" by blast
  have "post_process_instr cfg p h ds xs t = Inr (ws, br_tape st')"
    by (simp add: post_process_instr_def ys(1) label_all_plain [OF pct] bi ws(1))
  moreover have "length ws = length ys" using keeps_length [OF ws(2)] by simp
  ultimately show ?thesis using ys(1) ws(3) by blast
qed

end
