(* ===== verification/Pygen_Imm_Facts.thy ===== *)
theory Pygen_Imm_Facts
  imports Pygen_Instr
begin

text \<open>
  The immediate an instruction prints: what the shifts and masks of \<open>extend_imm\<close> compute, in terms
  of the low bits of the value the solver chose.
\<close>

section \<open>What construction leaves unchanged\<close>

definition same_imm :: "instr \<Rightarrow> instr \<Rightarrow> bool" where
  "same_imm i j \<longleftrightarrow> in_imm j = in_imm i \<and> in_imm_len j = in_imm_len i \<and> in_imm_mask j = in_imm_mask i \<and>
     in_imm_align j = in_imm_align i \<and> in_format j = in_format i \<and> in_imm_type j = in_imm_type i \<and>
     in_class j = in_class i \<and> in_name j = in_name i"

lemma same_imm_refl [simp]: "same_imm i i"
  by (simp add: same_imm_def)

lemma same_imm_trans: "same_imm i j \<Longrightarrow> same_imm j k \<Longrightarrow> same_imm i k"
  by (simp add: same_imm_def)

lemma same_imm_flags [simp]:
  "same_imm i (j\<lparr>has_rs1 := b\<rparr>) = same_imm i j"
  "same_imm i (j\<lparr>has_rs2 := b\<rparr>) = same_imm i j"
  "same_imm i (j\<lparr>has_rs3 := b\<rparr>) = same_imm i j"
  "same_imm i (j\<lparr>has_rd := b\<rparr>) = same_imm i j"
  "same_imm i (j\<lparr>has_imm := b\<rparr>) = same_imm i j"
  "same_imm i (j\<lparr>has_fs1 := b\<rparr>) = same_imm i j"
  "same_imm i (j\<lparr>has_fs2 := b\<rparr>) = same_imm i j"
  "same_imm i (j\<lparr>has_fs3 := b\<rparr>) = same_imm i j"
  "same_imm i (j\<lparr>has_fd := b\<rparr>) = same_imm i j"
  "same_imm i (j\<lparr>in_rd := r\<rparr>) = same_imm i j"
  by (simp_all add: same_imm_def)

lemma same_imm_base: "same_imm i (base_set_rand_mode i)"
  by (simp add: base_set_rand_mode_def base_rand_format_def Let_def)

lemma same_imm_if: "(c \<Longrightarrow> same_imm i j) \<Longrightarrow> (\<not> c \<Longrightarrow> same_imm i k) \<Longrightarrow> same_imm i (if c then j else k)"
  by simp

lemma same_imm_c: "same_imm i (c_set_rand_mode i)"
  unfolding c_set_rand_mode_def by (intro same_imm_if) simp_all

lemma same_imm_fp: "same_imm i (fp_set_rand_mode i)"
  unfolding fp_set_rand_mode_def Let_def by (intro same_imm_if) simp_all

lemma same_imm_b: "same_imm i (b_set_rand_mode i)"
  unfolding b_set_rand_mode_def Let_def by (intro same_imm_if) (simp_all add: same_imm_base)

lemma same_imm_set_rand_mode: "same_imm i (set_rand_mode i)"
  by (cases "in_class i")
     (simp_all add: set_rand_mode_def same_imm_base same_imm_c same_imm_fp same_imm_b)

section \<open>The bits\<close>

lemma and_shift_t: "x AND shift_t = take_bit 32 (x :: int)"
  by (simp add: shift_t_def take_bit_eq_mask mask_numeral)

lemma top_bits:
  fixes x :: int
  assumes "n \<le> 32"
  shows "push_bit (32 - n) x AND shift_t = push_bit (32 - n) (take_bit n x)"
  using assms by (simp add: and_shift_t take_bit_push_bit)

lemma drop_top_bits:
  fixes x :: int
  assumes "n \<le> 32"
  shows "drop_bit (32 - n) (push_bit (32 - n) (take_bit n x)) AND shift_t = take_bit n x"
  using assms by (simp add: and_shift_t drop_bit_push_bit min_def)

lemma and_one_bit:
  fixes x :: int
  shows "drop_bit k (x AND push_bit k 1) = of_bool (bit x k)"
proof -
  have "drop_bit k (x AND push_bit k 1) = drop_bit k x AND 1"
    by (simp add: drop_bit_and drop_bit_push_bit del: push_bit_of_1)
  also have "\<dots> = of_bool (bit x k)"
    by (simp add: and_one_eq bit_iff_odd_drop_bit mod2_eq_if)
  finally show ?thesis .
qed

lemma sign_bit:
  fixes x :: int
  assumes "0 < n" and "n \<le> 32"
  shows "drop_bit 31 (push_bit (32 - n) (take_bit n x) AND 0x80000000) \<noteq> 0 \<longleftrightarrow> bit x (n - 1)"
proof -
  have "31 - (32 - n) = n - 1" "32 - n \<le> 31" using assms by auto
  then have "bit (push_bit (32 - n) (take_bit n x)) 31 \<longleftrightarrow> bit x (n - 1)"
    using assms by (simp add: bit_push_bit_iff bit_take_bit_iff)
  then show ?thesis
    using and_one_bit [of 31 "push_bit (32 - n) (take_bit n x)"] by simp
qed

lemma mask_or_low:
  fixes x :: int
  assumes "n \<le> 32"
  shows "(push_bit n 0xFFFFFFFF AND shift_t) OR take_bit n x = take_bit n x + (2 ^ 32 - 2 ^ n)"
proof -
  have m: "(0xFFFFFFFF :: int) = mask 32" by (simp add: mask_numeral)
  have p: "push_bit n (mask 32) AND shift_t = push_bit n (mask (32 - n) :: int)"
    unfolding and_shift_t
    by (rule bit_eqI) (use assms in \<open>auto simp: bit_take_bit_iff bit_push_bit_iff bit_mask_iff\<close>)
  have "push_bit n (mask (32 - n)) OR take_bit n x = push_bit n (mask (32 - n)) + take_bit n x"
    by (rule disjunctive_add [symmetric]) (simp add: bit_push_bit_iff bit_take_bit_iff)
  moreover have "push_bit n (mask (32 - n)) = (2 ^ 32 - 2 ^ n :: int)"
    using assms by (simp add: push_bit_eq_mult mask_eq_exp_minus_1 left_diff_distrib power_add [symmetric])
  ultimately show ?thesis by (simp add: m p)
qed

lemma signed_take_bit_cases:
  fixes x :: int
  assumes "0 < n"
  shows "signed_take_bit (n - 1) x = (if bit x (n - 1) then take_bit n x - 2 ^ n else take_bit n x)"
  using assms by (cases n) (simp_all add: signed_take_bit_eq_if_negative signed_take_bit_eq_if_positive
    signed_take_bit_eq_take_bit_minus)

section \<open>The value that is printed\<close>

definition keeps_words :: "(int \<Rightarrow> int) \<Rightarrow> bool" where
  "keeps_words store \<longleftrightarrow> (\<forall>x. 0 \<le> x \<and> x < 2 ^ 32 \<longrightarrow> store x = x)"

definition is_signed :: "instr \<Rightarrow> bool" where
  "is_signed i \<longleftrightarrow> in_format i \<noteq> U_FORMAT \<and> in_imm_type i \<notin> {UIMM, NZUIMM}"

lemma take_bit_word:
  fixes x :: int
  assumes "n \<le> 32"
  shows "take_bit n x < 2 ^ 32"
proof -
  have "take_bit n x < 2 ^ n" by simp
  also have "(2 :: int) ^ n \<le> 2 ^ 32" using assms by (intro power_increasing) auto
  finally show ?thesis .
qed

lemma keeps_wordsD:
  assumes "keeps_words store" and "0 \<le> x" and "x < 2 ^ 32"
  shows "store x = x"
  by (rule mp [OF spec [OF assms(1) [unfolded keeps_words_def]]]) (intro conjI assms)

lemma keeps_take_bit: "keeps_words store \<Longrightarrow> n \<le> 32 \<Longrightarrow> store (take_bit n x) = take_bit n x"
  by (rule keeps_wordsD, assumption, simp, erule take_bit_word)

lemma keeps_top:
  assumes "keeps_words store" and "n \<le> 32"
  shows "store (push_bit (32 - n) (take_bit n x)) = push_bit (32 - n) (take_bit n x)"
proof -
  have "push_bit (32 - n) (take_bit n x) = take_bit 32 (push_bit (32 - n) x)"
    using top_bits [OF assms(2), of x] unfolding and_shift_t by (rule sym)
  then show ?thesis using keeps_take_bit [OF assms(1) order_refl] by (rule ssubst)
qed

lemma base_extend_imm_value:
  assumes "keeps_words store" and "0 < in_imm_len i" and "in_imm_len i \<le> 32"
  shows "in_imm (base_extend_imm store i) =
    (if is_signed i \<and> bit (in_imm i) (in_imm_len i - 1)
     then store (in_imm_mask i OR take_bit (in_imm_len i) (in_imm i)) else take_bit (in_imm_len i) (in_imm i))"
proof -
  have e: "in_imm (i\<lparr>in_imm := v\<rparr>) = v" for v by simp
  show ?thesis
    unfolding base_extend_imm_def Let_def e top_bits [OF assms(3)] keeps_top [OF assms(1,3)]
      drop_top_bits [OF assms(3)] keeps_take_bit [OF assms(1,3)] sign_bit [OF assms(2,3)] is_signed_def
    by (rule if_cong) blast+
qed

lemma base_extend_imm_align: "in_imm_align (base_extend_imm store i) = in_imm_align i"
proof -
  have e: "in_imm_align (i\<lparr>in_imm := v\<rparr>) = in_imm_align i" for v by simp
  show ?thesis unfolding base_extend_imm_def Let_def e by (rule refl)
qed

lemma uintToInt_low:
  assumes "n < 32"
  shows "uintToInt (take_bit n x) = take_bit n x"
proof -
  have "take_bit n x < 2 ^ n" by simp
  also have "(2 :: int) ^ n \<le> 2 ^ 31" using assms by (intro power_increasing) auto
  finally show ?thesis by (simp add: uintToInt_def mask_width_def)
qed

lemma uintToInt_high:
  assumes "n < 32"
  shows "uintToInt (take_bit n x + (2 ^ 32 - 2 ^ n)) = take_bit n x - 2 ^ n"
proof -
  have high: "\<not> 2 * (t + (2 ^ 32 - p)) < (2 ^ 32 :: int)" if "0 \<le> t" "p \<le> 2 ^ 31" for t p :: int
    using that by simp
  have "(2 :: int) ^ n \<le> 2 ^ 31" using assms by (intro power_increasing) auto
  then have "\<not> 2 * (take_bit n x + (2 ^ 32 - 2 ^ n)) < (2 ^ 32 :: int)" by (intro high) simp
  then show ?thesis unfolding uintToInt_def mask_width_def by simp
qed

lemma base_imm_value:
  assumes "keeps_words store" and "0 < in_imm_len i" and "in_imm_len i < 32"
    and "in_imm_mask i = push_bit (in_imm_len i) 0xFFFFFFFF AND shift_t"
  shows "uintToInt (in_imm (base_extend_imm store i)) =
    (if is_signed i then signed_take_bit (in_imm_len i - 1) (in_imm i)
     else take_bit (in_imm_len i) (in_imm i))"
proof -
  let ?n = "in_imm_len i" and ?x = "in_imm i"
  have n: "?n \<le> 32" using assms(3) by simp
  have "take_bit ?n ?x < 2 ^ ?n" by simp
  moreover have "(2 :: int) ^ ?n \<le> 2 ^ 32" using n by (intro power_increasing) auto
  moreover have "0 \<le> take_bit ?n ?x" by simp
  ultimately have "0 \<le> take_bit ?n ?x + (2 ^ 32 - 2 ^ ?n) \<and> take_bit ?n ?x + (2 ^ 32 - 2 ^ ?n) < 2 ^ 32"
    by linarith
  then have "store (take_bit ?n ?x + (2 ^ 32 - 2 ^ ?n)) = take_bit ?n ?x + (2 ^ 32 - 2 ^ ?n)"
    by (intro keeps_wordsD [OF assms(1)]) (erule conjunct1, erule conjunct2)
  then show ?thesis
    unfolding base_extend_imm_value [OF assms(1,2) n] assms(4) mask_or_low [OF n]
      signed_take_bit_cases [OF assms(2)]
    using uintToInt_low [OF assms(3), of ?x] uintToInt_high [OF assms(3), of ?x] by presburger
qed

section \<open>Constructed instructions\<close>

definition imm_width :: "registration \<Rightarrow> nat" where
  "imm_width r =
     (if reg_format r \<in> {U_FORMAT, J_FORMAT} then 20
      else if reg_format r \<in> {I_FORMAT, S_FORMAT, B_FORMAT} then (if reg_imm r = UIMM then 5 else 12)
      else 0)"

definition imm_signed :: "registration \<Rightarrow> bool" where
  "imm_signed r \<longleftrightarrow> reg_format r \<noteq> U_FORMAT \<and> reg_imm r \<notin> {UIMM, NZUIMM}"

lemma init_instr_simps [simp]:
  "in_class (init_instr ops r) = reg_definer r"
  "in_name (init_instr ops r) = reg_instr r"
  "in_format (init_instr ops r) = reg_format r"
  "in_imm_type (init_instr ops r) = reg_imm r"
  "in_imm (init_instr ops r) = op_imm ops"
  "in_imm_len (init_instr ops r) = 0"
  "in_imm_mask (init_instr ops r) = 0xFFFFFFFF"
  "in_imm_align (init_instr ops r) = 0"
  by (simp_all add: init_instr_def Let_def)

lemma set_imm_len_keeps [simp]:
  "in_class (set_imm_len rcs i) = in_class i"
  "in_name (set_imm_len rcs i) = in_name i"
  "in_format (set_imm_len rcs i) = in_format i"
  "in_imm_type (set_imm_len rcs i) = in_imm_type i"
  "in_imm (set_imm_len rcs i) = in_imm i"
  by (cases "in_class i";
      simp add: set_imm_len_def base_set_imm_len_def c_set_imm_len_def b_set_imm_len_def Let_def)+

lemma created_simps [simp]:
  "in_class (create_instr rcs ops r) = reg_definer r"
  "in_name (create_instr rcs ops r) = reg_instr r"
  "in_format (create_instr rcs ops r) = reg_format r"
  "in_imm_type (create_instr rcs ops r) = reg_imm r"
  "in_imm (create_instr rcs ops r) = op_imm ops"
  using same_imm_set_rand_mode [of "set_imm_len rcs (init_instr ops r)"]
  by (simp_all add: create_instr_def same_imm_def)

lemma created_signed: "is_signed (create_instr rcs ops r) = imm_signed r"
  by (simp add: is_signed_def imm_signed_def)

lemma created_base:
  assumes "reg_definer r \<in> {DEFINE_INSTR, DEFINE_FP_INSTR, DEFINE_AMO_INSTR}"
  shows "in_imm_len (create_instr rcs ops r) = imm_width r"
    and "in_imm_mask (create_instr rcs ops r) = push_bit (imm_width r) 0xFFFFFFFF AND shift_t"
proof -
  have "set_imm_len rcs (init_instr ops r) = base_set_imm_len (init_instr ops r)"
    using assms by (auto simp: set_imm_len_def)
  with same_imm_set_rand_mode [of "set_imm_len rcs (init_instr ops r)"]
  have "in_imm_len (create_instr rcs ops r) = in_imm_len (base_set_imm_len (init_instr ops r))"
    "in_imm_mask (create_instr rcs ops r) = in_imm_mask (base_set_imm_len (init_instr ops r))"
    by (simp_all add: create_instr_def same_imm_def)
  then show "in_imm_len (create_instr rcs ops r) = imm_width r"
    "in_imm_mask (create_instr rcs ops r) = push_bit (imm_width r) 0xFFFFFFFF AND shift_t"
    by (simp_all add: base_set_imm_len_def imm_width_def Let_def)
qed

lemma created_c:
  assumes "is_c_class (reg_definer r)"
  shows "in_imm_mask (create_instr rcs ops r) = 0xFFFFFFFF"
    and "in_imm_len (create_instr rcs ops r) \<le> 11" and "in_imm_align (create_instr rcs ops r) \<le> 12"
proof -
  have "set_imm_len rcs (init_instr ops r) = c_set_imm_len (init_instr ops r)"
    using assms by (auto simp: set_imm_len_def is_c_class_def)
  with same_imm_set_rand_mode [of "set_imm_len rcs (init_instr ops r)"]
  have e: "in_imm_mask (create_instr rcs ops r) = 0xFFFFFFFF"
    "in_imm_len (create_instr rcs ops r) = c_imm_len (init_instr ops r)"
    "in_imm_align (create_instr rcs ops r) = c_imm_align (init_instr ops r)"
    by (simp_all add: create_instr_def same_imm_def c_set_imm_len_def)
  show "in_imm_mask (create_instr rcs ops r) = 0xFFFFFFFF" by (fact e)
  show "in_imm_len (create_instr rcs ops r) \<le> 11" "in_imm_align (create_instr rcs ops r) \<le> 12"
    by (simp_all add: e c_imm_len_def c_imm_align_def)
qed

lemma get_imm_post: "get_imm (post_randomize store i) = show_int (uintToInt (in_imm (extend_imm store i)))"
  by (simp add: get_imm_def post_randomize_def update_imm_str_def)

text \<open>An all-ones word, shifted to the alignment and cut to 32 bits, is the negative of the alignment.\<close>

lemma ones_aligned:
  assumes "a \<le> 12"
  shows "uintToInt (push_bit a (2 ^ 32 - 1) mod 2 ^ 32) = - (2 ^ a)"
proof -
  have "(2 :: int) ^ a \<le> 2 ^ 12" using assms by (intro power_increasing) auto
  then have p: "(2 :: int) ^ a \<le> 2 ^ 12" "(0 :: int) < 2 ^ a" by simp_all
  have "push_bit a (2 ^ 32 - 1) = (2 ^ 32 - 2 ^ a) + (2 ^ a - 1) * (2 ^ 32 :: int)"
    by (simp add: push_bit_eq_mult algebra_simps)
  then have "push_bit a (2 ^ 32 - 1) mod (2 ^ 32 :: int) = (2 ^ 32 - 2 ^ a) mod 2 ^ 32"
    by (simp only: mod_mult_self1)
  also have "\<dots> = 2 ^ 32 - 2 ^ a" using p by (intro mod_pos_pos_trivial) simp_all
  finally show ?thesis using p by (simp add: uintToInt_def mask_width_def)
qed

end
