(* ===== verification/Pygen_Attr_Facts.thy ===== *)
theory Pygen_Attr_Facts
  imports Pygen_Attrs
begin

text \<open>
  Comparing the two tables of instruction attributes. The registrations that the attribute dictionary
  covers list the same names in the same order as the dictionary, so that the comparison goes entry by
  entry.
\<close>

definition attrs_of :: "registration \<Rightarrow> attr_list" where
  "attrs_of r = (reg_format r, reg_category r, reg_group r, Some (reg_imm r))"

text \<open>The default type of an immediate filled in, as the registration does.\<close>

definition filled :: "attr_list \<Rightarrow> attr_list" where
  "filled a = (case a of (f, c, g, i) \<Rightarrow> (f, c, g, Some (case i of None \<Rightarrow> IMM | Some t \<Rightarrow> t)))"

definition disagrees :: "registration \<Rightarrow> bool" where
  "disagrees r =
     (case get_attr_list (reg_instr r) of None \<Rightarrow> False | Some a \<Rightarrow> filled a \<noteq> attrs_of r)"

section \<open>Aligned tables\<close>

lemma map_of_zip_aligned:
  assumes "distinct (map fst t)" and "map k R = map fst t" and "(r, e) \<in> set (zip R t)"
  shows "map_of t (k r) = Some (snd e)"
proof -
  from assms(3) obtain i where i: "i < length R" "i < length t" "r = R ! i" "e = t ! i"
    by (auto simp: set_zip)
  have "k r = fst e" using arg_cong [OF assms(2), of "\<lambda>l. l ! i"] i by simp
  then have "(k r, snd e) \<in> set t" using i by simp
  with assms(1) show ?thesis by simp
qed

lemma filter_aligned:
  assumes "distinct (map fst t)" and "map k R = map fst t"
  shows "filter (\<lambda>r. P r (map_of t (k r))) R = map fst (filter (\<lambda>(r, e). P r (Some (snd e))) (zip R t))"
proof -
  have len: "length R = length t" using arg_cong [OF assms(2), of length] by simp
  have "filter (\<lambda>r. P r (map_of t (k r))) R = filter (\<lambda>r. P r (map_of t (k r))) (map fst (zip R t))"
    by (simp add: len)
  also have "\<dots> = map fst (filter (\<lambda>x. P (fst x) (map_of t (k (fst x)))) (zip R t))"
    by (simp add: filter_map comp_def)
  also have "filter (\<lambda>x. P (fst x) (map_of t (k (fst x)))) (zip R t) =
      filter (\<lambda>(r, e). P r (Some (snd e))) (zip R t)"
    by (rule filter_cong) (auto simp: map_of_zip_aligned [OF assms])
  finally show ?thesis .
qed

section \<open>The tables of the repository\<close>

lemmas attr_tables = attr_switcher_def attrs_rv32i_def attrs_rv32m_rv32c_def attrs_rv32f_def
  attrs_rv32d_def attrs_rv64_def

lemmas uncovered_tables = rv32a_instrs_def rv32b_instrs_def rv32fc_instrs_def rv32dc_instrs_def
  rv64a_instrs_def rv64f_instrs_def rv64d_instrs_def mk_registration_def

text \<open>The dictionary has the third and the fourth multiplication in the other order.\<close>

definition rv32m_reordered :: "registration list" where
  "rv32m_reordered = map (\<lambda>i. rv32m_instrs ! i) [0, 1, 3, 2, 4, 5, 6, 7]"

lemma set_rv32m_reordered: "set rv32m_reordered = set rv32m_instrs"
  by (auto simp: rv32m_reordered_def rv32m_instrs_def mk_registration_def)

definition covered :: "registration list" where
  "covered = rv32i_instrs @ rv32m_reordered @ rv32c_instrs @ rv32f_instrs @ rv32d_instrs @
     rv64i_instrs @ rv64m_instrs @ rv64c_instrs"

lemmas covered_tables = rv32m_reordered_def rv32i_instrs_def rv32m_instrs_def rv32c_instrs_def rv32f_instrs_def
  rv32d_instrs_def rv64i_instrs_def rv64m_instrs_def rv64c_instrs_def mk_registration_def

definition uncovered :: "registration list" where
  "uncovered = rv32a_instrs @ rv32b_instrs @ rv32fc_instrs @ rv32dc_instrs @ rv64a_instrs @
     rv64f_instrs @ rv64d_instrs"

lemma set_registry: "set instr_registry = set covered \<union> set uncovered"
  by (auto simp: instr_registry_def covered_def uncovered_def set_rv32m_reordered)

lemma covered_names: "map reg_instr covered = map fst attr_switcher"
  by (simp add: covered_def covered_tables attr_tables)

lemma attr_names_distinct: "distinct (map fst attr_switcher)"
  by (simp add: attr_tables)

lemma uncovered_names_distinct: "distinct (map reg_instr uncovered)"
  by (simp add: uncovered_def uncovered_tables)

lemma uncovered_no_attrs: "set (map reg_instr uncovered) \<inter> set (map fst attr_switcher) = {}"
  by (simp add: uncovered_def uncovered_tables attr_tables)

lemma uncovered_None: "r \<in> set uncovered \<Longrightarrow> get_attr_list (reg_instr r) = None"
  using uncovered_no_attrs by (auto simp: get_attr_list_def map_of_eq_None_iff)

lemma covered_Some: "r \<in> set covered \<Longrightarrow> get_attr_list (reg_instr r) \<noteq> None"
  using covered_names [THEN arg_cong, of set] by (auto simp: get_attr_list_def map_of_eq_None_iff)

definition uncovered_groups :: "riscv_instr_group_t list" where
  "uncovered_groups = [RV32A, RV32B, RV32FC, RV32DC, RV64A, RV64F, RV64D]"

lemma covered_groups: "list_all (\<lambda>r. reg_group r \<notin> set uncovered_groups) covered"
  by (simp add: covered_def covered_tables uncovered_groups_def)

lemma uncovered_in_groups: "list_all (\<lambda>r. reg_group r \<in> set uncovered_groups) uncovered"
  by (simp add: uncovered_def uncovered_tables uncovered_groups_def)

lemma no_attrs_iff:
  assumes "r \<in> set instr_registry"
  shows "get_attr_list (reg_instr r) = None \<longleftrightarrow> reg_group r \<in> set uncovered_groups"
proof (cases "r \<in> set covered")
  case True
  then have "reg_group r \<notin> set uncovered_groups" using covered_groups by (simp add: list_all_iff)
  with covered_Some [OF True] show ?thesis by simp
next
  case False
  then have r: "r \<in> set uncovered" using assms by (simp add: set_registry)
  then have "reg_group r \<in> set uncovered_groups" using uncovered_in_groups by (simp add: list_all_iff)
  with uncovered_None [OF r] show ?thesis by simp
qed

text \<open>A registration that disagrees, with its attributes and with those of the dictionary.\<close>

definition compared :: "registration \<Rightarrow> string \<times> attr_list \<times> attr_list option" where
  "compared r = (reg_instr r, attrs_of r, get_attr_list (reg_instr r))"

lemma covered_disagreements:
  "map compared (filter disagrees covered) =
    [(''REMU'', (R_FORMAT, LOAD, RV32M, Some IMM), Some (R_FORMAT, ARITHMETIC, RV32M, None)),
     (''FSD'', (S_FORMAT, STORE, RV32D, Some IMM), Some (I_FORMAT, LOAD, RV32D, None)),
     (''C_LD'', (CL_FORMAT, LOAD, RV64C, Some IMM), Some (CL_FORMAT, LOAD, RV64C, Some UIMM)),
     (''C_SD'', (CS_FORMAT, STORE, RV64C, Some IMM), Some (CS_FORMAT, STORE, RV64C, Some UIMM)),
     (''C_LDSP'', (CI_FORMAT, LOAD, RV64C, Some IMM), Some (CI_FORMAT, LOAD, RV64C, Some UIMM)),
     (''C_SDSP'', (CSS_FORMAT, STORE, RV64C, Some IMM), Some (CSS_FORMAT, STORE, RV64C, Some UIMM))]"
proof -
  let ?bad = "filter (\<lambda>(r, e). filled (snd e) \<noteq> attrs_of r) (zip covered attr_switcher)"
  have "filter disagrees covered =
      filter (\<lambda>r. (\<lambda>r a. case a of None \<Rightarrow> False | Some b \<Rightarrow> filled b \<noteq> attrs_of r) r (map_of attr_switcher (reg_instr r))) covered"
    by (simp add: disagrees_def [abs_def] get_attr_list_def)
  also have "\<dots> = map fst ?bad"
    by (subst filter_aligned [OF attr_names_distinct covered_names]) simp
  finally have "map compared (filter disagrees covered) = map (\<lambda>x. compared (fst x)) ?bad" by simp
  also have "\<dots> = map (\<lambda>(r, e). (reg_instr r, attrs_of r, Some (snd e))) ?bad"
    by (rule map_cong [OF refl])
       (auto simp: compared_def get_attr_list_def map_of_zip_aligned [OF attr_names_distinct covered_names])
  finally show ?thesis
    by (simp add: covered_def covered_tables attr_tables filled_def attrs_of_def)
qed

lemma uncovered_agree: "filter disagrees uncovered = []"
  by (simp add: filter_empty_conv disagrees_def uncovered_None)

end
