(* ===== verification/Pygen_Stack.thy ===== *)
theory Pygen_Stack
  imports Pygen_Instr
begin

text \<open>
  Saving and restoring the registers around a trap: \<open>push_gpr_to_kernel_stack\<close> and
  \<open>pop_gpr_from_kernel_stack\<close> of \<open>pygen_src/riscv_instr_pkg.py\<close>, which emit assembly text, and
  what the emitted text does on a machine with the few instructions it uses.
\<close>

section \<open>The emitted text\<close>

text \<open>A member of the register enumeration formats as its number.\<close>

definition xreg :: "riscv_reg_t \<Rightarrow> string" where
  "xreg r = ''x'' @ show_int (reg_val r)"

definition word_bytes :: "core_setting \<Rightarrow> int" where
  "word_bytes rcs = int (cs_XLEN rcs) div 8"

definition MAX_USED_VADDR_BITS :: int where "MAX_USED_VADDR_BITS = 30"

definition enter_text :: "core_setting \<Rightarrow> privileged_reg_t \<Rightarrow> riscv_reg_t \<Rightarrow> riscv_reg_t \<Rightarrow> string list" where
  "enter_text rcs scratch sp tp =
     (if scratch \<in> set (cs_implemented_csr rcs)
      then [''csrrw '' @ xreg sp @ '', '' @ py_hex (csr_addr scratch) @ '', '' @ xreg sp,
            ''add '' @ xreg sp @ '', '' @ xreg tp @ '', zero'']
      else [])"

definition virtual_text :: "core_setting \<Rightarrow> privileged_reg_t \<Rightarrow> bool \<Rightarrow> riscv_reg_t \<Rightarrow> riscv_reg_t \<Rightarrow> string list" where
  "virtual_text rcs status mprv sp tp =
     (if status = ''MSTATUS'' \<and> cs_SATP_MODE rcs \<noteq> BARE \<and> mprv
      then [''csrr '' @ xreg tp @ '', '' @ py_hex (csr_addr status) @ '' // MSTATUS'',
            ''srli '' @ xreg tp @ '', '' @ xreg tp @ '', 11'',
            ''andi '' @ xreg tp @ '', '' @ xreg tp @ '', 0x3'',
            ''xori '' @ xreg tp @ '', '' @ xreg tp @ '', 0x3'',
            ''bnez '' @ xreg tp @ '', 1f'',
            ''slli '' @ xreg sp @ '', '' @ xreg sp @ '', '' @
              show_int (int (cs_XLEN rcs) - MAX_USED_VADDR_BITS),
            ''srli '' @ xreg sp @ '', '' @ xreg sp @ '', '' @
              show_int (int (cs_XLEN rcs) - MAX_USED_VADDR_BITS)]
      else [])"

definition slot_text :: "core_setting \<Rightarrow> string \<Rightarrow> riscv_reg_t \<Rightarrow> nat \<Rightarrow> string" where
  "slot_text rcs name sp i =
     name @ '' x'' @ show_int (int i) @ '', '' @ show_int (int i * word_bytes rcs) @ ''('' @ xreg sp @ '')''"

definition push_gpr_to_kernel_stack ::
  "core_setting \<Rightarrow> privileged_reg_t \<Rightarrow> privileged_reg_t \<Rightarrow> bool \<Rightarrow> riscv_reg_t \<Rightarrow> riscv_reg_t \<Rightarrow>
     string list \<Rightarrow> string list" where
  "push_gpr_to_kernel_stack rcs status scratch mprv sp tp instr =
     instr @ enter_text rcs scratch sp tp @ virtual_text rcs status mprv sp tp @
     [''1: addi '' @ xreg sp @ '', '' @ xreg sp @ '', -'' @ show_int (31 * word_bytes rcs)] @
     map (slot_text rcs (if cs_XLEN rcs = 32 then ''sw'' else ''sd'') sp) [1..<32]"

definition pop_gpr_from_kernel_stack ::
  "core_setting \<Rightarrow> privileged_reg_t \<Rightarrow> privileged_reg_t \<Rightarrow> bool \<Rightarrow> riscv_reg_t \<Rightarrow> riscv_reg_t \<Rightarrow>
     string list \<Rightarrow> string list" where
  "pop_gpr_from_kernel_stack rcs status scratch mprv sp tp instr =
     instr @ map (slot_text rcs (if cs_XLEN rcs = 32 then ''lw'' else ''ld'') sp) [1..<32] @
     [''addi '' @ xreg sp @ '', '' @ xreg sp @ '', '' @ show_int (31 * word_bytes rcs)] @
     (if scratch \<in> set (cs_implemented_csr rcs)
      then [''add '' @ xreg tp @ '', '' @ xreg sp @ '', zero'',
            ''csrrw '' @ xreg sp @ '', '' @ py_hex (csr_addr scratch) @ '', '' @ xreg sp]
      else [])"

section \<open>The machine\<close>

text \<open>
  The instructions that the text uses outside the virtual-address path, with the text each has, and
  their effect as the RISC-V manual gives it: registers of \<open>XLEN\<close> bits, register 0 fixed, memory
  by words. The label \<open>1:\<close> belongs to the text only.
\<close>

datatype op =
    Csrrw nat privileged_reg_t nat
  | Add nat nat
  | Addi bool nat nat int
  | Store nat int nat
  | Load nat int nat

record mstate =
  gpr :: "nat \<Rightarrow> int"
  mem :: "int \<Rightarrow> int"
  csr :: "privileged_reg_t \<Rightarrow> int"

definition xtext :: "nat \<Rightarrow> string" where
  "xtext i = ''x'' @ show_int (int i)"

fun op_text :: "nat \<Rightarrow> op \<Rightarrow> string" where
  "op_text xlen (Csrrw rd c rs) = ''csrrw '' @ xtext rd @ '', '' @ py_hex (csr_addr c) @ '', '' @ xtext rs"
| "op_text xlen (Add rd rs) = ''add '' @ xtext rd @ '', '' @ xtext rs @ '', zero''"
| "op_text xlen (Addi lab rd rs imm) =
     (if lab then ''1: addi '' else ''addi '') @ xtext rd @ '', '' @ xtext rs @ '', '' @
     (if imm < 0 then ''-'' @ show_int (- imm) else show_int imm)"
| "op_text xlen (Store rs offset base) =
     (if xlen = 32 then ''sw'' else ''sd'') @ '' '' @ xtext rs @ '', '' @ show_int offset @ ''('' @ xtext base @ '')''"
| "op_text xlen (Load rd offset base) =
     (if xlen = 32 then ''lw'' else ''ld'') @ '' '' @ xtext rd @ '', '' @ show_int offset @ ''('' @ xtext base @ '')''"

definition wrap :: "nat \<Rightarrow> int \<Rightarrow> int" where
  "wrap xlen x = x mod 2 ^ xlen"

definition set_gpr :: "nat \<Rightarrow> nat \<Rightarrow> int \<Rightarrow> mstate \<Rightarrow> mstate" where
  "set_gpr xlen i v s = (if i = 0 then s else s\<lparr>gpr := (gpr s)(i := wrap xlen v)\<rparr>)"

definition address :: "nat \<Rightarrow> int \<Rightarrow> int \<Rightarrow> int" where
  "address xlen base offset = wrap xlen (base + offset)"

fun exec :: "nat \<Rightarrow> op \<Rightarrow> mstate \<Rightarrow> mstate" where
  "exec xlen (Csrrw rd c rs) s = set_gpr xlen rd (csr s c) (s\<lparr>csr := (csr s)(c := gpr s rs)\<rparr>)"
| "exec xlen (Add rd rs) s = set_gpr xlen rd (gpr s rs + gpr s 0) s"
| "exec xlen (Addi lab rd rs imm) s = set_gpr xlen rd (gpr s rs + imm) s"
| "exec xlen (Store rs offset base) s =
     s\<lparr>mem := (mem s)(address xlen (gpr s base) offset := gpr s rs)\<rparr>"
| "exec xlen (Load rd offset base) s = set_gpr xlen rd (mem s (address xlen (gpr s base) offset)) s"

definition run :: "nat \<Rightarrow> op list \<Rightarrow> mstate \<Rightarrow> mstate" where
  "run xlen ops s = fold (exec xlen) ops s"

section \<open>The operations of the text\<close>

definition reg_no :: "riscv_reg_t \<Rightarrow> nat" where
  "reg_no r = nat (reg_val r)"

definition push_ops :: "core_setting \<Rightarrow> privileged_reg_t \<Rightarrow> riscv_reg_t \<Rightarrow> riscv_reg_t \<Rightarrow> op list" where
  "push_ops rcs scratch sp tp =
     (if scratch \<in> set (cs_implemented_csr rcs)
      then [Csrrw (reg_no sp) scratch (reg_no sp), Add (reg_no sp) (reg_no tp)] else []) @
     [Addi True (reg_no sp) (reg_no sp) (- (31 * word_bytes rcs))] @
     map (\<lambda>i. Store i (int i * word_bytes rcs) (reg_no sp)) [1..<32]"

definition pop_ops :: "core_setting \<Rightarrow> privileged_reg_t \<Rightarrow> riscv_reg_t \<Rightarrow> riscv_reg_t \<Rightarrow> op list" where
  "pop_ops rcs scratch sp tp =
     map (\<lambda>i. Load i (int i * word_bytes rcs) (reg_no sp)) [1..<32] @
     [Addi False (reg_no sp) (reg_no sp) (31 * word_bytes rcs)] @
     (if scratch \<in> set (cs_implemented_csr rcs)
      then [Add (reg_no tp) (reg_no sp), Csrrw (reg_no sp) scratch (reg_no sp)] else [])"

lemma reg_val_nonneg: "0 \<le> reg_val r"
  by (cases r) simp_all

lemma reg_val_less: "reg_val r < 32"
  by (cases r) simp_all

lemma xtext_reg_no: "xtext (reg_no r) = xreg r"
  by (simp add: xtext_def xreg_def reg_no_def reg_val_nonneg)

lemma reg_no_range: "r \<noteq> ZERO \<Longrightarrow> 1 \<le> reg_no r \<and> reg_no r < 32"
  by (cases r) (simp_all add: reg_no_def)

lemma reg_no_inj: "reg_no r = reg_no q \<longleftrightarrow> r = q"
proof
  assume "reg_no r = reg_no q"
  then have "reg_val r = reg_val q"
    using reg_val_nonneg [of r] reg_val_nonneg [of q] by (simp add: reg_no_def)
  then show "r = q" by (cases r; cases q; simp)
qed simp

lemma slot_text_store:
  "slot_text rcs (if cs_XLEN rcs = 32 then ''sw'' else ''sd'') sp i =
    op_text (cs_XLEN rcs) (Store i (int i * word_bytes rcs) (reg_no sp))"
  by (simp add: slot_text_def xtext_reg_no) (simp add: xtext_def)

lemma slot_text_load:
  "slot_text rcs (if cs_XLEN rcs = 32 then ''lw'' else ''ld'') sp i =
    op_text (cs_XLEN rcs) (Load i (int i * word_bytes rcs) (reg_no sp))"
  by (simp add: slot_text_def xtext_reg_no) (simp add: xtext_def)

text \<open>Outside the virtual-address path, what is emitted is the text of these operations.\<close>

lemma push_text:
  assumes "\<not> (status = ''MSTATUS'' \<and> cs_SATP_MODE rcs \<noteq> BARE \<and> mprv)" and "0 < word_bytes rcs"
  shows "push_gpr_to_kernel_stack rcs status scratch mprv sp tp ins =
    ins @ map (op_text (cs_XLEN rcs)) (push_ops rcs scratch sp tp)"
proof -
  have "map (slot_text rcs (if cs_XLEN rcs = 32 then ''sw'' else ''sd'') sp) [1..<32] =
      map (op_text (cs_XLEN rcs)) (map (\<lambda>i. Store i (int i * word_bytes rcs) (reg_no sp)) [1..<32])"
    unfolding map_map comp_def slot_text_store by (rule refl)
  moreover have "virtual_text rcs status mprv sp tp = []"
    using assms(1) unfolding virtual_text_def by (rule if_not_P)
  ultimately show ?thesis
    using assms(2)
    by (simp add: push_gpr_to_kernel_stack_def push_ops_def enter_text_def xtext_reg_no del: upt_rec_numeral)
qed

lemma pop_text:
  assumes "0 < word_bytes rcs"
  shows "pop_gpr_from_kernel_stack rcs status scratch mprv sp tp ins =
    ins @ map (op_text (cs_XLEN rcs)) (pop_ops rcs scratch sp tp)"
proof -
  have "map (slot_text rcs (if cs_XLEN rcs = 32 then ''lw'' else ''ld'') sp) [1..<32] =
      map (op_text (cs_XLEN rcs)) (map (\<lambda>i. Load i (int i * word_bytes rcs) (reg_no sp)) [1..<32])"
    unfolding map_map comp_def slot_text_load by (rule refl)
  then show ?thesis
    using assms
    by (simp add: pop_gpr_from_kernel_stack_def pop_ops_def xtext_reg_no del: upt_rec_numeral)
qed

end
