(* ===== verification/Pygen_Stack_Facts.thy ===== *)
theory Pygen_Stack_Facts
  imports Pygen_Stack
begin

text \<open>
  The effect of the emitted save and restore sequences on the machine: the loop of stores fills one
  slot per register, the loop of loads reads them back.
\<close>

section \<open>Slots\<close>

text \<open>The slots of a frame are different words, because the frame is smaller than the address space.\<close>

lemma slots_differ:
  assumes "31 * w < 2 ^ xlen" and "0 < w" and "i < 32" and "j < 32" and "i \<noteq> j"
  shows "address xlen b (int i * w) \<noteq> address xlen b (int j * w)"
proof
  assume "address xlen b (int i * w) = address xlen b (int j * w)"
  then have "(b + int i * w) mod 2 ^ xlen = (b + int j * w) mod 2 ^ xlen"
    by (simp add: address_def wrap_def)
  then have "2 ^ xlen dvd (b + int i * w) - (b + int j * w)" by (rule mod_eq_dvd_iff [THEN iffD1])
  then have "2 ^ xlen dvd (int i - int j) * w" by (simp add: left_diff_distrib)
  moreover have "\<bar>(int i - int j) * w\<bar> < 2 ^ xlen"
  proof -
    have "\<bar>int i - int j\<bar> \<le> 31" using assms(3,4) by linarith
    then have "\<bar>int i - int j\<bar> * w \<le> 31 * w" using assms(2) by (intro mult_right_mono) simp_all
    from le_less_trans [OF this assms(1)] show ?thesis using assms(2) by (simp add: abs_mult)
  qed
  ultimately have "(int i - int j) * w = 0" using zdvd_imp_le by (metis abs_dvd_iff dvd_abs_iff linorder_not_le zero_less_abs_iff zdvd_imp_le)
  with assms(2,5) show False by simp
qed

section \<open>Storing\<close>

definition store_ops :: "int \<Rightarrow> nat \<Rightarrow> nat list \<Rightarrow> op list" where
  "store_ops w b is = map (\<lambda>i. Store i (int i * w) b) is"

definition load_ops :: "int \<Rightarrow> nat \<Rightarrow> nat list \<Rightarrow> op list" where
  "load_ops w b is = map (\<lambda>i. Load i (int i * w) b) is"

lemma run_append: "run xlen (xs @ ys) s = run xlen ys (run xlen xs s)"
  by (simp add: run_def)

lemma run_Nil [simp]: "run xlen [] s = s"
  by (simp add: run_def)

lemma run_Cons: "run xlen (x # xs) s = run xlen xs (exec xlen x s)"
  by (simp add: run_def)

lemma run_stores:
  assumes "31 * w < 2 ^ xlen" and "0 < w" and "distinct is" and "\<forall>i \<in> set is. i < 32"
  shows "gpr (run xlen (store_ops w b is) s) = gpr s \<and> csr (run xlen (store_ops w b is) s) = csr s \<and>
    (\<forall>i \<in> set is. mem (run xlen (store_ops w b is) s) (address xlen (gpr s b) (int i * w)) = gpr s i) \<and>
    (\<forall>a. (\<forall>i \<in> set is. a \<noteq> address xlen (gpr s b) (int i * w)) \<longrightarrow>
      mem (run xlen (store_ops w b is) s) a = mem s a)"
  using assms(3,4)
proof (induction "is" arbitrary: s)
  case Nil
  then show ?case by (simp add: store_ops_def)
next
  case (Cons i "is")
  let ?s = "exec xlen (Store i (int i * w) b) s"
  have IH: "gpr (run xlen (store_ops w b is) ?s) = gpr ?s \<and> csr (run xlen (store_ops w b is) ?s) = csr ?s \<and>
    (\<forall>i \<in> set is. mem (run xlen (store_ops w b is) ?s) (address xlen (gpr ?s b) (int i * w)) = gpr ?s i) \<and>
    (\<forall>a. (\<forall>i \<in> set is. a \<noteq> address xlen (gpr ?s b) (int i * w)) \<longrightarrow>
      mem (run xlen (store_ops w b is) ?s) a = mem ?s a)"
    using Cons.prems by (intro Cons.IH) simp_all
  have "\<forall>j \<in> set is. address xlen (gpr s b) (int i * w) \<noteq> address xlen (gpr s b) (int j * w)"
    using Cons.prems by (intro ballI slots_differ [OF assms(1,2)]) auto
  with IH show ?case by (simp add: store_ops_def run_Cons)
qed

section \<open>Loading\<close>

text \<open>
  When the slot of the base register holds its current value, reading it back on the way does not
  disturb the rest.
\<close>

lemma run_loads:
  assumes "\<forall>i \<in> set is. 0 < i \<and> mem s (address xlen (gpr s b) (int i * w)) = v i \<and> wrap xlen (v i) = v i"
    and "v b = gpr s b"
  shows "mem (run xlen (load_ops w b is) s) = mem s \<and> csr (run xlen (load_ops w b is) s) = csr s \<and>
    (\<forall>j. gpr (run xlen (load_ops w b is) s) j = (if j \<in> set is then v j else gpr s j))"
  using assms
proof (induction "is" arbitrary: s)
  case Nil
  then show ?case by (simp add: load_ops_def)
next
  case (Cons i "is")
  let ?s = "exec xlen (Load i (int i * w) b) s"
  have s: "?s = s\<lparr>gpr := (gpr s)(i := v i)\<rparr>" using Cons.prems by (simp add: set_gpr_def)
  have b: "gpr ?s b = gpr s b" unfolding s using Cons.prems(2) by auto
  have "mem (run xlen (load_ops w b is) ?s) = mem ?s \<and> csr (run xlen (load_ops w b is) ?s) = csr ?s \<and>
    (\<forall>j. gpr (run xlen (load_ops w b is) ?s) j = (if j \<in> set is then v j else gpr ?s j))"
  proof (rule Cons.IH)
    show "v b = gpr ?s b" using Cons.prems(2) b by simp
    show "\<forall>i \<in> set is. 0 < i \<and> mem ?s (address xlen (gpr ?s b) (int i * w)) = v i \<and> wrap xlen (v i) = v i"
      unfolding b unfolding s using Cons.prems(1) by simp
  qed
  then show ?case
    unfolding load_ops_def list.map run_Cons unfolding s by auto
qed

section \<open>Saving and restoring\<close>

definition xlen_ok :: "core_setting \<Rightarrow> bool" where
  "xlen_ok rcs \<longleftrightarrow> cs_XLEN rcs = 32 \<or> cs_XLEN rcs = 64"

lemma word_bytes_ok:
  assumes "xlen_ok rcs"
  shows "0 < word_bytes rcs" "31 * word_bytes rcs < 2 ^ cs_XLEN rcs"
  using assms by (auto simp: xlen_ok_def word_bytes_def)

text \<open>The stack pointer of the kernel: \<open>tp\<close> when there is a scratch register, else \<open>sp\<close> itself.\<close>

definition kernel_sp :: "core_setting \<Rightarrow> privileged_reg_t \<Rightarrow> riscv_reg_t \<Rightarrow> riscv_reg_t \<Rightarrow> mstate \<Rightarrow> int" where
  "kernel_sp rcs scratch sp tp s =
     (if scratch \<in> set (cs_implemented_csr rcs) then gpr s (reg_no tp) else gpr s (reg_no sp))"

definition frame_base :: "core_setting \<Rightarrow> privileged_reg_t \<Rightarrow> riscv_reg_t \<Rightarrow> riscv_reg_t \<Rightarrow> mstate \<Rightarrow> int" where
  "frame_base rcs scratch sp tp s =
     wrap (cs_XLEN rcs) (kernel_sp rcs scratch sp tp s - 31 * word_bytes rcs)"

definition frame_slot :: "core_setting \<Rightarrow> int \<Rightarrow> nat \<Rightarrow> int" where
  "frame_slot rcs base i = address (cs_XLEN rcs) base (int i * word_bytes rcs)"

text \<open>Registers hold words, and register 0 holds 0.\<close>

definition wf_regs :: "core_setting \<Rightarrow> mstate \<Rightarrow> bool" where
  "wf_regs rcs s \<longleftrightarrow> gpr s 0 = 0 \<and> (\<forall>i. wrap (cs_XLEN rcs) (gpr s i) = gpr s i)"

definition prologue_ops :: "core_setting \<Rightarrow> privileged_reg_t \<Rightarrow> riscv_reg_t \<Rightarrow> riscv_reg_t \<Rightarrow> op list" where
  "prologue_ops rcs scratch sp tp =
     (if scratch \<in> set (cs_implemented_csr rcs)
      then [Csrrw (reg_no sp) scratch (reg_no sp), Add (reg_no sp) (reg_no tp)] else []) @
     [Addi True (reg_no sp) (reg_no sp) (- (31 * word_bytes rcs))]"

lemma push_ops_split:
  "push_ops rcs scratch sp tp =
    prologue_ops rcs scratch sp tp @ store_ops (word_bytes rcs) (reg_no sp) [1..<32]"
  by (simp add: push_ops_def prologue_ops_def store_ops_def del: upt_rec_numeral)

lemma push_prologue:
  assumes "wf_regs rcs s" and "sp \<noteq> ZERO" and "tp \<noteq> ZERO" and "sp \<noteq> tp"
  shows "gpr (run (cs_XLEN rcs) (prologue_ops rcs scratch sp tp) s) = (gpr s)(reg_no sp := frame_base rcs scratch sp tp s)"
    and "mem (run (cs_XLEN rcs) (prologue_ops rcs scratch sp tp) s) = mem s"
    and "csr (run (cs_XLEN rcs) (prologue_ops rcs scratch sp tp) s) =
      (if scratch \<in> set (cs_implemented_csr rcs) then (csr s)(scratch := gpr s (reg_no sp)) else csr s)"
proof -
  have z: "reg_no sp \<noteq> 0" "reg_no tp \<noteq> 0" "reg_no tp \<noteq> reg_no sp"
    using reg_no_range [OF assms(2)] reg_no_range [OF assms(3)] assms(4) by (auto simp: reg_no_inj)
  have r: "gpr s 0 = 0" "wrap (cs_XLEN rcs) (gpr s (reg_no tp)) = gpr s (reg_no tp)"
    using assms(1) by (auto simp: wf_regs_def)
  show "gpr (run (cs_XLEN rcs) (prologue_ops rcs scratch sp tp) s) = (gpr s)(reg_no sp := frame_base rcs scratch sp tp s)"
    "mem (run (cs_XLEN rcs) (prologue_ops rcs scratch sp tp) s) = mem s"
    "csr (run (cs_XLEN rcs) (prologue_ops rcs scratch sp tp) s) =
      (if scratch \<in> set (cs_implemented_csr rcs) then (csr s)(scratch := gpr s (reg_no sp)) else csr s)"
    using z r by (auto simp: run_Cons set_gpr_def frame_base_def kernel_sp_def fun_eq_iff prologue_ops_def)
qed

lemma push_effect:
  fixes scratch :: privileged_reg_t
  assumes "xlen_ok rcs" and "wf_regs rcs s" and "sp \<noteq> ZERO" and "tp \<noteq> ZERO" and "sp \<noteq> tp"
  defines "s1 \<equiv> run (cs_XLEN rcs) (push_ops rcs scratch sp tp) s"
    and "base \<equiv> frame_base rcs scratch sp tp s"
  shows "gpr s1 = (gpr s)(reg_no sp := base)"
    and "csr s1 = (if scratch \<in> set (cs_implemented_csr rcs) then (csr s)(scratch := gpr s (reg_no sp)) else csr s)"
    and "1 \<le> i \<Longrightarrow> i < 32 \<Longrightarrow> mem s1 (frame_slot rcs base i) = gpr s1 i"
    and "(\<And>i. 1 \<le> i \<Longrightarrow> i < 32 \<Longrightarrow> a \<noteq> frame_slot rcs base i) \<Longrightarrow> mem s1 a = mem s a"
proof -
  let ?p = "run (cs_XLEN rcs) (prologue_ops rcs scratch sp tp) s"
  note P = push_prologue [OF assms(2-5), of scratch]
  have s1: "s1 = run (cs_XLEN rcs) (store_ops (word_bytes rcs) (reg_no sp) [1..<32]) ?p"
    unfolding s1_def push_ops_split run_append by (rule refl)
  have b: "gpr ?p (reg_no sp) = base" by (simp only: P(1) base_def fun_upd_same)
  have S: "gpr s1 = gpr ?p \<and> csr s1 = csr ?p \<and>
    (\<forall>i \<in> set [1..<32]. mem s1 (address (cs_XLEN rcs) base (int i * word_bytes rcs)) = gpr ?p i) \<and>
    (\<forall>a. (\<forall>i \<in> set [1..<32]. a \<noteq> address (cs_XLEN rcs) base (int i * word_bytes rcs)) \<longrightarrow>
      mem s1 a = mem ?p a)"
    using run_stores [OF word_bytes_ok(2,1) [OF assms(1)], of "[1..<32]" "reg_no sp" ?p]
    unfolding s1 b by (simp del: upt_rec_numeral)
  show "gpr s1 = (gpr s)(reg_no sp := base)" using S P(1) by (simp add: base_def)
  show "csr s1 = (if scratch \<in> set (cs_implemented_csr rcs) then (csr s)(scratch := gpr s (reg_no sp)) else csr s)"
    using S P(3) by simp
  show "1 \<le> i \<Longrightarrow> i < 32 \<Longrightarrow> mem s1 (frame_slot rcs base i) = gpr s1 i"
    using S by (simp add: frame_slot_def del: upt_rec_numeral)
  show "(\<And>i. 1 \<le> i \<Longrightarrow> i < 32 \<Longrightarrow> a \<noteq> frame_slot rcs base i) \<Longrightarrow> mem s1 a = mem s a"
    using S P(2) by (simp add: frame_slot_def del: upt_rec_numeral)
qed

text \<open>The slot of the last register is the word at the old stack pointer, outside the reserved space.\<close>

lemma last_slot:
  assumes "wf_regs rcs s"
  shows "frame_slot rcs (frame_base rcs scratch sp tp s) 31 = kernel_sp rcs scratch sp tp s"
proof -
  have "wrap (cs_XLEN rcs) (kernel_sp rcs scratch sp tp s) = kernel_sp rcs scratch sp tp s"
    using assms by (simp add: wf_regs_def kernel_sp_def)
  then show ?thesis
    by (simp add: frame_slot_def frame_base_def address_def wrap_def mod_simps)
qed

text \<open>
  Restoring from a state that has the frame, the stack pointer and the scratch register as saving left
  them: every register is back.
\<close>

definition same_frame ::
  "core_setting \<Rightarrow> privileged_reg_t \<Rightarrow> riscv_reg_t \<Rightarrow> int \<Rightarrow> mstate \<Rightarrow> mstate \<Rightarrow> bool" where
  "same_frame rcs scratch sp base s1 s2 \<longleftrightarrow>
     gpr s2 (reg_no sp) = gpr s1 (reg_no sp) \<and> gpr s2 0 = 0 \<and> csr s2 scratch = csr s1 scratch \<and>
     (\<forall>i. 1 \<le> i \<and> i < 32 \<longrightarrow> mem s2 (frame_slot rcs base i) = mem s1 (frame_slot rcs base i))"

lemma frame_up:
  assumes "wf_regs rcs s"
  shows "wrap (cs_XLEN rcs) (frame_base rcs scratch sp tp s + 31 * word_bytes rcs) = kernel_sp rcs scratch sp tp s"
  using last_slot [OF assms, of scratch sp tp] by (simp add: frame_slot_def address_def)

lemma restore:
  fixes scratch :: privileged_reg_t
  assumes "xlen_ok rcs" and "wf_regs rcs s" and "sp \<noteq> ZERO" and "tp \<noteq> ZERO" and "sp \<noteq> tp"
    and "same_frame rcs scratch sp (frame_base rcs scratch sp tp s)
      (run (cs_XLEN rcs) (push_ops rcs scratch sp tp) s) s2"
    and "i < 32"
  shows "gpr (run (cs_XLEN rcs) (pop_ops rcs scratch sp tp) s2) i = gpr s i"
proof -
  let ?x = "cs_XLEN rcs" and ?b = "reg_no sp" and ?base = "frame_base rcs scratch sp tp s"
  let ?s1 = "run ?x (push_ops rcs scratch sp tp) s"
  let ?l = "run ?x (load_ops (word_bytes rcs) ?b [1..<32]) s2"
  note P = push_effect [OF assms(1-5), where scratch = scratch]
  have z: "?b \<noteq> 0" "?b < 32" "reg_no tp \<noteq> 0" "reg_no tp < 32" "reg_no tp \<noteq> ?b"
    using reg_no_range [OF assms(3)] reg_no_range [OF assms(4)] assms(5) by (auto simp: reg_no_inj)
  have g1: "gpr ?s1 = (gpr s)(?b := ?base)" by (rule P(1))
  have b2: "gpr s2 ?b = ?base" using assms(6) g1 by (simp add: same_frame_def)
  have wr: "wrap ?x (gpr ?s1 j) = gpr ?s1 j" for j
    using assms(2) unfolding g1 by (auto simp: wf_regs_def frame_base_def wrap_def)
  have slot: "mem s2 (address ?x (gpr s2 ?b) (int j * word_bytes rcs)) = gpr ?s1 j" if "1 \<le> j" "j < 32" for j
  proof -
    have "mem s2 (frame_slot rcs ?base j) = mem ?s1 (frame_slot rcs ?base j)"
      using assms(6) that unfolding same_frame_def by blast
    then show ?thesis unfolding b2 frame_slot_def [symmetric] using P(3) [OF that] by simp
  qed
  have L: "mem ?l = mem s2 \<and> csr ?l = csr s2 \<and>
    (\<forall>j. gpr ?l j = (if j \<in> set [1..<32] then gpr ?s1 j else gpr s2 j))"
  proof (rule run_loads)
    show "\<forall>j \<in> set [1..<32]. 0 < j \<and> mem s2 (address ?x (gpr s2 ?b) (int j * word_bytes rcs)) = gpr ?s1 j \<and>
        wrap ?x (gpr ?s1 j) = gpr ?s1 j"
      using slot wr by (simp del: upt_rec_numeral)
    show "gpr ?s1 ?b = gpr s2 ?b" unfolding g1 b2 by simp
  qed
  have gl: "gpr ?l j = (if j = ?b then ?base else gpr s j)" if "j < 32" for j
  proof (cases "j = 0")
    case True
    then have "gpr ?l j = gpr s2 0" using L by (simp del: upt_rec_numeral)
    then show ?thesis using assms(2,6) z True by (simp add: same_frame_def wf_regs_def)
  next
    case False
    with that have "gpr ?l j = gpr ?s1 j" using L by (simp del: upt_rec_numeral)
    then show ?thesis unfolding g1 by simp
  qed
  have pop: "pop_ops rcs scratch sp tp = load_ops (word_bytes rcs) ?b [1..<32] @
     [Addi False ?b ?b (31 * word_bytes rcs)] @
     (if scratch \<in> set (cs_implemented_csr rcs) then [Add (reg_no tp) ?b, Csrrw ?b scratch ?b] else [])"
    by (simp add: pop_ops_def load_ops_def del: upt_rec_numeral)
  have c: "csr ?l scratch = (if scratch \<in> set (cs_implemented_csr rcs) then gpr s ?b else csr s scratch)"
    using L assms(6) P(2) by (simp add: same_frame_def)
  have w: "wrap ?x (gpr s ?b) = gpr s ?b" "wrap ?x (gpr s (reg_no tp)) = gpr s (reg_no tp)" "gpr s 0 = 0"
    using assms(2) by (simp_all add: wf_regs_def)
  note up = frame_up [OF assms(2), of scratch sp tp]
  note g = gl [OF assms(7)] gl [OF z(2)] gl [of 0, simplified]
  show ?thesis
  proof (cases "scratch \<in> set (cs_implemented_csr rcs)")
    case True
    have "wrap ?x (?base + 31 * word_bytes rcs) = gpr s (reg_no tp)" using up True by (simp add: kernel_sp_def)
    then show ?thesis
      unfolding pop run_append using True z w c g by (simp add: run_Cons set_gpr_def)
  next
    case False
    have "wrap ?x (?base + 31 * word_bytes rcs) = gpr s ?b" using up False by (simp add: kernel_sp_def)
    then show ?thesis
      unfolding pop run_append using False z w c g by (simp add: run_Cons set_gpr_def)
  qed
qed

end
