(* ===== verification/Pygen_Theorems.thy ===== *)
theory Pygen_Theorems
  imports Pygen_Sequence_Facts Pygen_Imm_Facts Pygen_Attr_Facts Pygen_Stack_Facts "HOL-Library.Code_Target_Numeral"
begin

text \<open>
  The properties of the random instruction generator: mixing and inserting streams, the branch targets
  of a processed program, the immediates that are printed, the two tables of instruction attributes, and
  the saving of the registers around a trap.
\<close>

section \<open>Example instructions\<close>

definition zero_ops :: operands where
  "zero_ops = \<lparr>op_csr = 0, op_rs1 = ZERO, op_rs2 = ZERO, op_rs3 = ZERO, op_rd = ZERO, op_fs1 = FT0,
     op_fs2 = FT0, op_fs3 = FT0, op_fd = FT0, op_imm = 0, op_aq = False, op_rl = False\<rparr>"

definition rv32 :: core_setting where
  "rv32 = \<lparr>cs_XLEN = 32, cs_NUM_HARTS = 1, cs_SATP_MODE = BARE, cs_implemented_csr = [],
     cs_supported_isa = [RV32I, RV32M, RV32C], cs_unsupported_instr = [], cs_support_pmp = False\<rparr>"

definition mk :: "riscv_instr_name_t \<Rightarrow> riscv_instr_format_t \<Rightarrow> riscv_instr_category_t \<Rightarrow> instr" where
  "mk n f c = create_instr rv32 zero_ops (mk_registration DEFINE_INSTR n f c RV32I None)"

definition add_i :: instr where "add_i = mk ''ADD'' R_FORMAT ARITHMETIC"
definition sub_i :: instr where "sub_i = mk ''SUB'' R_FORMAT ARITHMETIC"
definition xor_i :: instr where "xor_i = mk ''XOR'' R_FORMAT LOGICAL"
definition beq_i :: instr where "beq_i = mk ''BEQ'' B_FORMAT BRANCH"

section \<open>Streams\<close>

text \<open>
  C31. Mixing a new stream into a stream, not contained, always succeeds, for every sequence of draws,
  and the result is a shuffle of the two: every instruction of both occurs, and the order of each is
  preserved.
\<close>

theorem mix_preserves_order:
  "\<exists>zs t'. mix_instr_stream xs new False t = Inr (zs, t') \<and> zs \<in> shuffles xs new"
  by (rule mix_plain)

text \<open>
  A contained mix of at least two instructions into a stream starts with the first new
  instruction but never ends with the last one: whatever is drawn, that one lands on the last place but
  one, behind it an instruction that was there before. The comment promises that the original stream is
  inside the new one.
\<close>

theorem contained_mix_sticks_out:
  assumes "xs \<noteq> []" and "2 \<le> length new"
  shows "\<exists>zs t'. mix_instr_stream xs new True t = Inr (hd new # butlast zs @ [last new, last zs], t') \<and>
    zs \<in> shuffles xs (butlast (tl new)) \<and> zs \<noteq> []"
  by (rule mix_contained [OF assms])

theorem contained_mix_sticks_out_witness:
  "\<exists>t'. mix_instr_stream [add_i] [sub_i, xor_i] True [] = Inr ([sub_i, xor_i, add_i], t')"
proof -
  have "[add_i] \<noteq> []" "2 \<le> length [sub_i, xor_i]" by simp_all
  from contained_mix_sticks_out [OF this, of "[]"] obtain zs t' where
    m: "mix_instr_stream [add_i] [sub_i, xor_i] True [] =
      Inr (hd [sub_i, xor_i] # butlast zs @ [last [sub_i, xor_i], last zs], t')"
    and zs: "zs \<in> shuffles [add_i] (butlast (tl [sub_i, xor_i]))" by blast
  from zs have "zs = [add_i]" by simp
  with m show ?thesis by simp
qed

text \<open>
  C9. Inserting a stream at a random place of a stream that has an instruction outside the atomic blocks
  always succeeds, keeps both streams whole and in order, and puts the new one directly before an
  instruction that is not atomic: it never splits an atomic block.
\<close>

theorem insertion_spares_atomic:
  assumes "xs \<noteq> []" and "\<exists>x \<in> set xs. \<not> in_atomic x"
  shows "\<exists>k t'. insert_instr_stream xs new (-1) False t = Inr (take k xs @ new @ drop k xs, t') \<and>
    k < length xs \<and> \<not> in_atomic (xs ! k)"
  using assms by (rule insert_stream_random)

theorem insertion_spares_atomic_witness:
  "\<exists>t'. insert_instr_stream [add_i\<lparr>in_atomic := True\<rparr>, sub_i] [xor_i] (-1) False [] =
     Inr ([add_i\<lparr>in_atomic := True\<rparr>, xor_i, sub_i], t')"
proof -
  have a: "\<not> in_atomic sub_i" by code_simp
  then have "\<exists>x \<in> set [add_i\<lparr>in_atomic := True\<rparr>, sub_i]. \<not> in_atomic x" by simp
  from insertion_spares_atomic [OF _ this, of "[xor_i]" "[]"] obtain k t' where
    k: "insert_instr_stream [add_i\<lparr>in_atomic := True\<rparr>, sub_i] [xor_i] (-1) False [] =
      Inr (take k [add_i\<lparr>in_atomic := True\<rparr>, sub_i] @ [xor_i] @ drop k [add_i\<lparr>in_atomic := True\<rparr>, sub_i], t')"
      "k < 2" "\<not> in_atomic ([add_i\<lparr>in_atomic := True\<rparr>, sub_i] ! k)" by auto
  then have "k = 1" by (cases k) auto
  with k(1) show ?thesis by simp
qed

section \<open>Branch targets\<close>

text \<open>
  C6. Post-processing a program whose last instruction is an ordinary one, not a branch, with any
  directed streams and any draws, ends with every open branch resolved forward: its target text is a
  numeric label, and a later instruction carries this label and still has it, although unused labels
  are dropped on the way. No backward or dangling branch can arise.
\<close>

theorem branches_go_forward:
  assumes "xs \<noteq> []" and "in_has_label (last xs)" and "\<not> in_atomic (last xs)"
    and "in_category (last xs) \<noteq> BRANCH"
    and "\<forall>x \<in> set xs \<union> (\<Union>d \<in> set directed. set d). \<not> in_is_local_numeric_label x \<and>
      (in_category x = BRANCH \<longrightarrow> in_class x \<noteq> DEFINE_AMO_INSTR)"
    and "1 \<le> cfg_max_branch_step cfg" and "illegal_pct \<le> 0" and "hint_pct \<le> 0"
  shows "\<exists>ys t1 ws t2. insert_directed xs directed t = Inr (ys, t1) \<and>
    post_process_instr cfg illegal_pct hint_pct directed xs t = Inr (ws, t2) \<and> length ws = length ys \<and>
    (\<forall>j < length ys. open_branch (ys ! j) \<longrightarrow>
      (\<exists>L k. in_imm_str (ws ! j) = Some (show_int L @ ''f'') \<and> j < k \<and> k < length ws \<and>
        in_has_label (ws ! k) \<and> in_label (ws ! k) = show_int L))"
proof -
  have "sound_stream xs" using assms(1-4) by (simp add: sound_stream_def labelled_def)
  moreover have "\<forall>x \<in> set xs \<union> (\<Union>d \<in> set directed. set d). plain_instr x"
    unfolding plain_instr_def by (rule assms(5))
  ultimately obtain ys t1 ws t2 where
    r: "insert_directed xs directed t = Inr (ys, t1)"
      "post_process_instr cfg illegal_pct hint_pct directed xs t = Inr (ws, t2)"
      "length ws = length ys" "forward ys ws"
    using post_process_forward [of xs directed cfg illegal_pct hint_pct t] assms(6-8) by blast
  have "\<forall>j < length ys. open_branch (ys ! j) \<longrightarrow>
      (\<exists>L k. in_imm_str (ws ! j) = Some (show_int L @ ''f'') \<and> j < k \<and> k < length ws \<and>
        in_has_label (ws ! k) \<and> in_label (ws ! k) = show_int L)"
    using forward_nth [OF r(4,3)] by blast
  with r(1-3) show ?thesis by blast
qed

definition small_cfg :: gen_cfg where
  "small_cfg = \<lparr>cfg_enable_sfence = False, cfg_disable_compressed_instr = False,
     cfg_enable_floating_point = False, cfg_enable_b_extension = False, cfg_enable_bitmanip_groups = [],
     cfg_reserved_regs = [], cfg_no_ebreak = True, cfg_no_dret = True, cfg_no_fence = True,
     cfg_no_csr_instr = True, cfg_no_wfi = True, cfg_init_privileged_mode = MACHINE_MODE,
     cfg_enable_illegal_csr_instruction = False, cfg_enable_access_invalid_csr_level = False,
     cfg_invalid_priv_mode_csrs = [], cfg_enable_ebreak_in_debug_rom = False, cfg_max_branch_step = 20\<rparr>"

theorem branches_go_forward_witness:
  "\<exists>ws t2. post_process_instr small_cfg 0 0 [] [beq_i, add_i, sub_i] [] = Inr (ws, t2) \<and>
     (\<exists>L k. in_imm_str (ws ! 0) = Some (show_int L @ ''f'') \<and> 0 < k \<and> k < 3 \<and>
       in_has_label (ws ! k) \<and> in_label (ws ! k) = show_int L)"
proof -
  let ?xs = "[beq_i, add_i, sub_i]"
  have f: "map (\<lambda>x. (in_has_label x, in_atomic x, in_category x, in_is_local_numeric_label x, in_class x)) ?xs =
      [(True, False, BRANCH, False, DEFINE_INSTR), (True, False, ARITHMETIC, False, DEFINE_INSTR),
       (True, False, ARITHMETIC, False, DEFINE_INSTR)]" "open_branch beq_i" by code_simp+
  have l: "?xs \<noteq> []" "in_has_label (last ?xs)" "\<not> in_atomic (last ?xs)" "in_category (last ?xs) \<noteq> BRANCH"
    "\<forall>x \<in> set ?xs \<union> (\<Union>d \<in> set []. set d). \<not> in_is_local_numeric_label x \<and>
      (in_category x = BRANCH \<longrightarrow> in_class x \<noteq> DEFINE_AMO_INSTR)"
    using f(1) by simp_all
  have s: "1 \<le> cfg_max_branch_step small_cfg" by code_simp
  have d: "insert_directed ?xs [] [] = Inr (?xs, [])" by (simp add: insert_directed_def)
  from branches_go_forward [OF l s order_refl order_refl, of "[]"] obtain ys t1 ws t2 where
    r: "insert_directed ?xs [] [] = Inr (ys, t1)"
      "post_process_instr small_cfg 0 0 [] ?xs [] = Inr (ws, t2)" "length ws = length ys"
      "\<forall>j < length ys. open_branch (ys ! j) \<longrightarrow>
        (\<exists>L k. in_imm_str (ws ! j) = Some (show_int L @ ''f'') \<and> j < k \<and> k < length ws \<and>
          in_has_label (ws ! k) \<and> in_label (ws ! k) = show_int L)" by blast
  have ys: "ys = ?xs" using r(1) d by simp
  have "0 < length ys" "open_branch (ys ! 0)" "length ys = 3" using f(2) by (simp_all add: ys)
  with r(2-4) show ?thesis by auto
qed

section \<open>Immediates\<close>

text \<open>
  C19. After randomisation, an integer, floating-point or atomic instruction whose format has an
  immediate prints the low bits of what the solver chose, as many as the format has: as a signed number
  in two's complement, or as an unsigned one for upper immediates and unsigned types. The solver's
  32-bit field is asked only to keep a 32-bit value as it is.
\<close>

theorem immediate_printed:
  assumes "\<And>x. 0 \<le> x \<Longrightarrow> x < 2 ^ 32 \<Longrightarrow> store x = x"
    and "reg_definer r \<in> {DEFINE_INSTR, DEFINE_FP_INSTR, DEFINE_AMO_INSTR}" and "0 < imm_width r"
  shows "get_imm (post_randomize store (create_instr rcs ops r)) =
    show_int (if imm_signed r then signed_take_bit (imm_width r - 1) (op_imm ops)
              else take_bit (imm_width r) (op_imm ops))"
proof -
  let ?i = "create_instr rcs ops r"
  have k: "keeps_words store" unfolding keeps_words_def using assms(1) by blast
  have w: "imm_width r < 32" by (simp add: imm_width_def)
  have "\<not> is_c_class (in_class ?i)" using assms(2) by (auto simp: is_c_class_def)
  then have "extend_imm store ?i = base_extend_imm store ?i" by (simp add: extend_imm_def)
  then show ?thesis
    using base_imm_value [of store ?i] created_base [OF assms(2), of rcs ops] k w assms(3)
    by (simp add: get_imm_post created_signed)
qed

theorem immediate_printed_witness:
  "get_imm (post_randomize (\<lambda>x. x) (create_instr rv32 (zero_ops\<lparr>op_imm := 0xFFF\<rparr>)
     (mk_registration DEFINE_INSTR ''ADDI'' I_FORMAT ARITHMETIC RV32I None))) = ''-1''"
proof -
  let ?r = "mk_registration DEFINE_INSTR ''ADDI'' I_FORMAT ARITHMETIC RV32I None"
  have r: "reg_definer ?r \<in> {DEFINE_INSTR, DEFINE_FP_INSTR, DEFINE_AMO_INSTR}" "0 < imm_width ?r"
    by (simp_all add: mk_registration_def imm_width_def)
  have "show_int (if imm_signed ?r then signed_take_bit (imm_width ?r - 1) (op_imm (zero_ops\<lparr>op_imm := 0xFFF\<rparr>))
      else take_bit (imm_width ?r) (op_imm (zero_ops\<lparr>op_imm := 0xFFF\<rparr>))) = ''-1''" by code_simp
  with immediate_printed [of "\<lambda>x. x" ?r rv32 "zero_ops\<lparr>op_imm := 0xFFF\<rparr>", OF refl r] show ?thesis by simp
qed

text \<open>
  A compressed instruction with a signed immediate that is negative prints minus its alignment,
  whatever the value: the mask that extends the sign is not shifted by the length, so the whole word
  becomes ones. Only \<open>C_LUI\<close>, which is not extended, is spared.
\<close>

theorem compressed_negative_lost:
  assumes "\<And>x. store x = x mod 2 ^ 32"
    and "is_c_class (reg_definer r)" and "reg_instr r \<noteq> ''C_LUI''" and "imm_signed r"
    and "0 < in_imm_len (create_instr rcs ops r)"
    and "bit (op_imm ops) (in_imm_len (create_instr rcs ops r) - 1)"
  shows "get_imm (post_randomize store (create_instr rcs ops r)) =
    show_int (- (2 ^ in_imm_align (create_instr rcs ops r)))"
proof -
  let ?i = "create_instr rcs ops r"
  note c = created_c [OF assms(2), of rcs ops]
  have k: "keeps_words store"
    unfolding keeps_words_def assms(1) by (intro allI impI mod_pos_pos_trivial) (auto elim: conjE)
  have n: "in_imm_len ?i \<le> 32" using c(2) by simp
  have m: "in_imm_mask ?i = mask 32" using c(1) by (simp add: mask_numeral)
  have "mask 32 OR take_bit (in_imm_len ?i) (op_imm ops) = mask 32"
    by (rule bit_eqI) (use n in \<open>auto simp: bit_or_iff bit_mask_iff bit_take_bit_iff\<close>)
  then have "in_imm (base_extend_imm store ?i) = store (mask 32)"
    using base_extend_imm_value [OF k assms(5) n] assms(4,6) by (simp add: created_signed m)
  also have "store (mask 32) = 2 ^ 32 - 1"
    unfolding assms(1) mask_eq_exp_minus_1 by (intro mod_pos_pos_trivial) simp_all
  finally have b: "in_imm (base_extend_imm store ?i) = 2 ^ 32 - 1" .
  have "in_imm (extend_imm store ?i) = push_bit (in_imm_align ?i) (2 ^ 32 - 1) mod 2 ^ 32"
    using assms(2,3) by (simp add: extend_imm_def Let_def b assms(1) base_extend_imm_align)
  then show ?thesis by (simp only: get_imm_post ones_aligned [OF c(3)])
qed

theorem compressed_negative_lost_witness:
  "get_imm (post_randomize (\<lambda>x. x mod 2 ^ 32) (create_instr rv32 (zero_ops\<lparr>op_imm := 0x3B\<rparr>)
     (mk_registration DEFINE_C_INSTR ''C_ADDI'' CI_FORMAT ARITHMETIC RV32C (Some NZIMM)))) = ''-1''"
proof -
  let ?r = "mk_registration DEFINE_C_INSTR ''C_ADDI'' CI_FORMAT ARITHMETIC RV32C (Some NZIMM)"
  let ?o = "zero_ops\<lparr>op_imm := 0x3B\<rparr>"
  have h: "is_c_class (reg_definer ?r)" "reg_instr ?r \<noteq> ''C_LUI''" "imm_signed ?r" by code_simp+
  have l: "in_imm_len (create_instr rv32 ?o ?r) = 6" "in_imm_align (create_instr rv32 ?o ?r) = 0"
    by code_simp+
  have b: "bit (op_imm ?o) (6 - 1)" by code_simp
  have s: "show_int (- (2 ^ 0)) = ''-1''" by code_simp
  from compressed_negative_lost [of "\<lambda>x. x mod 2 ^ 32" ?r rv32 ?o, OF refl h] show ?thesis
    by (simp only: l b s)
qed

section \<open>Attribute tables\<close>

text \<open>
  C40. Of the registered instructions, exactly those of the atomic, bit-manipulation, compressed
  floating-point and 64-bit floating-point groups have no entry in the attribute dictionary; and where
  there is an entry, it says what the registration says (no immediate type meaning IMM) except for six
  instructions. REMU is registered as a load and is arithmetic in the dictionary; FSD is registered as a
  store in the format of stores and has the format and the category of a load in the dictionary; and the
  compressed 64-bit loads and stores are registered without the unsigned immediate of the dictionary.
\<close>

theorem attributes_match_registrations:
  "filter (\<lambda>r. get_attr_list (reg_instr r) = None) instr_registry =
     filter (\<lambda>r. reg_group r \<in> {RV32A, RV32B, RV32FC, RV32DC, RV64A, RV64F, RV64D}) instr_registry \<and>
   (\<lambda>r. (reg_instr r, attrs_of r, get_attr_list (reg_instr r))) ` {r \<in> set instr_registry. disagrees r} =
     {(''REMU'', (R_FORMAT, LOAD, RV32M, Some IMM), Some (R_FORMAT, ARITHMETIC, RV32M, None)),
      (''FSD'', (S_FORMAT, STORE, RV32D, Some IMM), Some (I_FORMAT, LOAD, RV32D, None)),
      (''C_LD'', (CL_FORMAT, LOAD, RV64C, Some IMM), Some (CL_FORMAT, LOAD, RV64C, Some UIMM)),
      (''C_SD'', (CS_FORMAT, STORE, RV64C, Some IMM), Some (CS_FORMAT, STORE, RV64C, Some UIMM)),
      (''C_LDSP'', (CI_FORMAT, LOAD, RV64C, Some IMM), Some (CI_FORMAT, LOAD, RV64C, Some UIMM)),
      (''C_SDSP'', (CSS_FORMAT, STORE, RV64C, Some IMM), Some (CSS_FORMAT, STORE, RV64C, Some UIMM))}"
proof
  show "filter (\<lambda>r. get_attr_list (reg_instr r) = None) instr_registry =
     filter (\<lambda>r. reg_group r \<in> {RV32A, RV32B, RV32FC, RV32DC, RV64A, RV64F, RV64D}) instr_registry"
    by (rule filter_cong [OF refl]) (simp add: no_attrs_iff uncovered_groups_def)
  have "{r \<in> set instr_registry. disagrees r} = set (filter disagrees covered) \<union> set (filter disagrees uncovered)"
    by (auto simp: set_registry)
  then have "{r \<in> set instr_registry. disagrees r} = set (filter disagrees covered)"
    by (simp only: uncovered_agree list.set Un_empty_right)
  then have "compared ` {r \<in> set instr_registry. disagrees r} = set (map compared (filter disagrees covered))"
    by (simp only: set_map)
  then show "(\<lambda>r. (reg_instr r, attrs_of r, get_attr_list (reg_instr r))) ` {r \<in> set instr_registry. disagrees r} =
     {(''REMU'', (R_FORMAT, LOAD, RV32M, Some IMM), Some (R_FORMAT, ARITHMETIC, RV32M, None)),
      (''FSD'', (S_FORMAT, STORE, RV32D, Some IMM), Some (I_FORMAT, LOAD, RV32D, None)),
      (''C_LD'', (CL_FORMAT, LOAD, RV64C, Some IMM), Some (CL_FORMAT, LOAD, RV64C, Some UIMM)),
      (''C_SD'', (CS_FORMAT, STORE, RV64C, Some IMM), Some (CS_FORMAT, STORE, RV64C, Some UIMM)),
      (''C_LDSP'', (CI_FORMAT, LOAD, RV64C, Some IMM), Some (CI_FORMAT, LOAD, RV64C, Some UIMM)),
      (''C_SDSP'', (CSS_FORMAT, STORE, RV64C, Some IMM), Some (CSS_FORMAT, STORE, RV64C, Some UIMM))}"
    unfolding compared_def [abs_def, symmetric] by (simp only: covered_disagreements list.set)
qed

section \<open>Saving the registers\<close>

text \<open>
  C7. Outside the virtual-address path, the emitted text is that of a sequence of machine operations,
  and running the restoring sequence after the saving one gives back every register, on a machine of 32
  or 64 bits, whatever ran between them, provided it left the stack pointer, the scratch register and the
  slots of the frame. The frame's last slot is the word at the old kernel stack pointer, one above the
  reserved space.
\<close>

theorem stack_restores_registers:
  fixes scratch :: privileged_reg_t
  assumes "cs_XLEN rcs = 32 \<or> cs_XLEN rcs = 64"
    and "\<not> (status = ''MSTATUS'' \<and> cs_SATP_MODE rcs \<noteq> BARE \<and> mprv)"
    and "sp \<noteq> ZERO" and "tp \<noteq> ZERO" and "sp \<noteq> tp" and "wf_regs rcs s"
    and "same_frame rcs scratch sp (frame_base rcs scratch sp tp s)
      (run (cs_XLEN rcs) (push_ops rcs scratch sp tp) s) s2"
  shows "push_gpr_to_kernel_stack rcs status scratch mprv sp tp ins =
      ins @ map (op_text (cs_XLEN rcs)) (push_ops rcs scratch sp tp) \<and>
    pop_gpr_from_kernel_stack rcs status scratch mprv sp tp ins =
      ins @ map (op_text (cs_XLEN rcs)) (pop_ops rcs scratch sp tp) \<and>
    (\<forall>i < 32. gpr (run (cs_XLEN rcs) (pop_ops rcs scratch sp tp) s2) i = gpr s i) \<and>
    frame_slot rcs (frame_base rcs scratch sp tp s) 31 = kernel_sp rcs scratch sp tp s"
proof -
  have x: "xlen_ok rcs" using assms(1) by (simp add: xlen_ok_def)
  show ?thesis
    using push_text [OF assms(2) word_bytes_ok(1) [OF x]] pop_text [OF word_bytes_ok(1) [OF x]]
      restore [OF x assms(6,3,4,5,7)] last_slot [OF assms(6)] by blast
qed

definition scratch_core :: core_setting where
  "scratch_core = rv32\<lparr>cs_implemented_csr := [''MSCRATCH'']\<rparr>"

definition before_trap :: mstate where
  "before_trap = \<lparr>gpr = (\<lambda>i. if i = 5 then 7 else if i = 4 then 4096 else 0), mem = (\<lambda>a. 0), csr = (\<lambda>c. 0)\<rparr>"

theorem stack_restores_registers_witness:
  "gpr (run 32 (pop_ops scratch_core ''MSCRATCH'' SP TP)
     (run 32 (push_ops scratch_core ''MSCRATCH'' SP TP) before_trap)) 5 = 7"
proof -
  let ?s1 = "run 32 (push_ops scratch_core ''MSCRATCH'' SP TP) before_trap"
  have x: "cs_XLEN scratch_core = 32" "cs_SATP_MODE scratch_core = BARE"
    by (simp_all add: scratch_core_def rv32_def)
  have wf: "wf_regs scratch_core before_trap"
    by (simp add: wf_regs_def before_trap_def wrap_def x)
  have "gpr ?s1 0 = 0"
    using push_effect(1) [of scratch_core before_trap SP TP "''MSCRATCH''"] wf x(1)
    by (simp add: xlen_ok_def before_trap_def reg_no_def)
  then have same: "same_frame scratch_core ''MSCRATCH'' SP (frame_base scratch_core ''MSCRATCH'' SP TP before_trap) ?s1 ?s1"
    by (simp add: same_frame_def)
  have h: "cs_XLEN scratch_core = 32 \<or> cs_XLEN scratch_core = 64"
    "\<not> (''MSTATUS'' = ''MSTATUS'' \<and> cs_SATP_MODE scratch_core \<noteq> BARE \<and> True)"
    "SP \<noteq> ZERO" "TP \<noteq> ZERO" "SP \<noteq> TP" by (simp_all add: x)
  from stack_restores_registers [OF h wf, of "''MSCRATCH''" ?s1] same
  have "gpr (run 32 (pop_ops scratch_core ''MSCRATCH'' SP TP) ?s1) 5 = gpr before_trap 5"
    by (simp add: x)
  then show ?thesis by (simp add: before_trap_def)
qed

end
