(* ===== verification/Pygen_Config.thy ===== *)
theory Pygen_Config
  imports Pygen_Registry
begin

text \<open>
  The settings that the assembly of a whole program reads: the rest of the core settings
  (\<open>target/*/riscv_core_setting.py\<close>) and of the configuration object (\<open>riscv_instr_gen_config.py\<close>),
  with the small enumerations they use. Which registers the solver picks is part of the configuration.
\<close>

datatype mtvec_mode_t = DIRECT | VECTORED

primrec mtvec_mode_val :: "mtvec_mode_t \<Rightarrow> int" where
  "mtvec_mode_val DIRECT = 0"
| "mtvec_mode_val VECTORED = 1"

primrec mode_val :: "privileged_mode_t \<Rightarrow> int" where
  "mode_val USER_MODE = 0"
| "mode_val SUPERVISOR_MODE = 1"
| "mode_val RESERVED_MODE = 2"
| "mode_val MACHINE_MODE = 3"

datatype signature_type_t = CORE_STATUS | TEST_RESULT | WRITE_GPR | WRITE_CSR

primrec signature_val :: "signature_type_t \<Rightarrow> int" where
  "signature_val CORE_STATUS = 0"
| "signature_val TEST_RESULT = 1"
| "signature_val WRITE_GPR = 2"
| "signature_val WRITE_CSR = 3"

datatype core_status_t =
    INITIALIZED | IN_DEBUG_MODE | IN_MACHINE_MODE | IN_HYPERVISOR_MODE | IN_SUPERVISOR_MODE | IN_USER_MODE |
    HANDLING_IRQ | FINISHED_IRQ | HANDLING_EXCEPTION | INSTR_FAULT_EXCEPTION | ILLEGAL_INSTR_EXCEPTION |
    LOAD_FAULT_EXCEPTION | STORE_FAULT_EXCEPTION | EBREAK_EXCEPTION

primrec status_val :: "core_status_t \<Rightarrow> int" where
  "status_val INITIALIZED = 0"
| "status_val IN_DEBUG_MODE = 1"
| "status_val IN_MACHINE_MODE = 2"
| "status_val IN_HYPERVISOR_MODE = 3"
| "status_val IN_SUPERVISOR_MODE = 4"
| "status_val IN_USER_MODE = 5"
| "status_val HANDLING_IRQ = 6"
| "status_val FINISHED_IRQ = 7"
| "status_val HANDLING_EXCEPTION = 8"
| "status_val INSTR_FAULT_EXCEPTION = 9"
| "status_val ILLEGAL_INSTR_EXCEPTION = 10"
| "status_val LOAD_FAULT_EXCEPTION = 11"
| "status_val STORE_FAULT_EXCEPTION = 12"
| "status_val EBREAK_EXCEPTION = 13"

record mem_region =
  mr_name :: string
  mr_size_in_bytes :: nat
  mr_xwr :: int

record prog_setting = core_setting +
  cs_supported_privileged_mode :: "privileged_mode_t list"
  cs_support_umode_trap :: bool
  cs_support_debug_mode :: bool
  cs_max_interrupt_vector_num :: nat
  cs_NUM_GPR :: nat

record prog_cfg = gen_cfg +
  cfg_gpr :: "riscv_reg_t list"
  cfg_sp :: riscv_reg_t
  cfg_tp :: riscv_reg_t
  cfg_ra :: riscv_reg_t
  cfg_scratch_reg :: riscv_reg_t
  cfg_num_of_harts :: nat
  cfg_num_of_sub_program :: nat
  cfg_mtvec_mode :: mtvec_mode_t
  cfg_tvec_alignment :: int
  cfg_check_misa_init_val :: bool
  cfg_check_xstatus :: bool
  cfg_virtual_addr_translation_on :: bool
  cfg_stack_len :: int
  cfg_mem_region :: "mem_region list"
  cfg_amo_region :: "mem_region list"
  cfg_s_mem_region :: "mem_region list"
  cfg_use_push_data_section :: bool
  cfg_no_data_page :: bool
  cfg_bare_program_mode :: bool
  cfg_no_delegation :: bool
  cfg_data_page_pattern :: data_pattern_t
  cfg_require_signature_addr :: bool
  cfg_signature_addr :: int
  cfg_enable_interrupt :: int
  cfg_enable_nested_interrupt :: bool
  cfg_enable_timer_irq :: int
  cfg_enable_vector_extension :: bool
  cfg_randomize_csr :: bool
  cfg_mstatus :: int
  cfg_mie :: int
  cfg_sstatus :: int
  cfg_ustatus :: int
  cfg_mstatus_mprv :: int
  cfg_mstatus_mxr :: int
  cfg_mstatus_sum :: int
  cfg_mstatus_tvm :: int
  cfg_set_mstatus_tw :: int
  cfg_mstatus_fs :: int
  cfg_mstatus_vs :: int

text \<open>\<open>cfg.gpr[i]\<close>, a list of four registers in the source.\<close>

definition gpr_at :: "prog_cfg \<Rightarrow> nat \<Rightarrow> riscv_reg_t" where
  "gpr_at cfg i = cfg_gpr cfg ! i"

text \<open>What an instruction line of a section begins with.\<close>

definition indent :: string where
  "indent = replicate LABEL_STR_LEN (CHR '' '')"

end
