(* ===== verification/Pygen_Privil.thy ===== *)
theory Pygen_Privil
  imports Pygen_Config Pygen_Stack
begin

text \<open>
  The privileged registers and the routine that enters the first privileged mode: \<open>riscv_reg.py\<close>,
  \<open>riscv_privil_reg.py\<close> and \<open>riscv_privileged_common_seq.py\<close>. \<open>store\<close> is what a field of the solver's
  library with \<open>XLEN\<close> bits keeps of a value.
\<close>

section \<open>Registers and their fields\<close>

datatype privileged_level_t = M_LEVEL | S_LEVEL | U_LEVEL

record reg_field =
  fl_name :: string
  fl_bit_width :: int
  fl_access_type :: reg_field_access_t
  fl_reset_val :: int
  fl_val :: int
  fl_hard_wired :: bool

record riscv_reg =
  rg_name :: privileged_reg_t
  rg_offset :: int
  rg_privil_level :: privileged_level_t
  rg_val :: int
  rg_fld :: "reg_field list"

definition new_reg :: riscv_reg where
  "new_reg = \<lparr>rg_name = [], rg_offset = 0, rg_privil_level = M_LEVEL, rg_val = 0, rg_fld = []\<rparr>"

definition base_init_reg :: "privileged_reg_t \<Rightarrow> riscv_reg \<Rightarrow> riscv_reg" where
  "base_init_reg name r = r\<lparr>rg_name := name, rg_offset := csr_addr name\<rparr>"

text \<open>The value is packed from the last field to the first, which is at bit 0.\<close>

definition total_width :: "reg_field list \<Rightarrow> int" where
  "total_width fs = sum_list (map fl_bit_width fs)"

definition get_val :: "(int \<Rightarrow> int) \<Rightarrow> nat \<Rightarrow> riscv_reg \<Rightarrow> (int \<times> riscv_reg) pg" where
  "get_val store xlen r =
     (if total_width (rev (rg_fld r)) \<noteq> int xlen then Inl (SystemExit 1)
      else let v = foldl (\<lambda>v f. store (push_bit (nat (fl_bit_width f)) v OR fl_val f)) (store 0) (rev (rg_fld r))
           in Inr (v, r\<lparr>rg_val := v\<rparr>))"

definition add_field :: "string \<Rightarrow> int \<Rightarrow> reg_field_access_t \<Rightarrow> riscv_reg \<Rightarrow> riscv_reg" where
  "add_field name width access r = r\<lparr>rg_fld := rg_fld r @
     [\<lparr>fl_name = name, fl_bit_width = width, fl_access_type = access, fl_reset_val = 0, fl_val = 0,
       fl_hard_wired = False\<rparr>]\<rparr>"

text \<open>The last field of a name is the one that is found.\<close>

definition find_field :: "string \<Rightarrow> reg_field list \<Rightarrow> nat option" where
  "find_field name fs = List.find (\<lambda>i. fl_name (fs ! i) = name) (rev [0 ..< length fs])"

definition set_field :: "(int \<Rightarrow> int) \<Rightarrow> string \<Rightarrow> int \<Rightarrow> bool \<Rightarrow> riscv_reg \<Rightarrow> riscv_reg pg" where
  "set_field store name val hard_wired r =
     (case find_field name (rg_fld r) of
        None \<Rightarrow> Inl (SystemExit 1)
      | Some i \<Rightarrow>
          let f = (rg_fld r ! i)\<lparr>fl_val := store val, fl_hard_wired := hard_wired\<rparr>;
              g = (if hard_wired then f\<lparr>fl_reset_val := store val\<rparr> else f)
          in Inr (r\<lparr>rg_fld := (rg_fld r)[i := g]\<rparr>))"

definition get_field_by_name :: "string \<Rightarrow> riscv_reg \<Rightarrow> reg_field pg" where
  "get_field_by_name name r =
     (case find_field name (rg_fld r) of None \<Rightarrow> Inl (SystemExit 1) | Some i \<Rightarrow> Inr (rg_fld r ! i))"

definition reset :: "riscv_reg \<Rightarrow> riscv_reg" where
  "reset r = r\<lparr>rg_fld := map (\<lambda>f. f\<lparr>fl_val := fl_reset_val f\<rparr>) (rg_fld r)\<rparr>"

text \<open>
  Every field that is not hard-wired gets the topmost bits of the whole value: the loop never shifts the
  value on, it only assigns the shifted value to the register.
\<close>

definition set_val :: "(int \<Rightarrow> int) \<Rightarrow> nat \<Rightarrow> int \<Rightarrow> riscv_reg \<Rightarrow> riscv_reg" where
  "set_val store xlen val r =
     foldl (\<lambda>r i.
        let f = rg_fld r ! i;
            g = (if \<not> fl_hard_wired f
                 then f\<lparr>fl_val := store (drop_bit (nat (int xlen - fl_bit_width f)) val)\<rparr> else f)
        in r\<lparr>rg_fld := (rg_fld r)[i := g], rg_val := store (push_bit (nat (fl_bit_width f)) val)\<rparr>)
       r (rev [0 ..< length (rg_fld r)])"

section \<open>The privileged registers\<close>

definition add_fields :: "(string \<times> int \<times> reg_field_access_t) list \<Rightarrow> riscv_reg \<Rightarrow> riscv_reg" where
  "add_fields fs r = foldl (\<lambda>r (name, width, access). add_field name width access r) r fs"

definition mstatus_fields :: "nat \<Rightarrow> (string \<times> int \<times> reg_field_access_t) list" where
  "mstatus_fields xlen =
     [(''UIE'', 1, WARL), (''SIE'', 1, WARL), (''WPRI0'', 1, WPRI), (''MIE'', 1, WARL), (''UPIE'', 1, WARL),
      (''SPIE'', 1, WARL), (''WPRI1'', 1, WPRI), (''MPIE'', 1, WARL), (''SPP'', 1, WLRL), (''VS'', 2, WARL),
      (''MPP'', 2, WLRL), (''FS'', 2, WARL), (''XS'', 2, WARL), (''MPRV'', 1, WARL), (''SUM'', 1, WARL),
      (''MXR'', 1, WARL), (''TVM'', 1, WARL), (''TW'', 1, WARL), (''TSR'', 1, WARL)] @
     (if xlen = 32 then [(''WPRI3'', 8, WPRI)]
      else [(''WPRI3'', 9, WPRI), (''UXL'', 2, WARL), (''SXL'', 2, WARL), (''WPRI4'', int xlen - 37, WPRI)]) @
     [(''SD'', 1, WARL)]"

definition mie_fields :: "nat \<Rightarrow> (string \<times> int \<times> reg_field_access_t) list" where
  "mie_fields xlen =
     [(''USIE'', 1, WARL), (''SSIE'', 1, WARL), (''WPRI0'', 1, WPRI), (''MSIE'', 1, WARL), (''UTIE'', 1, WARL),
      (''STIE'', 1, WARL), (''WPRI1'', 1, WPRI), (''MTIE'', 1, WARL), (''UEIE'', 1, WARL), (''SEIE'', 1, WARL),
      (''WPEI2'', 1, WPRI), (''MEIE'', 1, WARL), (''WPRI3'', int xlen - 12, WPRI)]"

text \<open>Any other register is only logged as not supported: it gets no field.\<close>

definition init_reg :: "nat \<Rightarrow> privileged_reg_t \<Rightarrow> riscv_reg \<Rightarrow> riscv_reg" where
  "init_reg xlen name r =
     (let r = base_init_reg name r
      in if name = ''MSTATUS'' then add_fields (mstatus_fields xlen) (r\<lparr>rg_privil_level := M_LEVEL\<rparr>)
         else if name = ''MIE'' then add_fields (mie_fields xlen) (r\<lparr>rg_privil_level := M_LEVEL\<rparr>)
         else r)"

section \<open>Setting the fields\<close>

definition set_fields :: "(int \<Rightarrow> int) \<Rightarrow> (string \<times> int) list \<Rightarrow> riscv_reg \<Rightarrow> riscv_reg pg" where
  "set_fields store fs r = foldR (\<lambda>r (name, val). set_field store name val False r) r fs"

definition as_int :: "bool \<Rightarrow> int" where
  "as_int b = (if b then 1 else 0)"

text \<open>The registers that the solver's \<open>randomize\<close> touches before keep any field values they have.\<close>

definition mstatus_values :: "prog_setting \<Rightarrow> prog_cfg \<Rightarrow> privileged_mode_t \<Rightarrow> (string \<times> int) list" where
  "mstatus_values rcs cfg mode =
     [(''MPRV'', cfg_mstatus_mprv cfg), (''MXR'', cfg_mstatus_mxr cfg), (''SUM'', cfg_mstatus_sum cfg),
      (''TVM'', cfg_mstatus_tvm cfg), (''TW'', cfg_set_mstatus_tw cfg), (''FS'', cfg_mstatus_fs cfg),
      (''VS'', cfg_mstatus_vs cfg)] @
     (if SUPERVISOR_MODE \<notin> set (cs_supported_privileged_mode rcs) \<and> cs_XLEN rcs \<noteq> 32 then [(''SXL'', 0)]
      else if cs_XLEN rcs = 64 then [(''SXL'', 2)] else []) @
     (if USER_MODE \<notin> set (cs_supported_privileged_mode rcs) \<and> cs_XLEN rcs \<noteq> 32 then [(''UXL'', 0)]
      else if cs_XLEN rcs = 64 then [(''UXL'', 2)] else []) @
     [(''XS'', 0), (''SD'', 0), (''UIE'', 0), (''MPP'', mode_val mode), (''SPP'', 0),
      (''MPIE'', cfg_enable_interrupt cfg), (''MIE'', cfg_enable_interrupt cfg),
      (''SPIE'', cfg_enable_interrupt cfg), (''SIE'', cfg_enable_interrupt cfg),
      (''UPIE'', cfg_enable_interrupt cfg), (''UIE'', as_int (cs_support_umode_trap rcs))]"

definition start_reg :: "(int \<Rightarrow> int) \<Rightarrow> prog_setting \<Rightarrow> prog_cfg \<Rightarrow> privileged_reg_t \<Rightarrow> int \<Rightarrow> riscv_reg" where
  "start_reg store rcs cfg name val =
     (let r = init_reg (cs_XLEN rcs) name new_reg
      in if cfg_randomize_csr cfg then set_val store (cs_XLEN rcs) val r else r)"

definition mstatus_set_field ::
  "(int \<Rightarrow> int) \<Rightarrow> prog_setting \<Rightarrow> prog_cfg \<Rightarrow> privileged_mode_t \<Rightarrow> riscv_reg list \<Rightarrow> riscv_reg list pg" where
  "mstatus_set_field store rcs cfg mode regs =
     bnd (set_fields store (mstatus_values rcs cfg mode) (start_reg store rcs cfg ''MSTATUS'' (cfg_mstatus cfg)))
       (\<lambda>r. bnd (get_val store (cs_XLEN rcs) r) (\<lambda>(v, r'). Inr (regs @ [r'])))"

definition mie_values :: "prog_cfg \<Rightarrow> (string \<times> int) list" where
  "mie_values cfg =
     (let e = cfg_enable_interrupt cfg; t = e AND cfg_enable_timer_irq cfg in
      [(''UEIE'', e), (''SEIE'', e), (''MEIE'', e), (''USIE'', e), (''SSIE'', e), (''MSIE'', e),
       (''MTIE'', t), (''STIE'', t), (''UTIE'', t)])"

definition mie_set_field ::
  "(int \<Rightarrow> int) \<Rightarrow> prog_setting \<Rightarrow> prog_cfg \<Rightarrow> riscv_reg list \<Rightarrow> riscv_reg list pg" where
  "mie_set_field store rcs cfg regs =
     (if ''MIE'' \<in> set (cs_implemented_csr rcs)
      then bnd (set_fields store (mie_values cfg) (start_reg store rcs cfg ''MIE'' (cfg_mie cfg))) (\<lambda>r.
           Inr (regs @ [r]))
      else Inr regs)"

definition setup_mmode_reg ::
  "(int \<Rightarrow> int) \<Rightarrow> prog_setting \<Rightarrow> prog_cfg \<Rightarrow> privileged_mode_t \<Rightarrow> riscv_reg list \<Rightarrow> riscv_reg list pg" where
  "setup_mmode_reg store rcs cfg mode regs =
     bnd (mstatus_set_field store rcs cfg mode regs) (mie_set_field store rcs cfg)"

text \<open>
  The supervisor's status register. Behind it \<open>sie_set_field\<close> reads a misspelt attribute of the core
  settings.
\<close>

definition sstatus_values :: "prog_setting \<Rightarrow> prog_cfg \<Rightarrow> (string \<times> int) list" where
  "sstatus_values rcs cfg =
     [(''SPIE'', cfg_enable_interrupt cfg), (''SIE'', cfg_enable_interrupt cfg),
      (''UPIE'', cfg_enable_interrupt cfg), (''UIE'', as_int (cs_support_umode_trap rcs))] @
     (if cs_XLEN rcs = 64 then [(''UXL'', 2)] else []) @
     [(''FS'', cfg_mstatus_fs cfg), (''XS'', 0), (''SD'', 0), (''UIE'', 0), (''SPP'', 0)]"

definition setup_smode_reg ::
  "(int \<Rightarrow> int) \<Rightarrow> prog_setting \<Rightarrow> prog_cfg \<Rightarrow> riscv_reg list \<Rightarrow> riscv_reg list pg" where
  "setup_smode_reg store rcs cfg regs =
     bnd (set_fields store (sstatus_values rcs cfg) (start_reg store rcs cfg ''SSTATUS'' (cfg_sstatus cfg))) (\<lambda>r.
     Inl (PyAttributeError ''implemeted_csr''))"

definition uie_values :: "prog_cfg \<Rightarrow> (string \<times> int) list" where
  "uie_values cfg =
     [(''UEIE'', cfg_enable_interrupt cfg), (''USIE'', cfg_enable_interrupt cfg),
      (''UTIE'', cfg_enable_interrupt cfg AND cfg_enable_timer_irq cfg)]"

definition uie_set_field ::
  "(int \<Rightarrow> int) \<Rightarrow> prog_setting \<Rightarrow> prog_cfg \<Rightarrow> int \<Rightarrow> riscv_reg list \<Rightarrow> riscv_reg list pg" where
  "uie_set_field store rcs cfg cfg_uie regs =
     (if ''UIE'' \<in> set (cs_implemented_csr rcs)
      then bnd (set_fields store (uie_values cfg) (start_reg store rcs cfg ''UIE'' cfg_uie)) (\<lambda>r. Inr (regs @ [r]))
      else Inr regs)"

definition setup_umode_reg ::
  "(int \<Rightarrow> int) \<Rightarrow> prog_setting \<Rightarrow> prog_cfg \<Rightarrow> int \<Rightarrow> riscv_reg list \<Rightarrow> riscv_reg list pg" where
  "setup_umode_reg store rcs cfg cfg_uie regs =
     (if \<not> cs_support_umode_trap rcs then Inr regs
      else bnd (set_fields store [(''UIE'', cfg_enable_interrupt cfg), (''UPIE'', cfg_enable_interrupt cfg)]
                  (start_reg store rcs cfg ''USTATUS'' (cfg_ustatus cfg))) (\<lambda>r.
           uie_set_field store rcs cfg cfg_uie (regs @ [r])))"

section \<open>Entering a mode\<close>

definition csr_instr :: "(int \<Rightarrow> int) \<Rightarrow> prog_setting \<Rightarrow> prog_cfg \<Rightarrow> riscv_reg \<Rightarrow> string list pg" where
  "csr_instr store rcs cfg r =
     bnd (get_val store (cs_XLEN rcs) r) (\<lambda>(v, r').
     Inr [''li '' @ xreg (gpr_at cfg 0) @ '', '' @ py_hex v,
          ''csrw '' @ py_hex (csr_addr (rg_name r)) @ '', '' @ xreg (gpr_at cfg 0) @ '' # '' @ rg_name r])"

definition gen_csr_instr ::
  "(int \<Rightarrow> int) \<Rightarrow> prog_setting \<Rightarrow> prog_cfg \<Rightarrow> riscv_reg list \<Rightarrow> string list \<Rightarrow> string list pg" where
  "gen_csr_instr store rcs cfg regs instrs =
     bnd (mapR (csr_instr store rcs cfg) regs) (\<lambda>ls. Inr (instrs @ concat ls))"

text \<open>
  With address translation, \<open>SATP\<close> is set up as a register without fields, so its first \<open>set_field\<close>
  ends the program.
\<close>

definition setup_satp ::
  "(int \<Rightarrow> int) \<Rightarrow> prog_setting \<Rightarrow> int \<Rightarrow> string list \<Rightarrow> string list pg" where
  "setup_satp store rcs satp_mode_val instrs =
     (if cs_SATP_MODE rcs = BARE then Inr instrs
      else bnd (set_field store ''MODE'' satp_mode_val False (init_reg (cs_XLEN rcs) ''SATP'' new_reg)) (\<lambda>r.
           bnd (get_val store (cs_XLEN rcs) r) (\<lambda>_.
           bnd (get_field_by_name ''PPN'' r) (\<lambda>f. Inl PyTypeError))))"

definition enter_privileged_mode ::
  "(int \<Rightarrow> int) \<Rightarrow> prog_setting \<Rightarrow> prog_cfg \<Rightarrow> int \<Rightarrow> int \<Rightarrow> nat \<Rightarrow> privileged_mode_t \<Rightarrow> string list \<Rightarrow>
     string list pg" where
  "enter_privileged_mode store rcs cfg cfg_uie satp_mode_val hart mode instrs =
     (let label = str_lower (format_string (hart_prefix (core_setting.truncate rcs) hart @ ''init_'' @ mode_name mode @ '':'') LABEL_STR_LEN)
      in bnd (setup_mmode_reg store rcs cfg mode []) (\<lambda>regs1.
         bnd (if mode = SUPERVISOR_MODE then setup_smode_reg store rcs cfg regs1 else Inr regs1) (\<lambda>regs2.
         bnd (if mode = USER_MODE then setup_umode_reg store rcs cfg cfg_uie regs2 else Inr regs2) (\<lambda>regs.
         bnd (if cfg_virtual_addr_translation_on cfg then setup_satp store rcs satp_mode_val instrs
              else Inr instrs) (\<lambda>instrs1.
         bnd (gen_csr_instr store rcs cfg regs instrs1) (\<lambda>instrs2.
         Inr (label # map (\<lambda>l. indent @ l) (instrs2 @ [''mret'']))))))))"

end
