(* ===== verification/Pygen_Program.thy ===== *)
theory Pygen_Program
  imports Pygen_Privil
begin

text \<open>
  The sections of a test program around its instruction sequences: \<open>riscv_asm_program_gen.py\<close>. The
  program is a list of lines to which each generator appends. What the file fills in with the solver (the
  initial register values, the floating-point registers, the value of \<open>misa\<close>) is a parameter, as are
  the main program of each hart and the data pages.
\<close>

section \<open>Lines and sections\<close>

text \<open>A list that is appended instead of its elements is one element of the stream.\<close>

datatype line = Line string | Items "string list"

type_synonym program = "line list"

definition eol :: string where
  "eol = [CHR 0x0A]"

definition ins :: "string \<Rightarrow> line" where
  "ins s = Line (indent @ s)"

definition gen_section :: "string \<Rightarrow> string list \<Rightarrow> program \<Rightarrow> program" where
  "gen_section label instr stream =
     stream @ (if label \<noteq> '''' then [Line (format_string (label @ '':'') LABEL_STR_LEN)] else []) @
     map ins instr @ [Line '''']"

abbreviation core :: "prog_setting \<Rightarrow> core_setting" where
  "core rcs \<equiv> core_setting.truncate rcs"

definition prefixed :: "prog_setting \<Rightarrow> string \<Rightarrow> nat \<Rightarrow> string" where
  "prefixed rcs label hart = get_label (core rcs) label hart"

text \<open>
  The handshake with the test bench. \<open>instr.extend\<close> gets a string instead of a tuple for the address,
  so its characters become lines of their own; every type but \<open>CORE_STATUS\<close> reads a member that the
  enumeration of test results does not have.
\<close>

definition gen_signature_handshake ::
  "prog_cfg \<Rightarrow> signature_type_t \<Rightarrow> int \<Rightarrow> string list \<Rightarrow> string list pg" where
  "gen_signature_handshake cfg signature_type core_status instr =
     (if \<not> cfg_require_signature_addr cfg then Inr instr
      else let g0 = xreg (gpr_at cfg 0); g1 = xreg (gpr_at cfg 1);
               instr = instr @ map (\<lambda>c. [c]) (''li '' @ g1 @ '', '' @ py_hex (cfg_signature_addr cfg))
           in if signature_type = CORE_STATUS
              then Inr (instr @
                [''li '' @ g0 @ '', '' @ py_hex core_status,
                 ''slli '' @ g0 @ '', '' @ g0 @ '', 8'',
                 ''addi '' @ g0 @ '', '' @ g0 @ '', '' @ py_hex (signature_val signature_type),
                 ''sw '' @ g0 @ '', 0('' @ g1 @ '')''])
              else Inl (PyAttributeError ''TEST_RESULT''))"

section \<open>Header, initialisation, stacks and the end\<close>

definition gen_program_header :: "prog_setting \<Rightarrow> prog_cfg \<Rightarrow> program \<Rightarrow> program" where
  "gen_program_header rcs cfg stream =
     (let harts = [0 ..< cfg_num_of_harts cfg];
          header_string = [''.include \"user_init.s\"'', ''csrr x5, '' @ py_hex (csr_addr ''MHARTID'')] @
            concat (map (\<lambda>hart. [''li x6, '' @ show_nat hart, ''beq x5, x6, '' @ show_nat hart @ ''f'']) harts)
      in gen_section ''_start'' header_string
           (stream @ [Line ''.include \"user_define.h\"'', Line ''.globl _start'', Line ''.section .text''] @
            (if cfg_disable_compressed_instr cfg then [Line ''.option norvc;''] else [])) @
         concat (map (\<lambda>hart.
           [Line (show_nat hart @ '': la '' @ xreg (cfg_scratch_reg cfg) @ '', h'' @ show_nat hart @ ''_start''),
            Line (''jalr x0, '' @ xreg (cfg_scratch_reg cfg) @ '', 0'')]) harts))"

definition gen_program_end :: "nat \<Rightarrow> program \<Rightarrow> program" where
  "gen_program_end hart stream =
     (if hart = 0
      then gen_section ''_exit'' [''j write_tohost'']
             (gen_section ''write_tohost'' [''sw gp, tohost, t5''] stream)
      else stream)"

definition gen_data_page_begin :: "nat \<Rightarrow> program \<Rightarrow> program" where
  "gen_data_page_begin hart stream =
     stream @ [Line ''.section .data''] @
     (if hart = 0
      then [Line ''.align 6; .global tohost; tohost: .dword 0;'',
            Line ''.align 6; .global fromhost; fromhost: .dword 0;''] else [])"

definition page_align :: "prog_setting \<Rightarrow> line" where
  "page_align rcs = Line (if cs_SATP_MODE rcs \<noteq> BARE then ''.align 12'' else ''.align 2'')"

text \<open>Both stack generators write the same text around another name.\<close>

definition stack_text :: "string \<Rightarrow> prog_setting \<Rightarrow> prog_cfg \<Rightarrow> nat \<Rightarrow> program \<Rightarrow> program" where
  "stack_text name rcs cfg hart stream =
     (let byte = ''.'' @ show_int (int (cs_XLEN rcs) div 8) @ ''byte 0x0''
      in stream @
         [Line ((if cfg_use_push_data_section cfg then ''.pushsection .'' else ''.section .'') @
            hart_prefix (core rcs) hart @ name @ '',\"aw\",@progbits;''),
          page_align rcs,
          Line (prefixed rcs (name @ ''_start:'') hart),
          Line (''.rept '' @ show_int (cfg_stack_len cfg - 1)),
          Line byte, Line ''.endr'',
          Line (prefixed rcs (name @ ''_end:'') hart),
          Line byte] @
         (if cfg_use_push_data_section cfg then [Line ''.popsection;''] else []))"

definition gen_stack_section :: "prog_setting \<Rightarrow> prog_cfg \<Rightarrow> nat \<Rightarrow> program \<Rightarrow> program" where
  "gen_stack_section = stack_text ''user_stack''"

definition gen_kernel_stack_section :: "prog_setting \<Rightarrow> prog_cfg \<Rightarrow> nat \<Rightarrow> program \<Rightarrow> program" where
  "gen_kernel_stack_section = stack_text ''kernel_stack''"

text \<open>The status is appended as one element, not line by line.\<close>

definition core_is_initialized :: "prog_cfg \<Rightarrow> program \<Rightarrow> program pg" where
  "core_is_initialized cfg stream =
     (if \<not> cfg_require_signature_addr cfg then Inr stream
      else if cfg_signature_addr cfg \<noteq> 0xdeadbeef
      then bnd (gen_signature_handshake cfg CORE_STATUS (status_val INITIALIZED) []) (\<lambda>instr.
           Inr (stream @ [Items instr]))
      else Inl (SystemExit 1))"

definition init_gpr :: "prog_setting \<Rightarrow> prog_cfg \<Rightarrow> (nat \<Rightarrow> int) \<Rightarrow> program \<Rightarrow> program" where
  "init_gpr rcs cfg values stream =
     stream @ map (\<lambda>i. ins (''li x'' @ show_nat i @ '', '' @ py_hex (values i)))
       (filter (\<lambda>i. int i \<noteq> reg_val (cfg_sp cfg) \<and> int i \<noteq> reg_val (cfg_tp cfg)) [0 ..< cs_NUM_GPR rcs])"

definition gen_init_section ::
  "prog_setting \<Rightarrow> prog_cfg \<Rightarrow> string list \<Rightarrow> (nat \<Rightarrow> int) \<Rightarrow> nat \<Rightarrow> program \<Rightarrow> program pg" where
  "gen_init_section rcs cfg float_init values hart stream =
     bnd (core_is_initialized cfg
       (init_gpr rcs cfg values
         (stream @ [Line (format_string (prefixed rcs ''init:'' hart) LABEL_STR_LEN)] @
          (if cfg_enable_floating_point cfg then map ins float_init else [])) @
        [ins (''la '' @ xreg (cfg_sp cfg) @ '', '' @ hart_prefix (core rcs) hart @ ''user_stack_end'')]))
       (\<lambda>stream. Inr (stream @ (if cs_support_pmp rcs then [ins ''j main''] else [])))"

definition gen_test_done :: "prog_cfg \<Rightarrow> program \<Rightarrow> program" where
  "gen_test_done cfg stream =
     stream @ [Line (format_string ''test_done:'' LABEL_STR_LEN), ins ''li gp, 1'',
       ins (if cfg_bare_program_mode cfg then ''j write_tohost'' else ''ecall'')]"

text \<open>
  The groups whose extension bit \<open>misa\<close> has; any other supported group ends the program. The value
  itself, a bit field of the solver's library, is a parameter.
\<close>

definition misa_groups :: "riscv_instr_group_t list" where
  "misa_groups = [RV32C, RV64C, RV128C, RV32I, RV64I, RV128I, RV32M, RV64M, RV32A, RV64A, RV32B, RV64B,
     RV32F, RV64F, RV32FC, RV32D, RV64D, RV32DC, RVV, RV32X, RV64X]"

definition setup_misa :: "prog_setting \<Rightarrow> prog_cfg \<Rightarrow> int \<Rightarrow> program \<Rightarrow> program pg" where
  "setup_misa rcs cfg misa stream =
     (if \<exists>group \<in> set (cs_supported_isa rcs). group \<notin> set misa_groups then Inl (SystemExit 1)
      else let a = py_hex (csr_addr ''MISA''); g0 = xreg (gpr_at cfg 0) in
        Inr (stream @
          (if cfg_check_misa_init_val cfg then [ins (''csrr x15, '' @ a)] else []) @
          [ins (''li '' @ g0 @ '', '' @ py_hex misa), ins (''csrw '' @ a @ '', '' @ g0)]))"

end
