(* ===== verification/Pygen_Data.thy ===== *)
theory Pygen_Data
  imports Pygen_Config
begin

text \<open>
  The data pages of a program: \<open>riscv_data_page_gen.py\<close>, and \<open>format_data\<close> of
  \<open>riscv_instr_pkg.py\<close>. Bytes are integers below 256.
\<close>

section \<open>The bytes\<close>

definition gen_data :: "nat \<Rightarrow> data_pattern_t \<Rightarrow> nat \<Rightarrow> tape \<Rightarrow> (int list \<times> tape) pg" where
  "gen_data idx pattern num_of_bytes t =
     (case pattern of
        RAND_DATA \<Rightarrow> randints num_of_bytes 0 (2 ^ 8 - 2) t
      | INCR_VAL \<Rightarrow> Inr (map (\<lambda>i. (int idx + int i) mod 256) [0 ..< num_of_bytes], t)
      | ALL_ZERO \<Rightarrow> Inr (replicate num_of_bytes 0, t))"

text \<open>\<open>{:02x}\<close> of a byte.\<close>

definition hex2 :: "int \<Rightarrow> string" where
  "hex2 b = [digit_char (nat b div 16), digit_char (nat b mod 16)]"

fun format_from :: "nat \<Rightarrow> nat \<Rightarrow> nat \<Rightarrow> int list \<Rightarrow> string" where
  "format_from i len per [] = []"
| "format_from i len per (b # bs) =
     (if i mod per = 0 \<and> i \<noteq> len - 1 \<and> i \<noteq> 0 then '', 0x'' else []) @ hex2 b @
     format_from (Suc i) len per bs"

definition format_data :: "int list \<Rightarrow> nat \<Rightarrow> string" where
  "format_data data byte_per_group = ''0x'' @ format_from 0 (length data) byte_per_group data"

section \<open>The pages\<close>

text \<open>
  One line for every 32 bytes that are begun; a page of at most 32 bytes gets one byte less. The end of
  a pushed section is written behind every line.
\<close>

definition page_line ::
  "prog_cfg \<Rightarrow> data_pattern_t \<Rightarrow> nat \<Rightarrow> string list \<times> tape \<Rightarrow> nat \<Rightarrow> (string list \<times> tape) pg" where
  "page_line cfg pattern page_size = (\<lambda>(out, t) i.
     bnd (gen_data i pattern (if 32 \<le> page_size - 1 then 32 else page_size - 1) t) (\<lambda>(data, t).
     Inr (out @ [format_string (''.word '' @ format_data data 4) LABEL_STR_LEN] @
       (if cfg_use_push_data_section cfg then [''.popsection''] else []), t)))"

definition page_starts :: "nat \<Rightarrow> nat list" where
  "page_starts page_size = map (\<lambda>k. 32 * k) [0 ..< (page_size + 31) div 32]"

definition region_lines ::
  "prog_setting \<Rightarrow> prog_cfg \<Rightarrow> nat \<Rightarrow> data_pattern_t \<Rightarrow> bool \<Rightarrow> string list \<times> tape \<Rightarrow> mem_region \<Rightarrow>
     (string list \<times> tape) pg" where
  "region_lines rcs cfg hart pattern amo = (\<lambda>(out, t) r.
     let name = (if amo then mr_name r else hart_prefix (core_setting.truncate rcs) hart @ mr_name r)
     in foldR (page_line cfg pattern (mr_size_in_bytes r))
          (out @ [(if cfg_use_push_data_section cfg then ''.pushsection .'' else ''.section .'') @ name @
             '',\"aw\",@progbits;'', name @ '':''], t)
          (page_starts (mr_size_in_bytes r)))"

definition gen_data_page ::
  "prog_setting \<Rightarrow> prog_cfg \<Rightarrow> nat \<Rightarrow> data_pattern_t \<Rightarrow> bool \<Rightarrow> bool \<Rightarrow> tape \<Rightarrow> (string list \<times> tape) pg" where
  "gen_data_page rcs cfg hart_id pattern is_kernel amo t =
     foldR (region_lines rcs cfg hart_id pattern amo) ([], t)
       (if is_kernel then cfg_s_mem_region cfg else if amo then cfg_amo_region cfg else cfg_mem_region cfg)"

section \<open>What the lines hold\<close>

text \<open>A word of a line, its bytes from the most significant one down.\<close>

definition word_text :: "int list \<Rightarrow> string" where
  "word_text bs = ''0x'' @ concat (map hex2 bs)"

fun words_text :: "int list list \<Rightarrow> string" where
  "words_text [] = []"
| "words_text [w] = word_text w"
| "words_text (w # ws) = word_text w @ '', '' @ words_text ws"

lemma length_word_text: "length (word_text bs) = 2 + 2 * length bs"
  by (simp add: word_text_def length_concat comp_def hex2_def sum_list_triv)

lemma format_from_append:
  "format_from i len g (xs @ ys) = format_from i len g xs @ format_from (i + length xs) len g ys"
  by (induction xs arbitrary: i) simp_all

lemma format_group:
  assumes "i mod 4 = 0" and "length bs = 4"
  shows "format_from i len 4 bs = (if i \<noteq> len - 1 \<and> i \<noteq> 0 then '', 0x'' else []) @ concat (map hex2 bs)"
proof -
  obtain a b c d where "bs = [a, b, c, d]" using assms(2) by (auto simp: length_Suc_conv numeral_eq_Suc)
  moreover have "Suc i mod 4 \<noteq> 0" "Suc (Suc i) mod 4 \<noteq> 0" "Suc (Suc (Suc i)) mod 4 \<noteq> 0" using assms(1) by presburger+
  ultimately show ?thesis using assms(1) by simp
qed

lemma format_groups:
  assumes "\<forall>w \<in> set ws. length w = 4" and "4 dvd i" and "0 < i" and "len = i + 4 * length ws"
  shows "format_from i len 4 (concat ws) = concat (map (\<lambda>w. '', '' @ word_text w) ws)"
  using assms
proof (induction ws arbitrary: i)
  case Nil
  then show ?case by simp
next
  case (Cons w ws)
  have "i mod 4 = 0" "length w = 4" using Cons.prems by auto
  from format_group [OF this, of len] Cons.prems(3,4)
  have g: "format_from i len 4 w = '', 0x'' @ concat (map hex2 w)" by simp
  have "format_from (i + 4) len 4 (concat ws) = concat (map (\<lambda>w. '', '' @ word_text w) ws)"
    using Cons.prems by (intro Cons.IH) auto
  with g \<open>length w = 4\<close> show ?case by (simp add: format_from_append word_text_def)
qed

lemma words_text_Cons: "words_text (w # ws) = word_text w @ concat (map (\<lambda>w. '', '' @ word_text w) ws)"
  by (induction ws arbitrary: w) simp_all

lemma format_data_words:
  assumes "\<forall>w \<in> set ws. length w = 4" and "ws \<noteq> []"
  shows "format_data (concat ws) 4 = words_text ws"
proof -
  obtain w vs where ws: "ws = w # vs" using assms(2) by (cases ws) auto
  then have w: "length w = 4" and vs: "\<forall>w \<in> set vs. length w = 4" using assms(1) by auto
  have l: "length (concat ws) = 4 + 4 * length vs"
    using vs w unfolding ws by (induction vs) simp_all
  have "format_from 4 (4 + 4 * length vs) 4 (concat vs) = concat (map (\<lambda>w. '', '' @ word_text w) vs)"
    using vs by (intro format_groups) simp_all
  then show ?thesis
    using format_group [of 0 w] w by (simp add: format_data_def l) (simp add: ws format_from_append words_text_Cons word_text_def)
qed

text \<open>The words of line \<open>i\<close> of an incrementing page.\<close>

definition incr_words :: "nat \<Rightarrow> int list list" where
  "incr_words i = map (\<lambda>j. map (\<lambda>b. int (32 * i + 4 * j + b) mod 256) [0 ..< 4]) [0 ..< 8]"

lemma small_ranges:
  "[0 ..< 4] = [0, 1, 2, 3 :: nat]" "[0 ..< 8] = [0, 1, 2, 3, 4, 5, 6, 7 :: nat]"
  "[0 ..< 32] = [0, 1, 2, 3, 4, 5, 6, 7, 8, 9, 10, 11, 12, 13, 14, 15, 16, 17, 18, 19, 20, 21, 22, 23, 24, 25,
     26, 27, 28, 29, 30, 31 :: nat]"
  by code_simp+

lemma incr_bytes: "map (\<lambda>b. (int (32 * i) + int b) mod 256) [0 ..< 32] = concat (incr_words i)"
  by (simp add: incr_words_def small_ranges add.assoc)

lemma incr_line:
  assumes "33 \<le> page_size" and "\<not> cfg_use_push_data_section cfg"
  shows "page_line cfg INCR_VAL page_size (out, t) (32 * i) = Inr (out @ [''.word '' @ words_text (incr_words i)], t)"
proof -
  have w: "\<forall>w \<in> set (incr_words i). length w = 4" "incr_words i \<noteq> []" by (simp_all add: incr_words_def)
  obtain v1 v2 ws where "incr_words i = v1 # v2 # ws" "length v1 = 4" "length v2 = 4"
    by (simp add: incr_words_def small_ranges)
  then have "LABEL_STR_LEN < length (''.word '' @ words_text (incr_words i))"
    by (simp add: LABEL_STR_LEN_def words_text_Cons length_word_text)
  then have "format_string (''.word '' @ words_text (incr_words i)) LABEL_STR_LEN = ''.word '' @ words_text (incr_words i)"
    unfolding format_string_def by (rule if_P)
  moreover have "gen_data (32 * i) INCR_VAL (if 32 \<le> page_size - 1 then 32 else page_size - 1) t =
      Inr (concat (incr_words i), t)"
    using assms(1) unfolding gen_data_def incr_bytes [symmetric] by simp
  ultimately show ?thesis
    unfolding page_line_def prod.case using assms(2) by (simp only: bnd_simps prod.case format_data_words [OF w] if_False append_Nil2)
qed

lemma incr_lines:
  assumes "33 \<le> page_size" and "\<not> cfg_use_push_data_section cfg"
  shows "foldR (page_line cfg INCR_VAL page_size) (out, t) (map (\<lambda>k. 32 * k) is) =
    Inr (out @ map (\<lambda>i. ''.word '' @ words_text (incr_words i)) is, t)"
  by (induction "is" arbitrary: out) (simp_all only: list.map foldR.simps incr_line [OF assms] bnd_simps append_Nil2 append_assoc append_Cons append_Nil)

lemma incr_region:
  assumes "mr_size_in_bytes r = 32 * k" and "2 \<le> k" and "\<not> cfg_use_push_data_section cfg"
  shows "region_lines rcs cfg hart INCR_VAL False (out, t) r =
    (let name = hart_prefix (core_setting.truncate rcs) hart @ mr_name r in
     Inr (out @ [''.section .'' @ name @ '',\"aw\",@progbits;'', name @ '':''] @
       map (\<lambda>i. ''.word '' @ words_text (incr_words i)) [0 ..< k], t))"
proof -
  have p: "page_starts (32 * k) = map (\<lambda>k. 32 * k) [0 ..< k]" by (simp add: page_starts_def)
  have s: "33 \<le> 32 * k" using assms(2) by simp
  show ?thesis
    unfolding region_lines_def prod.case assms(1) p incr_lines [OF s assms(3)] Let_def
    using assms(3) by simp
qed

end
