(* ===== verification/Pygen_Trap.thy ===== *)
theory Pygen_Trap
  imports Pygen_Program Pygen_Data
begin

text \<open>
  The privileged set-up and the trap handlers of a test program: the second half of the generators of
  \<open>riscv_asm_program_gen.py\<close>, and the program they are called from.
\<close>

section \<open>Entering the first mode\<close>

definition setup_epc :: "prog_setting \<Rightarrow> prog_cfg \<Rightarrow> nat \<Rightarrow> program \<Rightarrow> program" where
  "setup_epc rcs cfg hart stream =
     (let g0 = xreg (gpr_at cfg 0); n = show_int (int (cs_XLEN rcs) - 12)
      in gen_section (prefixed rcs ''mepc_setup'' hart)
           ([''la '' @ g0 @ '', '' @ hart_prefix (core rcs) hart @ ''init''] @
            (if cfg_virtual_addr_translation_on cfg
             then [''slli '' @ g0 @ '', '' @ g0 @ '', '' @ n, ''srli '' @ g0 @ '', '' @ g0 @ '', '' @ n] else []) @
            [''csrw '' @ py_hex (csr_addr ''MEPC'') @ '', '' @ g0]) stream)"

fun trap_vec_reg :: "privileged_mode_t \<Rightarrow> privileged_reg_t pg" where
  "trap_vec_reg MACHINE_MODE = Inr ''MTVEC''"
| "trap_vec_reg SUPERVISOR_MODE = Inr ''STVEC''"
| "trap_vec_reg USER_MODE = Inr ''UTVEC''"
| "trap_vec_reg RESERVED_MODE = Inl (SystemExit 1)"

definition trap_vec_text ::
  "prog_setting \<Rightarrow> prog_cfg \<Rightarrow> nat \<Rightarrow> privileged_mode_t \<Rightarrow> privileged_reg_t \<Rightarrow> string list" where
  "trap_vec_text rcs cfg hart mode reg =
     (let g0 = xreg (gpr_at cfg 0); n = show_int (int (cs_XLEN rcs) - 20)
      in [''la '' @ g0 @ '', '' @ hart_prefix (core rcs) hart @ str_lower reg @ ''_handler''] @
         (if cs_SATP_MODE rcs \<noteq> BARE \<and> mode \<noteq> MACHINE_MODE
          then [''slli '' @ g0 @ '', '' @ g0 @ '', '' @ n @ eol @ ''srli '' @ g0 @ '', '' @ g0 @ '', '' @ n]
          else []) @
         [''ori '' @ g0 @ '', '' @ g0 @ '', '' @ show_int (mtvec_mode_val (cfg_mtvec_mode cfg)),
          ''csrw '' @ py_hex (csr_addr reg) @ '', '' @ g0 @ '' # '' @ reg])"

definition trap_vec_step ::
  "prog_setting \<Rightarrow> prog_cfg \<Rightarrow> nat \<Rightarrow> string list \<Rightarrow> privileged_mode_t \<Rightarrow> string list pg" where
  "trap_vec_step rcs cfg hart instr mode =
     bnd (trap_vec_reg mode) (\<lambda>reg.
     if mode = USER_MODE \<and> \<not> cs_support_umode_trap rcs then Inr instr
     else if mode_val mode < mode_val (cfg_init_privileged_mode cfg) then Inr instr
     else Inr (instr @ trap_vec_text rcs cfg hart mode reg))"

definition trap_vector_init :: "prog_setting \<Rightarrow> prog_cfg \<Rightarrow> nat \<Rightarrow> program \<Rightarrow> program pg" where
  "trap_vector_init rcs cfg hart stream =
     bnd (foldR (trap_vec_step rcs cfg hart) [] (cs_supported_privileged_mode rcs)) (\<lambda>instr.
     Inr (gen_section (prefixed rcs ''trap_vec_init'' hart) instr stream))"

text \<open>
  The loop over the supported modes starts with an empty list each time, and the list of the last turn
  is the one that is appended.
\<close>

definition mode_switch_step ::
  "(int \<Rightarrow> int) \<Rightarrow> prog_setting \<Rightarrow> prog_cfg \<Rightarrow> int \<Rightarrow> int \<Rightarrow> nat \<Rightarrow> string list option \<Rightarrow> privileged_mode_t \<Rightarrow>
     string list option pg" where
  "mode_switch_step store rcs cfg cfg_uie satp_mode_val hart last_instr privil_mode =
     (if privil_mode \<noteq> cfg_init_privileged_mode cfg then Inr (Some [])
      else bnd (enter_privileged_mode store rcs cfg cfg_uie satp_mode_val hart privil_mode []) (\<lambda>instr.
           Inr (Some instr)))"

definition gen_privileged_mode_switch_routine ::
  "(int \<Rightarrow> int) \<Rightarrow> prog_setting \<Rightarrow> prog_cfg \<Rightarrow> int \<Rightarrow> int \<Rightarrow> nat \<Rightarrow> program \<Rightarrow> program pg" where
  "gen_privileged_mode_switch_routine store rcs cfg cfg_uie satp_mode_val hart stream =
     bnd (foldR (mode_switch_step store rcs cfg cfg_uie satp_mode_val hart) None
            (cs_supported_privileged_mode rcs))
       (\<lambda>last_instr. case last_instr of
          None \<Rightarrow> Inl (PyUnboundLocalError ''instr'')
        | Some instr \<Rightarrow> Inr (stream @ map Line instr))"

definition pre_enter_privileged_mode ::
  "(int \<Rightarrow> int) \<Rightarrow> prog_setting \<Rightarrow> prog_cfg \<Rightarrow> int \<Rightarrow> int \<Rightarrow> nat \<Rightarrow> program \<Rightarrow> program pg" where
  "pre_enter_privileged_mode store rcs cfg cfg_uie satp_mode_val hart stream =
     bnd (trap_vector_init rcs cfg hart
            (gen_section (prefixed rcs ''kernel_sp'' hart)
               [''la '' @ xreg (cfg_tp cfg) @ '', '' @ hart_prefix (core rcs) hart @ ''kernel_stack_end''] stream))
       (\<lambda>stream.
        let stream = (if cfg_virtual_addr_translation_on cfg
                      then gen_section (prefixed rcs ''process_pt'' hart) [] stream else stream)
        in gen_privileged_mode_switch_routine store rcs cfg cfg_uie satp_mode_val hart
             (setup_epc rcs cfg hart stream))"

section \<open>The trap handlers\<close>

definition push_gprs :: "prog_setting \<Rightarrow> prog_cfg \<Rightarrow> privileged_reg_t \<Rightarrow> privileged_reg_t \<Rightarrow> string list \<Rightarrow> string list" where
  "push_gprs rcs cfg status scratch =
     push_gpr_to_kernel_stack (core rcs) status scratch (cfg_mstatus_mprv cfg \<noteq> 0) (cfg_sp cfg) (cfg_tp cfg)"

definition pop_gprs :: "prog_setting \<Rightarrow> prog_cfg \<Rightarrow> privileged_reg_t \<Rightarrow> privileged_reg_t \<Rightarrow> string list \<Rightarrow> string list" where
  "pop_gprs rcs cfg status scratch =
     pop_gpr_from_kernel_stack (core rcs) status scratch (cfg_mstatus_mprv cfg \<noteq> 0) (cfg_sp cfg) (cfg_tp cfg)"

definition csrr_text :: "string \<Rightarrow> prog_cfg \<Rightarrow> nat \<Rightarrow> privileged_reg_t \<Rightarrow> string \<Rightarrow> string" where
  "csrr_text gap cfg i c note =
     ''csrr'' @ gap @ xreg (gpr_at cfg i) @ '', '' @ py_hex (csr_addr c) @ note"

definition comment :: "privileged_reg_t \<Rightarrow> string" where
  "comment c = '' # '' @ c"

text \<open>One vector of the table: it saves the registers and goes to the common handler.\<close>

definition gen_intr_vector ::
  "prog_setting \<Rightarrow> prog_cfg \<Rightarrow> nat \<Rightarrow> string \<Rightarrow> privileged_reg_t \<Rightarrow> privileged_reg_t \<Rightarrow> privileged_reg_t list \<Rightarrow>
     privileged_reg_t \<Rightarrow> program \<Rightarrow> nat \<Rightarrow> program pg" where
  "gen_intr_vector rcs cfg hart mode status cause csr_list scratch stream i =
     (let g0 = xreg (gpr_at cfg 0); sr = xreg (cfg_scratch_reg cfg); h = hart_prefix (core rcs) hart in
      bnd (gen_signature_handshake cfg CORE_STATUS (status_val HANDLING_IRQ) (push_gprs rcs cfg status scratch []))
        (\<lambda>instr.
         bnd (foldR (\<lambda>instr c. gen_signature_handshake cfg WRITE_CSR (status_val INITIALIZED) instr)
               (instr @ [csrr_text '' '' cfg 0 cause (comment cause),
                  ''srli '' @ g0 @ '', '' @ g0 @ '', '' @ py_hex (int (cs_XLEN rcs) - 1),
                  ''beqz '' @ g0 @ '', 1f'']) csr_list) (\<lambda>instr.
         Inr (gen_section (prefixed rcs (mode @ ''mode_intr_vector_'' @ show_nat i) hart)
               (instr @ [''j '' @ h @ mode @ ''mode_intr_handler'', ''1: la '' @ sr @ '', test_done'',
                  ''jalr x0, '' @ sr @ '', 0'']) stream))))"

text \<open>
  The table itself is collected in \<open>instr\<close> for the caller, while the vectors are sections of the program
  at once.
\<close>

definition gen_interrupt_vector_table ::
  "prog_setting \<Rightarrow> prog_cfg \<Rightarrow> nat \<Rightarrow> string \<Rightarrow> privileged_reg_t \<Rightarrow> privileged_reg_t \<Rightarrow> privileged_reg_t \<Rightarrow>
     privileged_reg_t \<Rightarrow> privileged_reg_t \<Rightarrow> string list \<Rightarrow> program \<Rightarrow> (string list \<times> program) pg" where
  "gen_interrupt_vector_table rcs cfg hart mode status cause ie ip scratch instr stream =
     (let h = hart_prefix (core rcs) hart; vectors = [1 ..< cs_max_interrupt_vector_num rcs] in
      bnd (foldR (gen_intr_vector rcs cfg hart mode status cause [status, cause, ie, ip] scratch) stream vectors)
        (\<lambda>stream. Inr (instr @ [''.option norvc;'', ''j '' @ h @ mode @ ''mode_exception_handler''] @
           map (\<lambda>i. ''j '' @ h @ mode @ ''mode_intr_vector_'' @ show_nat i) vectors @
           (if cfg_disable_compressed_instr cfg then [] else [''.option rvc;'']), stream)))"

definition tvec_instr ::
  "prog_setting \<Rightarrow> prog_cfg \<Rightarrow> nat \<Rightarrow> string \<Rightarrow> privileged_reg_t \<Rightarrow> privileged_reg_t \<Rightarrow> privileged_reg_t \<Rightarrow>
     string list" where
  "tvec_instr rcs cfg hart mode cause scratch status =
     (let g0 = xreg (gpr_at cfg 0)
      in push_gprs rcs cfg status scratch [] @
         (if cfg_check_xstatus cfg then [csrr_text '' '' cfg 0 status (comment status)] else []) @
         [csrr_text '' '' cfg 0 cause (comment cause) @ eol @
          indent @ ''srli '' @ g0 @ '', '' @ g0 @ '', '' @ show_int (int (cs_XLEN rcs) - 1) @ eol @
          indent @ ''bne '' @ g0 @ '', x0, '' @ hart_prefix (core rcs) hart @ mode @ ''mode_intr_handler''])"

definition exception_instr ::
  "prog_setting \<Rightarrow> prog_cfg \<Rightarrow> nat \<Rightarrow> privileged_reg_t \<Rightarrow> privileged_reg_t \<Rightarrow> privileged_reg_t \<Rightarrow> string list" where
  "exception_instr rcs cfg hart cause tval epc =
     (let g0 = xreg (gpr_at cfg 0); g1 = xreg (gpr_at cfg 1); sr = xreg (cfg_scratch_reg cfg);
          h = hart_prefix (core rcs) hart
      in [csrr_text '' '' cfg 0 epc (comment epc), csrr_text '' '' cfg 0 cause (comment cause),
          ''li '' @ g1 @ '', '' @ py_hex 0xB @ '' # ECALL_MMODE'',
          ''beq '' @ g0 @ '', '' @ g1 @ '', '' @ h @ ''ecall_handler'',
          ''li '' @ g1 @ '', '' @ py_hex 2 @ '' # ILLEGAL_INSTRUCTION'',
          ''beq '' @ g0 @ '', '' @ g1 @ '', '' @ h @ ''illegal_instr_handler'',
          csrr_text '' '' cfg 1 tval (comment tval),
          ''1: la '' @ sr @ '', test_done'', ''jalr x1, '' @ sr @ '', 0''])"

definition gen_trap_handler_section ::
  "prog_setting \<Rightarrow> prog_cfg \<Rightarrow> nat \<Rightarrow> string \<Rightarrow> privileged_reg_t \<Rightarrow> privileged_reg_t \<Rightarrow> privileged_reg_t \<Rightarrow>
     privileged_reg_t \<Rightarrow> privileged_reg_t \<Rightarrow> privileged_reg_t \<Rightarrow> privileged_reg_t \<Rightarrow> privileged_reg_t \<Rightarrow>
     program \<Rightarrow> program pg" where
  "gen_trap_handler_section rcs cfg hart mode cause tvec tval epc scratch status ie ip stream =
     bnd (if cfg_mtvec_mode cfg = VECTORED
          then gen_interrupt_vector_table rcs cfg hart mode status cause ie ip scratch [] stream
          else Inr (tvec_instr rcs cfg hart mode cause scratch status, stream)) (\<lambda>(instr, stream).
     let stream = gen_section (prefixed rcs (str_lower tvec @ ''_handler'') hart) instr
           (stream @ [Line (if cs_SATP_MODE rcs \<noteq> BARE then ''.align 12''
                            else ''.align '' @ show_int (cfg_tvec_alignment cfg))]) in
     bnd (gen_signature_handshake cfg CORE_STATUS (status_val HANDLING_EXCEPTION)
           (if cfg_mtvec_mode cfg = VECTORED then push_gprs rcs cfg status scratch [] else [])) (\<lambda>instr.
     Inr (gen_section (prefixed rcs (mode @ ''mode_exception_handler'') hart)
           (instr @ exception_instr rcs cfg hart cause tval epc) stream)))"

definition gen_trap_handlers :: "prog_setting \<Rightarrow> prog_cfg \<Rightarrow> nat \<Rightarrow> program \<Rightarrow> program pg" where
  "gen_trap_handlers rcs cfg hart =
     gen_trap_handler_section rcs cfg hart ''m'' ''MCAUSE'' ''MTVEC'' ''MTVAL'' ''MEPC'' ''MSCRATCH'' ''MSTATUS''
       ''MIE'' ''MIP''"

definition gen_register_dump :: "prog_setting \<Rightarrow> prog_cfg \<Rightarrow> string list \<Rightarrow> string list" where
  "gen_register_dump rcs cfg instr =
     instr @ [''la '' @ xreg (gpr_at cfg 0) @ '', _start''] @
     map (slot_text (core rcs) (if cs_XLEN rcs = 64 then ''sd'' else ''sw'') (gpr_at cfg 0)) [0 ..< 32]"

definition gen_ecall_handler :: "prog_setting \<Rightarrow> prog_cfg \<Rightarrow> nat \<Rightarrow> program \<Rightarrow> program" where
  "gen_ecall_handler rcs cfg hart stream =
     gen_section (prefixed rcs ''ecall_handler'' hart)
       (gen_register_dump rcs cfg [] @
        [''la '' @ xreg (cfg_scratch_reg cfg) @ '', write_tohost'', ''jalr x0, '' @ xreg (cfg_scratch_reg cfg) @ '', 0''])
       stream"

text \<open>\<open>MCAUSE\<close> is passed in the place of the core status, so the register would be the default one.\<close>

definition gen_illegal_instr_handler :: "prog_setting \<Rightarrow> prog_cfg \<Rightarrow> nat \<Rightarrow> program \<Rightarrow> program pg" where
  "gen_illegal_instr_handler rcs cfg hart stream =
     (let g0 = xreg (gpr_at cfg 0) in
      bnd (gen_signature_handshake cfg CORE_STATUS (status_val ILLEGAL_INSTR_EXCEPTION) []) (\<lambda>instr.
      bnd (gen_signature_handshake cfg WRITE_CSR (csr_addr ''MCAUSE'') instr) (\<lambda>instr.
      Inr (gen_section (prefixed rcs ''illegal_instr_handler'' hart)
        (pop_gprs rcs cfg ''MSTATUS'' ''MSCRATCH''
           (instr @ [csrr_text ''  '' cfg 0 ''MEPC'' '''', ''addi  '' @ g0 @ '', '' @ g0 @ '', 4'',
              ''csrw  '' @ py_hex (csr_addr ''MEPC'') @ '', '' @ g0]) @
         [''mret'']) stream))))"

definition gen_all_trap_handler :: "prog_setting \<Rightarrow> prog_cfg \<Rightarrow> bool \<Rightarrow> nat \<Rightarrow> program \<Rightarrow> program pg" where
  "gen_all_trap_handler rcs cfg page_tables hart stream =
     bnd (if \<not> cs_support_pmp rcs
          then bnd (gen_trap_handlers rcs cfg hart stream) (\<lambda>stream. Inr (gen_ecall_handler rcs cfg hart stream))
          else Inr stream) (\<lambda>stream.
     bnd (gen_illegal_instr_handler rcs cfg hart stream) (\<lambda>stream.
     bnd (gen_signature_handshake cfg CORE_STATUS (status_val HANDLING_EXCEPTION) []) (\<lambda>instr.
     Inr (gen_section (prefixed rcs ''pt_fault_handler'' hart)
            (if page_tables then instr @ [''nop''] else instr) stream))))"

record mode_regs =
  md_prefix :: string
  md_status :: privileged_reg_t
  md_ip :: privileged_reg_t
  md_ie :: privileged_reg_t
  md_scratch :: privileged_reg_t
  md_enable :: int

fun mode_registers :: "privileged_mode_t \<Rightarrow> mode_regs pg" where
  "mode_registers MACHINE_MODE = Inr \<lparr>md_prefix = ''m'', md_status = ''MSTATUS'', md_ip = ''MIP'',
     md_ie = ''MIE'', md_scratch = ''MSCRATCH'', md_enable = 8\<rparr>"
| "mode_registers SUPERVISOR_MODE = Inr \<lparr>md_prefix = ''s'', md_status = ''SSTATUS'', md_ip = ''SIP'',
     md_ie = ''SIE'', md_scratch = ''SSCRATCH'', md_enable = 2\<rparr>"
| "mode_registers USER_MODE = Inr \<lparr>md_prefix = ''u'', md_status = ''USTATUS'', md_ip = ''UIP'',
     md_ie = ''UIE'', md_scratch = ''USCRATCH'', md_enable = 1\<rparr>"
| "mode_registers RESERVED_MODE = Inl (SystemExit 1)"

definition nested_text :: "prog_cfg \<Rightarrow> mode_regs \<Rightarrow> string list" where
  "nested_text cfg m =
     (let scratch = py_hex (csr_addr (md_scratch m)) in
      [csrr_text '' '' cfg 0 (md_scratch m) '''', ''bgtz '' @ xreg (gpr_at cfg 0) @ '', 1f'',
       ''csrwi '' @ scratch @ '', 0x1'', ''csrsi '' @ py_hex (csr_addr (md_status m)) @ '', '' @ py_hex (md_enable m),
       ''1: csrwi '' @ scratch @ '',0''])"

definition read_back_text :: "prog_cfg \<Rightarrow> mode_regs \<Rightarrow> string list" where
  "read_back_text cfg m =
     map (\<lambda>c. csrr_text ''  '' cfg 0 c (comment c @ '';'')) [md_status m, md_ie m, md_ip m] @
     [''csrrc '' @ xreg (gpr_at cfg 0) @ '', '' @ py_hex (csr_addr (md_ip m)) @ '', '' @ xreg (gpr_at cfg 0) @
        comment (md_ip m) @ '';'']"

definition gen_interrupt_handler_section ::
  "prog_setting \<Rightarrow> prog_cfg \<Rightarrow> privileged_mode_t \<Rightarrow> nat \<Rightarrow> program \<Rightarrow> program pg" where
  "gen_interrupt_handler_section rcs cfg mode hart stream =
     (if mode_val mode < mode_val (cfg_init_privileged_mode cfg) then Inr stream
      else if mode = USER_MODE \<and> \<not> cs_support_umode_trap rcs then Inr stream
      else bnd (mode_registers mode) (\<lambda>m.
        Inr (gen_section (prefixed rcs (md_prefix m @ ''mode_intr_handler'') hart)
          (pop_gprs rcs cfg (md_status m) (md_scratch m)
             ((if cfg_enable_nested_interrupt cfg then nested_text cfg m else []) @ read_back_text cfg m) @
           [md_prefix m @ ''ret;'']) (stream @ [page_align rcs]))))"

section \<open>The kernel and the whole program\<close>

definition data_lines ::
  "prog_setting \<Rightarrow> prog_cfg \<Rightarrow> nat \<Rightarrow> bool \<Rightarrow> bool \<Rightarrow> program \<times> tape \<Rightarrow> (program \<times> tape) pg" where
  "data_lines rcs cfg hart is_kernel amo = (\<lambda>(stream, t).
     bnd (gen_data_page rcs cfg hart (cfg_data_page_pattern cfg) is_kernel amo t) (\<lambda>(page, t).
     Inr (stream @ map Line page, t)))"

definition gen_kernel_sections ::
  "prog_setting \<Rightarrow> prog_cfg \<Rightarrow> bool \<Rightarrow> nat \<Rightarrow> program \<times> tape \<Rightarrow> (program \<times> tape) pg" where
  "gen_kernel_sections rcs cfg page_tables hart = (\<lambda>(stream, t).
     bnd (gen_all_trap_handler rcs cfg page_tables hart
            (stream @ [page_align rcs, Line (prefixed rcs ''kernel_instr_start:'' hart), Line ''.text''])) (\<lambda>stream.
     bnd (foldR (\<lambda>stream mode. gen_interrupt_handler_section rcs cfg mode hart stream) stream
            (cs_supported_privileged_mode rcs)) (\<lambda>stream.
     let stream = stream @ [Line (prefixed rcs ''kernel_instr_end: nop'' hart)] @
           (if cfg_virtual_addr_translation_on cfg then []
            else [page_align rcs, Line (prefixed rcs ''kernel_data_start:'' hart)])
     in bnd (if cfg_virtual_addr_translation_on cfg \<or> cfg_no_data_page cfg then Inr (stream, t)
             else data_lines rcs cfg hart True False (stream, t)) (\<lambda>(stream, t).
        Inr (gen_kernel_stack_section rcs cfg hart stream, t)))))"

text \<open>With sub-programs the generator reads an attribute that is never set.\<close>

definition gen_callstack :: "nat \<Rightarrow> unit pg" where
  "gen_callstack num_sub_program =
     (if num_sub_program \<noteq> 0 then Inl (PyAttributeError ''callstack_gen'') else Inr ())"

text \<open>What a run of the generator is given: the solver's values and the main programs.\<close>

record program_parts =
  pp_store :: "int \<Rightarrow> int"
  pp_misa :: int
  pp_uie :: int
  pp_satp_mode :: int
  pp_float_init :: "string list"
  pp_reg_vals :: "nat \<Rightarrow> int"
  pp_main :: "nat \<Rightarrow> string list"

definition gen_start :: "prog_setting \<Rightarrow> prog_cfg \<Rightarrow> program_parts \<Rightarrow> nat \<Rightarrow> program \<Rightarrow> program pg" where
  "gen_start rcs cfg pp hart stream =
     (let stream = stream @ [Line (''h'' @ show_nat hart @ ''_start:'')] in
      bnd (if cfg_bare_program_mode cfg then Inr stream
           else bnd (setup_misa rcs cfg (pp_misa pp) stream)
             (pre_enter_privileged_mode (pp_store pp) rcs cfg (pp_uie pp) (pp_satp_mode pp) hart))
        (gen_init_section rcs cfg (pp_float_init pp) (pp_reg_vals pp) hart))"

definition gen_hart :: "prog_setting \<Rightarrow> prog_cfg \<Rightarrow> program_parts \<Rightarrow> program \<Rightarrow> nat \<Rightarrow> program pg" where
  "gen_hart rcs cfg pp stream hart =
     bnd (gen_start rcs cfg pp hart stream) (\<lambda>stream.
     bnd (if cs_support_pmp rcs \<and> \<not> cfg_bare_program_mode cfg
          then bnd (gen_trap_handlers rcs cfg hart stream) (\<lambda>stream.
            let stream = gen_ecall_handler rcs cfg hart stream
            in Inr (if hart = 0 then gen_test_done cfg stream else stream))
          else Inr stream) (\<lambda>stream.
     if cs_NUM_HARTS rcs \<le> hart then Inl PyIndexError
     else bnd (gen_callstack (cfg_num_of_sub_program cfg)) (\<lambda>_.
     let sr = xreg (cfg_scratch_reg cfg);
         stream = stream @ map Line (pp_main pp hart) @ [ins (''la '' @ sr @ '', test_done''), ins (''jalr x0, '' @ sr @ '', 0'')];
         stream = (if hart = 0 \<and> \<not> cs_support_pmp rcs then gen_test_done cfg stream else stream);
         stream = gen_program_end hart stream
     in Inr (if cfg_bare_program_mode cfg then stream
             else gen_section (hart_prefix (core rcs) hart @ ''instr_end'') [''nop''] stream))))"

definition gen_hart_data ::
  "prog_setting \<Rightarrow> prog_cfg \<Rightarrow> program \<times> tape \<Rightarrow> nat \<Rightarrow> (program \<times> tape) pg" where
  "gen_hart_data rcs cfg = (\<lambda>(stream, t) hart.
     bnd (if cfg_no_data_page cfg then Inr (gen_data_page_begin hart stream, t)
          else bnd (data_lines rcs cfg hart False False (gen_data_page_begin hart stream, t)) (\<lambda>st.
            if hart = 0 \<and> RV32A \<in> set (cs_supported_isa rcs) then data_lines rcs cfg hart False True st else Inr st))
       (\<lambda>(stream, t).
        let st = (gen_stack_section rcs cfg hart stream, t)
        in if cfg_bare_program_mode cfg then Inr st else gen_kernel_sections rcs cfg False hart st))"

definition gen_program :: "prog_setting \<Rightarrow> prog_cfg \<Rightarrow> program_parts \<Rightarrow> tape \<Rightarrow> (program \<times> tape) pg" where
  "gen_program rcs cfg pp t =
     (let harts = [0 ..< cfg_num_of_harts cfg] in
      bnd (foldR (gen_hart rcs cfg pp) (gen_program_header rcs cfg []) harts) (\<lambda>stream.
      foldR (gen_hart_data rcs cfg) (stream, t) harts))"

end
