(* ===== verification/Pygen_Trap_Machine.thy ===== *)
theory Pygen_Trap_Machine
  imports Pygen_Trap Pygen_Stack_Facts
begin

text \<open>
  A machine for the emitted trap handlers: the operations their lines stand for, the text of each, and
  their effect. A program is a list of labelled sections; control only goes forward, into the next section
  or to a label further down.
\<close>

section \<open>Operations\<close>

datatype hop =
    Base op
  | Csrr string nat privileged_reg_t string
  | Csrw privileged_reg_t nat
  | Csrwi bool privileged_reg_t int
  | Csrsi privileged_reg_t int
  | Csrrc nat privileged_reg_t nat string
  | Li nat int string
  | Next nat nat int
  | Srli nat nat int
  | Bgtz nat
  | Beq nat nat string
  | Bnez nat string
  | La bool nat string
  | Jalr nat nat
  | Ret string

fun hop_text :: "nat \<Rightarrow> hop \<Rightarrow> string" where
  "hop_text xlen (Base o') = op_text xlen o'"
| "hop_text xlen (Csrr gap rd c note) = ''csrr'' @ gap @ xtext rd @ '', '' @ py_hex (csr_addr c) @ note"
| "hop_text xlen (Csrw c rs) = ''csrw  '' @ py_hex (csr_addr c) @ '', '' @ xtext rs"
| "hop_text xlen (Csrwi lab c v) =
     (if lab then ''1: csrwi '' @ py_hex (csr_addr c) @ '','' @ show_int v
      else ''csrwi '' @ py_hex (csr_addr c) @ '', '' @ py_hex v)"
| "hop_text xlen (Csrsi c v) = ''csrsi '' @ py_hex (csr_addr c) @ '', '' @ py_hex v"
| "hop_text xlen (Csrrc rd c rs note) =
     ''csrrc '' @ xtext rd @ '', '' @ py_hex (csr_addr c) @ '', '' @ xtext rs @ note"
| "hop_text xlen (Li rd v note) = ''li '' @ xtext rd @ '', '' @ py_hex v @ note"
| "hop_text xlen (Next rd rs v) = ''addi  '' @ xtext rd @ '', '' @ xtext rs @ '', '' @ show_int v"
| "hop_text xlen (Srli rd rs n) = ''srli '' @ xtext rd @ '', '' @ xtext rs @ '', '' @ show_int n"
| "hop_text xlen (Bgtz rs) = ''bgtz '' @ xtext rs @ '', 1f''"
| "hop_text xlen (Beq r1 r2 label) = ''beq '' @ xtext r1 @ '', '' @ xtext r2 @ '', '' @ label"
| "hop_text xlen (Bnez r label) = ''bne '' @ xtext r @ '', x0, '' @ label"
| "hop_text xlen (La lab rd label) = (if lab then ''1: la '' else ''la '') @ xtext rd @ '', '' @ label"
| "hop_text xlen (Jalr rd rs) = ''jalr '' @ xtext rd @ '', '' @ xtext rs @ '', 0''"
| "hop_text xlen (Ret name) = name"

text \<open>Several operations can share one item of a section; they are on lines of their own.\<close>

fun item_text :: "nat \<Rightarrow> hop list \<Rightarrow> string" where
  "item_text xlen [] = []"
| "item_text xlen [h] = hop_text xlen h"
| "item_text xlen (h # hs) = hop_text xlen h @ eol @ indent @ item_text xlen hs"

type_synonym code_section = "string \<times> hop list list"

definition section_lines :: "nat \<Rightarrow> code_section \<Rightarrow> program" where
  "section_lines xlen sec = gen_section (fst sec) (map (item_text xlen) (snd sec)) []"

section \<open>Running\<close>

datatype exit = Falls | Jumps string | Goes int | Returns string

fun is_one :: "hop \<Rightarrow> bool" where
  "is_one (Csrwi lab c v) = lab"
| "is_one (La lab rd label) = lab"
| "is_one _ = False"

definition set_csr :: "privileged_reg_t \<Rightarrow> int \<Rightarrow> mstate \<Rightarrow> mstate" where
  "set_csr c v s = s\<lparr>csr := (csr s)(c := v)\<rparr>"

text \<open>\<open>place\<close> is where the linker puts a label; a return address is not modelled and reads as \<open>place []\<close>.\<close>

function run_section :: "nat \<Rightarrow> (string \<Rightarrow> int) \<Rightarrow> hop list \<Rightarrow> mstate \<Rightarrow> mstate \<times> exit" where
  "run_section xlen place [] s = (s, Falls)"
| "run_section xlen place (h # hs) s =
     (case h of
        Base o' \<Rightarrow> run_section xlen place hs (exec xlen o' s)
      | Csrr gap rd c note \<Rightarrow> run_section xlen place hs (set_gpr xlen rd (csr s c) s)
      | Csrw c rs \<Rightarrow> run_section xlen place hs (set_csr c (gpr s rs) s)
      | Csrwi lab c v \<Rightarrow> run_section xlen place hs (set_csr c v s)
      | Csrsi c v \<Rightarrow> run_section xlen place hs (set_csr c (csr s c OR v) s)
      | Csrrc rd c rs note \<Rightarrow>
          run_section xlen place hs (set_gpr xlen rd (csr s c) (set_csr c (csr s c AND NOT (gpr s rs)) s))
      | Li rd v note \<Rightarrow> run_section xlen place hs (set_gpr xlen rd v s)
      | Next rd rs v \<Rightarrow> run_section xlen place hs (set_gpr xlen rd (gpr s rs + v) s)
      | Srli rd rs n \<Rightarrow> run_section xlen place hs (set_gpr xlen rd (drop_bit (nat n) (gpr s rs)) s)
      | Bgtz r \<Rightarrow>
          if 0 < gpr s r \<and> gpr s r < 2 ^ (xlen - 1)
          then run_section xlen place (dropWhile (\<lambda>h. \<not> is_one h) hs) s else run_section xlen place hs s
      | Beq r1 r2 label \<Rightarrow> if gpr s r1 = gpr s r2 then (s, Jumps label) else run_section xlen place hs s
      | Bnez r label \<Rightarrow> if gpr s r \<noteq> gpr s 0 then (s, Jumps label) else run_section xlen place hs s
      | La lab rd label \<Rightarrow> run_section xlen place hs (set_gpr xlen rd (place label) s)
      | Jalr rd rs \<Rightarrow> (set_gpr xlen rd (place []) s, Goes (gpr s rs))
      | Ret name \<Rightarrow> (s, Returns name))"
  by pat_completeness auto

termination
  by (relation "measure (\<lambda>(xlen, place, hs, s). length hs)") (auto simp: le_imp_less_Suc length_dropWhile_le)

function run_sections :: "nat \<Rightarrow> (string \<Rightarrow> int) \<Rightarrow> code_section list \<Rightarrow> mstate \<Rightarrow> mstate \<times> exit" where
  "run_sections xlen place [] s = (s, Falls)"
| "run_sections xlen place (sec # secs) s =
     (case run_section xlen place (concat (snd sec)) s of
        (s', Falls) \<Rightarrow> run_sections xlen place secs s'
      | (s', Jumps label) \<Rightarrow>
          if label \<in> set (map fst secs)
          then run_sections xlen place (dropWhile (\<lambda>sec. fst sec \<noteq> label) secs) s'
          else (s', Jumps label)
      | (s', Goes a) \<Rightarrow> (s', Goes a)
      | (s', Returns name) \<Rightarrow> (s', Returns name))"
  by pat_completeness auto

termination
  by (relation "measure (\<lambda>(xlen, place, secs, s). length secs)") (auto simp: le_imp_less_Suc length_dropWhile_le)

declare run_section.simps [simp del] run_sections.simps [simp del]

lemma run_section_Nil [simp]: "run_section xlen place [] s = (s, Falls)"
  by (simp add: run_section.simps)

lemma run_section_ops:
  "run_section xlen place (map Base ops @ hs) s = run_section xlen place hs (run xlen ops s)"
  by (induction ops arbitrary: s) (simp_all add: run_Cons run_section.simps)

end
