(* ===== verification/Pygen_Trap_Facts.thy ===== *)
theory Pygen_Trap_Facts
  imports Pygen_Trap_Machine
begin

text \<open>
  The emitted trap handlers as sections of operations, and what they do: an exception that is an illegal
  instruction and an interrupt each come back to the program.
\<close>

section \<open>The sections\<close>

abbreviation g0 :: "prog_cfg \<Rightarrow> nat" where "g0 cfg \<equiv> reg_no (gpr_at cfg 0)"
abbreviation g1 :: "prog_cfg \<Rightarrow> nat" where "g1 cfg \<equiv> reg_no (gpr_at cfg 1)"
abbreviation sr :: "prog_cfg \<Rightarrow> nat" where "sr cfg \<equiv> reg_no (cfg_scratch_reg cfg)"

definition single :: "hop list \<Rightarrow> hop list list" where
  "single hs = map (\<lambda>h. [h]) hs"

definition saving :: "prog_setting \<Rightarrow> prog_cfg \<Rightarrow> privileged_reg_t \<Rightarrow> hop list" where
  "saving rcs cfg scratch = map Base (push_ops (core rcs) scratch (cfg_sp cfg) (cfg_tp cfg))"

definition restoring :: "prog_setting \<Rightarrow> prog_cfg \<Rightarrow> privileged_reg_t \<Rightarrow> hop list" where
  "restoring rcs cfg scratch = map Base (pop_ops (core rcs) scratch (cfg_sp cfg) (cfg_tp cfg))"

definition entry_section :: "prog_setting \<Rightarrow> prog_cfg \<Rightarrow> nat \<Rightarrow> code_section" where
  "entry_section rcs cfg hart =
     (prefixed rcs ''mtvec_handler'' hart,
      single (saving rcs cfg ''MSCRATCH'') @
      (if cfg_check_xstatus cfg then [[Csrr '' '' (g0 cfg) ''MSTATUS'' (comment ''MSTATUS'')]] else []) @
      [[Csrr '' '' (g0 cfg) ''MCAUSE'' (comment ''MCAUSE''), Srli (g0 cfg) (g0 cfg) (int (cs_XLEN rcs) - 1),
        Bnez (g0 cfg) (prefixed rcs ''mmode_intr_handler'' hart)]])"

definition exception_section :: "prog_setting \<Rightarrow> prog_cfg \<Rightarrow> nat \<Rightarrow> code_section" where
  "exception_section rcs cfg hart =
     (prefixed rcs ''mmode_exception_handler'' hart,
      single
        [Csrr '' '' (g0 cfg) ''MEPC'' (comment ''MEPC''), Csrr '' '' (g0 cfg) ''MCAUSE'' (comment ''MCAUSE''),
         Li (g1 cfg) 0xB '' # ECALL_MMODE'', Beq (g0 cfg) (g1 cfg) (prefixed rcs ''ecall_handler'' hart),
         Li (g1 cfg) 2 '' # ILLEGAL_INSTRUCTION'',
         Beq (g0 cfg) (g1 cfg) (prefixed rcs ''illegal_instr_handler'' hart),
         Csrr '' '' (g1 cfg) ''MTVAL'' (comment ''MTVAL''), La True (sr cfg) ''test_done'', Jalr 1 (sr cfg)])"

definition ecall_section :: "prog_setting \<Rightarrow> prog_cfg \<Rightarrow> nat \<Rightarrow> code_section" where
  "ecall_section rcs cfg hart =
     (prefixed rcs ''ecall_handler'' hart,
      single ([La False (g0 cfg) ''_start''] @
        map (\<lambda>i. Base (Store i (int i * word_bytes (core rcs)) (g0 cfg))) [0 ..< 32] @
        [La False (sr cfg) ''write_tohost'', Jalr 0 (sr cfg)]))"

definition illegal_section :: "prog_setting \<Rightarrow> prog_cfg \<Rightarrow> nat \<Rightarrow> code_section" where
  "illegal_section rcs cfg hart =
     (prefixed rcs ''illegal_instr_handler'' hart,
      single ([Csrr ''  '' (g0 cfg) ''MEPC'' '''', Next (g0 cfg) (g0 cfg) 4, Csrw ''MEPC'' (g0 cfg)] @
        restoring rcs cfg ''MSCRATCH'' @ [Ret ''mret'']))"

definition trap_sections :: "prog_setting \<Rightarrow> prog_cfg \<Rightarrow> nat \<Rightarrow> code_section list" where
  "trap_sections rcs cfg hart =
     [entry_section rcs cfg hart, exception_section rcs cfg hart, ecall_section rcs cfg hart,
      illegal_section rcs cfg hart, (prefixed rcs ''pt_fault_handler'' hart, [])]"

definition nested_ops :: "prog_cfg \<Rightarrow> hop list" where
  "nested_ops cfg =
     [Csrr '' '' (g0 cfg) ''MSCRATCH'' '''', Bgtz (g0 cfg), Csrwi False ''MSCRATCH'' 1, Csrsi ''MSTATUS'' 8,
      Csrwi True ''MSCRATCH'' 0]"

definition read_back_ops :: "prog_cfg \<Rightarrow> hop list" where
  "read_back_ops cfg =
     [Csrr ''  '' (g0 cfg) ''MSTATUS'' (comment ''MSTATUS'' @ '';''), Csrr ''  '' (g0 cfg) ''MIE'' (comment ''MIE'' @ '';''),
      Csrr ''  '' (g0 cfg) ''MIP'' (comment ''MIP'' @ '';''),
      Csrrc (g0 cfg) ''MIP'' (g0 cfg) (comment ''MIP'' @ '';'')]"

definition intr_section :: "prog_setting \<Rightarrow> prog_cfg \<Rightarrow> nat \<Rightarrow> code_section" where
  "intr_section rcs cfg hart =
     (prefixed rcs ''mmode_intr_handler'' hart,
      single ((if cfg_enable_nested_interrupt cfg then nested_ops cfg else []) @ read_back_ops cfg @
        restoring rcs cfg ''MSCRATCH'' @ [Ret ''mret;'']))"

text \<open>The configurations in which the handlers are these: direct mode, physical addresses, no handshake.\<close>

definition direct_handlers :: "prog_setting \<Rightarrow> prog_cfg \<Rightarrow> bool" where
  "direct_handlers rcs cfg \<longleftrightarrow>
     (cs_XLEN rcs = 32 \<or> cs_XLEN rcs = 64) \<and> cfg_mtvec_mode cfg = DIRECT \<and>
     \<not> cfg_require_signature_addr cfg \<and> \<not> (cs_SATP_MODE rcs \<noteq> BARE \<and> cfg_mstatus_mprv cfg \<noteq> 0)"

lemma core_simps [simp]:
  "cs_XLEN (core rcs) = cs_XLEN rcs" "cs_SATP_MODE (core rcs) = cs_SATP_MODE rcs"
  "cs_implemented_csr (core rcs) = cs_implemented_csr rcs"
  by (simp_all add: core_setting.defs)

lemma core_word_bytes [simp]: "word_bytes (core rcs) = int (cs_XLEN rcs) div 8"
  by (simp add: word_bytes_def)

lemma item_single [simp]: "map (item_text xlen) (single hs) = map (hop_text xlen) hs"
  by (simp add: single_def)

lemma concat_single [simp]: "concat (single hs) = hs"
  by (simp add: single_def)

lemma saving_text:
  assumes "direct_handlers rcs cfg"
  shows "push_gprs rcs cfg status scratch instr = instr @ map (hop_text (cs_XLEN rcs)) (saving rcs cfg scratch)"
proof -
  have "\<not> (status = ''MSTATUS'' \<and> cs_SATP_MODE (core rcs) \<noteq> BARE \<and> cfg_mstatus_mprv cfg \<noteq> 0)"
    and "0 < word_bytes (core rcs)"
    using assms by (auto simp: direct_handlers_def word_bytes_def)
  then show ?thesis by (simp add: push_gprs_def push_text saving_def)
qed

lemma restoring_text:
  assumes "direct_handlers rcs cfg"
  shows "pop_gprs rcs cfg status scratch instr = instr @ map (hop_text (cs_XLEN rcs)) (restoring rcs cfg scratch)"
proof -
  have "0 < word_bytes (core rcs)" using assms by (auto simp: direct_handlers_def word_bytes_def)
  then show ?thesis by (simp add: pop_gprs_def pop_text restoring_def)
qed

lemma csrr_hop: "csrr_text gap cfg i c note = hop_text xlen (Csrr gap (reg_no (gpr_at cfg i)) c note)"
  by (simp add: csrr_text_def xtext_reg_no)

lemma show_int_small: "show_int 0 = ''0''" "show_int 1 = ''1''" "show_int 4 = ''4''" by code_simp+
lemma xtext_small: "xtext 0 = ''x0''" "xtext 1 = ''x1''" by code_simp+
lemma py_hex_one: "py_hex 1 = ''0x1''" by code_simp

lemma section_append: "gen_section label instr stream = stream @ gen_section label instr []"
  by (simp add: gen_section_def)

lemma entry_text:
  assumes "direct_handlers rcs cfg"
  shows "tvec_instr rcs cfg hart ''m'' ''MCAUSE'' ''MSCRATCH'' ''MSTATUS'' =
    map (item_text (cs_XLEN rcs)) (snd (entry_section rcs cfg hart))"
  by (simp add: tvec_instr_def entry_section_def saving_text [OF assms] csrr_hop [where xlen = "cs_XLEN rcs"]
      xtext_reg_no Let_def prefixed_def get_label_def)

lemma exception_text:
  "exception_instr rcs cfg hart ''MCAUSE'' ''MTVAL'' ''MEPC'' =
    map (item_text (cs_XLEN rcs)) (snd (exception_section rcs cfg hart))"
  by (simp add: exception_instr_def exception_section_def csrr_hop [where xlen = "cs_XLEN rcs"]
      xtext_reg_no Let_def prefixed_def get_label_def xtext_small [simplified])

lemma slot_hop:
  assumes "direct_handlers rcs cfg"
  shows "slot_text (core rcs) (if cs_XLEN rcs = 64 then ''sd'' else ''sw'') r i =
    hop_text (cs_XLEN rcs) (Base (Store i (int i * word_bytes (core rcs)) (reg_no r)))"
  using assms slot_text_store [of "core rcs" r i] by (auto simp: direct_handlers_def)

lemma ecall_text:
  assumes "direct_handlers rcs cfg"
  shows "gen_ecall_handler rcs cfg hart stream = stream @ section_lines (cs_XLEN rcs) (ecall_section rcs cfg hart)"
proof -
  have "map (slot_text (core rcs) (if cs_XLEN rcs = 64 then ''sd'' else ''sw'') (gpr_at cfg 0)) [0 ..< 32] =
      map (hop_text (cs_XLEN rcs)) (map (\<lambda>i. Base (Store i (int i * word_bytes (core rcs)) (g0 cfg))) [0 ..< 32])"
    unfolding map_map comp_def slot_hop [OF assms] by (rule refl)
  then have e: "gen_register_dump rcs cfg [] @
      [''la '' @ xreg (cfg_scratch_reg cfg) @ '', write_tohost'', ''jalr x0, '' @ xreg (cfg_scratch_reg cfg) @ '', 0''] =
      map (item_text (cs_XLEN rcs)) (snd (ecall_section rcs cfg hart))"
    unfolding gen_register_dump_def ecall_section_def snd_conv item_single
    by (simp add: xtext_reg_no xtext_small del: upt_rec_numeral)
  have f: "prefixed rcs ''ecall_handler'' hart = fst (ecall_section rcs cfg hart)"
    by (simp add: ecall_section_def)
  show ?thesis
    unfolding gen_ecall_handler_def section_lines_def e f by (rule section_append)
qed

lemma illegal_text:
  assumes "direct_handlers rcs cfg"
  shows "gen_illegal_instr_handler rcs cfg hart stream =
    Inr (stream @ section_lines (cs_XLEN rcs) (illegal_section rcs cfg hart))"
  using assms
  by (simp add: gen_illegal_instr_handler_def gen_signature_handshake_def direct_handlers_def Let_def
      restoring_text [OF assms] csrr_hop [where xlen = "cs_XLEN rcs"] illegal_section_def section_lines_def xtext_reg_no
      section_append [of _ _ stream] show_int_small)

lemma intr_text:
  assumes "direct_handlers rcs cfg"
  shows "gen_interrupt_handler_section rcs cfg MACHINE_MODE hart stream =
    Inr (stream @ [page_align rcs] @ section_lines (cs_XLEN rcs) (intr_section rcs cfg hart))"
proof -
  have "\<not> mode_val MACHINE_MODE < mode_val (cfg_init_privileged_mode cfg)"
    by (cases "cfg_init_privileged_mode cfg") simp_all
  then show ?thesis
    by (simp add: gen_interrupt_handler_section_def restoring_text [OF assms] nested_text_def read_back_text_def
      csrr_hop [where xlen = "cs_XLEN rcs"] intr_section_def section_lines_def xtext_reg_no nested_ops_def
      read_back_ops_def section_append [of _ _ "stream @ _"] Let_def show_int_small py_hex_one)
qed


lemma trap_text:
  assumes "direct_handlers rcs cfg" and "\<not> cs_support_pmp rcs"
  shows "gen_all_trap_handler rcs cfg False hart stream =
    Inr (stream @ [Line (if cs_SATP_MODE rcs \<noteq> BARE then ''.align 12''
                         else ''.align '' @ show_int (cfg_tvec_alignment cfg))] @
      concat (map (section_lines (cs_XLEN rcs)) (trap_sections rcs cfg hart)))"
proof -
  have m: "str_lower ''MTVEC'' @ ''_handler'' = ''mtvec_handler''"
    "''m'' @ ''mode_exception_handler'' = ''mmode_exception_handler''" by code_simp+
  have d: "cfg_mtvec_mode cfg \<noteq> VECTORED" "\<not> cfg_require_signature_addr cfg"
    using assms(1) by (simp_all add: direct_handlers_def)
  show ?thesis
    unfolding gen_all_trap_handler_def gen_trap_handlers_def gen_trap_handler_section_def m
      entry_text [OF assms(1)] exception_text ecall_text [OF assms(1)] illegal_text [OF assms(1)]
    using d assms(2)
    by (simp add: gen_signature_handshake_def trap_sections_def section_lines_def entry_section_def
        exception_section_def section_append [of _ _ "_ @ _"])
qed

section \<open>Running the handlers\<close>

text \<open>The registers the handlers use are apart from each other and from the stack pointer.\<close>

definition handler_regs :: "prog_cfg \<Rightarrow> bool" where
  "handler_regs cfg \<longleftrightarrow> cfg_sp cfg \<noteq> ZERO \<and> cfg_tp cfg \<noteq> ZERO \<and> cfg_sp cfg \<noteq> cfg_tp cfg \<and>
     gpr_at cfg 0 \<notin> {ZERO, cfg_sp cfg} \<and> gpr_at cfg 1 \<notin> {ZERO, cfg_sp cfg, gpr_at cfg 0}"

lemma handler_regs_numbers:
  assumes "handler_regs cfg"
  shows "g0 cfg \<noteq> 0" "g1 cfg \<noteq> 0" "g1 cfg \<noteq> g0 cfg" "g0 cfg \<noteq> g1 cfg" "reg_no (cfg_sp cfg) \<noteq> g0 cfg"
    "reg_no (cfg_sp cfg) \<noteq> g1 cfg" "reg_no (cfg_sp cfg) \<noteq> 0"
  using assms reg_no_range [of "gpr_at cfg 0"] reg_no_range [of "gpr_at cfg 1"] reg_no_range [of "cfg_sp cfg"]
  by (auto simp: handler_regs_def reg_no_inj)

text \<open>A machine about to take a trap: words in its registers and in \<open>mcause\<close> and \<open>mepc\<close>.\<close>

definition trapped :: "prog_setting \<Rightarrow> mstate \<Rightarrow> bool" where
  "trapped rcs s \<longleftrightarrow> wf_regs (core rcs) s \<and> (\<forall>c \<in> {''MCAUSE'', ''MEPC'', ''MIP''}. wrap (cs_XLEN rcs) (csr s c) = csr s c)"

definition saved :: "prog_setting \<Rightarrow> prog_cfg \<Rightarrow> mstate \<Rightarrow> mstate" where
  "saved rcs cfg s = run (cs_XLEN rcs) (push_ops (core rcs) ''MSCRATCH'' (cfg_sp cfg) (cfg_tp cfg)) s"

lemma saved_facts:
  assumes "direct_handlers rcs cfg" and "handler_regs cfg" and "wf_regs (core rcs) s"
  shows "gpr (saved rcs cfg s) 0 = 0" and "c \<noteq> ''MSCRATCH'' \<Longrightarrow> csr (saved rcs cfg s) c = csr s c"
proof -
  have x: "xlen_ok (core rcs)" using assms(1) by (simp add: xlen_ok_def direct_handlers_def)
  have r: "cfg_sp cfg \<noteq> ZERO" "cfg_tp cfg \<noteq> ZERO" "cfg_sp cfg \<noteq> cfg_tp cfg"
    using assms(2) by (simp_all add: handler_regs_def)
  note P = push_effect [OF x assms(3) r, where scratch = "''MSCRATCH''"]
  show "gpr (saved rcs cfg s) 0 = 0" "c \<noteq> ''MSCRATCH'' \<Longrightarrow> csr (saved rcs cfg s) c = csr s c"
    using P(1,2) assms(3) handler_regs_numbers(7) [OF assms(2)] by (simp_all add: saved_def wf_regs_def)
qed

lemma top_bit:
  assumes "0 < n" and "wrap n c = c"
  shows "wrap n (drop_bit (n - 1) c) = (if 2 ^ (n - 1) \<le> c then 1 else 0)"
proof -
  have p: "(2 :: int) ^ n = 2 * 2 ^ (n - 1)" using assms(1) by (cases n) simp_all
  have "0 \<le> c" "c < 2 ^ n"
    using assms(2) pos_mod_sign [of "2 ^ n" c] pos_mod_bound [of "2 ^ n" c] by (simp_all add: wrap_def)
  then have "c div 2 ^ (n - 1) = (if 2 ^ (n - 1) \<le> c then 1 else 0)"
    by (auto simp: p div_pos_geq div_pos_pos_trivial)
  moreover have "(1 :: int) mod (2 * 2 ^ (n - 1)) = 1"
    using one_le_power [of "2 :: int" "n - 1"] by (intro mod_pos_pos_trivial) linarith+
  ultimately show ?thesis using assms(1) by (simp add: drop_bit_eq_div wrap_def p)
qed

lemma run_entry:
  assumes "direct_handlers rcs cfg" and "handler_regs cfg" and "trapped rcs s"
  shows "\<exists>v. run_section (cs_XLEN rcs) place (concat (snd (entry_section rcs cfg hart))) s =
    ((saved rcs cfg s)\<lparr>gpr := (gpr (saved rcs cfg s))(g0 cfg := v)\<rparr>,
     if 2 ^ (cs_XLEN rcs - 1) \<le> csr s ''MCAUSE'' then Jumps (prefixed rcs ''mmode_intr_handler'' hart) else Falls)"
proof -
  let ?x = "cs_XLEN rcs" and ?c = "csr s ''MCAUSE''"
  note n = handler_regs_numbers [OF assms(2)]
  have wf: "wf_regs (core rcs) s" and c: "wrap ?x ?c = ?c" using assms(3) by (simp_all add: trapped_def)
  have x: "0 < ?x" "nat (int ?x - 1) = ?x - 1" using assms(1) by (auto simp: direct_handlers_def)
  have ops: "concat (snd (entry_section rcs cfg hart)) = saving rcs cfg ''MSCRATCH'' @
      (if cfg_check_xstatus cfg then [Csrr '' '' (g0 cfg) ''MSTATUS'' (comment ''MSTATUS'')] else []) @
      [Csrr '' '' (g0 cfg) ''MCAUSE'' (comment ''MCAUSE''), Srli (g0 cfg) (g0 cfg) (int ?x - 1),
        Bnez (g0 cfg) (prefixed rcs ''mmode_intr_handler'' hart)]"
    by (simp add: entry_section_def)
  show ?thesis
    unfolding ops saving_def run_section_ops saved_def [symmetric]
    using n x c saved_facts [OF assms(1,2) wf] top_bit [OF x(1) c]
    by (intro exI [of _ "if 2 ^ (?x - 1) \<le> ?c then 1 else 0"]) (simp add: run_section.simps set_gpr_def)
qed

text \<open>What the handlers leave alone between saving and restoring.\<close>

definition only_regs :: "prog_cfg \<Rightarrow> mstate \<Rightarrow> mstate \<Rightarrow> bool" where
  "only_regs cfg s t \<longleftrightarrow> mem t = mem s \<and> (\<forall>i. i \<noteq> g0 cfg \<and> i \<noteq> g1 cfg \<longrightarrow> gpr t i = gpr s i) \<and>
     csr t ''MSCRATCH'' = csr s ''MSCRATCH''"

lemma restored:
  assumes "direct_handlers rcs cfg" and "handler_regs cfg" and "trapped rcs s"
    and "only_regs cfg (saved rcs cfg s) t" and "i < 32"
  shows "gpr (run (cs_XLEN rcs) (pop_ops (core rcs) ''MSCRATCH'' (cfg_sp cfg) (cfg_tp cfg)) t) i = gpr s i"
proof -
  have x: "xlen_ok (core rcs)" using assms(1) by (simp add: xlen_ok_def direct_handlers_def)
  have r: "cfg_sp cfg \<noteq> ZERO" "cfg_tp cfg \<noteq> ZERO" "cfg_sp cfg \<noteq> cfg_tp cfg"
    using assms(2) by (simp_all add: handler_regs_def)
  have wf: "wf_regs (core rcs) s" using assms(3) by (simp add: trapped_def)
  note n = handler_regs_numbers [OF assms(2)]
  have "gpr t (reg_no (cfg_sp cfg)) = gpr (saved rcs cfg s) (reg_no (cfg_sp cfg))"
    "gpr t 0 = gpr (saved rcs cfg s) 0"
    using assms(4) n unfolding only_regs_def by (metis, metis)
  then have "same_frame (core rcs) ''MSCRATCH'' (cfg_sp cfg)
      (frame_base (core rcs) ''MSCRATCH'' (cfg_sp cfg) (cfg_tp cfg) s)
      (run (cs_XLEN (core rcs)) (push_ops (core rcs) ''MSCRATCH'' (cfg_sp cfg) (cfg_tp cfg)) s) t"
    using assms(4) saved_facts(1) [OF assms(1,2) wf]
    by (simp add: same_frame_def only_regs_def saved_def)
  from restore [OF x wf r this assms(5)] show ?thesis by simp
qed

lemma run_load_csr: "csr (run xlen (load_ops w b is) s) = csr s"
  by (induction "is" arbitrary: s) (simp_all add: load_ops_def run_Cons set_gpr_def)

lemma pop_csr:
  assumes "c \<noteq> scratch"
  shows "csr (run xlen (pop_ops rcs scratch sp tp) s) c = csr s c"
proof -
  have "pop_ops rcs scratch sp tp = load_ops (word_bytes rcs) (reg_no sp) [1..<32] @
     [Addi False (reg_no sp) (reg_no sp) (31 * word_bytes rcs)] @
     (if scratch \<in> set (cs_implemented_csr rcs)
      then [Add (reg_no tp) (reg_no sp), Csrrw (reg_no sp) scratch (reg_no sp)] else [])"
    by (simp add: pop_ops_def load_ops_def del: upt_rec_numeral)
  then show ?thesis
    using assms by (simp add: run_append run_Cons set_gpr_def run_load_csr)
qed

lemma run_exception:
  assumes "handler_regs cfg" and "direct_handlers rcs cfg" and "csr s ''MCAUSE'' = 2"
  shows "\<exists>t. run_section (cs_XLEN rcs) place (concat (snd (exception_section rcs cfg hart))) s =
    (t, Jumps (prefixed rcs ''illegal_instr_handler'' hart)) \<and> only_regs cfg s t \<and> csr t = csr s"
proof -
  note n = handler_regs_numbers [OF assms(1)]
  have w: "wrap (cs_XLEN rcs) 2 = 2" "wrap (cs_XLEN rcs) 11 = 11"
    using assms(2) by (auto simp: direct_handlers_def wrap_def)
  show ?thesis
    using n w assms(3)
    by (simp add: exception_section_def run_section.simps set_gpr_def only_regs_def)
qed

lemma run_illegal:
  assumes "direct_handlers rcs cfg" and "handler_regs cfg" and "trapped rcs s"
    and "only_regs cfg (saved rcs cfg s) t" and "csr t ''MEPC'' = csr s ''MEPC''"
  shows "\<exists>s'. run_section (cs_XLEN rcs) place (concat (snd (illegal_section rcs cfg hart))) t = (s', Returns ''mret'') \<and>
    (\<forall>i < 32. gpr s' i = gpr s i) \<and> csr s' ''MEPC'' = wrap (cs_XLEN rcs) (csr s ''MEPC'' + 4)"
proof -
  note n = handler_regs_numbers [OF assms(2)]
  let ?m = "wrap (cs_XLEN rcs) (csr s ''MEPC'' + 4)"
  let ?t = "t\<lparr>gpr := (gpr t)(g0 cfg := ?m), csr := (csr t)(''MEPC'' := ?m)\<rparr>"
  have e: "wrap (cs_XLEN rcs) (csr s ''MEPC'') = csr s ''MEPC''" using assms(3) by (simp add: trapped_def)
  have "run_section (cs_XLEN rcs) place (concat (snd (illegal_section rcs cfg hart))) t =
      (run (cs_XLEN rcs) (pop_ops (core rcs) ''MSCRATCH'' (cfg_sp cfg) (cfg_tp cfg)) ?t, Returns ''mret'')"
    using n assms(5) e
    by (simp add: illegal_section_def restoring_def run_section_ops run_section.simps set_gpr_def set_csr_def)
  moreover have "only_regs cfg (saved rcs cfg s) ?t" using assms(4) n by (simp add: only_regs_def)
  ultimately show ?thesis using restored [OF assms(1-3)] pop_csr [of "''MEPC''" "''MSCRATCH''"] by simp
qed

definition trap_code :: "prog_setting \<Rightarrow> prog_cfg \<Rightarrow> nat \<Rightarrow> code_section list" where
  "trap_code rcs cfg hart = trap_sections rcs cfg hart @ [intr_section rcs cfg hart]"

lemma labels:
  "map fst (trap_code rcs cfg hart) =
    map (\<lambda>l. prefixed rcs l hart) [''mtvec_handler'', ''mmode_exception_handler'', ''ecall_handler'',
      ''illegal_instr_handler'', ''pt_fault_handler'', ''mmode_intr_handler'']"
  by (simp add: trap_code_def trap_sections_def entry_section_def exception_section_def ecall_section_def
      illegal_section_def intr_section_def)

lemma prefixed_eq [simp]: "prefixed rcs l hart = prefixed rcs l' hart \<longleftrightarrow> l = l'"
  by (simp add: prefixed_def get_label_def)

lemma run_falls:
  "run_section xlen place (concat (snd sec)) s = (s', Falls) \<Longrightarrow>
    run_sections xlen place (sec # secs) s = run_sections xlen place secs s'"
  by (simp add: run_sections.simps(2))

lemma run_jumps:
  "run_section xlen place (concat (snd sec)) s = (s', Jumps label) \<Longrightarrow> label \<in> set (map fst secs) \<Longrightarrow>
    run_sections xlen place (sec # secs) s = run_sections xlen place (dropWhile (\<lambda>sec. fst sec \<noteq> label) secs) s'"
  by (simp add: run_sections.simps(2))

lemma run_returns:
  "run_section xlen place (concat (snd sec)) s = (s', Returns name) \<Longrightarrow>
    run_sections xlen place (sec # secs) s = (s', Returns name)"
  by (simp add: run_sections.simps(2))

lemma section_labels [simp]:
  "fst (entry_section rcs cfg hart) = prefixed rcs ''mtvec_handler'' hart"
  "fst (exception_section rcs cfg hart) = prefixed rcs ''mmode_exception_handler'' hart"
  "fst (ecall_section rcs cfg hart) = prefixed rcs ''ecall_handler'' hart"
  "fst (illegal_section rcs cfg hart) = prefixed rcs ''illegal_instr_handler'' hart"
  "fst (intr_section rcs cfg hart) = prefixed rcs ''mmode_intr_handler'' hart"
  by (simp_all add: entry_section_def exception_section_def ecall_section_def illegal_section_def intr_section_def)

lemma illegal_returns:
  assumes "direct_handlers rcs cfg" and "handler_regs cfg" and "trapped rcs s" and "csr s ''MCAUSE'' = 2"
  shows "\<exists>s'. run_sections (cs_XLEN rcs) place (trap_code rcs cfg hart) s = (s', Returns ''mret'') \<and>
    (\<forall>i < 32. gpr s' i = gpr s i) \<and> csr s' ''MEPC'' = wrap (cs_XLEN rcs) (csr s ''MEPC'' + 4)"
proof -
  let ?x = "cs_XLEN rcs"
  have low: "\<not> 2 ^ (?x - 1) \<le> csr s ''MCAUSE''" using assms(1,4) by (auto simp: direct_handlers_def)
  obtain v where E: "run_section ?x place (concat (snd (entry_section rcs cfg hart))) s =
    ((saved rcs cfg s)\<lparr>gpr := (gpr (saved rcs cfg s))(g0 cfg := v)\<rparr>, Falls)" (is "_ = (?s1, _)")
    using run_entry [OF assms(1-3), of place hart] low by auto
  have wf: "wf_regs (core rcs) s" using assms(3) by (simp add: trapped_def)
  have c: "csr ?s1 c = csr s c" if "c \<noteq> ''MSCRATCH''" for c
    using saved_facts(2) [OF assms(1,2) wf that] by simp
  obtain t where T: "run_section ?x place (concat (snd (exception_section rcs cfg hart))) ?s1 =
      (t, Jumps (prefixed rcs ''illegal_instr_handler'' hart))" "only_regs cfg ?s1 t" "csr t = csr ?s1"
    using run_exception [OF assms(2,1), of ?s1 place hart] c assms(4) by auto
  have o: "only_regs cfg (saved rcs cfg s) t" using T(2) by (simp add: only_regs_def)
  have "csr t ''MEPC'' = csr s ''MEPC''" using T(3) c by simp
  from run_illegal [OF assms(1-3) o this, of place hart]
  obtain s' where R: "run_section ?x place (concat (snd (illegal_section rcs cfg hart))) t = (s', Returns ''mret'')"
    "\<forall>i < 32. gpr s' i = gpr s i" "csr s' ''MEPC'' = wrap ?x (csr s ''MEPC'' + 4)" by blast
  have "run_sections ?x place (trap_code rcs cfg hart) s = (s', Returns ''mret'')"
    unfolding trap_code_def trap_sections_def append.simps run_falls [OF E]
    using run_returns [OF R(1)] by (subst run_jumps [OF T(1)]) simp_all
  with R(2,3) show ?thesis by blast
qed

section \<open>Interrupts\<close>

text \<open>
  Without nesting the handler only reads and acknowledges. With nesting it also writes zero to the scratch
  register, where the stack pointer of the program is.
\<close>

lemma run_intr_plain:
  assumes "direct_handlers rcs cfg" and "handler_regs cfg" and "trapped rcs s"
    and "only_regs cfg (saved rcs cfg s) t" and "csr t ''MEPC'' = csr s ''MEPC''"
    and "\<not> cfg_enable_nested_interrupt cfg"
  shows "\<exists>s'. run_section (cs_XLEN rcs) place (concat (snd (intr_section rcs cfg hart))) t = (s', Returns ''mret;'') \<and>
    (\<forall>i < 32. gpr s' i = gpr s i) \<and> csr s' ''MEPC'' = csr s ''MEPC''"
proof -
  note n = handler_regs_numbers [OF assms(2)]
  let ?t = "t\<lparr>csr := (csr t)(''MIP'' := csr t ''MIP'' AND NOT (wrap (cs_XLEN rcs) (csr t ''MIP''))),
    gpr := (gpr t)(g0 cfg := wrap (cs_XLEN rcs) (csr t ''MIP''))\<rparr>"
  have r: "run_section (cs_XLEN rcs) place (concat (snd (intr_section rcs cfg hart))) t =
      (run (cs_XLEN rcs) (pop_ops (core rcs) ''MSCRATCH'' (cfg_sp cfg) (cfg_tp cfg)) ?t, Returns ''mret;'')"
    using n assms(6)
    by (simp add: intr_section_def read_back_ops_def restoring_def run_section_ops run_section.simps set_gpr_def
        set_csr_def)
  have "only_regs cfg (saved rcs cfg s) ?t" using assms(4) n by (simp add: only_regs_def)
  then show ?thesis
    using r restored [OF assms(1-3)] pop_csr [of "''MEPC''" "''MSCRATCH''"] assms(5) by simp
qed

lemma pop_scratch:
  assumes "scratch \<in> set (cs_implemented_csr rcs)" and "sp \<noteq> ZERO"
  shows "gpr (run xlen (pop_ops rcs scratch sp tp) s) (reg_no sp) = wrap xlen (csr s scratch)"
proof -
  have "pop_ops rcs scratch sp tp = (load_ops (word_bytes rcs) (reg_no sp) [1..<32] @
     [Addi False (reg_no sp) (reg_no sp) (31 * word_bytes rcs), Add (reg_no tp) (reg_no sp)]) @
     [Csrrw (reg_no sp) scratch (reg_no sp)]"
    using assms(1) by (simp add: pop_ops_def load_ops_def del: upt_rec_numeral)
  then show ?thesis
    using reg_no_range [OF assms(2)] by (simp add: run_append run_Cons set_gpr_def run_load_csr)
qed

lemma dropWhile_nested:
  "run_section xlen place (dropWhile (\<lambda>h. \<not> is_one h) (Csrwi False c v # Csrsi c' v' # Csrwi True c'' v'' # hs)) s =
    run_section xlen place hs (set_csr c'' v'' s)"
  by (simp add: run_section.simps)

lemma run_intr_nested:
  assumes "handler_regs cfg" and "cfg_enable_nested_interrupt cfg" and "''MSCRATCH'' \<in> set (cs_implemented_csr rcs)"
  shows "\<exists>s'. run_section (cs_XLEN rcs) place (concat (snd (intr_section rcs cfg hart))) t = (s', Returns ''mret;'') \<and>
    gpr s' (reg_no (cfg_sp cfg)) = 0"
proof -
  let ?pop = "pop_ops (core rcs) ''MSCRATCH'' (cfg_sp cfg) (cfg_tp cfg)"
  have z: "cfg_sp cfg \<noteq> ZERO" using assms(1) by (simp add: handler_regs_def)
  have z0: "gpr (run (cs_XLEN rcs) ?pop u) (reg_no (cfg_sp cfg)) = 0" if "csr u ''MSCRATCH'' = 0" for u
    using pop_scratch [of "''MSCRATCH''" "core rcs", OF _ z] assms(3) that by (simp add: wrap_def)
  have tail: "\<exists>s'. run_section (cs_XLEN rcs) place (read_back_ops cfg @ restoring rcs cfg ''MSCRATCH'' @ [Ret ''mret;'']) u =
      (s', Returns ''mret;'') \<and> gpr s' (reg_no (cfg_sp cfg)) = 0" if "csr u ''MSCRATCH'' = 0" for u
    using that handler_regs_numbers [OF assms(1)]
    by (simp add: read_back_ops_def restoring_def run_section_ops run_section.simps set_gpr_def set_csr_def z0)
  have nest: "\<exists>u. csr u ''MSCRATCH'' = 0 \<and> run_section (cs_XLEN rcs) place (nested_ops cfg @ hs) t =
      run_section (cs_XLEN rcs) place hs u" for hs
  proof -
    let ?w = "set_gpr (cs_XLEN rcs) (g0 cfg) (csr t ''MSCRATCH'') t"
    show ?thesis
    proof (cases "0 < gpr ?w (g0 cfg) \<and> gpr ?w (g0 cfg) < 2 ^ (cs_XLEN rcs - 1)")
      case True
      then show ?thesis
        by (intro exI [of _ "set_csr ''MSCRATCH'' 0 ?w"])
           (simp add: nested_ops_def run_section.simps(2) set_csr_def)
    next
      case False
      then show ?thesis
        by (intro exI [of _ "set_csr ''MSCRATCH'' 0 (set_csr ''MSTATUS'' (csr ?w ''MSTATUS'' OR 8) (set_csr ''MSCRATCH'' 1 ?w))"])
           (use False in \<open>auto simp: nested_ops_def run_section.simps(2) set_csr_def\<close>)
    qed
  qed
  obtain u where u: "csr u ''MSCRATCH'' = 0" "run_section (cs_XLEN rcs) place
      (nested_ops cfg @ read_back_ops cfg @ restoring rcs cfg ''MSCRATCH'' @ [Ret ''mret;'']) t =
      run_section (cs_XLEN rcs) place (read_back_ops cfg @ restoring rcs cfg ''MSCRATCH'' @ [Ret ''mret;'']) u"
    using nest by blast
  from tail [OF u(1)] assms(2) u(2) show ?thesis by (simp add: intr_section_def)
qed

lemma interrupt_runs:
  assumes "direct_handlers rcs cfg" and "handler_regs cfg" and "trapped rcs s"
    and "2 ^ (cs_XLEN rcs - 1) \<le> csr s ''MCAUSE''"
  shows "\<exists>t. only_regs cfg (saved rcs cfg s) t \<and> csr t ''MEPC'' = csr s ''MEPC'' \<and>
    (\<forall>s' name. run_section (cs_XLEN rcs) place (concat (snd (intr_section rcs cfg hart))) t = (s', Returns name) \<longrightarrow>
      run_sections (cs_XLEN rcs) place (trap_code rcs cfg hart) s = (s', Returns name))"
proof -
  let ?x = "cs_XLEN rcs"
  obtain v where E: "run_section ?x place (concat (snd (entry_section rcs cfg hart))) s =
    ((saved rcs cfg s)\<lparr>gpr := (gpr (saved rcs cfg s))(g0 cfg := v)\<rparr>, Jumps (prefixed rcs ''mmode_intr_handler'' hart))"
    (is "_ = (?s1, _)")
    using run_entry [OF assms(1-3), of place hart] assms(4) by auto
  have wf: "wf_regs (core rcs) s" using assms(3) by (simp add: trapped_def)
  have "run_sections ?x place (trap_code rcs cfg hart) s = (s', Returns name)"
    if "run_section ?x place (concat (snd (intr_section rcs cfg hart))) ?s1 = (s', Returns name)" for s' name
    unfolding trap_code_def trap_sections_def append.simps
    using run_returns [OF that] by (subst run_jumps [OF E]) simp_all
  moreover have "only_regs cfg (saved rcs cfg s) ?s1" "csr ?s1 ''MEPC'' = csr s ''MEPC''"
    using saved_facts(2) [OF assms(1,2) wf] by (simp_all add: only_regs_def)
  ultimately show ?thesis by blast
qed

end
