(* ===== verification/Pygen_Privil_Facts.thy ===== *)
theory Pygen_Privil_Facts
  imports Pygen_Privil
begin

text \<open>
  The value of a register is that of its fields, each at the sum of the widths before it; setting fields
  by name keeps the layout.
\<close>

section \<open>Fields by name\<close>

definition field_names :: "riscv_reg \<Rightarrow> string list" where
  "field_names r = map fl_name (rg_fld r)"

definition field_widths :: "riscv_reg \<Rightarrow> int list" where
  "field_widths r = map fl_bit_width (rg_fld r)"

definition val_of :: "riscv_reg \<Rightarrow> string \<Rightarrow> int option" where
  "val_of r = map_of (map (\<lambda>f. (fl_name f, fl_val f)) (rg_fld r))"

text \<open>Every field holds a value of its width.\<close>

definition fields_fit :: "riscv_reg \<Rightarrow> bool" where
  "fields_fit r \<longleftrightarrow> (\<forall>f \<in> set (rg_fld r). 0 \<le> fl_bit_width f \<and> 0 \<le> fl_val f \<and> fl_val f < 2 ^ nat (fl_bit_width f))"

lemma find_field_found:
  assumes "distinct (map fl_name fs)" and "i < length fs" and "fl_name (fs ! i) = name"
  shows "find_field name fs = Some i"
proof (cases "find_field name fs")
  case None
  then have "\<forall>j \<in> set (rev [0 ..< length fs]). fl_name (fs ! j) \<noteq> name"
    by (auto simp: find_field_def find_None_iff)
  with assms(2,3) show ?thesis by auto
next
  case (Some j)
  then obtain k where "k < length (rev [0 ..< length fs])" "fl_name (fs ! (rev [0 ..< length fs] ! k)) = name"
    "j = rev [0 ..< length fs] ! k"
    by (auto simp: find_field_def find_Some_iff)
  then have "j < length fs" "fl_name (fs ! j) = name" by (auto simp: rev_nth)
  with assms have "j = i" by (metis length_map nth_eq_iff_index_eq nth_map)
  with Some show ?thesis by simp
qed

lemma val_of_update:
  assumes "distinct (map fl_name fs)" and "i < length fs" and "fl_name g = fl_name (fs ! i)"
  shows "map_of (map (\<lambda>f. (fl_name f, fl_val f)) (fs[i := g])) =
    (map_of (map (\<lambda>f. (fl_name f, fl_val f)) fs))(fl_name (fs ! i) \<mapsto> fl_val g)"
  using assms
proof (induction fs arbitrary: i)
  case Nil
  then show ?case by simp
next
  case (Cons f fs)
  show ?case
  proof (cases i)
    case 0
    then show ?thesis using Cons.prems by (simp add: fun_eq_iff)
  next
    case (Suc j)
    then have "fl_name (fs ! j) \<noteq> fl_name f" using Cons.prems by auto (metis image_eqI nth_mem)
    then show ?thesis using Cons Suc by (auto simp: fun_eq_iff)
  qed
qed

lemma replace_field:
  assumes "rg_fld q' = (rg_fld q)[i := g]" and "i < length (rg_fld q)" and "fields_fit q"
    and "fl_name g = fl_name (rg_fld q ! i)" and "fl_bit_width g = fl_bit_width (rg_fld q ! i)"
    and "0 \<le> fl_val g" and "fl_val g < 2 ^ nat (fl_bit_width (rg_fld q ! i))"
  shows "field_names q' = field_names q \<and> field_widths q' = field_widths q \<and> fields_fit q'"
proof -
  have "map fl_name ((rg_fld q)[i := g]) = map fl_name (rg_fld q)"
    "map fl_bit_width ((rg_fld q)[i := g]) = map fl_bit_width (rg_fld q)"
    using assms(2,4,5) by (simp_all add: map_update list_update_same_conv)
  moreover have "fields_fit q'"
    using assms(3,5-7) nth_mem [OF assms(2)] set_update_subset_insert [of "rg_fld q" i g]
    unfolding fields_fit_def assms(1) by auto
  ultimately show ?thesis by (simp add: field_names_def field_widths_def assms(1))
qed

lemma set_field_effect:
  assumes "distinct (field_names r)" and "name \<in> set (field_names r)" and "fields_fit r"
    and "\<And>w. (name, w) \<in> set (zip (field_names r) (field_widths r)) \<Longrightarrow> 0 \<le> store v \<and> store v < 2 ^ nat w"
  shows "\<exists>r'. set_field store name v False r = Inr r' \<and> field_names r' = field_names r \<and>
    field_widths r' = field_widths r \<and> rg_name r' = rg_name r \<and> fields_fit r' \<and>
    val_of r' = (val_of r)(name \<mapsto> store v)"
proof -
  obtain i where i: "i < length (rg_fld r)" "fl_name (rg_fld r ! i) = name"
    using assms(2) by (auto simp: field_names_def in_set_conv_nth)
  let ?g = "(rg_fld r ! i)\<lparr>fl_val := store v, fl_hard_wired := False\<rparr>"
  have f: "find_field name (rg_fld r) = Some i"
    using find_field_found [OF _ i] assms(1) by (simp add: field_names_def)
  have "(name, fl_bit_width (rg_fld r ! i)) \<in> set (zip (field_names r) (field_widths r))"
    using i by (auto simp: field_names_def field_widths_def in_set_zip intro!: exI [of _ i])
  then have w: "0 \<le> store v" "store v < 2 ^ nat (fl_bit_width (rg_fld r ! i))" using assms(4) by auto
  have "field_names (r\<lparr>rg_fld := (rg_fld r)[i := ?g]\<rparr>) = field_names r \<and>
      field_widths (r\<lparr>rg_fld := (rg_fld r)[i := ?g]\<rparr>) = field_widths r \<and>
      fields_fit (r\<lparr>rg_fld := (rg_fld r)[i := ?g]\<rparr>)"
    using i(1) assms(3) w by (intro replace_field [where i = i and g = ?g]) simp_all
  moreover have "val_of (r\<lparr>rg_fld := (rg_fld r)[i := ?g]\<rparr>) = (val_of r)(name \<mapsto> store v)"
    using val_of_update [of "rg_fld r" i ?g] assms(1) i by (simp add: val_of_def field_names_def)
  ultimately show ?thesis by (simp add: set_field_def f)
qed

lemma set_fields_effect:
  assumes "distinct (field_names r)" and "fields_fit r"
    and "\<forall>(name, v) \<in> set fs. name \<in> set (field_names r) \<and>
      (\<forall>w. (name, w) \<in> set (zip (field_names r) (field_widths r)) \<longrightarrow> 0 \<le> store v \<and> store v < 2 ^ nat w)"
  shows "\<exists>r'. set_fields store fs r = Inr r' \<and> field_names r' = field_names r \<and>
    field_widths r' = field_widths r \<and> rg_name r' = rg_name r \<and> fields_fit r' \<and>
    val_of r' = val_of r ++ map_of (rev (map (\<lambda>(name, v). (name, store v)) fs))"
  using assms
proof (induction fs arbitrary: r)
  case Nil
  then show ?case by (simp add: set_fields_def)
next
  case (Cons nv fs)
  obtain name v where nv: "nv = (name, v)" by (cases nv)
  have p: "name \<in> set (field_names r)"
    "\<And>w. (name, w) \<in> set (zip (field_names r) (field_widths r)) \<Longrightarrow> 0 \<le> store v \<and> store v < 2 ^ nat w"
    using Cons.prems(3) by (auto simp: nv)
  from set_field_effect [of r name store v, OF Cons.prems(1) p(1) Cons.prems(2) p(2)] obtain r1 where
    r1: "set_field store name v False r = Inr r1" "field_names r1 = field_names r"
      "field_widths r1 = field_widths r" "rg_name r1 = rg_name r" "fields_fit r1"
      "val_of r1 = (val_of r)(name \<mapsto> store v)" by blast
  have "\<exists>r'. set_fields store fs r1 = Inr r' \<and> field_names r' = field_names r1 \<and>
    field_widths r' = field_widths r1 \<and> rg_name r' = rg_name r1 \<and> fields_fit r' \<and>
    val_of r' = val_of r1 ++ map_of (rev (map (\<lambda>(name, v). (name, store v)) fs))"
    using Cons.prems(1,3) r1(5) by (intro Cons.IH) (simp_all add: r1(2,3))
  then obtain r' where
    "set_fields store fs r1 = Inr r'" "field_names r' = field_names r1" "field_widths r' = field_widths r1"
    "rg_name r' = rg_name r1" "fields_fit r'"
    "val_of r' = val_of r1 ++ map_of (rev (map (\<lambda>(name, v). (name, store v)) fs))" by blast
  then show ?case
    using r1 by (auto simp: set_fields_def nv map_add_def fun_eq_iff split: option.split)
qed

section \<open>The packed value\<close>

fun pack :: "reg_field list \<Rightarrow> int" where
  "pack [] = 0"
| "pack (f # fs) = push_bit (nat (fl_bit_width f)) (pack fs) OR fl_val f"

fun position :: "string \<Rightarrow> (string \<times> int) list \<Rightarrow> nat" where
  "position name [] = 0"
| "position name ((n, w) # fs) = (if n = name then 0 else nat w + position name fs)"

lemma bits_below: "0 \<le> x \<Longrightarrow> x < 2 ^ n \<Longrightarrow> n \<le> m \<Longrightarrow> \<not> bit (x :: int) m"
  by (metis bit_take_bit_iff linorder_not_le take_bit_int_eq_self)

lemma pack_fits:
  assumes "\<forall>f \<in> set fs. 0 \<le> fl_bit_width f \<and> 0 \<le> fl_val f \<and> fl_val f < 2 ^ nat (fl_bit_width f)"
  shows "0 \<le> pack fs \<and> pack fs < 2 ^ (\<Sum>f \<leftarrow> fs. nat (fl_bit_width f))"
  using assms
proof (induction fs)
  case Nil
  then show ?case by simp
next
  case (Cons f fs)
  let ?w = "nat (fl_bit_width f)" and ?n = "\<Sum>f \<leftarrow> fs. nat (fl_bit_width f)"
  have IH: "0 \<le> pack fs" "pack fs < 2 ^ ?n" using Cons by auto
  have b: "bit (pack fs) m \<Longrightarrow> m < ?n" "bit (fl_val f) m \<Longrightarrow> m < ?w" for m
    using bits_below [OF IH, of m] bits_below [of "fl_val f" ?w m] Cons.prems by (auto simp flip: not_le)
  have "take_bit (?w + ?n) (pack (f # fs)) = pack (f # fs)"
    by (intro bit_eqI) (auto simp: bit_simps dest: b)
  then have "pack (f # fs) < 2 ^ (?w + ?n)" by (metis take_bit_int_less_exp)
  moreover have "0 \<le> pack (f # fs)" using IH Cons.prems by simp
  ultimately show ?case by simp
qed

lemma pack_field:
  assumes "\<forall>f \<in> set fs. 0 \<le> fl_bit_width f \<and> 0 \<le> fl_val f \<and> fl_val f < 2 ^ nat (fl_bit_width f)"
    and "distinct (map fl_name fs)" and "f \<in> set fs"
  shows "take_bit (nat (fl_bit_width f))
      (drop_bit (position (fl_name f) (map (\<lambda>f. (fl_name f, fl_bit_width f)) fs)) (pack fs)) = fl_val f"
  using assms
proof (induction fs)
  case Nil
  then show ?case by simp
next
  case (Cons g fs)
  show ?case
  proof (cases "f = g")
    case True
    have "take_bit (nat (fl_bit_width g)) (push_bit (nat (fl_bit_width g)) (pack fs) OR fl_val g) = fl_val g"
      using bits_below [of "fl_val g" "nat (fl_bit_width g)"] Cons.prems(1)
      by (intro bit_eqI) (auto simp: bit_simps not_le)
    then show ?thesis using True by simp
  next
    case False
    then have "f \<in> set fs" "fl_name g \<noteq> fl_name f" using Cons.prems by auto
    moreover have d: "drop_bit (nat (fl_bit_width g)) (push_bit (nat (fl_bit_width g)) (pack fs) OR fl_val g) = pack fs"
      using bits_below [of "fl_val g" "nat (fl_bit_width g)"] Cons.prems(1)
      by (intro bit_eqI) (auto simp: bit_simps)
    ultimately show ?thesis
      using Cons d by (simp add: add.commute [of "nat _"] flip: drop_bit_drop_bit del: drop_bit_or)
  qed
qed

section \<open>Reading and starting registers\<close>

text \<open>The solver's library keeps a word as it is.\<close>

definition keeps_words :: "(int \<Rightarrow> int) \<Rightarrow> nat \<Rightarrow> bool" where
  "keeps_words store xlen \<longleftrightarrow> (\<forall>x. 0 \<le> x \<and> x < 2 ^ xlen \<longrightarrow> store x = x)"

lemma foldr_pack:
  assumes "keeps_words store n" and "(\<Sum>f \<leftarrow> fs. nat (fl_bit_width f)) \<le> n"
    and "\<forall>f \<in> set fs. 0 \<le> fl_bit_width f \<and> 0 \<le> fl_val f \<and> fl_val f < 2 ^ nat (fl_bit_width f)"
  shows "foldr (\<lambda>f v. store (push_bit (nat (fl_bit_width f)) v OR fl_val f)) fs (store 0) = pack fs"
  using assms(2,3)
proof (induction fs)
  case Nil
  then show ?case using assms(1) by (simp add: keeps_words_def)
next
  case (Cons f fs)
  have "0 \<le> pack (f # fs) \<and> pack (f # fs) < 2 ^ (\<Sum>f \<leftarrow> f # fs. nat (fl_bit_width f))"
    by (rule pack_fits [OF Cons.prems(2)])
  moreover have "(2 :: int) ^ (\<Sum>f \<leftarrow> f # fs. nat (fl_bit_width f)) \<le> 2 ^ n"
    using Cons.prems(1) by (intro power_increasing) simp_all
  ultimately have "store (pack (f # fs)) = pack (f # fs)"
    using assms(1) unfolding keeps_words_def by (metis order_less_le_trans)
  then show ?case using Cons by simp
qed

lemma widths_sum:
  assumes "\<forall>f \<in> set fs. 0 \<le> fl_bit_width f"
  shows "int (\<Sum>f \<leftarrow> fs. nat (fl_bit_width f)) = (\<Sum>f \<leftarrow> fs. fl_bit_width f)"
  using assms by (induction fs) simp_all

lemma get_val_pack:
  assumes "keeps_words store xlen" and "fields_fit r" and "sum_list (field_widths r) = int xlen"
  shows "get_val store xlen r = Inr (pack (rg_fld r), r\<lparr>rg_val := pack (rg_fld r)\<rparr>)"
proof -
  have w: "(\<Sum>f \<leftarrow> rg_fld r. nat (fl_bit_width f)) = xlen"
    using widths_sum [of "rg_fld r"] assms(2,3) by (simp add: fields_fit_def field_widths_def)
  have "foldl (\<lambda>v f. store (push_bit (nat (fl_bit_width f)) v OR fl_val f)) (store 0) (rev (rg_fld r)) = pack (rg_fld r)"
    using foldr_pack [OF assms(1), of "rg_fld r"] w assms(2)
    by (simp add: foldl_conv_foldr fields_fit_def)
  moreover have "total_width (rev (rg_fld r)) = int xlen"
    using assms(3) by (simp add: total_width_def field_widths_def sum_list_rev flip: rev_map)
  ultimately show ?thesis by (simp add: get_val_def Let_def)
qed

lemma val_of_position:
  assumes "fields_fit r" and "distinct (field_names r)" and "val_of r name = Some v"
    and "(name, w) \<in> set (zip (field_names r) (field_widths r))"
  shows "take_bit (nat w) (drop_bit (position name (zip (field_names r) (field_widths r))) (pack (rg_fld r))) = v"
proof -
  have z: "zip (field_names r) (field_widths r) = map (\<lambda>f. (fl_name f, fl_bit_width f)) (rg_fld r)"
    by (simp add: field_names_def field_widths_def zip_map_map zip_same_conv_map)
  obtain f where f: "f \<in> set (rg_fld r)" "name = fl_name f" "w = fl_bit_width f"
    using assms(4) unfolding z by auto
  have "val_of r name = Some (fl_val f)"
    using assms(2) f by (auto simp: val_of_def field_names_def comp_def intro!: map_of_is_SomeI)
  then have "fl_val f = v" using assms(3) by simp
  then show ?thesis
    using pack_field [of "rg_fld r" f] assms(1,2) f(1) unfolding z f(2,3)
    by (simp add: fields_fit_def field_names_def)
qed

lemma add_fields_fld:
  "rg_fld (add_fields fs r) = rg_fld r @ map (\<lambda>(name, width, access). \<lparr>fl_name = name, fl_bit_width = width,
    fl_access_type = access, fl_reset_val = 0, fl_val = 0, fl_hard_wired = False\<rparr>) fs \<and>
   rg_name (add_fields fs r) = rg_name r"
  by (induction fs arbitrary: r) (auto simp: add_fields_def add_field_def)

lemma foldl_keeps:
  assumes "\<And>q i. P q \<Longrightarrow> i \<in> set is \<Longrightarrow> P (step q i)" and "P q"
  shows "P (foldl step q is)"
  using assms by (induction "is" arbitrary: q) simp_all

lemma quotient_less:
  assumes "(x :: int) < n * d" and "0 < d"
  shows "x div d < n"
proof (rule ccontr)
  assume "\<not> x div d < n"
  then have "n * d \<le> x div d * d" using assms(2) by (intro mult_right_mono) simp_all
  also have "\<dots> \<le> x" using assms(2) by (simp add: minus_mod_eq_div_mult [symmetric])
  finally show False using assms(1) by simp
qed

lemma set_val_keeps:
  assumes "keeps_words store xlen" and "0 \<le> val" and "val < 2 ^ xlen" and "fields_fit r"
    and "\<forall>w \<in> set (field_widths r). w \<le> int xlen"
  shows "field_names (set_val store xlen val r) = field_names r \<and>
    field_widths (set_val store xlen val r) = field_widths r \<and> fields_fit (set_val store xlen val r) \<and>
    rg_name (set_val store xlen val r) = rg_name r"
proof -
  let ?step = "\<lambda>r i. let f = rg_fld r ! i;
      g = (if \<not> fl_hard_wired f then f\<lparr>fl_val := store (drop_bit (nat (int xlen - fl_bit_width f)) val)\<rparr> else f)
    in r\<lparr>rg_fld := (rg_fld r)[i := g], rg_val := store (push_bit (nat (fl_bit_width f)) val)\<rparr>"
  let ?inv = "\<lambda>q. field_names q = field_names r \<and> field_widths q = field_widths r \<and> fields_fit q \<and>
    rg_name q = rg_name r"
  have top: "0 \<le> store (drop_bit (nat (int xlen - w)) val) \<and> store (drop_bit (nat (int xlen - w)) val) < 2 ^ nat w"
    if "0 \<le> w" "w \<le> int xlen" for w
  proof -
    let ?k = "nat (int xlen - w)"
    have x: "xlen = ?k + nat w" using that by simp
    have "(2 :: int) ^ xlen = 2 ^ nat w * 2 ^ ?k" by (subst x) (simp add: power_add)
    then have "val div 2 ^ ?k < 2 ^ nat w"
      using assms(3) by (intro quotient_less) simp_all
    moreover have "0 \<le> val div 2 ^ ?k" using assms(2) by (simp add: pos_imp_zdiv_nonneg_iff)
    moreover have "(2 :: int) ^ nat w \<le> 2 ^ xlen" using that by (intro power_increasing) simp_all
    ultimately have "store (val div 2 ^ ?k) = val div 2 ^ ?k"
      using assms(1) unfolding keeps_words_def by (metis order_less_le_trans)
    with \<open>val div 2 ^ ?k < 2 ^ nat w\<close> \<open>0 \<le> val div 2 ^ ?k\<close> show ?thesis
      by (simp only: drop_bit_eq_div)
  qed
  have step: "?inv (?step q i)" if q: "?inv q" and i: "i < length (rg_fld r)" for q i
  proof -
    have l: "i < length (rg_fld q)" using q i by (metis field_names_def length_map)
    have w: "fl_bit_width (rg_fld q ! i) \<in> set (field_widths r)"
      using q l by (metis field_widths_def in_set_conv_nth length_map nth_map)
    let ?f = "rg_fld q ! i"
    have f: "0 \<le> fl_bit_width ?f" using q l by (simp add: fields_fit_def)
    from top [OF f] w assms(5) have "0 \<le> store (drop_bit (nat (int xlen - fl_bit_width ?f)) val) \<and>
        store (drop_bit (nat (int xlen - fl_bit_width ?f)) val) < 2 ^ nat (fl_bit_width ?f)" by blast
    then have "field_names (?step q i) = field_names q \<and> field_widths (?step q i) = field_widths q \<and>
        fields_fit (?step q i)"
      using q l nth_mem [OF l] unfolding Let_def
      by (intro replace_field [where i = i and g = "if \<not> fl_hard_wired ?f
          then ?f\<lparr>fl_val := store (drop_bit (nat (int xlen - fl_bit_width ?f)) val)\<rparr> else ?f"])
         (auto simp: fields_fit_def)
    with q show ?thesis by (simp add: Let_def)
  qed
  show ?thesis
    unfolding set_val_def using assms(4) by (intro foldl_keeps [where P = ?inv] step) simp_all
qed

section \<open>The status register\<close>

text \<open>
  What the status register should hold, by the layout that the instruction set gives \<open>mstatus\<close>: each
  field with its lowest bit, its width and its value.
\<close>

definition mstatus_spec :: "prog_setting \<Rightarrow> prog_cfg \<Rightarrow> privileged_mode_t \<Rightarrow> (string \<times> nat \<times> int \<times> int) list" where
  "mstatus_spec rcs cfg mode =
     (let ie = cfg_enable_interrupt cfg; has = (\<lambda>m. if m \<in> set (cs_supported_privileged_mode rcs) then 2 else 0) in
     [(''UIE'', 0, 1, as_int (cs_support_umode_trap rcs)), (''SIE'', 1, 1, ie), (''MIE'', 3, 1, ie),
      (''UPIE'', 4, 1, ie), (''SPIE'', 5, 1, ie), (''MPIE'', 7, 1, ie), (''SPP'', 8, 1, 0),
      (''VS'', 9, 2, cfg_mstatus_vs cfg), (''MPP'', 11, 2, mode_val mode), (''FS'', 13, 2, cfg_mstatus_fs cfg),
      (''XS'', 15, 2, 0), (''MPRV'', 17, 1, cfg_mstatus_mprv cfg), (''SUM'', 18, 1, cfg_mstatus_sum cfg),
      (''MXR'', 19, 1, cfg_mstatus_mxr cfg), (''TVM'', 20, 1, cfg_mstatus_tvm cfg),
      (''TW'', 21, 1, cfg_set_mstatus_tw cfg), (''SD'', cs_XLEN rcs - 1, 1, 0)] @
     (if cs_XLEN rcs = 64
      then [(''UXL'', 32, 2, has USER_MODE), (''SXL'', 34, 2, has SUPERVISOR_MODE)] else []))"

definition mstatus_positions :: "nat \<Rightarrow> (string \<times> nat \<times> int) list" where
  "mstatus_positions xlen =
     [(''UIE'', 0, 1), (''SIE'', 1, 1), (''MIE'', 3, 1), (''UPIE'', 4, 1), (''SPIE'', 5, 1), (''MPIE'', 7, 1),
      (''SPP'', 8, 1), (''VS'', 9, 2), (''MPP'', 11, 2), (''FS'', 13, 2), (''XS'', 15, 2), (''MPRV'', 17, 1),
      (''SUM'', 18, 1), (''MXR'', 19, 1), (''TVM'', 20, 1), (''TW'', 21, 1), (''SD'', xlen - 1, 1)] @
     (if xlen = 64 then [(''UXL'', 32, 2), (''SXL'', 34, 2)] else [])"

lemma mstatus_spec_positions:
  "map (\<lambda>(n, p, w, v). (n, p, w)) (mstatus_spec rcs cfg mode) = mstatus_positions (cs_XLEN rcs)"
  by (simp add: mstatus_spec_def mstatus_positions_def Let_def)

definition mstatus_zip :: "nat \<Rightarrow> (string \<times> int) list" where
  "mstatus_zip xlen = map (\<lambda>(name, w, a). (name, w)) (mstatus_fields xlen)"

lemma mstatus_layout:
  assumes "xlen = 32 \<or> xlen = 64"
  shows "distinct (map fst (mstatus_zip xlen))" and "sum_list (map snd (mstatus_zip xlen)) = int xlen"
    and "\<forall>w \<in> set (map snd (mstatus_zip xlen)). 0 \<le> w \<and> w \<le> int xlen"
    and "\<forall>(name, pos, w) \<in> set (mstatus_positions xlen).
      (name, w) \<in> set (mstatus_zip xlen) \<and> position name (mstatus_zip xlen) = pos"
  using assms by (elim disjE; hypsubst; code_simp)+

text \<open>A start register has the fields of its table.\<close>

lemma start_mstatus:
  assumes "cs_XLEN rcs = 32 \<or> cs_XLEN rcs = 64" and "keeps_words store (cs_XLEN rcs)"
    and "cfg_randomize_csr cfg \<longrightarrow> 0 \<le> val \<and> val < 2 ^ cs_XLEN rcs"
  defines "r \<equiv> start_reg store rcs cfg ''MSTATUS'' val"
  shows "field_names r = map fst (mstatus_zip (cs_XLEN rcs)) \<and> field_widths r = map snd (mstatus_zip (cs_XLEN rcs)) \<and>
    fields_fit r \<and> rg_name r = ''MSTATUS''"
proof -
  let ?i = "init_reg (cs_XLEN rcs) ''MSTATUS'' new_reg"
  note L = mstatus_layout [OF assms(1)]
  have "rg_fld ?i = map (\<lambda>(name, width, access). \<lparr>fl_name = name, fl_bit_width = width,
      fl_access_type = access, fl_reset_val = 0, fl_val = 0, fl_hard_wired = False\<rparr>) (mstatus_fields (cs_XLEN rcs)) \<and>
      rg_name ?i = ''MSTATUS''"
    by (simp add: init_reg_def Let_def add_fields_fld base_init_reg_def new_reg_def)
  then have i: "field_names ?i = map fst (mstatus_zip (cs_XLEN rcs))"
      "field_widths ?i = map snd (mstatus_zip (cs_XLEN rcs))" "fields_fit ?i" "rg_name ?i = ''MSTATUS''"
    using L(3)
    by (auto simp: field_names_def field_widths_def mstatus_zip_def fields_fit_def split: prod.splits)
  show ?thesis
  proof (cases "cfg_randomize_csr cfg")
    case True
    then show ?thesis
      using set_val_keeps [OF assms(2) _ _ i(3)] assms(3) i L(3) by (simp add: r_def start_reg_def Let_def)
  next
    case False
    then show ?thesis using i by (simp add: r_def start_reg_def Let_def)
  qed
qed

text \<open>The solver chooses values of the width of their fields.\<close>

definition status_cfg :: "prog_cfg \<Rightarrow> bool" where
  "status_cfg cfg \<longleftrightarrow>
     (\<forall>b \<in> {cfg_mstatus_mprv cfg, cfg_mstatus_mxr cfg, cfg_mstatus_sum cfg, cfg_mstatus_tvm cfg,
        cfg_set_mstatus_tw cfg, cfg_enable_interrupt cfg}. b \<in> {0, 1}) \<and>
     cfg_mstatus_fs cfg \<in> {0 ..< 4} \<and> cfg_mstatus_vs cfg \<in> {0 ..< 4}"

lemma mode_val_range: "0 \<le> mode_val m \<and> mode_val m < 4"
  by (cases m) simp_all

text \<open>The values fit the fields of that name.\<close>

definition two_bits :: "string list" where
  "two_bits = [''VS'', ''MPP'', ''FS'', ''XS'', ''UXL'', ''SXL'']"

lemma status_cfg_bounds:
  assumes "status_cfg cfg"
  shows "0 \<le> cfg_mstatus_mprv cfg" "cfg_mstatus_mprv cfg < 2" "0 \<le> cfg_mstatus_mxr cfg" "cfg_mstatus_mxr cfg < 2"
    "0 \<le> cfg_mstatus_sum cfg" "cfg_mstatus_sum cfg < 2" "0 \<le> cfg_mstatus_tvm cfg" "cfg_mstatus_tvm cfg < 2"
    "0 \<le> cfg_set_mstatus_tw cfg" "cfg_set_mstatus_tw cfg < 2" "0 \<le> cfg_enable_interrupt cfg"
    "cfg_enable_interrupt cfg < 2" "0 \<le> cfg_mstatus_fs cfg" "cfg_mstatus_fs cfg < 4"
    "0 \<le> cfg_mstatus_vs cfg" "cfg_mstatus_vs cfg < 4"
  using assms by (auto simp: status_cfg_def)

lemma as_int_bounds: "0 \<le> as_int b" "as_int b < 2"
  by (simp_all add: as_int_def)

lemma mstatus_values_fit:
  assumes "status_cfg cfg"
  shows "list_all (\<lambda>(n, v). 0 \<le> v \<and> v < (if n \<in> set two_bits then 4 else 2)) (mstatus_values rcs cfg mode)"
  unfolding mstatus_values_def two_bits_def
  using status_cfg_bounds [OF assms] mode_val_range [of mode] as_int_bounds
  by (simp split del: if_split) simp

lemma mstatus_last_values:
  assumes "cs_XLEN rcs = 32 \<or> cs_XLEN rcs = 64"
  shows "\<forall>(n, p, w, v) \<in> set (mstatus_spec rcs cfg mode). map_of (rev (mstatus_values rcs cfg mode)) n = Some v"
  using assms by (elim disjE) (simp_all add: mstatus_spec_def mstatus_values_def Let_def)

lemma assigned_widths:
  assumes "xlen = 32 \<or> xlen = 64"
  shows "\<forall>(n, w) \<in> set (mstatus_zip xlen). n \<in> set (map fst (mstatus_positions xlen)) \<longrightarrow>
      w = (if n \<in> set two_bits then 2 else 1)"
    and "\<forall>n \<in> set (map fst (mstatus_positions xlen)). n \<in> set (map fst (mstatus_zip xlen))"
  using assms by (elim disjE; hypsubst; code_simp)+

lemma mstatus_values_names:
  assumes "cs_XLEN rcs = 32 \<or> cs_XLEN rcs = 64"
  shows "list_all (\<lambda>(n, v). n \<in> set (map fst (mstatus_positions (cs_XLEN rcs)))) (mstatus_values rcs cfg mode)"
  using assms by (elim disjE) (simp_all add: mstatus_values_def mstatus_positions_def)

lemma mstatus_packed:
  assumes "cs_XLEN rcs = 32 \<or> cs_XLEN rcs = 64" and "keeps_words store (cs_XLEN rcs)" and "status_cfg cfg"
    and "cfg_randomize_csr cfg \<longrightarrow> 0 \<le> cfg_mstatus cfg \<and> cfg_mstatus cfg < 2 ^ cs_XLEN rcs"
  shows "\<exists>r. mstatus_set_field store rcs cfg mode regs = Inr (regs @ [r]) \<and> rg_name r = ''MSTATUS'' \<and>
    get_val store (cs_XLEN rcs) r = Inr (rg_val r, r) \<and>
    (\<forall>(n, p, w, v) \<in> set (mstatus_spec rcs cfg mode). take_bit (nat w) (drop_bit p (rg_val r)) = v)"
proof -
  let ?x = "cs_XLEN rcs" and ?vs = "mstatus_values rcs cfg mode"
  let ?r0 = "start_reg store rcs cfg ''MSTATUS'' (cfg_mstatus cfg)"
  note L = mstatus_layout [OF assms(1)]
  have S: "field_names ?r0 = map fst (mstatus_zip ?x)" "field_widths ?r0 = map snd (mstatus_zip ?x)"
    "fields_fit ?r0" "rg_name ?r0 = ''MSTATUS''"
    using start_mstatus [OF assms(1,2,4)] by auto
  have z: "zip (field_names ?r0) (field_widths ?r0) = mstatus_zip ?x" unfolding S by (rule zip_map_fst_snd)
  have big: "(4 :: int) \<le> 2 ^ ?x" using assms(1) by auto
  have id: "store v = v" if "0 \<le> v" "v < 4" for v
    using assms(2) that big unfolding keeps_words_def by (metis order_less_le_trans)
  have fit: "0 \<le> v \<and> v < 4 \<and> v < 2 ^ nat w" if "(n, v) \<in> set ?vs" "(n, w) \<in> set (mstatus_zip ?x)" for n v w
    using that mstatus_values_fit [OF assms(3), of rcs mode] mstatus_values_names [OF assms(1), of cfg mode]
      assigned_widths(1) [OF assms(1)]
    by (fastforce simp: list_all_iff split: if_splits)
  have v4: "0 \<le> v \<and> v < 4" if "(n, v) \<in> set ?vs" for n v
    using that mstatus_values_fit [OF assms(3), of rcs mode] by (fastforce simp: list_all_iff split: if_splits)
  have nm: "n \<in> set (field_names ?r0)" if "(n, v) \<in> set ?vs" for n v
    using that mstatus_values_names [OF assms(1), of cfg mode] assigned_widths(2) [OF assms(1)]
    by (force simp: list_all_iff S(1))
  have "\<forall>(n, v) \<in> set ?vs. n \<in> set (field_names ?r0) \<and>
      (\<forall>w. (n, w) \<in> set (zip (field_names ?r0) (field_widths ?r0)) \<longrightarrow> 0 \<le> store v \<and> store v < 2 ^ nat w)"
    unfolding z using nm fit id v4 by auto
  from set_fields_effect [OF _ S(3) this] L(1) obtain r where r: "set_fields store ?vs ?r0 = Inr r"
    "field_names r = field_names ?r0" "field_widths r = field_widths ?r0" "rg_name r = rg_name ?r0" "fields_fit r"
    "val_of r = val_of ?r0 ++ map_of (rev (map (\<lambda>(n, v). (n, store v)) ?vs))"
    unfolding S(1) by auto
  have "map (\<lambda>(n, v). (n, store v)) ?vs = ?vs"
    using id v4 by (intro map_idI) auto
  then have vals: "val_of r = val_of ?r0 ++ map_of (rev ?vs)" using r(6) by simp
  let ?r = "r\<lparr>rg_val := pack (rg_fld r)\<rparr>"
  have g: "get_val store ?x r = Inr (pack (rg_fld r), ?r)" "get_val store ?x ?r = Inr (pack (rg_fld r), ?r)"
    using get_val_pack [OF assms(2), of r] get_val_pack [OF assms(2), of ?r] r(3,5) S(2) L(2)
    by (simp_all add: fields_fit_def field_widths_def)
  have "take_bit (nat w) (drop_bit p (pack (rg_fld r))) = v" if e: "(n, p, w, v) \<in> set (mstatus_spec rcs cfg mode)" for n p w v
  proof -
    have "(n, p, w) \<in> set (mstatus_positions ?x)"
      using e unfolding mstatus_spec_positions [of rcs cfg mode, symmetric] by force
    then have "(n, w) \<in> set (mstatus_zip ?x)" "position n (mstatus_zip ?x) = p" using L(4) by auto
    moreover have "val_of r n = Some v"
      unfolding vals using e mstatus_last_values [OF assms(1), of cfg mode] by (auto simp: map_add_Some_iff)
    ultimately show ?thesis
      using val_of_position [OF r(5), of n v w] L(1) unfolding r(2,3) z by (simp add: S(1))
  qed
  then show ?thesis
    using r(1,4) g S(4) by (intro exI [of _ ?r]) (auto simp: mstatus_set_field_def)
qed

lemma enter_succeeds:
  assumes "cs_XLEN rcs = 32 \<or> cs_XLEN rcs = 64" and "keeps_words store (cs_XLEN rcs)" and "status_cfg cfg"
    and "cfg_randomize_csr cfg \<longrightarrow> 0 \<le> cfg_mstatus cfg \<and> cfg_mstatus cfg < 2 ^ cs_XLEN rcs"
    and "''MIE'' \<notin> set (cs_implemented_csr rcs)" and "\<not> cs_support_umode_trap rcs"
    and "\<not> cfg_virtual_addr_translation_on cfg" and "mode \<noteq> SUPERVISOR_MODE"
  shows "\<exists>instr. enter_privileged_mode store rcs cfg uie satp hart mode instrs = Inr instr"
proof -
  obtain r where r: "mstatus_set_field store rcs cfg mode [] = Inr [r]" "get_val store (cs_XLEN rcs) r = Inr (rg_val r, r)"
    using mstatus_packed [OF assms(1-4), of mode "[]"] by auto
  show ?thesis
    using assms(5-8)
    by (simp add: enter_privileged_mode_def setup_mmode_reg_def r mie_set_field_def setup_umode_reg_def gen_csr_instr_def
        csr_instr_def Let_def)
qed

text \<open>Entering the supervisor mode always fails: its status register has no fields.\<close>

lemma no_fields: "name \<notin> {''MSTATUS'', ''MIE''} \<Longrightarrow> rg_fld (start_reg store rcs cfg name val) = []"
  by (auto simp: start_reg_def init_reg_def base_init_reg_def new_reg_def set_val_def Let_def)

lemma set_field_none: "rg_fld r = [] \<Longrightarrow> set_field store name v h r = Inl (SystemExit 1)"
  by (simp add: set_field_def find_field_def)

end
