(* ===== verification/Program_Theorems.thy ===== *)
theory Program_Theorems
  imports Pygen_Trap_Facts Pygen_Privil_Facts
begin

text \<open>
  The properties of the program around the instruction sequences: the trap handlers, the status register
  and the routine that enters the first mode. The witnesses use a small core in machine mode.
\<close>

definition small_core :: prog_setting where
  "small_core =
     \<lparr>cs_XLEN = 32, cs_NUM_HARTS = 1, cs_SATP_MODE = BARE, cs_implemented_csr = [''MSTATUS'', ''MSCRATCH''],
      cs_supported_isa = [RV32I, RV32M, RV32C], cs_unsupported_instr = [], cs_support_pmp = False,
      cs_supported_privileged_mode = [MACHINE_MODE], cs_support_umode_trap = False, cs_support_debug_mode = False,
      cs_max_interrupt_vector_num = 16, cs_NUM_GPR = 32\<rparr>"

definition small_cfg :: prog_cfg where
  "small_cfg =
     \<lparr>cfg_enable_sfence = False, cfg_disable_compressed_instr = False, cfg_enable_floating_point = False,
      cfg_enable_b_extension = False, cfg_enable_bitmanip_groups = [], cfg_reserved_regs = [],
      cfg_no_ebreak = True, cfg_no_dret = True, cfg_no_fence = True, cfg_no_csr_instr = True, cfg_no_wfi = True,
      cfg_init_privileged_mode = MACHINE_MODE, cfg_enable_illegal_csr_instruction = False,
      cfg_enable_access_invalid_csr_level = False, cfg_invalid_priv_mode_csrs = [],
      cfg_enable_ebreak_in_debug_rom = False, cfg_max_branch_step = 20,
      cfg_gpr = [A0, A1, A2, A3], cfg_sp = SP, cfg_tp = TP, cfg_ra = RA, cfg_scratch_reg = T6,
      cfg_num_of_harts = 1, cfg_num_of_sub_program = 0, cfg_mtvec_mode = DIRECT, cfg_tvec_alignment = 2,
      cfg_check_misa_init_val = False, cfg_check_xstatus = True, cfg_virtual_addr_translation_on = False,
      cfg_stack_len = 5000, cfg_mem_region = [], cfg_amo_region = [], cfg_s_mem_region = [],
      cfg_use_push_data_section = False, cfg_no_data_page = True, cfg_bare_program_mode = False,
      cfg_no_delegation = True, cfg_data_page_pattern = INCR_VAL, cfg_require_signature_addr = False,
      cfg_signature_addr = 0xdeadbeef, cfg_enable_interrupt = 1, cfg_enable_nested_interrupt = False,
      cfg_enable_timer_irq = 0, cfg_enable_vector_extension = False, cfg_randomize_csr = False,
      cfg_mstatus = 0, cfg_mie = 0, cfg_sstatus = 0, cfg_ustatus = 0, cfg_mstatus_mprv = 1, cfg_mstatus_mxr = 0,
      cfg_mstatus_sum = 1, cfg_mstatus_tvm = 0, cfg_set_mstatus_tw = 0, cfg_mstatus_fs = 3, cfg_mstatus_vs = 0\<rparr>"

lemma small_cfg_handlers: "direct_handlers small_core small_cfg" "handler_regs small_cfg"
  by (simp_all add: direct_handlers_def handler_regs_def small_core_def small_cfg_def gpr_at_def)

section \<open>Trap handlers\<close>

text \<open>
  C3. In direct mode with physical addresses, the emitted handlers are the text of sections of machine
  operations, and a machine that runs them on an illegal instruction returns behind it with every
  register restored: the saving of the entry, the dispatch on the cause, the correction of the return
  address and the restoring of the handler work together, whatever the hart's labels are.
\<close>

theorem illegal_instruction_resumes:
  assumes "direct_handlers rcs cfg" and "handler_regs cfg" and "\<not> cs_support_pmp rcs"
    and "trapped rcs s" and "csr s ''MCAUSE'' = 2"
  shows "gen_all_trap_handler rcs cfg False hart stream =
      Inr (stream @ [Line (if cs_SATP_MODE rcs \<noteq> BARE then ''.align 12''
                           else ''.align '' @ show_int (cfg_tvec_alignment cfg))] @
        concat (map (section_lines (cs_XLEN rcs)) (trap_sections rcs cfg hart))) \<and>
    (\<exists>s'. run_sections (cs_XLEN rcs) place (trap_code rcs cfg hart) s = (s', Returns ''mret'') \<and>
      (\<forall>i < 32. gpr s' i = gpr s i) \<and> csr s' ''MEPC'' = wrap (cs_XLEN rcs) (csr s ''MEPC'' + 4))"
  using trap_text [OF assms(1,3)] illegal_returns [OF assms(1,2,4,5)] by blast

definition in_program :: "int \<Rightarrow> mstate" where
  "in_program cause =
     \<lparr>gpr = (\<lambda>i. if i = 2 then 0x80002000 else if i = 4 then 0x80001000 else if i = 10 then 7 else 0),
      mem = (\<lambda>a. 0), csr = (\<lambda>c. if c = ''MCAUSE'' then cause else if c = ''MEPC'' then 0x80000100 else 0)\<rparr>"

lemma in_program_trapped: "0 \<le> cause \<Longrightarrow> cause < 2 ^ 32 \<Longrightarrow> trapped small_core (in_program cause)"
  by (simp add: trapped_def wf_regs_def in_program_def wrap_def small_core_def core_setting.defs)

theorem illegal_instruction_resumes_witness:
  "\<exists>s'. run_sections 32 (\<lambda>l. 0) (trap_code small_core small_cfg 0) (in_program 2) = (s', Returns ''mret'') \<and>
     gpr s' 10 = 7 \<and> csr s' ''MEPC'' = 0x80000104"
proof -
  have h: "\<not> cs_support_pmp small_core" "trapped small_core (in_program 2)" "csr (in_program 2) ''MCAUSE'' = 2"
    using in_program_trapped [of 2] by (simp_all add: small_core_def in_program_def)
  from illegal_instruction_resumes [OF small_cfg_handlers h, of 0 "[]" "\<lambda>l. 0"] obtain s' where
    "run_sections (cs_XLEN small_core) (\<lambda>l. 0) (trap_code small_core small_cfg 0) (in_program 2) = (s', Returns ''mret'')"
    "\<forall>i < 32. gpr s' i = gpr (in_program 2) i"
    "csr s' ''MEPC'' = wrap (cs_XLEN small_core) (csr (in_program 2) ''MEPC'' + 4)" by blast
  then show ?thesis by (simp add: small_core_def in_program_def wrap_def)
qed

text \<open>
  C14. The same machine on an interrupt: without nested interrupts the handler comes back to the
  interrupted instruction with every register restored. With nested interrupts it always comes back with
  stack pointer 0, because it uses the scratch register, which holds the program's stack pointer, to
  count the nesting.
\<close>

theorem interrupt_restores_unless_nested:
  assumes "direct_handlers rcs cfg" and "handler_regs cfg" and "trapped rcs s"
    and "2 ^ (cs_XLEN rcs - 1) \<le> csr s ''MCAUSE''"
  shows "gen_interrupt_handler_section rcs cfg MACHINE_MODE hart stream =
      Inr (stream @ [page_align rcs] @ section_lines (cs_XLEN rcs) (intr_section rcs cfg hart)) \<and>
    (\<not> cfg_enable_nested_interrupt cfg \<longrightarrow>
      (\<exists>s'. run_sections (cs_XLEN rcs) place (trap_code rcs cfg hart) s = (s', Returns ''mret;'') \<and>
        (\<forall>i < 32. gpr s' i = gpr s i) \<and> csr s' ''MEPC'' = csr s ''MEPC'')) \<and>
    (cfg_enable_nested_interrupt cfg \<and> ''MSCRATCH'' \<in> set (cs_implemented_csr rcs) \<longrightarrow>
      (\<exists>s'. run_sections (cs_XLEN rcs) place (trap_code rcs cfg hart) s = (s', Returns ''mret;'') \<and>
        gpr s' (reg_no (cfg_sp cfg)) = 0))"
proof -
  obtain t where t: "only_regs cfg (saved rcs cfg s) t" "csr t ''MEPC'' = csr s ''MEPC''"
    "\<And>s' name. run_section (cs_XLEN rcs) place (concat (snd (intr_section rcs cfg hart))) t = (s', Returns name) \<Longrightarrow>
      run_sections (cs_XLEN rcs) place (trap_code rcs cfg hart) s = (s', Returns name)"
    using interrupt_runs [OF assms, of place hart] by blast
  show ?thesis
    using intr_text [OF assms(1), where hart = hart and stream = stream] run_intr_plain [OF assms(1-3) t(1,2), where place = place and hart = hart]
      run_intr_nested [OF assms(2), where place = place and hart = hart and t = t] t(3) by blast
qed

theorem interrupt_restores_unless_nested_witness:
  "(\<exists>s'. run_sections 32 (\<lambda>l. 0) (trap_code small_core small_cfg 0) (in_program 0x8000000B) = (s', Returns ''mret;'') \<and>
      gpr s' 2 = 0x80002000) \<and>
   (\<exists>s'. run_sections 32 (\<lambda>l. 0) (trap_code small_core (small_cfg\<lparr>cfg_enable_nested_interrupt := True\<rparr>) 0)
        (in_program 0x8000000B) = (s', Returns ''mret;'') \<and> gpr s' 2 = 0)"
proof -
  let ?c = "small_cfg\<lparr>cfg_enable_nested_interrupt := True\<rparr>"
  have c: "direct_handlers small_core ?c" "handler_regs ?c"
    using small_cfg_handlers by (simp_all add: direct_handlers_def handler_regs_def gpr_at_def)
  have h: "trapped small_core (in_program 0x8000000B)"
    "2 ^ (cs_XLEN small_core - 1) \<le> csr (in_program 0x8000000B) ''MCAUSE''"
    using in_program_trapped [of "0x8000000B"] by (simp_all add: small_core_def in_program_def)
  have x: "cs_XLEN small_core = 32" "''MSCRATCH'' \<in> set (cs_implemented_csr small_core)"
    "\<not> cfg_enable_nested_interrupt small_cfg" "cfg_enable_nested_interrupt ?c"
    "reg_no (cfg_sp ?c) = 2" "gpr (in_program 0x8000000B) 2 = 0x80002000"
    by (simp_all add: small_core_def small_cfg_def in_program_def reg_no_def)
  show ?thesis
    using interrupt_restores_unless_nested [OF small_cfg_handlers h, where hart = 0 and place = "\<lambda>l. 0"]
      interrupt_restores_unless_nested [OF c h, where hart = 0 and place = "\<lambda>l. 0"]
    unfolding x(1,5) using x(2-4,6) by (metis (no_types, lifting) numeral_less_iff semiring_norm(76,78))
qed

section \<open>The status register\<close>

text \<open>
  C15. The status register that the routine prepares has every field it sets at the bits the instruction
  set gives it, with the value the configuration asks for: the previous mode is the one to enter, the
  interrupt enables are those of the configuration. The fields fill the register exactly, so reading it
  cannot fail, and the emitted instructions write this value.
\<close>

theorem mstatus_fields_in_place:
  assumes "cs_XLEN rcs = 32 \<or> cs_XLEN rcs = 64" and "keeps_words store (cs_XLEN rcs)" and "status_cfg cfg"
    and "cfg_randomize_csr cfg \<longrightarrow> 0 \<le> cfg_mstatus cfg \<and> cfg_mstatus cfg < 2 ^ cs_XLEN rcs"
  shows "\<exists>r. mstatus_set_field store rcs cfg mode regs = Inr (regs @ [r]) \<and>
    csr_instr store rcs cfg r =
      Inr [''li '' @ xreg (gpr_at cfg 0) @ '', '' @ py_hex (rg_val r),
        ''csrw '' @ py_hex (csr_addr ''MSTATUS'') @ '', '' @ xreg (gpr_at cfg 0) @ '' # '' @ ''MSTATUS''] \<and>
    (\<forall>(n, p, w, v) \<in> set (mstatus_spec rcs cfg mode). take_bit (nat w) (drop_bit p (rg_val r)) = v)"
proof -
  obtain r where r: "mstatus_set_field store rcs cfg mode regs = Inr (regs @ [r])" "rg_name r = ''MSTATUS''"
    "get_val store (cs_XLEN rcs) r = Inr (rg_val r, r)"
    "\<forall>(n, p, w, v) \<in> set (mstatus_spec rcs cfg mode). take_bit (nat w) (drop_bit p (rg_val r)) = v"
    using mstatus_packed [OF assms] by blast
  have "csr_instr store rcs cfg r = Inr [''li '' @ xreg (gpr_at cfg 0) @ '', '' @ py_hex (rg_val r),
      ''csrw '' @ py_hex (csr_addr ''MSTATUS'') @ '', '' @ xreg (gpr_at cfg 0) @ '' # '' @ ''MSTATUS'']"
    by (simp add: csr_instr_def r(2,3))
  with r show ?thesis by blast
qed

theorem mstatus_fields_in_place_witness:
  "\<exists>r. mstatus_set_field (\<lambda>x. x mod 2 ^ 32) small_core small_cfg MACHINE_MODE [] = Inr [r] \<and>
     take_bit 2 (drop_bit 11 (rg_val r)) = 3"
proof -
  have h: "cs_XLEN small_core = 32 \<or> cs_XLEN small_core = 64" "keeps_words (\<lambda>x. x mod 2 ^ 32) (cs_XLEN small_core)"
    "status_cfg small_cfg"
    "cfg_randomize_csr small_cfg \<longrightarrow> 0 \<le> cfg_mstatus small_cfg \<and> cfg_mstatus small_cfg < 2 ^ cs_XLEN small_core"
    by (simp_all add: small_core_def small_cfg_def keeps_words_def status_cfg_def)
  have "(''MPP'', 11, 2, 3) \<in> set (mstatus_spec small_core small_cfg MACHINE_MODE)"
    by (simp add: mstatus_spec_def Let_def)
  with mstatus_fields_in_place [OF h, of MACHINE_MODE "[]"] show ?thesis by fastforce
qed

text \<open>
  C30. The routine that enters the first mode is part of the program only if that mode is the last of the
  supported ones, and it never enters the supervisor mode: a run that succeeds either appends the whole
  routine, or the mode is another than the last one and nothing is appended.
\<close>

theorem mode_routine_only_for_last:
  assumes "gen_privileged_mode_switch_routine store rcs cfg uie satp hart stream = Inr stream'"
  shows "cs_supported_privileged_mode rcs \<noteq> [] \<and>
    (if last (cs_supported_privileged_mode rcs) = cfg_init_privileged_mode cfg
     then cfg_init_privileged_mode cfg \<noteq> SUPERVISOR_MODE \<and>
       (\<exists>instr. enter_privileged_mode store rcs cfg uie satp hart (cfg_init_privileged_mode cfg) [] = Inr instr \<and>
         stream' = stream @ map Line instr)
     else stream' = stream)"
proof -
  let ?ms = "cs_supported_privileged_mode rcs" and ?step = "mode_switch_step store rcs cfg uie satp hart"
  let ?init = "cfg_init_privileged_mode cfg"
  obtain li where li: "foldR ?step None ?ms = Inr (Some li)" "stream' = stream @ map Line li"
    using assms by (auto simp: gen_privileged_mode_switch_routine_def split: option.splits)
  then have ne: "?ms \<noteq> []" by auto
  have sup: "enter_privileged_mode store rcs cfg uie satp hart SUPERVISOR_MODE [] \<noteq> Inr instr" for instr
    by (auto simp: enter_privileged_mode_def setup_smode_reg_def Let_def)
  have "foldR ?step None (butlast ?ms @ [last ?ms]) = Inr (Some li)" using li(1) ne by simp
  then obtain o1 where "?step o1 (last ?ms) = Inr (Some li)"
    unfolding foldR_append by auto
  then show ?thesis
    using ne sup li(2) by (auto simp: mode_switch_step_def split: if_splits)
qed

definition full_core :: prog_setting where
  "full_core = small_core\<lparr>cs_supported_privileged_mode := [USER_MODE, SUPERVISOR_MODE, MACHINE_MODE]\<rparr>"

definition user_cfg :: prog_cfg where
  "user_cfg = small_cfg\<lparr>cfg_init_privileged_mode := USER_MODE\<rparr>"

theorem mode_routine_only_for_last_witness:
  "gen_privileged_mode_switch_routine (\<lambda>x. x mod 2 ^ 32) full_core user_cfg 0 0 0 [Line ''nop''] = Inr [Line ''nop'']"
proof -
  have h: "cs_XLEN full_core = 32 \<or> cs_XLEN full_core = 64" "keeps_words (\<lambda>x. x mod 2 ^ 32) (cs_XLEN full_core)"
    "status_cfg user_cfg"
    "cfg_randomize_csr user_cfg \<longrightarrow> 0 \<le> cfg_mstatus user_cfg \<and> cfg_mstatus user_cfg < 2 ^ cs_XLEN full_core"
    by (simp_all add: full_core_def user_cfg_def small_core_def small_cfg_def keeps_words_def status_cfg_def)
  have "''MIE'' \<notin> set (cs_implemented_csr full_core)" "\<not> cs_support_umode_trap full_core"
    "\<not> cfg_virtual_addr_translation_on user_cfg" "USER_MODE \<noteq> SUPERVISOR_MODE"
    by (simp_all add: full_core_def user_cfg_def small_core_def small_cfg_def)
  from enter_succeeds [OF h this, of 0 0 0 "[]"] obtain instr where
    "enter_privileged_mode (\<lambda>x. x mod 2 ^ 32) full_core user_cfg 0 0 0 USER_MODE [] = Inr instr" by blast
  then obtain stream' where "gen_privileged_mode_switch_routine (\<lambda>x. x mod 2 ^ 32) full_core user_cfg 0 0 0 [Line ''nop''] =
      Inr stream'"
    by (simp add: gen_privileged_mode_switch_routine_def mode_switch_step_def full_core_def user_cfg_def)
  with mode_routine_only_for_last [OF this] show ?thesis
    by (simp add: full_core_def user_cfg_def)
qed

end
