(* ===== verification/Pygen_Jal.thy ===== *)
theory Pygen_Jal
  imports Pygen_Stream_Facts
begin

text \<open>
  The stream of back-to-back jumps, \<open>riscv_jal_instr\<close> of \<open>riscv_directed_instr_lib.py\<close>, and where
  its jumps lead.
\<close>

section \<open>The stream\<close>

definition jump_name :: "nat \<Rightarrow> string \<Rightarrow> string" where
  "jump_name k dir = show_nat k @ dir"

text \<open>The targets: each jump of the shuffled order leads to the next, the last one behind them all.\<close>

definition jump_target :: "nat list \<Rightarrow> nat \<Rightarrow> string" where
  "jump_target order i =
     (if Suc i = length order then jump_name (length order) ''f''
      else jump_name (order ! Suc i) (if order ! i < order ! Suc i then ''f'' else ''b''))"

definition link_jumps :: "nat list \<Rightarrow> instr list \<Rightarrow> instr list" where
  "link_jumps order jump =
     foldl (\<lambda>jump i. jump[order ! i := (jump ! (order ! i))\<lparr>in_imm_str := Some (jump_target order i)\<rparr>])
       jump [0 ..< length order]"

text \<open>\<open>solve_start\<close>, \<open>solve_end\<close> and \<open>solve_jump\<close> are the solver's choices for the single instructions.\<close>

definition jal_post_randomize ::
  "gen_cfg \<Rightarrow> riscv_reg_t list \<Rightarrow> riscv_reg_t list \<Rightarrow> (instr \<Rightarrow> instr) \<Rightarrow> (instr \<Rightarrow> instr) \<Rightarrow>
     (nat \<Rightarrow> instr \<Rightarrow> instr) \<Rightarrow> bool \<Rightarrow> nat \<Rightarrow> string \<Rightarrow> instr_db \<Rightarrow> tape \<Rightarrow> (instr list \<times> instr_db \<times> tape) pg" where
  "jal_post_randomize cfg avail reserved solve_start solve_end solve_jump is_in_debug num_of_jump_instr label db t =
     bnd (shuffle [0 ..< num_of_jump_instr] t) (\<lambda>(order, t).
     let db = setup_allowed_instr True True db in
     bnd (get_instr db ''JAL'') (\<lambda>start.
     bnd (index_list order 0) (\<lambda>first.
     let jump_start = (solve_start start)\<lparr>in_imm_str := Some (jump_name first ''f''), in_label := label\<rparr> in
     bnd (randomize_instr cfg avail reserved solve_end is_in_debug [] db t) (\<lambda>(e, db, t).
     let jump_end = e\<lparr>in_label := show_nat num_of_jump_instr\<rparr> in
     bnd (mapR (\<lambda>i. bnd (get_rand_instr db
            \<lparr>sel_include_instr = [Member ''JAL''], sel_exclude_instr = [], sel_include_category = [],
             sel_exclude_category = [], sel_include_group = [], sel_exclude_group = []\<rparr> [])
            (\<lambda>(j, t'). Inr ((solve_jump i j)\<lparr>in_label := show_nat i\<rparr>))) [0 ..< num_of_jump_instr]) (\<lambda>jump.
     Inr (map (\<lambda>i. i\<lparr>in_has_label := True, in_atomic := True\<rparr>)
            (jump_start # link_jumps order jump @ [jump_end]), db, t))))))"

section \<open>Where a jump leads\<close>

text \<open>
  The assembler's local labels: \<open>Nf\<close> is the next definition of \<open>N\<close> behind the instruction and \<open>Nb\<close>
  the last one before it, its own label included.
\<close>

definition jumps_to :: "instr list \<Rightarrow> nat \<Rightarrow> nat option" where
  "jumps_to xs pos =
     (case in_imm_str (xs ! pos) of
        None \<Rightarrow> None
      | Some s \<Rightarrow>
          if s = [] then None
          else if last s = CHR ''f''
          then List.find (\<lambda>j. in_label (xs ! j) = butlast s) [Suc pos ..< length xs]
          else if last s = CHR ''b''
          then List.find (\<lambda>j. in_label (xs ! j) = butlast s) (rev [0 ..< Suc pos])
          else None)"

fun follow :: "nat \<Rightarrow> instr list \<Rightarrow> nat \<Rightarrow> nat list" where
  "follow 0 xs pos = []"
| "follow (Suc n) xs pos =
     (case jumps_to xs pos of None \<Rightarrow> [] | Some p \<Rightarrow> p # follow n xs p)"

section \<open>Following the jumps\<close>

lemma show_nat_inj [simp]: "show_nat m = show_nat k \<longleftrightarrow> m = k"
proof
  assume "show_nat m = show_nat k"
  then show "m = k" by (metis option.inject parse_digits_show)
qed simp

lemma find_first:
  assumes "k < length xs" and "P (xs ! k)" and "\<And>i. i < k \<Longrightarrow> \<not> P (xs ! i)"
  shows "List.find P xs = Some (xs ! k)"
  using assms by (auto simp: find_Some_iff)

lemma find_forward:
  assumes "a \<le> j" and "j < b" and "P j" and "\<And>i. a \<le> i \<Longrightarrow> i < j \<Longrightarrow> \<not> P i"
  shows "List.find P [a ..< b] = Some j"
  using find_first [of "j - a" "[a ..< b]" P] assms by simp

lemma find_backward:
  assumes "j < b" and "P j" and "\<And>i. j < i \<Longrightarrow> i < b \<Longrightarrow> \<not> P i"
  shows "List.find P (rev [0 ..< b]) = Some j"
  using find_first [of "b - 1 - j" "rev [0 ..< b]" P] assms by (simp add: rev_nth)

lemma length_link [simp]: "length (link_jumps order jump) = length jump"
proof -
  have "length (foldl (\<lambda>jump i. jump[order ! i := (jump ! (order ! i))\<lparr>in_imm_str := Some (jump_target order i)\<rparr>]) js is) =
      length js" for js "is"
    by (induction "is" arbitrary: js) simp_all
  then show ?thesis by (simp add: link_jumps_def)
qed

lemma link_prefix:
  assumes "distinct order" and "\<forall>k \<in> set order. k < length jump" and "m \<le> length order"
  defines "js \<equiv> foldl (\<lambda>jump i. jump[order ! i := (jump ! (order ! i))\<lparr>in_imm_str := Some (jump_target order i)\<rparr>])
    jump [0 ..< m]"
  shows "length js = length jump" and "\<forall>i < m. in_imm_str (js ! (order ! i)) = Some (jump_target order i)"
    and "\<forall>k < length jump. in_label (js ! k) = in_label (jump ! k)"
  using assms(3) unfolding js_def
proof (induction m)
  case 0
  { case 1 then show ?case by simp }
  { case 2 then show ?case by simp }
  { case 3 then show ?case by simp }
next
  case (Suc m)
  let ?js = "foldl (\<lambda>jump i. jump[order ! i := (jump ! (order ! i))\<lparr>in_imm_str := Some (jump_target order i)\<rparr>])
    jump [0 ..< m]"
  have l: "m < length order \<Longrightarrow> order ! m < length jump" using assms(2) by simp
  have d: "m < length order \<Longrightarrow> i < m \<Longrightarrow> order ! m \<noteq> order ! i" for i
    using assms(1) by (simp add: nth_eq_iff_index_eq)
  { case 1 then show ?case using Suc.IH(1) by simp }
  { case 2 then show ?case using Suc.IH(1,2) l d by (auto simp: less_Suc_eq nth_list_update) }
  { case 3 then show ?case using Suc.IH(1,3) l by (auto simp: nth_list_update) }
qed

text \<open>What the stream is: labels in order, and the target of every jump.\<close>

definition jump_chain :: "nat list \<Rightarrow> instr list \<Rightarrow> bool" where
  "jump_chain order xs \<longleftrightarrow> length xs = length order + 2 \<and> order \<noteq> [] \<and> set order = {0 ..< length order} \<and>
     distinct order \<and> in_imm_str (xs ! 0) = Some (jump_name (order ! 0) ''f'') \<and>
     (\<forall>k \<le> length order. in_label (xs ! Suc k) = show_nat k) \<and>
     (\<forall>i < length order. in_imm_str (xs ! Suc (order ! i)) = Some (jump_target order i))"

lemma jumps_forward:
  assumes "in_imm_str (xs ! p) = Some (jump_name k ''f'')" and "\<forall>k \<le> n. in_label (xs ! Suc k) = show_nat k"
    and "length xs = n + 2" and "p \<le> k" and "k \<le> n"
  shows "jumps_to xs p = Some (Suc k)"
proof -
  have "List.find (\<lambda>j. in_label (xs ! j) = show_nat k) [Suc p ..< length xs] = Some (Suc k)"
  proof (rule find_forward)
    fix i assume i: "Suc p \<le> i" "i < Suc k"
    then obtain m where m: "i = Suc m" "m < k" by (cases i) auto
    then show "in_label (xs ! i) \<noteq> show_nat k" using assms(2,5) by simp
  qed (use assms in auto)
  then show ?thesis using assms(1) by (simp add: jumps_to_def jump_name_def)
qed

lemma jumps_backward:
  assumes "in_imm_str (xs ! Suc p) = Some (jump_name k ''b'')" and "\<forall>k \<le> n. in_label (xs ! Suc k) = show_nat k"
    and "length xs = n + 2" and "k < p" and "p \<le> n"
  shows "jumps_to xs (Suc p) = Some (Suc k)"
proof -
  have "List.find (\<lambda>j. in_label (xs ! j) = show_nat k) (rev [0 ..< Suc (Suc p)]) = Some (Suc k)"
  proof (rule find_backward)
    fix i assume i: "Suc k < i" "i < Suc (Suc p)"
    then obtain m where m: "i = Suc m" "k < m" "m \<le> n" using assms(5) by (cases i) auto
    then show "in_label (xs ! i) \<noteq> show_nat k" using assms(2) by simp
  qed (use assms in auto)
  then show ?thesis using assms(1) by (simp add: jumps_to_def jump_name_def)
qed

lemma follow_chain:
  assumes "jump_chain order xs" and "i < length order"
  shows "follow (length order - i) xs (Suc (order ! i)) = map Suc (drop (Suc i) order) @ [Suc (length order)]"
  using assms(2)
proof (induction "length order - i" arbitrary: i)
  case 0
  then show ?case by simp
next
  case (Suc m)
  note c = assms(1) [unfolded jump_chain_def]
  have lt: "order ! j < length order" if "j < length order" for j using c that nth_mem [OF that] by simp
  have imm: "in_imm_str (xs ! Suc (order ! i)) = Some (jump_target order i)" using c Suc.prems by blast
  have lab: "\<forall>k \<le> length order. in_label (xs ! Suc k) = show_nat k" using c by blast
  have len: "length xs = length order + 2" using c by blast
  show ?case
  proof (cases "Suc i = length order")
    case True
    then have "jumps_to xs (Suc (order ! i)) = Some (Suc (length order))"
      using imm lt [OF Suc.prems] by (intro jumps_forward [OF _ lab len]) (auto simp: jump_target_def)
    moreover have "length order - i = Suc 0" using True by simp
    ultimately show ?thesis using True by simp
  next
    case False
    then have s: "Suc i < length order" using Suc.prems by simp
    have ne: "order ! i \<noteq> order ! Suc i" using c s by (simp add: nth_eq_iff_index_eq)
    have "jumps_to xs (Suc (order ! i)) = Some (Suc (order ! Suc i))"
    proof (cases "order ! i < order ! Suc i")
      case True
      then show ?thesis
        using imm False lt [OF s] by (intro jumps_forward [OF _ lab len]) (auto simp: jump_target_def)
    next
      case False
      with ne have "order ! Suc i < order ! i" by simp
      then show ?thesis
        using imm False s lt [OF Suc.prems] by (intro jumps_backward [OF _ lab len]) (auto simp: jump_target_def)
    qed
    moreover have "follow (length order - Suc i) xs (Suc (order ! Suc i)) =
        map Suc (drop (Suc (Suc i)) order) @ [Suc (length order)]"
      using Suc.hyps(1) [of "Suc i"] Suc.hyps(2) s by simp
    moreover have "length order - i = Suc (length order - Suc i)" using s by simp
    ultimately show ?thesis using s by (simp add: Cons_nth_drop_Suc [symmetric])
  qed
qed

lemma follow_whole:
  assumes "jump_chain order xs"
  shows "follow (length order + 1) xs 0 = map Suc order @ [length order + 1]"
proof -
  note c = assms [unfolded jump_chain_def]
  have l: "0 < length order" "order ! 0 < length order" using c nth_mem [of 0 order] by auto
  have "jumps_to xs 0 = Some (Suc (order ! 0))"
    using c l by (intro jumps_forward [of xs 0 "order ! 0" "length order"]) auto
  with follow_chain [OF assms l(1)] show ?thesis
    using l(1) by (cases order) simp_all
qed

section \<open>The stream is a chain\<close>

lemma get_jal:
  assumes "map_of (db_template db) ''JAL'' = Some j"
  shows "get_rand_instr db
     \<lparr>sel_include_instr = [Member ''JAL''], sel_exclude_instr = [], sel_include_category = [],
      sel_exclude_category = [], sel_include_group = [], sel_exclude_group = []\<rparr> t = Inr (j, t)"
  using assms
  by (simp add: get_rand_instr_def disallowed_of_def allowed_of_def pick_plain_def or_exit_def template_of_def)

lemma randomize_template:
  "randomize_instr cfg av rs solve dbg gs db t = Inr (i, db', t') \<Longrightarrow> db_template db' = db_template db"
  by (auto simp: randomize_instr_def Let_def split: if_splits)

lemma mapR_Inr: "(\<And>x. x \<in> set xs \<Longrightarrow> f x = Inr (g x)) \<Longrightarrow> mapR f xs = Inr (map g xs)"
  by (induction xs) simp_all

definition sealed :: "instr \<Rightarrow> instr" where
  "sealed i = i\<lparr>in_has_label := True, in_atomic := True\<rparr>"

lemma sealed_simps [simp]:
  "in_imm_str (sealed i) = in_imm_str i" "in_label (sealed i) = in_label i" "in_has_label (sealed i)"
  "in_atomic (sealed i)"
  by (simp_all add: sealed_def)

lemma chain_of_parts:
  assumes "order \<noteq> []" and "distinct order" and "set order = {0 ..< length order}"
    and "length jump = length order" and "\<forall>k < length order. in_label (jump ! k) = show_nat k"
    and "in_imm_str start = Some (jump_name (order ! 0) ''f'')" and "in_label e = show_nat (length order)"
  shows "jump_chain order (map sealed (start # link_jumps order jump @ [e]))"
proof -
  have k: "\<forall>k \<in> set order. k < length jump" using assms(3,4) by auto
  note L = link_prefix [OF assms(2) k order.refl, folded link_jumps_def]
  have "in_label (map sealed (start # link_jumps order jump @ [e]) ! Suc k) = show_nat k" if "k \<le> length order" for k
    using that L(3) assms(4,5,7) by (cases "k = length order") (simp_all add: nth_append)
  moreover have "in_imm_str (map sealed (start # link_jumps order jump @ [e]) ! Suc (order ! i)) = Some (jump_target order i)"
    if "i < length order" for i
    using that L(2) k assms(4) nth_mem [OF that] by (simp add: nth_append)
  ultimately show ?thesis using assms by (simp add: jump_chain_def)
qed

lemma jal_stream_chain:
  assumes "jal_post_randomize cfg avail reserved solve_start solve_end solve_jump dbg n label db t = Inr (xs, db', t')"
  shows "\<exists>order t1. shuffle [0 ..< n] t = Inr (order, t1) \<and> jump_chain order xs \<and> length order = n \<and> (\<forall>i \<in> set xs. in_has_label i \<and> in_atomic i) \<and>
    in_label (xs ! 0) = label"
proof -
  obtain order t1 where o: "shuffle [0 ..< n] t = Inr (order, t1)" using shuffle_total by blast
  then have m: "mset order = mset [0 ..< n]" by (rule shuffle_mset)
  then have len: "length order = n" and st: "set order = {0 ..< n}" and d: "distinct order"
    using mset_eq_setD [OF m] mset_eq_imp_distinct_iff [OF m] mset_eq_length [OF m] by simp_all
  let ?db = "setup_allowed_instr True True db"
  obtain start where g: "get_instr ?db ''JAL'' = Inr start"
    using assms o by (auto simp: jal_post_randomize_def Let_def)
  then have tm: "map_of (db_template ?db) ''JAL'' = Some start"
    by (auto simp: get_instr_def split: option.splits)
  obtain first where f: "index_list order 0 = Inr first"
    using assms o g by (auto simp: jal_post_randomize_def Let_def)
  then have ne: "order \<noteq> []" "first = order ! 0" by (auto simp: index_list_def split: if_splits)
  obtain e db1 t2 where r: "randomize_instr cfg avail reserved solve_end dbg [] ?db t1 = Inr (e, db1, t2)"
    using assms o g f by (auto simp: jal_post_randomize_def Let_def)
  have tm1: "map_of (db_template db1) ''JAL'' = Some start" using randomize_template [OF r] tm by simp
  let ?js = "map (\<lambda>i. (solve_jump i start)\<lparr>in_label := show_nat i\<rparr>) [0 ..< n]"
  let ?s = "(solve_start start)\<lparr>in_imm_str := Some (jump_name first ''f''), in_label := label\<rparr>"
  let ?e = "e\<lparr>in_label := show_nat n\<rparr>"
  have mm: "mapR (\<lambda>i. bnd (get_rand_instr db1
        \<lparr>sel_include_instr = [Member ''JAL''], sel_exclude_instr = [], sel_include_category = [],
         sel_exclude_category = [], sel_include_group = [], sel_exclude_group = []\<rparr> [])
        (\<lambda>(j, t'). Inr ((solve_jump i j)\<lparr>in_label := show_nat i\<rparr>))) [0 ..< n] = Inr ?js"
    by (rule mapR_Inr) (simp add: get_jal [OF tm1])
  have xs: "xs = map sealed (?s # link_jumps order ?js @ [?e])"
    using assms unfolding jal_post_randomize_def Let_def o bnd_simps case_prod_conv g f r mm
    by (auto simp: sealed_def [abs_def])
  have "jump_chain order xs"
    unfolding xs using ne d st len by (intro chain_of_parts) simp_all
  moreover have "\<forall>i \<in> set xs. in_has_label i \<and> in_atomic i" unfolding xs by auto
  moreover have "in_label (xs ! 0) = label" unfolding xs by simp
  ultimately show ?thesis using len o by blast
qed

text \<open>Nothing but the random last instruction can fail.\<close>

lemma jal_stream_succeeds:
  assumes "map_of (db_template db) ''JAL'' = Some j" and "0 < n"
    and "\<And>t. \<exists>r. randomize_instr cfg avail reserved solve_end dbg [] (setup_allowed_instr True True db) t = Inr r"
  shows "\<exists>r. jal_post_randomize cfg avail reserved solve_start solve_end solve_jump dbg n label db t = Inr r"
proof -
  obtain order t1 where o: "shuffle [0 ..< n] t = Inr (order, t1)" using shuffle_total by blast
  then have "length order = n" using shuffle_mset mset_eq_length by fastforce
  then have f: "index_list order 0 = Inr (order ! 0)" using assms(2) by (simp add: index_list_def)
  let ?db = "setup_allowed_instr True True db"
  have tm: "map_of (db_template ?db) ''JAL'' = Some j" using assms(1) by (simp add: setup_allowed_instr_def)
  then have g: "get_instr ?db ''JAL'' = Inr j" by (simp add: get_instr_def)
  obtain e db1 t2 where r: "randomize_instr cfg avail reserved solve_end dbg [] ?db t1 = Inr (e, db1, t2)"
    using assms(3) [of t1] by auto
  have tm1: "map_of (db_template db1) ''JAL'' = Some j" using randomize_template [OF r] tm by simp
  have mm: "mapR (\<lambda>i. bnd (get_rand_instr db1
        \<lparr>sel_include_instr = [Member ''JAL''], sel_exclude_instr = [], sel_include_category = [],
         sel_exclude_category = [], sel_include_group = [], sel_exclude_group = []\<rparr> [])
        (\<lambda>(j, t'). Inr ((solve_jump i j)\<lparr>in_label := show_nat i\<rparr>))) [0 ..< n] =
      Inr (map (\<lambda>i. (solve_jump i j)\<lparr>in_label := show_nat i\<rparr>) [0 ..< n])"
    by (rule mapR_Inr) (simp add: get_jal [OF tm1])
  show ?thesis
    unfolding jal_post_randomize_def Let_def o bnd_simps case_prod_conv g f r mm by blast
qed

end
