(* ===== verification/Pygen_Data_Facts.thy ===== *)
theory Pygen_Data_Facts
  imports Pygen_Data
begin

text \<open>The bytes of incrementing data pages, over the lines and the regions of a program.\<close>

definition region_name :: "prog_setting \<Rightarrow> nat \<Rightarrow> mem_region \<Rightarrow> string" where
  "region_name rcs hart r = hart_prefix (core_setting.truncate rcs) hart @ mr_name r"

definition page_words :: "nat \<Rightarrow> int list list list" where
  "page_words page_size = map incr_words [0 ..< page_size div 32]"

lemma page_words_shape: "ws \<in> set (page_words n) \<Longrightarrow> length ws = 8 \<and> (\<forall>w \<in> set ws. length w = 4)"
  by (auto simp: page_words_def incr_words_def)

lemma incr_line_bytes: "concat (incr_words i) = map (\<lambda>b. int b mod 256) [32 * i ..< 32 * i + 32]"
proof -
  have "[32 * i ..< 32 * i + 32] = map ((+) (32 * i)) [0 ..< 32]" 
    using map_add_upt [of "32 * i" 32] by (simp add: add.commute del: upt_rec_numeral cong: map_cong)
  then show ?thesis unfolding incr_bytes [symmetric] by (simp add: comp_def del: upt_rec_numeral)
qed

lemma lines_bytes: "concat (concat (map incr_words [0 ..< k])) = map (\<lambda>b. int b mod 256) [0 ..< 32 * k]"
proof (induction k)
  case 0
  then show ?case by simp
next
  case (Suc k)
  have "[0 ..< 32 * Suc k] = [0 ..< 32 * k] @ [32 * k ..< 32 * k + 32]"
    
    using upt_add_eq_append [of 0 "32 * k" 32] by (simp add: add.commute)
  then show ?case using Suc incr_line_bytes [of k] by simp
qed

lemma page_words_bytes: "32 dvd n \<Longrightarrow> concat (concat (page_words n)) = map (\<lambda>b. int b mod 256) [0 ..< n]"
  by (auto simp: page_words_def lines_bytes elim: dvdE)

lemma incr_pages:
  assumes "\<not> cfg_use_push_data_section cfg"
    and "\<forall>r \<in> set (cfg_mem_region cfg). 32 dvd mr_size_in_bytes r \<and> 64 \<le> mr_size_in_bytes r"
  shows "gen_data_page rcs cfg hart INCR_VAL False False t =
    Inr (concat (map (\<lambda>r. [''.section .'' @ region_name rcs hart r @ '',\"aw\",@progbits;'', region_name rcs hart r @ '':''] @
      map (\<lambda>ws. ''.word '' @ words_text ws) (page_words (mr_size_in_bytes r))) (cfg_mem_region cfg)), t)"
proof -
  have "foldR (region_lines rcs cfg hart INCR_VAL False) (out, t) rs =
      Inr (out @ concat (map (\<lambda>r. [''.section .'' @ region_name rcs hart r @ '',\"aw\",@progbits;'', region_name rcs hart r @ '':''] @
        map (\<lambda>ws. ''.word '' @ words_text ws) (page_words (mr_size_in_bytes r))) rs), t)"
    if "\<forall>r \<in> set rs. 32 dvd mr_size_in_bytes r \<and> 64 \<le> mr_size_in_bytes r" for rs out
    using that
  proof (induction rs arbitrary: out)
    case Nil
    then show ?case by simp
  next
    case (Cons r rs)
    then have "mr_size_in_bytes r = 32 * (mr_size_in_bytes r div 32)" "2 \<le> mr_size_in_bytes r div 32" by auto
    from incr_region [OF this assms(1)] Cons show ?case
      by (simp add: Let_def region_name_def page_words_def)
  qed
  from this [OF assms(2), of "[]"] show ?thesis by (simp add: gen_data_page_def)
qed

end
