(* ===== verification/Directed_Theorems.thy ===== *)
theory Directed_Theorems
  imports Program_Theorems Pygen_Jal Pygen_Data_Facts
begin

text \<open>The properties of the directed streams and of the data pages.\<close>

section \<open>Back-to-back jumps\<close>

text \<open>
  C10. The stream of jumps can always be built when the last instruction can be drawn, for every draw of
  the order, and it terminates when it is run: from its first instruction, following the local labels as
  the assembler resolves them, its jumps are taken in the order that was drawn, each of them exactly once,
  and the last one leads to the last instruction. All its instructions are marked as labelled and
  atomic.
\<close>

theorem jumps_taken_once:
  assumes "map_of (db_template db) ''JAL'' = Some j" and "0 < n"
    and "\<And>t. \<exists>r. randomize_instr cfg avail reserved solve_end dbg [] (setup_allowed_instr True True db) t = Inr r"
  shows "\<exists>xs db' t' order t1. jal_post_randomize cfg avail reserved solve_start solve_end solve_jump dbg n label db t =
      Inr (xs, db', t') \<and>
    length xs = n + 2 \<and> (\<forall>i \<in> set xs. in_has_label i \<and> in_atomic i) \<and> in_label (xs ! 0) = label \<and>
    shuffle [0 ..< n] t = Inr (order, t1) \<and> distinct order \<and> set order = {0 ..< n} \<and>
    follow (n + 1) xs 0 = map Suc order @ [n + 1]"
proof -
  obtain xs db' t' where r: "jal_post_randomize cfg avail reserved solve_start solve_end solve_jump dbg n label db t =
      Inr (xs, db', t')"
    using jal_stream_succeeds [OF assms] by (metis prod_cases3)
  obtain order t1 where o: "shuffle [0 ..< n] t = Inr (order, t1)"
    and c: "jump_chain order xs" "length order = n" "\<forall>i \<in> set xs. in_has_label i \<and> in_atomic i" "in_label (xs ! 0) = label"
    using jal_stream_chain [OF r] by blast
  have f: "follow (n + 1) xs 0 = map Suc order @ [n + 1]" by (rule follow_whole [OF c(1), unfolded c(2)])
  have "set order = {0 ..< n}" "distinct order" "length xs = n + 2" using c(1,2) by (simp_all add: jump_chain_def)
  with r o c(3,4) f show ?thesis by blast
qed

definition plain_ops :: operands where
  "plain_ops = \<lparr>op_csr = 0, op_rs1 = ZERO, op_rs2 = ZERO, op_rs3 = ZERO, op_rd = RA, op_fs1 = FT0,
     op_fs2 = FT0, op_fs3 = FT0, op_fd = FT0, op_imm = 0, op_aq = False, op_rl = False\<rparr>"

definition jal_template :: instr where
  "jal_template = create_instr (core small_core) plain_ops
     (mk_registration DEFINE_INSTR ''JAL'' J_FORMAT JUMP RV32I None)"

definition two_instrs :: instr_db where
  "two_instrs =
     \<lparr>db_template = [(''JAL'', jal_template),
        (''ADD'', create_instr (core small_core) plain_ops
           (mk_registration DEFINE_INSTR ''ADD'' R_FORMAT ARITHMETIC RV32I None))],
      db_names = [''JAL'', ''ADD''], db_category = [], db_group = [],
      db_basic = [Member ''ADD'', Member ''ADD''], db_include_reg = [], db_exclude_reg = []\<rparr>"

lemma two_instrs_draw:
  "\<exists>r. randomize_instr (gen_cfg.truncate small_cfg) [] [] (\<lambda>i. i) False [] (setup_allowed_instr True True two_instrs) t =
    Inr r"
proof -
  have "\<exists>i t'. randint 0 0 t = Inr (i, t')" by (cases t) auto
  then obtain i t' where "randint 0 0 t = Inr (i, t')" by blast
  moreover from this have "i = 0" by (cases t) auto
  ultimately show ?thesis
    by (simp add: randomize_instr_def small_cfg_def gen_cfg.defs setup_allowed_instr_def two_instrs_def get_rand_instr_def
        disallowed_of_def allowed_of_def pick_plain_def pick_below_last_def randrange_def or_exit_def template_of_def)
qed

theorem jumps_taken_once_witness:
  "\<exists>xs db' t'. jal_post_randomize (gen_cfg.truncate small_cfg) [] [] (\<lambda>i. i) (\<lambda>i. i) (\<lambda>n i. i) False 3
      ''main_0'' two_instrs [0, 1] = Inr (xs, db', t') \<and> follow 4 xs 0 = [3, 2, 1, 4]"
proof -
  have "map_of (db_template two_instrs) ''JAL'' = Some jal_template" by (simp add: two_instrs_def)
  note all = jumps_taken_once [OF this _ two_instrs_draw, of 3 "\<lambda>i. i" "\<lambda>n i. i" "''main_0''" "[0, 1]"]
  have "case shuffle [0 ..< 3] [0, 1] of Inl e \<Rightarrow> False | Inr (order, t1) \<Rightarrow> order = [2, 1, 0 :: nat]" by code_simp
  with all show ?thesis by force
qed

section \<open>Data pages\<close>

text \<open>
  C22. Incrementing data pages of at least two whole lines of 32 bytes, without push sections: the section
  of each region, in order, is its directive, its label and one directive for every line with eight
  words of four bytes each, and the bytes of all its words are the numbers from 0 on, modulo 256, as
  many as the region has. Smaller regions are not covered.
\<close>

theorem data_pages_increment:
  assumes "\<not> cfg_use_push_data_section cfg"
    and "\<forall>r \<in> set (cfg_mem_region cfg). 32 dvd mr_size_in_bytes r \<and> 64 \<le> mr_size_in_bytes r"
  shows "gen_data_page rcs cfg hart INCR_VAL False False t =
      Inr (concat (map (\<lambda>r. [''.section .'' @ region_name rcs hart r @ '',\"aw\",@progbits;'', region_name rcs hart r @ '':''] @
        map (\<lambda>ws. ''.word '' @ words_text ws) (page_words (mr_size_in_bytes r))) (cfg_mem_region cfg)), t) \<and>
    (\<forall>r \<in> set (cfg_mem_region cfg). \<forall>ws \<in> set (page_words (mr_size_in_bytes r)).
      length ws = 8 \<and> (\<forall>w \<in> set ws. length w = 4)) \<and>
    (\<forall>r \<in> set (cfg_mem_region cfg).
      concat (concat (page_words (mr_size_in_bytes r))) = map (\<lambda>b. int b mod 256) [0 ..< mr_size_in_bytes r])"
  using incr_pages [OF assms] page_words_shape page_words_bytes assms(2) by auto

definition two_lines :: prog_cfg where
  "two_lines = small_cfg\<lparr>cfg_mem_region :=
     [\<lparr>mr_name = ''region_0'', mr_size_in_bytes = 64, mr_xwr = 7\<rparr>, \<lparr>mr_name = ''region_1'', mr_size_in_bytes = 96, mr_xwr = 7\<rparr>]\<rparr>"

theorem data_pages_increment_witness:
  "\<exists>ls. gen_data_page small_core two_lines 0 INCR_VAL False False [7] = Inr (ls, [7]) \<and> length ls = 9 \<and>
     concat (concat (page_words 64)) = map (\<lambda>b. int b mod 256) [0 ..< 64]"
proof -
  have "\<not> cfg_use_push_data_section two_lines"
    "\<forall>r \<in> set (cfg_mem_region two_lines). 32 dvd mr_size_in_bytes r \<and> 64 \<le> mr_size_in_bytes r"
    by (simp_all add: two_lines_def small_cfg_def)
  from data_pages_increment [OF this, of small_core 0 "[7]"] show ?thesis
    by (simp add: two_lines_def page_words_def)
qed

end
