(* ===== verification/Trace_Lib.thy ===== *)
theory Trace_Lib
  imports Prelude Py_Strings "HOL-Library.AList"
begin

text \<open>
  The pure functions of \<open>verif/sim/dv/scripts/lib.py\<close>: the names of registers, numbers in
  hexadecimal, and the conversion of pseudo instructions, which the scripts share that turn simulator
  logs into traces.
\<close>

section \<open>Exceptions\<close>

text \<open>\<open>sys.exit\<close> with a message is an exit with code 1 whose message is printed.\<close>

datatype script_exn =
    ScriptExit string
  | ScriptValueError string
  | ScriptIndexError
  | ScriptKeyError string
  | ScriptAttributeError

type_synonym 'a script = "script_exn + 'a"

fun str_join :: "string \<Rightarrow> string list \<Rightarrow> string" where
  "str_join sep [] = []"
| "str_join sep [x] = x"
| "str_join sep (x # y # ys) = x @ sep @ str_join sep (y # ys)"

definition newline :: string where
  "newline = [CHR 0x0A]"

definition str_index :: "'a list \<Rightarrow> nat \<Rightarrow> 'a script" where
  "str_index xs i = (if i < length xs then Inr (xs ! i) else Inl ScriptIndexError)"

text \<open>\<open>int(s, 16)\<close>: the prefix is optional.\<close>

definition parse_hex :: "string \<Rightarrow> nat option" where
  "parse_hex u =
     (if 2 \<le> length u \<and> u ! 0 = CHR ''0'' \<and> (u ! 1 = CHR ''x'' \<or> u ! 1 = CHR ''X'')
      then parse_digits 16 True 0 (drop_underscore (drop 2 u))
      else parse_digits 16 True 0 u)"

definition py_int16 :: "string \<Rightarrow> int option" where
  "py_int16 s = parse_signed parse_hex s"

section \<open>Registers and numbers\<close>

definition abi_names :: "(string \<times> string) list" where
  "abi_names =
     [(''x0'', ''zero''), (''x1'', ''ra''), (''x2'', ''sp''), (''x3'', ''gp''), (''x4'', ''tp''),
      (''x5'', ''t0''), (''x6'', ''t1''), (''x7'', ''t2''), (''x8'', ''s0''), (''x9'', ''s1''),
      (''x10'', ''a0''), (''x11'', ''a1''), (''x12'', ''a2''), (''x13'', ''a3''), (''x14'', ''a4''),
      (''x15'', ''a5''), (''x16'', ''a6''), (''x17'', ''a7''), (''x18'', ''s2''), (''x19'', ''s3''),
      (''x20'', ''s4''), (''x21'', ''s5''), (''x22'', ''s6''), (''x23'', ''s7''), (''x24'', ''s8''),
      (''x25'', ''s9''), (''x26'', ''s10''), (''x27'', ''s11''), (''x28'', ''t3''), (''x29'', ''t4''),
      (''x30'', ''t5''), (''x31'', ''t6''),
      (''f0'', ''ft0''), (''f1'', ''ft1''), (''f2'', ''ft2''), (''f3'', ''ft3''), (''f4'', ''ft4''),
      (''f5'', ''ft5''), (''f6'', ''ft6''), (''f7'', ''ft7''), (''f8'', ''fs0''), (''f9'', ''fs1''),
      (''f10'', ''fa0''), (''f11'', ''fa1''), (''f12'', ''fa2''), (''f13'', ''fa3''), (''f14'', ''fa4''),
      (''f15'', ''fa5''), (''f16'', ''fa6''), (''f17'', ''fa7''), (''f18'', ''fs2''), (''f19'', ''fs3''),
      (''f20'', ''fs4''), (''f21'', ''fs5''), (''f22'', ''fs6''), (''f23'', ''fs7''), (''f24'', ''fs8''),
      (''f25'', ''fs9''), (''f26'', ''fs10''), (''f27'', ''fs11''), (''f28'', ''ft8''), (''f29'', ''ft9''),
      (''f30'', ''ft10''), (''f31'', ''ft11'')]"

definition gpr_to_abi :: "string \<Rightarrow> string" where
  "gpr_to_abi gpr = (case map_of abi_names gpr of None \<Rightarrow> ''na'' | Some n \<Rightarrow> n)"

definition sint_to_hex :: "int \<Rightarrow> string" where
  "sint_to_hex val = py_hex ((val + 2 ^ 32) mod 2 ^ 32)"

text \<open>\<open>get_imm_hex_val\<close>: the sign is taken off, the rest parsed with any prefix.\<close>

definition get_imm_hex_val :: "string \<Rightarrow> string script" where
  "get_imm_hex_val imm =
     bnd (str_index imm 0) (\<lambda>c.
     let neg = (c = CHR ''-''); body = (if neg then drop 1 imm else imm)
     in case py_int0 body of
          None \<Rightarrow> Inl (ScriptValueError body)
        | Some v \<Rightarrow> Inr (drop 2 (sint_to_hex (if neg then - v else v))))"

section \<open>The pattern of a base and an offset\<close>

definition base_char :: "char \<Rightarrow> bool" where
  "base_char c \<longleftrightarrow> is_lower c \<or> is_digit c"

definition imm_char :: "char \<Rightarrow> bool" where
  "imm_char c \<longleftrightarrow> c = CHR ''-'' \<or> is_digit c"

text \<open>
  A match of \<open>BASE_RE\<close> that begins at the head of a string: a name, a comma, an offset, a name in
  parentheses. No part can contain the character that ends it, so lazy repetition takes all of it.
\<close>

definition match_base :: "string \<Rightarrow> (string \<times> string \<times> string) option" where
  "match_base s =
     (let rd = takeWhile base_char s; s1 = dropWhile base_char s;
          imm = takeWhile imm_char (drop 1 s1); s2 = dropWhile imm_char (drop 1 s1);
          rs1 = takeWhile base_char (drop 1 s2); s3 = dropWhile base_char (drop 1 s2)
      in if rd \<noteq> [] \<and> s1 \<noteq> [] \<and> hd s1 = CHR '','' \<and> s2 \<noteq> [] \<and> hd s2 = CHR ''('' \<and>
            rs1 \<noteq> [] \<and> s3 \<noteq> [] \<and> hd s3 = CHR '')''
         then Some (rd, imm, rs1) else None)"

text \<open>\<open>search\<close> takes the leftmost match.\<close>

fun search_base :: "string \<Rightarrow> (string \<times> string \<times> string) option" where
  "search_base [] = None"
| "search_base (c # cs) = (case match_base (c # cs) of Some m \<Rightarrow> Some m | None \<Rightarrow> search_base cs)"

section \<open>Pseudo instructions\<close>

text \<open>The pseudo instructions that only append operands.\<close>

definition suffix_pseudos :: "(string \<times> string \<times> string) list" where
  "suffix_pseudos =
     [(''mv'', ''addi'', '',0''), (''not'', ''xori'', '',-1''), (''sext.w'', ''addiw'', '',0''),
      (''seqz'', ''sltiu'', '',1''), (''sltz'', ''slt'', '',zero''), (''csrr'', ''csrrw'', '',zero'')]"

definition bitmanip_pseudos :: "(string \<times> string \<times> string) list" where
  "bitmanip_pseudos =
     [(''rev.p'', ''grevi'', '',1''), (''rev2.n'', ''grevi'', '',2''), (''rev.n'', ''grevi'', '',3''),
      (''rev4.b'', ''grevi'', '',4''), (''rev2.b'', ''grevi'', '',6''), (''rev.b'', ''grevi'', '',7''),
      (''rev8.h'', ''grevi'', '',8''), (''rev4.h'', ''grevi'', '',12''), (''rev2.h'', ''grevi'', '',14''),
      (''rev.h'', ''grevi'', '',15''), (''rev16'', ''grevi'', '',16''), (''rev8'', ''grevi'', '',24''),
      (''rev4'', ''grevi'', '',28''), (''rev2'', ''grevi'', '',30''), (''rev'', ''grevi'', '',31''),
      (''orc.p'', ''gorci'', '',1''), (''orc2.n'', ''gorci'', '',2''), (''orc.n'', ''gorci'', '',3''),
      (''orc4.b'', ''gorci'', '',4''), (''orc2.b'', ''gorci'', '',6''), (''orc.b'', ''gorci'', '',7''),
      (''orc8.h'', ''gorci'', '',8''), (''orc4.h'', ''gorci'', '',12''), (''orc2.h'', ''gorci'', '',14''),
      (''orc.h'', ''gorci'', '',15''), (''orc16'', ''gorci'', '',16''), (''orc8'', ''gorci'', '',24''),
      (''orc4'', ''gorci'', '',28''), (''orc2'', ''gorci'', '',30''), (''orc'', ''gorci'', '',31''),
      (''zext.b'', ''andi'', '',255''), (''zext.h'', ''pack'', '',zero''), (''zext.w'', ''pack'', '',zero''),
      (''sext.w'', ''addiw'', '',0''), (''zip.n'', ''shfli'', '',1''), (''unzip.n'', ''unshfli'', '',1''),
      (''zip2.b'', ''shfli'', '',2''), (''unzip2.b'', ''unshfli'', '',2''), (''zip.b'', ''shfli'', '',3''),
      (''unzip.b'', ''unshfli'', '',3''), (''zip4.h'', ''shfli'', '',4''), (''unzip4.h'', ''unshfli'', '',4''),
      (''zip2.h'', ''shfli'', '',6''), (''unzip2.h'', ''unshfli'', '',6''), (''zip.h'', ''shfli'', '',7''),
      (''unzip.h'', ''unshfli'', '',7''), (''zip8'', ''shfli'', '',8''), (''unzip8'', ''unshfli'', '',8''),
      (''zip4'', ''shfli'', '',12''), (''unzip4'', ''unshfli'', '',12''), (''zip2'', ''shfli'', '',14''),
      (''unzip2'', ''unshfli'', '',14''), (''zip'', ''shfli'', '',15''), (''unzip'', ''unshfli'', '',15'')]"

text \<open>A \<open>zero\<close> between the two operands, one in front, and the first two operands exchanged.\<close>

definition zero_between :: "(string \<times> string) list" where
  "zero_between =
     [(''neg'', ''sub''), (''negw'', ''subw''), (''snez'', ''sltu''), (''sgtz'', ''slt''),
      (''beqz'', ''beq''), (''bnez'', ''bne''), (''bgez'', ''bge''), (''bltz'', ''blt'')]"

definition zero_first :: "(string \<times> string) list" where
  "zero_first =
     [(''blez'', ''bge''), (''bgtz'', ''blt''), (''csrw'', ''csrrw''), (''csrs'', ''csrrs''),
      (''csrc'', ''csrrc''), (''csrwi'', ''csrrwi''), (''csrsi'', ''csrrsi''), (''csrci'', ''csrrci'')]"

definition swapped :: "(string \<times> string) list" where
  "swapped = [(''bgt'', ''blt''), (''ble'', ''bge''), (''bgtu'', ''bltu''), (''bleu'', ''bgeu'')]"

definition with_zero_between :: "string \<Rightarrow> string script" where
  "with_zero_between operands =
     (let ops = str_split (CHR '','') operands in
      bnd (str_index ops 0) (\<lambda>o0. bnd (str_index ops 1) (\<lambda>o1. Inr (o0 @ '',zero,'' @ o1))))"

definition with_swapped :: "string \<Rightarrow> string script" where
  "with_swapped operands =
     (let ops = str_split (CHR '','') operands in
      bnd (str_index ops 1) (\<lambda>o1. bnd (str_index ops 0) (\<lambda>o0. bnd (str_index ops 2) (\<lambda>o2.
      Inr (o1 @ '','' @ o0 @ '','' @ o2)))))"

definition convert_jalr :: "string \<Rightarrow> string" where
  "convert_jalr operands =
     (let ops = (case search_base operands of
                   Some (rd, imm, rs1) \<Rightarrow> rd @ '','' @ rs1 @ '','' @ imm
                 | None \<Rightarrow> operands)
      in if CHR '','' \<notin> set ops then ''ra,'' @ ops @ '',0'' else ops)"

definition convert_ret :: "string \<Rightarrow> (string \<times> string) script" where
  "convert_ret binary =
     (if binary = [] then Inl ScriptIndexError
      else if last binary = CHR ''2'' then Inr (''c.jr'', ''ra'') else Inr (''jalr'', ''zero,ra,0''))"

definition convert_pseudo_instr :: "string \<Rightarrow> string \<Rightarrow> string \<Rightarrow> (string \<times> string) script" where
  "convert_pseudo_instr instr_name operands binary =
     (if instr_name = ''nop'' then Inr (''addi'', ''zero,zero,0'')
      else case map_of suffix_pseudos instr_name of
        Some (name, sfx) \<Rightarrow> Inr (name, operands @ sfx)
      | None \<Rightarrow> (case map_of zero_between instr_name of
        Some name \<Rightarrow> bnd (with_zero_between operands) (\<lambda>ops. Inr (name, ops))
      | None \<Rightarrow> (case map_of zero_first instr_name of
        Some name \<Rightarrow> Inr (name, ''zero,'' @ operands)
      | None \<Rightarrow> (case map_of swapped instr_name of
        Some name \<Rightarrow> bnd (with_swapped operands) (\<lambda>ops. Inr (name, ops))
      | None \<Rightarrow>
          if instr_name = ''jr'' then Inr (''jalr'', ''zero,'' @ operands @ '',0'')
          else if instr_name = ''j'' then Inr (''jal'', ''zero,'' @ operands)
          else if instr_name = ''jal''
          then Inr (''jal'', if CHR '','' \<in> set operands then operands else ''ra,'' @ operands)
          else if instr_name = ''jalr'' then Inr (''jalr'', convert_jalr operands)
          else if instr_name = ''ret'' then convert_ret binary
          else (case map_of bitmanip_pseudos instr_name of
                  Some (name, sfx) \<Rightarrow> Inr (name, operands @ sfx)
                | None \<Rightarrow> Inr (instr_name, operands))))))"

end
