(* ===== verification/Trace_Compare.thy ===== *)
theory Trace_Compare
  imports Trace_Lib
begin

text \<open>
  The comparison of two simulation traces: the trace of \<open>riscv_trace_csv.py\<close> and
  \<open>compare_trace_csv\<close> of \<open>instr_trace_compare.py\<close> (both in \<open>verif/sim/dv/scripts\<close>). The rows are
  those that the CSV reader of Python's library returns; what the comparison writes to its log is a list
  of strings.
\<close>

section \<open>Traces\<close>

record trace_entry =
  te_gpr :: "string list"
  te_csr :: "string list"
  te_instr :: "string option"
  te_operand :: "string option"
  te_pc :: "string option"
  te_binary :: "string option"
  te_instr_str :: "string option"
  te_mode :: "string option"

text \<open>A row maps each column to its text; a column beyond the end of a short row is \<open>None\<close>.\<close>

type_synonym row = "(string \<times> string option) list"

definition column :: "row \<Rightarrow> string \<Rightarrow> string option script" where
  "column row k = (case map_of row k of None \<Rightarrow> Inl (ScriptKeyError k) | Some v \<Rightarrow> Inr v)"

definition split_column :: "row \<Rightarrow> string \<Rightarrow> string list script" where
  "split_column row k =
     bnd (column row k) (\<lambda>v. case v of None \<Rightarrow> Inl ScriptAttributeError
                            | Some s \<Rightarrow> Inr (str_split (CHR '';'') s))"

definition read_row :: "row \<Rightarrow> trace_entry script" where
  "read_row row =
     bnd (split_column row ''gpr'') (\<lambda>gpr.
     bnd (split_column row ''csr'') (\<lambda>csr.
     bnd (column row ''pc'') (\<lambda>pc.
     bnd (column row ''operand'') (\<lambda>operand.
     bnd (column row ''binary'') (\<lambda>binary.
     bnd (column row ''instr_str'') (\<lambda>instr_str.
     bnd (column row ''instr'') (\<lambda>instr.
     bnd (column row ''mode'') (\<lambda>mode.
     Inr \<lparr>te_gpr = gpr, te_csr = csr, te_instr = instr, te_operand = operand, te_pc = pc,
          te_binary = binary, te_instr_str = instr_str, te_mode = mode\<rparr>))))))))"

definition read_trace :: "row list \<Rightarrow> trace_entry list script" where
  "read_trace rows = mapR read_row rows"

definition write_trace_entry :: "trace_entry \<Rightarrow> row" where
  "write_trace_entry e =
     [(''instr_str'', te_instr_str e), (''gpr'', Some (str_join '';'' (te_gpr e))),
      (''csr'', Some (str_join '';'' (te_csr e))), (''operand'', te_operand e), (''pc'', te_pc e),
      (''binary'', te_binary e), (''instr'', te_instr e), (''mode'', te_mode e)]"

definition py_str :: "string option \<Rightarrow> string" where
  "py_str v = (case v of None \<Rightarrow> ''None'' | Some s \<Rightarrow> s)"

definition get_trace_string :: "trace_entry \<Rightarrow> string" where
  "get_trace_string e = ''pc['' @ py_str (te_pc e) @ ''] '' @ py_str (te_instr_str e) @ '': '' @
     str_join '' '' (te_gpr e) @ '' '' @ str_join '' '' (te_csr e)"

section \<open>The register state\<close>

type_synonym gprs = "(string \<times> string) list"

text \<open>
  The updates of one instruction are applied in order. An empty update ends the walk with the answer that
  nothing has changed, although the updates before it stay applied. A register that was never written
  changes when it gets a nonzero value.
\<close>

fun apply_updates :: "string list \<Rightarrow> bool \<Rightarrow> gprs \<Rightarrow> (bool \<times> gprs) script" where
  "apply_updates [] changed gpr = Inr (changed, gpr)"
| "apply_updates (u # us) changed gpr =
     (if u = [] then Inr (False, gpr)
      else let item = str_split (CHR '':'') u in
        if length item \<noteq> 2 then Inl (ScriptExit (''Illegal GPR update format:'' @ u))
        else let rd = item ! 0; rd_val = item ! 1 in
          bnd (case map_of gpr rd of
                 Some old \<Rightarrow> Inr (changed \<or> rd_val \<noteq> old)
               | None \<Rightarrow> (case py_int16 rd_val of
                   None \<Rightarrow> Inl (ScriptValueError rd_val)
                 | Some v \<Rightarrow> Inr (changed \<or> v \<noteq> 0))) (\<lambda>changed.
          apply_updates us changed (AList.update rd rd_val gpr)))"

definition check_update_gpr :: "string list \<Rightarrow> gprs \<Rightarrow> (bool \<times> gprs) script" where
  "check_update_gpr gpr_update gpr = apply_updates gpr_update False gpr"

section \<open>The comparison\<close>

text \<open>What stays fixed during a comparison, and what the loop keeps.\<close>

record compare_ctx =
  cx_name1 :: string
  cx_name2 :: string
  cx_limit :: int
  cx_len1 :: nat
  cx_trace2 :: "trace_entry list"

record compare_state =
  cp_index1 :: nat
  cp_index2 :: nat
  cp_gprs1 :: gprs
  cp_gprs2 :: gprs
  cp_mismatch :: nat
  cp_matched :: nat
  cp_log :: "string list"

text \<open>Moving the second trace forward until an instruction changes a register.\<close>

fun advance :: "trace_entry list \<Rightarrow> nat \<Rightarrow> gprs \<Rightarrow> (bool \<times> nat \<times> gprs) script" where
  "advance [] idx gpr = Inr (False, idx, gpr)"
| "advance (e # es) idx gpr =
     bnd (check_update_gpr (te_gpr e) gpr) (\<lambda>(changed, gpr').
     if changed then Inr (True, Suc idx, gpr') else advance es (Suc idx) gpr')"

definition left_text :: "nat \<Rightarrow> string \<Rightarrow> string" where
  "left_text n name = show_int (int n) @ '' instructions left in trace '' @ name @ newline"

definition pair_text :: "compare_ctx \<Rightarrow> nat \<Rightarrow> trace_entry \<Rightarrow> nat \<Rightarrow> string list" where
  "pair_text cx mismatch tr at =
     [''Mismatch['' @ show_int (int mismatch) @ '']:'' @ newline @ cx_name1 cx @ ''['' @
        show_int (int at) @ ''] : '' @ get_trace_string tr @ newline,
      cx_name2 cx @ ''['' @ show_int (int at) @ ''] : '' @ get_trace_string (cx_trace2 cx ! at) @ newline]"

definition end_text :: "compare_ctx \<Rightarrow> nat \<Rightarrow> nat \<Rightarrow> trace_entry \<Rightarrow> string list" where
  "end_text cx mismatch idx1 tr =
     [''Mismatch['' @ show_int (int mismatch) @ '']:'' @ newline @ ''['' @ show_int (int idx1) @ ''] '' @
        cx_name1 cx @ '' : '' @ get_trace_string tr @ newline,
      left_text (cx_len1 cx - idx1 + 1) (cx_name1 cx)]"

text \<open>
  The verdict on one change of the first trace: the second trace has no change left, or the instruction
  that changes it has another list of updates, or the same.
\<close>

definition judge :: "compare_ctx \<Rightarrow> trace_entry \<Rightarrow> bool \<Rightarrow> compare_state \<Rightarrow> compare_state" where
  "judge cx tr found st =
     (let mismatch = cp_mismatch st + 1; at = cp_index2 st - 1 in
      if \<not> found
      then st\<lparr>cp_mismatch := mismatch, cp_log := cp_log st @ end_text cx mismatch (cp_index1 st) tr\<rparr>
      else if length (te_gpr tr) \<noteq> length (te_gpr (cx_trace2 cx ! at)) \<or>
        (\<exists>i < length (te_gpr tr). te_gpr tr ! i \<noteq> te_gpr (cx_trace2 cx ! at) ! i)
      then st\<lparr>cp_mismatch := mismatch,
              cp_log := cp_log st @ (if int mismatch \<le> cx_limit cx then pair_text cx mismatch tr at else [])\<rparr>
      else st\<lparr>cp_matched := cp_matched st + 1\<rparr>)"

fun in_order :: "compare_ctx \<Rightarrow> trace_entry list \<Rightarrow> compare_state \<Rightarrow> compare_state script" where
  "in_order cx [] st = Inr st"
| "in_order cx (tr # trs) st0 =
     (let st = st0\<lparr>cp_index1 := cp_index1 st0 + 1\<rparr> in
      if te_gpr tr = [] then in_order cx trs st
      else bnd (check_update_gpr (te_gpr tr) (cp_gprs1 st)) (\<lambda>(changed, g1).
        let st = st\<lparr>cp_gprs1 := g1\<rparr> in
        if \<not> changed then in_order cx trs st
        else bnd (advance (drop (cp_index2 st) (cx_trace2 cx)) (cp_index2 st) (cp_gprs2 st))
          (\<lambda>(found, idx2, g2).
           let st = judge cx tr found (st\<lparr>cp_index2 := idx2, cp_gprs2 := g2\<rparr>) in
           if idx2 = length (cx_trace2 cx) then Inr st else in_order cx trs st)))"

text \<open>What is left of the second trace: all of it counts, from its next change on.\<close>

definition leftover :: "compare_ctx \<Rightarrow> compare_state \<Rightarrow> compare_state script" where
  "leftover cx st =
     bnd (advance (drop (cp_index2 st) (cx_trace2 cx)) (cp_index2 st) (cp_gprs2 st)) (\<lambda>(found, idx, g2).
     if found
     then Inr (st\<lparr>cp_index2 := idx - 1, cp_gprs2 := g2,
            cp_mismatch := cp_mismatch st + (length (cx_trace2 cx) - (idx - 1)),
            cp_log := cp_log st @ [left_text (length (cx_trace2 cx) - (idx - 1)) (cx_name2 cx)]\<rparr>)
     else Inr (st\<lparr>cp_index2 := idx, cp_gprs2 := g2\<rparr>))"

definition compare_start :: compare_state where
  "compare_start = \<lparr>cp_index1 = 0, cp_index2 = 0, cp_gprs1 = [], cp_gprs2 = [], cp_mismatch = 0,
     cp_matched = 0, cp_log = []\<rparr>"

definition result_text :: "compare_state \<Rightarrow> string" where
  "result_text st =
     (if cp_mismatch st = 0
      then ''[PASSED]: '' @ show_int (int (cp_matched st)) @ '' matched'' @ newline
      else ''[FAILED]: '' @ show_int (int (cp_matched st)) @ '' matched, '' @
        show_int (int (cp_mismatch st)) @ '' mismatch'' @ newline)"

definition compare_traces ::
  "compare_ctx \<Rightarrow> trace_entry list \<Rightarrow> bool \<Rightarrow> compare_state script" where
  "compare_traces cx trace1 in_order_mode =
     (if in_order_mode then bnd (in_order cx trace1 compare_start) (leftover cx) else Inr compare_start)"

text \<open>The whole function: the strings it writes and the result it returns.\<close>

definition compare_trace_csv ::
  "string \<Rightarrow> row list \<Rightarrow> string \<Rightarrow> row list \<Rightarrow> string \<Rightarrow> string \<Rightarrow> bool \<Rightarrow> int \<Rightarrow> bool \<Rightarrow>
     (string list \<times> string) script" where
  "compare_trace_csv csv1 rows1 csv2 rows2 name1 name2 in_order_mode mismatch_print_limit
       compare_final_value_only =
     bnd (read_trace rows1) (\<lambda>trace1.
     bnd (read_trace rows2) (\<lambda>trace2.
     let cx = \<lparr>cx_name1 = name1, cx_name2 = name2, cx_limit = mismatch_print_limit,
               cx_len1 = length trace1, cx_trace2 = trace2\<rparr>
     in bnd (compare_traces cx trace1 (in_order_mode \<and> \<not> compare_final_value_only)) (\<lambda>st.
        Inr ([name1 @ '' : '' @ csv1 @ newline, name2 @ '' : '' @ csv2 @ newline] @ cp_log st @
               [result_text st @ newline],
             result_text st))))"

end
