(* ===== verification/Trace_Facts.thy ===== *)
theory Trace_Facts
  imports Trace_Compare
begin

text \<open>
  What the comparison of traces decides. The reference is the list of the changes of a trace: the update
  lists of the instructions that change the register state, each in the state that those before it leave.
\<close>

section \<open>The changes of a trace\<close>

fun updates :: "trace_entry list \<Rightarrow> gprs \<Rightarrow> string list option list script" where
  "updates [] g = Inr []"
| "updates (e # es) g =
     bnd (check_update_gpr (te_gpr e) g) (\<lambda>(changed, g').
     bnd (updates es g') (\<lambda>us. Inr ((if changed then Some (te_gpr e) else None) # us)))"

definition changes :: "'a option list \<Rightarrow> 'a list" where
  "changes us = map the (filter (\<lambda>u. u \<noteq> None) us)"

lemma changes_simps [simp]:
  "changes [] = []" "changes (None # us) = changes us" "changes (Some c # us) = c # changes us"
  by (simp_all add: changes_def)

definition accepted :: "'a option list \<Rightarrow> 'a option list \<Rightarrow> bool" where
  "accepted u1 u2 \<longleftrightarrow>
     (\<exists>r. changes u1 = changes u2 @ r \<and> (r = [] \<or> u2 \<noteq> [] \<and> last u2 \<noteq> None))"

lemma accepted_none: "changes u1 = [] \<Longrightarrow> accepted u1 u2 \<longleftrightarrow> changes u2 = []"
  by (auto simp: accepted_def)

lemma accepted_no_change:
  assumes "changes u1 \<noteq> []" and "changes u2 = []" shows "\<not> accepted u1 u2"
proof
  assume "accepted u1 u2"
  then have "u2 \<noteq> []" "last u2 \<noteq> None" using assms by (auto simp: accepted_def)
  then have "last u2 \<in> set (filter (\<lambda>u. u \<noteq> None) u2)" by simp
  with assms(2) show False by (auto simp: changes_def)
qed

lemma accepted_last:
  "changes u1 = c1 # cs1 \<Longrightarrow> changes u2 = [c2] \<Longrightarrow> u2 \<noteq> [] \<Longrightarrow> last u2 \<noteq> None \<Longrightarrow>
     accepted u1 u2 \<longleftrightarrow> c1 = c2"
  by (auto simp: accepted_def)

lemma accepted_Cons:
  assumes "changes u1 = c1 # changes v1" and "changes u2 = c2 # changes v2" and "v2 \<noteq> []"
    and "u2 \<noteq> []" and "last u2 = last v2"
  shows "accepted u1 u2 \<longleftrightarrow> c1 = c2 \<and> accepted v1 v2"
  using assms by (auto simp: accepted_def)

section \<open>Moving forward\<close>

lemma check_nothing [simp]: "check_update_gpr [] g = Inr (False, g)"
  by (simp add: check_update_gpr_def)

lemma updates_Cons_Inr:
  "updates (e # es) g = Inr us \<longleftrightarrow>
     (\<exists>changed g' vs. check_update_gpr (te_gpr e) g = Inr (changed, g') \<and> updates es g' = Inr vs \<and>
       us = (if changed then Some (te_gpr e) else None) # vs)"
  by auto

lemma advance_none:
  "updates es g = Inr us \<Longrightarrow> changes us = [] \<Longrightarrow> \<exists>g'. advance es i g = Inr (False, i + length es, g')"
proof (induction es arbitrary: g us i)
  case Nil
  then show ?case by simp
next
  case (Cons e es)
  from Cons.prems obtain changed g' vs where
    c: "check_update_gpr (te_gpr e) g = Inr (changed, g')" "updates es g' = Inr vs"
      "us = (if changed then Some (te_gpr e) else None) # vs" unfolding updates_Cons_Inr by blast
  with Cons.prems have "\<not> changed" "changes vs = []" by (auto split: if_splits)
  with Cons.IH [OF c(2), of "Suc i"] c(1) show ?case by simp
qed

lemma advance_some:
  "updates es g = Inr us \<Longrightarrow> changes us = c # cs \<Longrightarrow>
     \<exists>k g'. k < length es \<and> advance es i g = Inr (True, i + Suc k, g') \<and> te_gpr (es ! k) = c \<and>
       updates (drop (Suc k) es) g' = Inr (drop (Suc k) us) \<and> changes (drop (Suc k) us) = cs \<and>
       us ! k \<noteq> None \<and> length us = length es"
proof (induction es arbitrary: g us i)
  case Nil
  then show ?case by simp
next
  case (Cons e es)
  from Cons.prems obtain changed g' vs where
    c: "check_update_gpr (te_gpr e) g = Inr (changed, g')" "updates es g' = Inr vs"
      "us = (if changed then Some (te_gpr e) else None) # vs" unfolding updates_Cons_Inr by blast
  have len: "length vs = length es" using c(2) by (induction es arbitrary: g' vs) auto
  show ?case
  proof (cases changed)
    case True
    with c Cons.prems(2) len show ?thesis by (intro exI [of _ 0] exI [of _ g']) auto
  next
    case False
    with c(3) Cons.prems(2) have "changes vs = c # cs" by simp
    from Cons.IH [OF c(2) this, of "Suc i"] obtain k g'' where
      k: "k < length es" "advance es (Suc i) g' = Inr (True, Suc i + Suc k, g'')" "te_gpr (es ! k) = c"
        "updates (drop (Suc k) es) g'' = Inr (drop (Suc k) vs)" "changes (drop (Suc k) vs) = cs"
        "vs ! k \<noteq> None" by blast
    with c False len show ?thesis by (intro exI [of _ "Suc k"] exI [of _ g'']) auto
  qed
qed

section \<open>The verdict\<close>

lemma judge_keeps:
  "cp_index2 (judge cx tr found st) = cp_index2 st" "cp_gprs1 (judge cx tr found st) = cp_gprs1 st"
  "cp_gprs2 (judge cx tr found st) = cp_gprs2 st"
  by (simp_all add: judge_def Let_def)

lemma judge_missing:
  "cp_mismatch (judge cx tr False st) = Suc (cp_mismatch st)"
  by (simp add: judge_def Let_def)

lemma lists_differ:
  "(length xs \<noteq> length ys \<or> (\<exists>i < length xs. xs ! i \<noteq> ys ! i)) \<longleftrightarrow> xs \<noteq> ys"
  using nth_equalityI [of xs ys] by auto

lemma judge_found:
  fixes cx :: compare_ctx
  defines "same \<equiv> \<lambda>tr st. te_gpr tr = te_gpr (cx_trace2 cx ! (cp_index2 st - 1))"
  shows "cp_mismatch (judge cx tr True st) = (if same tr st then cp_mismatch st else Suc (cp_mismatch st))"
    and "same tr st \<Longrightarrow> cp_matched (judge cx tr True st) = Suc (cp_matched st)"
  unfolding same_def judge_def Let_def lists_differ by simp_all

lemma leftover_decides:
  assumes "updates (drop (cp_index2 st) (cx_trace2 cx)) (cp_gprs2 st) = Inr us"
    and "cp_index2 st \<le> length (cx_trace2 cx)"
  shows "\<exists>st'. leftover cx st = Inr st' \<and> cp_matched st' = cp_matched st \<and>
    cp_mismatch st \<le> cp_mismatch st' \<and> (cp_mismatch st' = cp_mismatch st \<longleftrightarrow> changes us = [])"
proof (cases "changes us")
  case Nil
  from advance_none [OF assms(1) this] obtain g' where
    "advance (drop (cp_index2 st) (cx_trace2 cx)) (cp_index2 st) (cp_gprs2 st) =
      Inr (False, cp_index2 st + length (drop (cp_index2 st) (cx_trace2 cx)), g')" by blast
  then have "leftover cx st = Inr (st\<lparr>cp_index2 := cp_index2 st +
      length (drop (cp_index2 st) (cx_trace2 cx)), cp_gprs2 := g'\<rparr>)"
    unfolding leftover_def by simp
  then show ?thesis using Nil by simp
next
  case (Cons c cs)
  from advance_some [OF assms(1) this, of "cp_index2 st"] obtain k g' where
    k: "k < length (drop (cp_index2 st) (cx_trace2 cx))"
      "advance (drop (cp_index2 st) (cx_trace2 cx)) (cp_index2 st) (cp_gprs2 st) =
        Inr (True, cp_index2 st + Suc k, g')" by blast
  obtain st' where "leftover cx st = Inr st'" "cp_matched st' = cp_matched st"
    "cp_mismatch st' = cp_mismatch st + (length (cx_trace2 cx) - (cp_index2 st + k))"
    unfolding leftover_def k(2) by simp
  then show ?thesis using Cons k(1) by auto
qed

section \<open>The whole comparison\<close>

definition outcome :: "compare_ctx \<Rightarrow> trace_entry list \<Rightarrow> compare_state \<Rightarrow> compare_state script" where
  "outcome cx trs st = bnd (in_order cx trs st) (leftover cx)"

text \<open>A second trace that has been used up ends the loop.\<close>

definition decided ::
  "compare_ctx \<Rightarrow> trace_entry list \<Rightarrow> compare_state \<Rightarrow> string list option list \<Rightarrow>
     string list option list \<Rightarrow> bool" where
  "decided cx trs st u1 u2 \<longleftrightarrow>
     (\<exists>st'. outcome cx trs st = Inr st' \<and> cp_mismatch st \<le> cp_mismatch st' \<and>
       (cp_mismatch st' = cp_mismatch st \<longleftrightarrow> accepted u1 u2) \<and>
       (accepted u1 u2 \<longrightarrow> cp_matched st' = cp_matched st + length (changes u2)))"

lemma outcome_skip:
  assumes "check_update_gpr (te_gpr tr) (cp_gprs1 st) = Inr (False, g1)"
  shows "outcome cx (tr # trs) st =
    outcome cx trs (st\<lparr>cp_index1 := cp_index1 st + 1,
      cp_gprs1 := (if te_gpr tr = [] then cp_gprs1 st else g1)\<rparr>)"
  using assms by (simp add: outcome_def Let_def)

lemma outcome_change:
  assumes "check_update_gpr (te_gpr tr) (cp_gprs1 st) = Inr (True, g1)"
    and "advance (drop (cp_index2 st) (cx_trace2 cx)) (cp_index2 st) (cp_gprs2 st) = Inr (found, i2, g2)"
  shows "outcome cx (tr # trs) st =
    (let st' = judge cx tr found (st\<lparr>cp_index1 := cp_index1 st + 1, cp_gprs1 := g1, cp_index2 := i2,
       cp_gprs2 := g2\<rparr>)
     in if i2 = length (cx_trace2 cx) then leftover cx st' else outcome cx trs st')"
proof -
  have "te_gpr tr \<noteq> []" using assms(1) by auto
  with assms show ?thesis by (simp add: outcome_def Let_def)
qed

lemma decided_step:
  assumes "outcome cx (tr # trs) st = outcome cx trs st'" and "decided cx trs st' v1 v2"
    and "cp_mismatch st' = (if same then cp_mismatch st else Suc (cp_mismatch st))"
    and "same \<longrightarrow> cp_matched st' = Suc (cp_matched st)"
    and "accepted u1 u2 \<longleftrightarrow> same \<and> accepted v1 v2"
    and "length (changes u2) = Suc (length (changes v2))"
  shows "decided cx (tr # trs) st u1 u2"
  using assms by (cases same) (auto simp: decided_def)

lemma decided_missing:
  assumes "check_update_gpr (te_gpr tr) (cp_gprs1 st) = Inr (True, g1)" and "changes u1 \<noteq> []"
    and "updates (drop (cp_index2 st) (cx_trace2 cx)) (cp_gprs2 st) = Inr u2"
    and "cp_index2 st \<le> length (cx_trace2 cx)" and "changes u2 = []"
  shows "decided cx (tr # trs) st u1 u2"
proof -
  from advance_none [OF assms(3,5), of "cp_index2 st"] assms(4) obtain g2 where
    a: "advance (drop (cp_index2 st) (cx_trace2 cx)) (cp_index2 st) (cp_gprs2 st) =
      Inr (False, length (cx_trace2 cx), g2)" by auto
  let ?st = "judge cx tr False (st\<lparr>cp_index1 := cp_index1 st + 1, cp_gprs1 := g1,
    cp_index2 := length (cx_trace2 cx), cp_gprs2 := g2\<rparr>)"
  have "outcome cx (tr # trs) st = leftover cx ?st"
    using outcome_change [OF assms(1) a] by (simp add: Let_def)
  moreover have "\<exists>st'. leftover cx ?st = Inr st' \<and> cp_mismatch ?st \<le> cp_mismatch st'"
    using leftover_decides [of ?st cx "[]"] by (auto simp: judge_keeps)
  ultimately show ?thesis using accepted_no_change [OF assms(2,5)]
    by (auto simp: decided_def judge_missing)
qed

text \<open>The second trace has a change left: it is judged, and the comparison ends or goes on behind it.\<close>

lemma decided_found:
  assumes "check_update_gpr (te_gpr tr) (cp_gprs1 st) = Inr (True, g1)"
    and u1: "changes u1 = te_gpr tr # changes v1"
    and u2: "updates (drop (cp_index2 st) (cx_trace2 cx)) (cp_gprs2 st) = Inr u2"
    and "cp_index2 st \<le> length (cx_trace2 cx)" and c2: "changes u2 = c2 # cs2"
    and IH: "\<And>st v2. cp_gprs1 st = g1 \<Longrightarrow> updates (drop (cp_index2 st) (cx_trace2 cx)) (cp_gprs2 st) = Inr v2 \<Longrightarrow>
      cp_index2 st \<le> length (cx_trace2 cx) \<Longrightarrow> decided cx trs st v1 v2"
  shows "decided cx (tr # trs) st u1 u2"
proof -
  from advance_some [OF u2 c2, of "cp_index2 st"] obtain k g2 where
    k: "k < length (drop (cp_index2 st) (cx_trace2 cx))"
    and a: "advance (drop (cp_index2 st) (cx_trace2 cx)) (cp_index2 st) (cp_gprs2 st) =
      Inr (True, cp_index2 st + Suc k, g2)"
    and e: "te_gpr (drop (cp_index2 st) (cx_trace2 cx) ! k) = c2"
    and v2: "updates (drop (Suc k) (drop (cp_index2 st) (cx_trace2 cx))) g2 = Inr (drop (Suc k) u2)"
      "changes (drop (Suc k) u2) = cs2" "u2 ! k \<noteq> None"
      "length u2 = length (drop (cp_index2 st) (cx_trace2 cx))" by blast
  let ?st1 = "st\<lparr>cp_index1 := cp_index1 st + 1, cp_gprs1 := g1,
    cp_index2 := cp_index2 st + Suc k, cp_gprs2 := g2\<rparr>"
  let ?st = "judge cx tr True ?st1"
  have i2: "cp_index2 st + Suc k \<le> length (cx_trace2 cx)" using k by simp
  have "te_gpr (cx_trace2 cx ! (cp_index2 ?st1 - 1)) = c2" using e assms(4) by simp
  note j0 = judge_found [where cx = cx and tr = tr and st = ?st1, unfolded this]
  have j: "cp_mismatch ?st = (if te_gpr tr = c2 then cp_mismatch st else Suc (cp_mismatch st))"
    "te_gpr tr = c2 \<longrightarrow> cp_matched ?st = Suc (cp_matched st)"
    unfolding j0(1) using j0(2) by simp_all
  note out = outcome_change [OF assms(1) a, of trs, unfolded Let_def]
  show ?thesis
  proof (cases "cp_index2 st + Suc k = length (cx_trace2 cx)")
    case True
    then have len: "length u2 = Suc k" using v2(4) by simp
    then have ne: "u2 \<noteq> []" by auto
    with len have "last u2 = u2 ! k" by (simp add: last_conv_nth)
    with ne have l: "changes u2 = [c2]" "u2 \<noteq> []" "last u2 \<noteq> None" using c2 v2(2,3) len by simp_all
    have "\<exists>st'. leftover cx ?st = Inr st' \<and> cp_matched st' = cp_matched ?st \<and>
        cp_mismatch st' = cp_mismatch ?st"
      using leftover_decides [of ?st cx "[]"] True by (auto simp: judge_keeps)
    then show ?thesis using out True accepted_last [OF u1 l] j l(1) by (auto simp: decided_def)
  next
    case False
    then have d: "drop (Suc k) u2 \<noteq> []" using v2(4) i2 by simp
    have "outcome cx (tr # trs) st = outcome cx trs ?st" using out False by simp
    moreover have "decided cx trs ?st v1 (drop (Suc k) u2)"
      by (rule IH) (use v2(1) i2 in \<open>simp_all add: judge_keeps add.commute\<close>)
    moreover have "accepted u1 u2 \<longleftrightarrow> te_gpr tr = c2 \<and> accepted v1 (drop (Suc k) u2)"
      by (rule accepted_Cons [OF u1]) (use c2 v2(2) d in \<open>auto simp: last_drop\<close>)
    ultimately show ?thesis by (rule decided_step [OF _ _ j(1,2)]) (use c2 v2(2) in simp_all)
  qed
qed

lemma comparison_decides:
  "updates trs (cp_gprs1 st) = Inr u1 \<Longrightarrow>
   updates (drop (cp_index2 st) (cx_trace2 cx)) (cp_gprs2 st) = Inr u2 \<Longrightarrow>
   cp_index2 st \<le> length (cx_trace2 cx) \<Longrightarrow> decided cx trs st u1 u2"
proof (induction trs arbitrary: st u1 u2)
  case Nil
  then show ?case using leftover_decides [OF Nil(2,3)]
    by (auto simp: decided_def outcome_def accepted_none)
next
  case (Cons tr trs)
  from Cons.prems(1) obtain changed g1 v1 where
    c: "check_update_gpr (te_gpr tr) (cp_gprs1 st) = Inr (changed, g1)" "updates trs g1 = Inr v1"
      "u1 = (if changed then Some (te_gpr tr) else None) # v1" unfolding updates_Cons_Inr by blast
  show ?case
  proof (cases changed)
    case False
    let ?st = "st\<lparr>cp_index1 := cp_index1 st + 1, cp_gprs1 := (if te_gpr tr = [] then cp_gprs1 st else g1)\<rparr>"
    have "updates trs (cp_gprs1 ?st) = Inr v1" using c(1,2) by auto
    then have "decided cx trs ?st v1 u2" using Cons.prems(2,3) by (intro Cons.IH) simp_all
    moreover have "outcome cx (tr # trs) st = outcome cx trs ?st" using c(1) False by (intro outcome_skip) simp
    moreover have "accepted u1 u2 \<longleftrightarrow> accepted v1 u2" using c(3) False by (simp add: accepted_def)
    ultimately show ?thesis by (simp add: decided_def)
  next
    case True
    then have c1: "check_update_gpr (te_gpr tr) (cp_gprs1 st) = Inr (True, g1)"
      and u1: "changes u1 = te_gpr tr # changes v1" using c by simp_all
    show ?thesis
    proof (cases "changes u2")
      case Nil
      with u1 show ?thesis by (intro decided_missing [OF c1 _ Cons.prems(2,3)]) simp_all
    next
      case (Cons c2 cs2)
      show ?thesis
        by (rule decided_found [OF c1 u1 local.Cons.prems(2,3) Cons]) (use Cons.IH c(2) in simp)
    qed
  qed
qed

end
