(* ===== verification/Trace_Pseudo.thy ===== *)
theory Trace_Pseudo
  imports Trace_Lib "HOL-Library.Word"
begin

unbundle bit_operations_syntax

text \<open>
  What pseudo instructions and the instructions they are converted to compute. Operands are texts, and
  the registers hold words of any width. The meaning of the pseudo instructions is that of the RISC-V
  assembly manual.
\<close>

section \<open>Splitting operands\<close>

lemma str_split_nonempty [simp]: "str_split sep s \<noteq> []"
  by (induction s) (auto split: list.splits)

lemma str_split_append: "str_split sep (s @ sep # t) = str_split sep s @ str_split sep t"
proof (induction s)
  case Nil
  then show ?case by simp
next
  case (Cons c s)
  then show ?case by (cases "str_split sep s") auto
qed

lemma str_split_parts: "p \<in> set (str_split sep s) \<Longrightarrow> sep \<notin> set p"
proof (induction s arbitrary: p)
  case Nil
  then show ?case by simp
next
  case (Cons c s)
  then show ?case by (cases "str_split sep s") (auto split: if_splits)
qed

abbreviation operands_of :: "string \<Rightarrow> string list" where
  "operands_of \<equiv> str_split (CHR '','')"

lemma operands_append:
  "operands_of (s @ CHR '','' # t) = operands_of s @ operands_of t"
  by (rule str_split_append)

section \<open>Instructions\<close>

type_synonym 'a regs = "string \<Rightarrow> 'a word"

definition rget :: "'a :: len regs \<Rightarrow> string \<Rightarrow> 'a word" where
  "rget regs r = (if r = ''zero'' then 0 else regs r)"

definition flag :: "bool \<Rightarrow> 'a :: len word" where
  "flag b = (if b then 1 else 0)"

text \<open>The register an instruction writes, and the value.\<close>

definition alu_imm :: "string \<Rightarrow> 'a :: len word \<Rightarrow> 'a word \<Rightarrow> 'a word option" where
  "alu_imm name x i =
     (if name = ''addi'' then Some (x + i)
      else if name = ''xori'' then Some (x XOR i)
      else if name = ''sltiu'' then Some (flag (x < i))
      else if name = ''addiw'' then Some (signed_take_bit 31 (x + i))
      else None)"

definition alu_reg :: "string \<Rightarrow> 'a :: len word \<Rightarrow> 'a word \<Rightarrow> 'a word option" where
  "alu_reg name x y =
     (if name = ''sub'' then Some (x - y)
      else if name = ''slt'' then Some (flag (x <s y))
      else if name = ''sltu'' then Some (flag (x < y))
      else if name = ''subw'' then Some (signed_take_bit 31 (x - y))
      else None)"

definition alu :: "string \<Rightarrow> string list \<Rightarrow> 'a :: len regs \<Rightarrow> (string \<times> 'a word) option" where
  "alu name ops regs =
     (case ops of
        [rd, rs, x] \<Rightarrow>
          map_option (Pair rd)
            (case alu_reg name (rget regs rs) (rget regs x) of
               Some v \<Rightarrow> Some v
             | None \<Rightarrow> Option.bind (py_int x) (\<lambda>i. alu_imm name (rget regs rs) (word_of_int i)))
      | _ \<Rightarrow> None)"

text \<open>The target of a branch and whether it is taken.\<close>

definition branch :: "string \<Rightarrow> string list \<Rightarrow> 'a :: len regs \<Rightarrow> (string \<times> bool) option" where
  "branch name ops regs =
     (case ops of
        [a, b, target] \<Rightarrow>
          (let x = rget regs a; y = rget regs b in
           map_option (Pair target)
             (if name = ''beq'' then Some (x = y)
              else if name = ''bne'' then Some (x \<noteq> y)
              else if name = ''blt'' then Some (x <s y)
              else if name = ''bge'' then Some (y \<le>s x)
              else if name = ''bltu'' then Some (x < y)
              else if name = ''bgeu'' then Some (y \<le> x)
              else None))
      | _ \<Rightarrow> None)"

text \<open>The new register value and the new value of the control register.\<close>

definition csr_access ::
  "string \<Rightarrow> string list \<Rightarrow> 'a :: len regs \<Rightarrow> 'a regs \<Rightarrow> ((string \<times> 'a word) \<times> (string \<times> 'a word)) option" where
  "csr_access name ops regs csrs =
     (case ops of
        [rd, c, rs] \<Rightarrow>
          (if name = ''csrrw'' then Some ((rd, csrs c), (c, rget regs rs))
           else if name = ''csrrs'' then Some ((rd, csrs c), (c, csrs c OR rget regs rs))
           else if name = ''csrrc'' then Some ((rd, csrs c), (c, csrs c AND NOT (rget regs rs)))
           else if name = ''csrrwi'' then map_option (\<lambda>i. ((rd, csrs c), (c, word_of_int i))) (py_int rs)
           else if name = ''csrrsi'' then map_option (\<lambda>i. ((rd, csrs c), (c, csrs c OR word_of_int i))) (py_int rs)
           else if name = ''csrrci'' then map_option (\<lambda>i. ((rd, csrs c), (c, csrs c AND NOT (word_of_int i)))) (py_int rs)
           else None)
      | _ \<Rightarrow> None)"

text \<open>The register that gets the return address, and where the jump goes. The lowest bit of an address is cleared.\<close>

datatype 'v jump_place = To_label string | To_address 'v

definition jump :: "string \<Rightarrow> string list \<Rightarrow> 'a :: len regs \<Rightarrow> (string \<times> 'a word jump_place) option" where
  "jump name ops regs =
     (if name = ''jal'' then (case ops of [rd, label] \<Rightarrow> Some (rd, To_label label) | _ \<Rightarrow> None)
      else if name = ''jalr'' then
        (case ops of
           [rd, rs, x] \<Rightarrow> map_option (\<lambda>i. (rd, To_address ((rget regs rs + word_of_int i) AND NOT 1))) (py_int x)
         | _ \<Rightarrow> None)
      else if name = ''c.jr'' then
        (case ops of [rs] \<Rightarrow> Some (''zero'', To_address (rget regs rs AND NOT 1)) | _ \<Rightarrow> None)
      else None)"

section \<open>Pseudo instructions\<close>

definition pseudo_value :: "string \<Rightarrow> 'a :: len word \<Rightarrow> 'a word option" where
  "pseudo_value name x =
     (if name = ''mv'' then Some x
      else if name = ''not'' then Some (NOT x)
      else if name = ''neg'' then Some (- x)
      else if name = ''negw'' then Some (signed_take_bit 31 (- x))
      else if name = ''sext.w'' then Some (signed_take_bit 31 x)
      else if name = ''seqz'' then Some (flag (x = 0))
      else if name = ''snez'' then Some (flag (x \<noteq> 0))
      else if name = ''sltz'' then Some (flag (x <s 0))
      else if name = ''sgtz'' then Some (flag (0 <s x))
      else None)"

definition pseudo_test :: "string \<Rightarrow> 'a :: len word \<Rightarrow> bool option" where
  "pseudo_test name x =
     (if name = ''beqz'' then Some (x = 0)
      else if name = ''bnez'' then Some (x \<noteq> 0)
      else if name = ''blez'' then Some (x \<le>s 0)
      else if name = ''bgez'' then Some (0 \<le>s x)
      else if name = ''bltz'' then Some (x <s 0)
      else if name = ''bgtz'' then Some (0 <s x)
      else None)"

definition pseudo_compare :: "string \<Rightarrow> 'a :: len word \<Rightarrow> 'a word \<Rightarrow> bool option" where
  "pseudo_compare name x y =
     (if name = ''bgt'' then Some (y <s x)
      else if name = ''ble'' then Some (x \<le>s y)
      else if name = ''bgtu'' then Some (y < x)
      else if name = ''bleu'' then Some (x \<le> y)
      else None)"

text \<open>The new value of the control register \<open>c\<close>.\<close>

definition pseudo_csr :: "string \<Rightarrow> 'a :: len regs \<Rightarrow> 'a regs \<Rightarrow> string \<Rightarrow> string \<Rightarrow> 'a word option" where
  "pseudo_csr name regs csrs c src =
     (if name = ''csrw'' then Some (rget regs src)
      else if name = ''csrs'' then Some (csrs c OR rget regs src)
      else if name = ''csrc'' then Some (csrs c AND NOT (rget regs src))
      else if name = ''csrwi'' then map_option word_of_int (py_int src)
      else if name = ''csrsi'' then map_option (\<lambda>i. csrs c OR word_of_int i) (py_int src)
      else if name = ''csrci'' then map_option (\<lambda>i. csrs c AND NOT (word_of_int i)) (py_int src)
      else None)"

text \<open>Jumps with one operand, and the return, which has none.\<close>

definition pseudo_jump :: "string \<Rightarrow> string \<Rightarrow> 'a :: len regs \<Rightarrow> (string \<times> 'a word jump_place) option" where
  "pseudo_jump name x regs =
     (if name = ''j'' then Some (''zero'', To_label x)
      else if name = ''jal'' then Some (''ra'', To_label x)
      else if name = ''jr'' then Some (''zero'', To_address (rget regs x AND NOT 1))
      else if name = ''jalr'' then Some (''ra'', To_address (rget regs x AND NOT 1))
      else if name = ''ret'' then Some (''zero'', To_address (rget regs ''ra'' AND NOT 1))
      else None)"

section \<open>The conversion keeps the meaning\<close>

lemma small_ints: "py_int ''0'' = Some 0" "py_int ''1'' = Some 1" "py_int ''-1'' = Some (- 1)"
  by code_simp+

lemma word_tests:
  fixes x :: "'a :: len word"
  shows "x < 1 \<longleftrightarrow> x = 0" and "0 < x \<longleftrightarrow> x \<noteq> 0" and "x XOR - 1 = NOT x"
  by (simp_all add: word_gt_0 word_less_1 bit_eq_iff bit_xor_iff bit_not_iff)

lemmas convert_tables = convert_pseudo_instr_def suffix_pseudos_def zero_between_def zero_first_def
  swapped_def with_zero_between_def with_swapped_def str_index_def

lemma operands_two:
  assumes "operands_of s = [a, b]"
  shows "operands_of (s @ CHR '','' # t) = a # b # operands_of t"
    and "operands_of (a @ '',zero,'' @ b) = [a, ''zero'', b]"
proof -
  show "operands_of (s @ CHR '','' # t) = a # b # operands_of t" by (simp add: operands_append assms)
  have "CHR '','' \<notin> set a" "CHR '','' \<notin> set b" using str_split_parts [of _ "CHR '',''" s] assms by auto
  then show "operands_of (a @ '',zero,'' @ b) = [a, ''zero'', b]"
    using operands_append [of a "''zero,'' @ b"] operands_append [of "''zero''" b]
    by (simp add: str_split_none)
qed

lemma convert_value:
  assumes two: "operands_of ops = [rd, rs]" and v: "pseudo_value name (rget regs rs) = Some v"
  shows "\<exists>name' ops'. convert_pseudo_instr name ops bin = Inr (name', ops') \<and>
    alu name' (operands_of ops') regs = Some (rd, v)"
proof -
  note ops = operands_two(1) [OF two] operands_two(2) [OF two, simplified]
  note simps = convert_tables two ops alu_def alu_reg_def alu_imm_def small_ints word_tests rget_def
  from v consider "name = ''mv''" | "name = ''not''" | "name = ''neg''" | "name = ''negw''"
    | "name = ''sext.w''" | "name = ''seqz''" | "name = ''snez''" | "name = ''sltz''" | "name = ''sgtz''"
    by (simp add: pseudo_value_def split: if_splits)
  then show ?thesis
    by cases (use v in \<open>simp_all add: simps pseudo_value_def\<close>)
qed

lemma convert_test:
  assumes two: "operands_of ops = [rs, target]" and v: "pseudo_test name (rget regs rs) = Some v"
  shows "\<exists>name' ops'. convert_pseudo_instr name ops bin = Inr (name', ops') \<and>
    branch name' (operands_of ops') regs = Some (target, v)"
proof -
  note ops = operands_two(1) [OF two] operands_two(2) [OF two, simplified]
  have first: "operands_of (''zero,'' @ ops) = [''zero'', rs, target]"
    using operands_append [of "''zero''" ops] two by simp
  note simps = convert_tables two ops first branch_def rget_def Let_def
  from v consider "name = ''beqz''" | "name = ''bnez''" | "name = ''blez''" | "name = ''bgez''"
    | "name = ''bltz''" | "name = ''bgtz''"
    by (simp add: pseudo_test_def split: if_splits)
  then show ?thesis
    by cases (use v in \<open>simp_all add: simps pseudo_test_def\<close>)
qed

lemma convert_compare:
  assumes three: "operands_of ops = [a, b, target]"
    and v: "pseudo_compare name (rget regs a) (rget regs b) = Some v"
  shows "\<exists>name' ops'. convert_pseudo_instr name ops bin = Inr (name', ops') \<and>
    branch name' (operands_of ops') regs = Some (target, v)"
proof -
  have "CHR '','' \<notin> set a" "CHR '','' \<notin> set b" "CHR '','' \<notin> set target"
    using str_split_parts [of _ "CHR '',''" ops] three by auto
  then have ops: "operands_of (b @ CHR '','' # a @ CHR '','' # target) = [b, a, target]"
    by (simp add: operands_append str_split_none)
  note simps = convert_tables three ops branch_def Let_def
  from v consider "name = ''bgt''" | "name = ''ble''" | "name = ''bgtu''" | "name = ''bleu''"
    by (simp add: pseudo_compare_def split: if_splits)
  then show ?thesis
    by cases (use v in \<open>simp_all add: simps pseudo_compare_def\<close>)
qed

text \<open>A read of a control register is converted to a write of zero.\<close>

lemma convert_csrr:
  assumes "operands_of ops = [rd, c]"
  shows "\<exists>name' ops'. convert_pseudo_instr ''csrr'' ops bin = Inr (name', ops') \<and>
    csr_access name' (operands_of ops') regs csrs = Some ((rd, csrs c), (c, 0))"
  by (simp add: convert_tables operands_two [OF assms] csr_access_def rget_def)

text \<open>The instruction without effect adds zero to the register that stays zero.\<close>

lemma convert_nop:
  "\<exists>name' ops'. convert_pseudo_instr ''nop'' ops bin = Inr (name', ops') \<and>
    alu name' (operands_of ops') regs = Some (''zero'', 0)"
proof -
  have "operands_of ''zero,zero,0'' = [''zero'', ''zero'', ''0'']" by code_simp
  then show ?thesis by (simp add: convert_tables alu_def alu_reg_def alu_imm_def small_ints rget_def)
qed

lemma convert_csr_write:
  assumes two: "operands_of ops = [c, src]" and v: "pseudo_csr name regs csrs c src = Some v"
  shows "\<exists>name' ops'. convert_pseudo_instr name ops bin = Inr (name', ops') \<and>
    csr_access name' (operands_of ops') regs csrs = Some ((''zero'', csrs c), (c, v))"
proof -
  have first: "operands_of (''zero,'' @ ops) = [''zero'', c, src]"
    using operands_append [of "''zero''" ops] two by simp
  have names: "name \<in> {''csrw'', ''csrs'', ''csrc'', ''csrwi'', ''csrsi'', ''csrci''}"
    using v by (simp add: pseudo_csr_def split: if_splits)
  have conv: "convert_pseudo_instr name ops bin = Inr (''csrr'' @ drop 3 name, ''zero,'' @ ops)"
    using names by (elim insertE emptyE) (simp_all add: convert_tables)
  have acc: "csr_access (''csrr'' @ drop 3 name) [''zero'', c, src] regs csrs = Some ((''zero'', csrs c), (c, v))"
    using names v by (elim insertE emptyE) (auto simp: csr_access_def pseudo_csr_def)
  show ?thesis by (rule exI, rule exI, rule conjI [OF conv]) (simp only: first acc)
qed

lemma split_single: "operands_of s = [x] \<Longrightarrow> s = x \<and> CHR '','' \<notin> set s"
proof (induction s arbitrary: x)
  case Nil
  then show ?case by simp
next
  case (Cons c s)
  then show ?case by (cases "operands_of s") (auto split: if_splits)
qed

lemma no_comma_no_base: "CHR '','' \<notin> set s \<Longrightarrow> search_base s = None"
proof (induction s)
  case Nil
  then show ?case by simp
next
  case (Cons c s)
  have "match_base (c # s) = None"
  proof (rule ccontr)
    assume "match_base (c # s) \<noteq> None"
    then have "dropWhile base_char (c # s) \<noteq> []" "hd (dropWhile base_char (c # s)) = CHR '',''"
      by (auto simp: match_base_def Let_def simp del: dropWhile.simps takeWhile.simps split: if_splits)
    then have "CHR '','' \<in> set (c # s)" by (metis hd_in_set set_dropWhileD)
    with Cons.prems show False by blast
  qed
  with Cons show ?case by simp
qed

lemma convert_jump:
  assumes one: "name \<noteq> ''ret'' \<longrightarrow> operands_of ops = [x]" and ret: "name = ''ret'' \<longrightarrow> bin \<noteq> []"
    and v: "pseudo_jump name x regs = Some v"
  shows "\<exists>name' ops'. convert_pseudo_instr name ops bin = Inr (name', ops') \<and> jump name' (operands_of ops') regs = Some v"
proof -
  have split: "operands_of (''zero,'' @ s) = ''zero'' # operands_of s" "operands_of (''ra,'' @ s) = ''ra'' # operands_of s" for s
    using operands_append [of "''zero''" s] operands_append [of "''ra''" s] by simp_all
  have zero: "operands_of (s @ '',0'') = operands_of s @ [''0'']" for s using operands_append [of s "''0''"] by simp
  have fixed: "operands_of ''ra'' = [''ra'']" "operands_of ''zero,ra,0'' = [''zero'', ''ra'', ''0'']" by code_simp+
  have no_comma: "CHR '','' \<notin> set ops" if "operands_of ops = [x]" using split_single [OF that] by blast
  note none = no_comma_no_base [OF no_comma] no_comma
  note simps = convert_tables jump_def small_ints
  from v consider "name = ''j''" | "name = ''jal''" | "name = ''jr''" | "name = ''jalr''" | "name = ''ret''"
    by (simp add: pseudo_jump_def split: if_splits)
  then show ?thesis
  proof cases
    case 1
    with one have o: "operands_of (''zero,'' @ ops) = [''zero'', x]" by (simp only: split) simp
    have "convert_pseudo_instr name ops bin = Inr (''jal'', ''zero,'' @ ops)" by (simp add: 1 simps)
    moreover have "v = (''zero'', To_label x)" using v by (simp add: 1 pseudo_jump_def)
    ultimately show ?thesis using o by (simp add: jump_def del: append.simps)
  next
    case 2
    with one have o: "operands_of (''ra,'' @ ops) = [''ra'', x]" "CHR '','' \<notin> set ops" using none
      by (simp_all only: split) simp_all
    have "convert_pseudo_instr name ops bin = Inr (''jal'', ''ra,'' @ ops)" using o(2) by (simp add: 2 simps)
    moreover have "v = (''ra'', To_label x)" using v by (simp add: 2 pseudo_jump_def)
    ultimately show ?thesis using o(1) by (simp add: jump_def del: append.simps)
  next
    case 3
    with one have o: "operands_of (''zero,'' @ ops @ '',0'') = [''zero'', x, ''0'']" by (simp only: split zero) simp
    have "convert_pseudo_instr name ops bin = Inr (''jalr'', ''zero,'' @ ops @ '',0'')" by (simp add: 3 simps)
    moreover have "v = (''zero'', To_address (rget regs x AND NOT 1))" using v by (simp add: 3 pseudo_jump_def)
    ultimately show ?thesis using o by (simp add: jump_def small_ints del: append.simps)
  next
    case 4
    with one have o: "operands_of (''ra,'' @ ops @ '',0'') = [''ra'', x, ''0'']" by (simp only: split zero) simp
    have "convert_jalr ops = ''ra,'' @ ops @ '',0''" using none one 4 by (simp add: convert_jalr_def)
    then have "convert_pseudo_instr name ops bin = Inr (''jalr'', ''ra,'' @ ops @ '',0'')" by (simp add: 4 simps)
    moreover have "v = (''ra'', To_address (rget regs x AND NOT 1))" using v by (simp add: 4 pseudo_jump_def)
    ultimately show ?thesis using o by (simp add: jump_def small_ints del: append.simps)
  next
    case 5
    have "convert_pseudo_instr name ops bin = convert_ret bin" by (simp add: 5 simps)
    moreover have "v = (''zero'', To_address (rget regs ''ra'' AND NOT 1))" using v by (simp add: 5 pseudo_jump_def)
    ultimately show ?thesis using ret 5 by (simp add: convert_ret_def jump_def fixed small_ints)
  qed
qed

end
