(* ===== verification/Plic_Addrmap.thy ===== *)
theory Plic_Addrmap
  imports Trace_Lib
begin

text \<open>
  The generator of the interrupt controller's address decoder,
  \<open>corev_apu/rv_plic/rtl/gen_plic_addrmap.py\<close>: the map of addresses and the Verilog module that is
  printed from it.
\<close>

section \<open>The address map\<close>

datatype access_mode = Access_RO | Access_RW

record map_entry =
  ae_addr :: int
  ae_name :: string
  ae_description :: string
  ae_access :: access_mode
  ae_width :: int

record port =
  po_name :: string
  po_num :: int
  po_width :: int
  po_access :: access_mode

record addr_map =
  am_name :: string
  am_access_width :: int
  am_entries :: "map_entry list"
  am_ports :: "port list"

definition AddrMap :: "string \<Rightarrow> int \<Rightarrow> addr_map" where
  "AddrMap name access_width =
     \<lparr>am_name = name, am_access_width = access_width, am_entries = [], am_ports = []\<rparr>"

text \<open>
  One register, as a single entry or, when it is wider than the bus, as entries of the bus's width; the
  last one has the rest. The description is formatted with the number of the register or of the part.
\<close>

definition split_entry ::
  "int \<Rightarrow> int \<Rightarrow> string \<Rightarrow> (int \<Rightarrow> string) \<Rightarrow> access_mode \<Rightarrow> int \<Rightarrow> int \<Rightarrow> map_entry" where
  "split_entry access_width effect_addr name description access width i =
     \<lparr>ae_addr = effect_addr + (access_width div 8) * i, ae_name = name,
      ae_description = description i, ae_access = access,
      ae_width = (if width - access_width * i < access_width then width - access_width * i else access_width)\<rparr>"

definition register_entries ::
  "int \<Rightarrow> (int \<Rightarrow> int) \<Rightarrow> string \<Rightarrow> (int \<Rightarrow> string) \<Rightarrow> access_mode \<Rightarrow> int \<Rightarrow> int \<Rightarrow> map_entry list" where
  "register_entries access_width addr name description access width i =
     (if access_width < width
      then map (split_entry access_width (addr i) name description access width)
             [0 .. (width + access_width - 1) div access_width - 1]
      else [\<lparr>ae_addr = addr i, ae_name = name, ae_description = description i, ae_access = access,
             ae_width = width\<rparr>])"

definition addEntries ::
  "int \<Rightarrow> (int \<Rightarrow> int) \<Rightarrow> string \<Rightarrow> (int \<Rightarrow> string) \<Rightarrow> access_mode \<Rightarrow> int \<Rightarrow> addr_map \<Rightarrow> addr_map" where
  "addEntries num addr name description access width am =
     am\<lparr>am_ports := am_ports am @
            [\<lparr>po_name = name, po_num = num, po_width = width, po_access = access\<rparr>],
        am_entries := am_entries am @
            concat (map (register_entries (am_access_width am) addr name description access width) [0 .. num - 1])\<rparr>"

definition addEntry ::
  "(int \<Rightarrow> int) \<Rightarrow> string \<Rightarrow> (int \<Rightarrow> string) \<Rightarrow> access_mode \<Rightarrow> int \<Rightarrow> addr_map \<Rightarrow> addr_map" where
  "addEntry addr name description access width am = addEntries 1 addr name description access width am"

section \<open>The Verilog module\<close>

definition ln :: "string \<Rightarrow> string" where
  "ln s = s @ newline"

definition port_text :: "port \<Rightarrow> string" where
  "port_text p =
     (let n = show_int (po_num p - 1); w = show_int (po_width p - 1); name = po_name p;
          dims = ''['' @ n @ '':0]['' @ w @ '':0] ''
      in case po_access p of
           Access_RO \<Rightarrow>
             ln (''  input logic '' @ dims @ name @ ''_i,'') @
             ln (''  output logic ['' @ n @ '':0] '' @ name @ ''_re_o,'')
         | Access_RW \<Rightarrow>
             ln (''  input logic '' @ dims @ name @ ''_i,'') @
             ln (''  output logic '' @ dims @ name @ ''_o,'') @
             ln (''  output logic ['' @ n @ '':0] '' @ name @ ''_we_o,'') @
             ln (''  output logic ['' @ n @ '':0] '' @ name @ ''_re_o,''))"

definition port_default :: "port \<Rightarrow> string" where
  "port_default p =
     (if po_access p \<noteq> Access_RO
      then ln (''  '' @ po_name p @ ''_o = '' @ [CHR 0x27] @ ''0;'') @
           ln (''  '' @ po_name p @ ''_we_o = '' @ [CHR 0x27] @ ''0;'') @
           ln (''  '' @ po_name p @ ''_re_o = '' @ [CHR 0x27] @ ''0;'')
      else [])"

definition case_label :: "int \<Rightarrow> map_entry \<Rightarrow> string" where
  "case_label access_width e =
     ln (''        '' @ show_int access_width @ [CHR 0x27] @ ''h'' @ drop 2 (py_hex (ae_addr e)) @ '': begin'')"

definition write_item :: "int \<Rightarrow> map_entry \<Rightarrow> int \<Rightarrow> string" where
  "write_item access_width e j =
     (let w = show_int (ae_width e - 1) in
      case_label access_width e @
      ln (''          '' @ ae_name e @ ''_o['' @ show_int j @ '']['' @ w @ '':0] = req_i.wdata['' @ w @ '':0];'') @
      ln (''          '' @ ae_name e @ ''_we_o['' @ show_int j @ ''] = 1'' @ [CHR 0x27] @ ''b1;'') @
      ln ''        end'')"

definition read_item :: "int \<Rightarrow> map_entry \<Rightarrow> int \<Rightarrow> string" where
  "read_item access_width e j =
     (let w = show_int (ae_width e - 1) in
      case_label access_width e @
      ln (''          resp_o.rdata['' @ w @ '':0] = '' @ ae_name e @ ''_i['' @ show_int j @ '']['' @ w @ '':0];'') @
      ln (''          '' @ ae_name e @ ''_re_o['' @ show_int j @ ''] = 1'' @ [CHR 0x27] @ ''b1;'') @
      ln ''        end'')"

text \<open>
  Both loops count the entries of one name: \<open>j\<close> goes back to zero when the name changes. The loop of
  the writes skips what is read-only.
\<close>

definition item_step ::
  "(map_entry \<Rightarrow> bool) \<Rightarrow> (map_entry \<Rightarrow> int \<Rightarrow> string) \<Rightarrow> string \<times> int \<times> string \<Rightarrow> map_entry \<Rightarrow>
     string \<times> int \<times> string" where
  "item_step admitted item = (\<lambda>(output, j, last_name) e.
     if admitted e
     then (let j = (if last_name \<noteq> ae_name e then 0 else j) in (output @ item e j, j + 1, ae_name e))
     else (output, j, last_name))"

definition items ::
  "(map_entry \<Rightarrow> bool) \<Rightarrow> (map_entry \<Rightarrow> int \<Rightarrow> string) \<Rightarrow> map_entry list \<Rightarrow> string" where
  "items admitted item es = fst (foldl (item_step admitted item) ([], 0, []) es)"

definition write_items :: "addr_map \<Rightarrow> string" where
  "write_items am = items (\<lambda>e. ae_access e \<noteq> Access_RO) (write_item (am_access_width am)) (am_entries am)"

definition read_items :: "addr_map \<Rightarrow> string" where
  "read_items am = items (\<lambda>e. True) (read_item (am_access_width am)) (am_entries am)"

definition module_params :: string where
  "module_params =
     ''  parameter type reg_req_t  = logic,'' @ newline @ ''  parameter type reg_rsp_t  = logic''"

definition emit_verilog :: "addr_map \<Rightarrow> string" where
  "emit_verilog am =
     ln ''// Do not edit - auto-generated'' @
     ln (''module '' @ am_name am @ '' #('' @ newline @ module_params @ newline @ '')('') @
     concat (map port_text (am_ports am)) @
     ln ''  // Bus Interface'' @ ln ''  input  reg_req_t req_i,'' @ ln ''  output reg_rsp_t resp_o'' @
     ln '');'' @ ln ''always_comb begin'' @ ln (''  resp_o.ready = 1'' @ [CHR 0x27] @ ''b1;'') @
     ln (''  resp_o.rdata = '' @ [CHR 0x27] @ ''0;'') @ ln (''  resp_o.error = '' @ [CHR 0x27] @ ''0;'') @
     concat (map port_default (am_ports am)) @
     ln ''  if (req_i.valid) begin'' @ ln ''    if (req_i.write) begin'' @
     ln ''      unique case(req_i.addr)'' @ write_items am @
     ln (''        default: resp_o.error = 1'' @ [CHR 0x27] @ ''b1;'') @ ln ''      endcase'' @
     ln ''    end else begin'' @ ln ''      unique case(req_i.addr)'' @ read_items am @
     ln (''        default: resp_o.error = 1'' @ [CHR 0x27] @ ''b1;'') @ ln ''      endcase'' @
     ln ''    end'' @ ln ''  end'' @ ln ''end'' @ ln ''endmodule''"

section \<open>The interrupt controller\<close>

definition MAX_DEVICES :: int where "MAX_DEVICES = 1023"
definition plic_base :: int where "plic_base = 0xC000000"

definition pendingAddr :: "int \<Rightarrow> int" where "pendingAddr i = plic_base + 0x1000"
definition enableOffset :: "int \<Rightarrow> int" where "enableOffset i = i * ((MAX_DEVICES + 7) div 8)"
definition hartOffset :: "int \<Rightarrow> int" where "hartOffset i = i * 0x1000"
definition priorityAddr :: "int \<Rightarrow> int" where "priorityAddr i = (plic_base + 0x0) + i * 4"
definition enableAddr :: "int \<Rightarrow> int" where "enableAddr i = enableOffset i + (plic_base + 0x2000)"
definition hartAddr :: "int \<Rightarrow> int" where "hartAddr i = hartOffset i + (plic_base + 0x200000)"
definition hartCC :: "int \<Rightarrow> int" where "hartCC i = hartAddr i + 4"

text \<open>
  The main program. \<open>clog2\<close> is the source's \<open>ceil(log(x, 2))\<close> on floating-point numbers, a parameter
  here; \<open>None\<close> is a failed assertion.
\<close>

definition plic_map :: "(int \<Rightarrow> int) \<Rightarrow> int \<Rightarrow> int \<Rightarrow> int \<Rightarrow> addr_map option" where
  "plic_map clog2 nr_src nr_target max_prio =
     (let priority_width = clog2 (max_prio + 1); nr_src_eff = nr_src + 1; source_width = clog2 nr_src_eff in
      if \<not> nr_src \<le> 31 \<or> \<not> nr_target \<le> MAX_DEVICES then None
      else Some
        (addEntries nr_target hartCC ''cc'' (\<lambda>i. ''Hart '' @ show_int i @ '' claim/complete'') Access_RW source_width
        (addEntries nr_target hartAddr ''threshold'' (\<lambda>i. ''Hart '' @ show_int i @ ''  priority threshold'')
           Access_RW priority_width
        (addEntries nr_target enableAddr ''ie'' (\<lambda>i. ''Target '' @ show_int i @ '' interrupt enable'')
           Access_RW nr_src_eff
        (addEntry pendingAddr ''ip'' (\<lambda>i. ''pending array'') Access_RO nr_src_eff
        (addEntries nr_src_eff priorityAddr ''prio'' (\<lambda>i. ''source '' @ show_int i @ '' priority'')
           Access_RW priority_width
        (AddrMap ''plic_regs'' 32)))))))"

end
