(* ===== verification/Plic_Facts.thy ===== *)
theory Plic_Facts
  imports Plic_Addrmap
begin

text \<open>
  The entries of the interrupt controller's map, where they lie, and which register each case of the
  decoder is about.
\<close>

section \<open>Numbered cases\<close>

definition numbered :: "(map_entry \<Rightarrow> int \<Rightarrow> string) \<Rightarrow> nat \<Rightarrow> map_entry list \<Rightarrow> string" where
  "numbered item k es = concat (map (\<lambda>(i, e). item e (int i)) (enumerate k es))"

lemma numbered_simps [simp]:
  "numbered item k [] = []"
  "numbered item k (e # es) = item e (int k) @ numbered item (Suc k) es"
  by (simp_all add: numbered_def)

lemma items_filter:
  "foldl (item_step p item) s es = foldl (item_step (\<lambda>e. True) item) s (filter p es)"
  by (induction es arbitrary: s) (auto simp: item_step_def)

lemma run_same:
  "\<forall>e \<in> set es. ae_name e = name \<Longrightarrow>
   foldl (item_step (\<lambda>e. True) item) (out, int k, name) es =
     (out @ numbered item k es, int (k + length es), name)"
proof (induction es arbitrary: out k)
  case Nil
  then show ?case by simp
next
  case (Cons e es)
  then have "ae_name e = name" "\<forall>e \<in> set es. ae_name e = name" by simp_all
  with Cons.IH [of "out @ item e (int k)" "Suc k"] show ?case
    by (simp add: item_step_def Let_def add.commute)
qed

lemma run_group:
  assumes "\<forall>e \<in> set es. ae_name e = name" and "last_name \<noteq> name"
  shows "\<exists>j' last'. foldl (item_step (\<lambda>e. True) item) (out, j, last_name) es =
    (out @ numbered item 0 es, j', last') \<and> last' \<in> {last_name, name}"
proof (cases es)
  case Nil
  then show ?thesis by simp
next
  case (Cons e es')
  then have "foldl (item_step (\<lambda>e. True) item) (out, j, last_name) es =
      foldl (item_step (\<lambda>e. True) item) (out @ item e 0, int 1, name) es'"
    using assms by (simp add: item_step_def Let_def)
  with run_same [of es' name item "out @ item e 0" 1] show ?thesis using Cons assms(1) by simp
qed

text \<open>Groups of entries with different names are numbered one by one.\<close>

lemma run_groups:
  "distinct (map fst gs) \<Longrightarrow> last_name \<notin> set (map fst gs) \<Longrightarrow>
   \<forall>(name, es) \<in> set gs. \<forall>e \<in> set es. ae_name e = name \<Longrightarrow>
   fst (foldl (item_step (\<lambda>e. True) item) (out, j, last_name) (concat (map snd gs))) =
     out @ concat (map (\<lambda>(name, es). numbered item 0 es) gs)"
proof (induction gs arbitrary: out j last_name)
  case Nil
  then show ?case by simp
next
  case (Cons g gs)
  obtain name es where g: "g = (name, es)" by (cases g)
  have "\<forall>e \<in> set es. ae_name e = name" "last_name \<noteq> name" using Cons.prems g by auto
  from run_group [OF this, of item out j] obtain j' last' where
    r: "foldl (item_step (\<lambda>e. True) item) (out, j, last_name) es = (out @ numbered item 0 es, j', last')"
      "last' \<in> {last_name, name}" by blast
  have "last' \<notin> set (map fst gs)" using Cons.prems r(2) g by auto
  with Cons.IH [of last' "out @ numbered item 0 es" j'] Cons.prems show ?case by (simp add: g r(1))
qed

lemma items_groups:
  assumes "distinct (map fst gs)" and "[] \<notin> set (map fst gs)"
    and "\<forall>(name, es) \<in> set gs. \<forall>e \<in> set es. ae_name e = name"
  shows "items (\<lambda>e. True) item (concat (map snd gs)) = concat (map (\<lambda>(name, es). numbered item 0 es) gs)"
  using run_groups [OF assms, of item "[]" 0] by (simp add: items_def)

lemma items_admitted: "items p item es = items (\<lambda>e. True) item (filter p es)"
  by (simp add: items_def items_filter [of p])

lemma numbered_upto: "numbered item 0 (map f [0 .. n - 1]) = concat (map (\<lambda>i. item (f i) i) [0 .. n - 1])"
proof -
  have "numbered item k (map f [int k .. n - 1]) = concat (map (\<lambda>i. item (f i) i) [int k .. n - 1])" for k
  proof (induction "nat (n - int k)" arbitrary: k)
    case 0
    then show ?case by simp
  next
    case (Suc d)
    then have "[int k .. n - 1] = int k # [int (Suc k) .. n - 1]" by (subst upto_rec1) (simp_all add: add.commute)
    with Suc(1) [of "Suc k"] Suc(2) show ?case by simp
  qed
  from this [of 0] show ?thesis by simp
qed

section \<open>The entries\<close>

definition plic_entry :: "(int \<Rightarrow> int) \<Rightarrow> string \<Rightarrow> (int \<Rightarrow> string) \<Rightarrow> access_mode \<Rightarrow> int \<Rightarrow> int \<Rightarrow> map_entry" where
  "plic_entry addr name description access width i =
     \<lparr>ae_addr = addr i, ae_name = name, ae_description = description i, ae_access = access, ae_width = width\<rparr>"

lemma plic_entry_sel [simp]:
  "ae_addr (plic_entry addr name d access width i) = addr i"
  "ae_name (plic_entry addr name d access width i) = name"
  "ae_access (plic_entry addr name d access width i) = access"
  by (simp_all add: plic_entry_def)

lemma entries_narrow:
  "width \<le> am_access_width am \<Longrightarrow>
   am_entries (addEntries num addr name d access width am) =
     am_entries am @ map (plic_entry addr name d access width) [0 .. num - 1]"
proof -
  assume "width \<le> am_access_width am"
  then have "register_entries (am_access_width am) addr name d access width =
      (\<lambda>i. [plic_entry addr name d access width i])"
    by (intro ext) (simp add: register_entries_def plic_entry_def)
  then show ?thesis by (simp add: addEntries_def concat_map_singleton)
qed

lemma access_width_kept [simp]:
  "am_access_width (addEntries num addr name d access width am) = am_access_width am"
  by (simp add: addEntries_def)

definition plic_groups :: "int \<Rightarrow> int \<Rightarrow> int \<Rightarrow> int \<Rightarrow> (string \<times> map_entry list) list" where
  "plic_groups nr_src nr_target prio_w src_w =
     [(''prio'', map (plic_entry priorityAddr ''prio'' (\<lambda>i. ''source '' @ show_int i @ '' priority'')
                   Access_RW prio_w) [0 .. nr_src + 1 - 1]),
      (''ip'', map (plic_entry pendingAddr ''ip'' (\<lambda>i. ''pending array'') Access_RO (nr_src + 1)) [0 .. 1 - 1]),
      (''ie'', map (plic_entry enableAddr ''ie'' (\<lambda>i. ''Target '' @ show_int i @ '' interrupt enable'')
                 Access_RW (nr_src + 1)) [0 .. nr_target - 1]),
      (''threshold'', map (plic_entry hartAddr ''threshold'' (\<lambda>i. ''Hart '' @ show_int i @ ''  priority threshold'')
                        Access_RW prio_w) [0 .. nr_target - 1]),
      (''cc'', map (plic_entry hartCC ''cc'' (\<lambda>i. ''Hart '' @ show_int i @ '' claim/complete'')
                 Access_RW src_w) [0 .. nr_target - 1])]"

lemma plic_map_groups:
  assumes "nr_src \<le> 31" and "nr_target \<le> 1023" and "clog2 (max_prio + 1) \<le> 32" and "clog2 (nr_src + 1) \<le> 32"
  shows "\<exists>am. plic_map clog2 nr_src nr_target max_prio = Some am \<and> am_access_width am = 32 \<and>
    am_entries am = concat (map snd (plic_groups nr_src nr_target (clog2 (max_prio + 1)) (clog2 (nr_src + 1))))"
  using assms by (simp add: plic_map_def Let_def MAX_DEVICES_def addEntry_def entries_narrow AddrMap_def
      plic_groups_def del: upto_rec_numeral)

lemmas plic_addrs = priorityAddr_def pendingAddr_def enableAddr_def enableOffset_def hartAddr_def hartCC_def
  hartOffset_def plic_base_def MAX_DEVICES_def

lemma groups_names:
  "map fst (plic_groups s t p w) = [''prio'', ''ip'', ''ie'', ''threshold'', ''cc'']"
  "\<forall>(name, es) \<in> set (plic_groups s t p w). \<forall>e \<in> set es. ae_name e = name"
  by (auto simp: plic_groups_def)

lemma group_addresses:
  "map ae_addr (concat (map snd (plic_groups s t p w))) =
     map priorityAddr [0 .. s] @ [pendingAddr 0] @ map enableAddr [0 .. t - 1] @ map hartAddr [0 .. t - 1] @
     map hartCC [0 .. t - 1]"
  by (simp add: plic_groups_def comp_def)

lemma hart_apart: "i * 4096 \<noteq> 4 + j * (4096 :: int)"
proof
  assume "i * 4096 = 4 + j * (4096 :: int)"
  then have "4 = (i - j) * 4096" by (simp add: left_diff_distrib)
  then have "4096 dvd (4 :: int)" by (rule dvdI [OF trans]) (rule mult.commute)
  then show False by simp
qed

lemma addresses_distinct:
  assumes "s \<le> 31" and "t \<le> 1023"
  shows "distinct (map ae_addr (concat (map snd (plic_groups s t p w))))"
  unfolding group_addresses
  using assms by (auto simp: distinct_map inj_on_def plic_addrs hart_apart)

lemma addresses_aligned:
  assumes "s \<le> 31" and "t \<le> 1023" and "e \<in> set (concat (map snd (plic_groups s t p w)))"
  shows "4 dvd ae_addr e \<and> plic_base \<le> ae_addr e \<and> ae_addr e < plic_base + 0x4000000"
  using assms by (auto simp: plic_groups_def plic_addrs)

text \<open>The cases of the decoder: the register number is the argument of the address.\<close>

lemma plic_reads:
  "items (\<lambda>e. True) item (concat (map snd (plic_groups s t p w))) =
     concat (map (\<lambda>(name, es). numbered item 0 es) (plic_groups s t p w))"
  by (rule items_groups) (use groups_names in auto)

lemma plic_writes:
  "items (\<lambda>e. ae_access e \<noteq> Access_RO) item (concat (map snd (plic_groups s t p w))) =
     concat (map (\<lambda>(name, es). numbered item 0 es) (filter (\<lambda>g. fst g \<noteq> ''ip'') (plic_groups s t p w)))"
proof -
  let ?gs = "filter (\<lambda>g. fst g \<noteq> ''ip'') (plic_groups s t p w)"
  have "filter (\<lambda>e. ae_access e \<noteq> Access_RO) (concat (map snd (plic_groups s t p w))) = concat (map snd ?gs)"
    by (simp add: plic_groups_def filter_map comp_def)
  moreover have "map fst ?gs = [''prio'', ''ie'', ''threshold'', ''cc'']"
    by (simp add: plic_groups_def)
  moreover have "\<forall>(name, es) \<in> set ?gs. \<forall>e \<in> set es. ae_name e = name"
  proof
    fix g assume "g \<in> set ?gs"
    then have "g \<in> set (plic_groups s t p w)" by (simp only: set_filter mem_Collect_eq)
    then show "case g of (name, es) \<Rightarrow> \<forall>e \<in> set es. ae_name e = name" by (rule bspec [OF groups_names(2)])
  qed
  ultimately show ?thesis using items_groups [of ?gs item] by (subst items_admitted) simp
qed

end
