(* ===== verification/Bootrom.thy ===== *)
theory Bootrom
  imports Trace_Lib "HOL-Library.Word"
begin

text \<open>
  The generator of boot ROM images, \<open>corev_apu/bootrom/gen_rom.py\<close>: the padded image, the words of
  the C header and those of the SystemVerilog module. The texts of the two templates around them are
  left out.
\<close>

section \<open>The program\<close>

type_synonym byte = "8 word"

definition hex_byte :: "byte \<Rightarrow> string" where
  "hex_byte b = [digit_char (unat b div 16), digit_char (unat b mod 16)]"

definition bytes_hex :: "byte list \<Rightarrow> string" where
  "bytes_hex bs = concat (map hex_byte bs)"

text \<open>\<open>xs[a:b]\<close> for indices that are not negative, and \<open>xs[:-2]\<close>.\<close>

definition py_slice :: "nat \<Rightarrow> nat \<Rightarrow> 'a list \<Rightarrow> 'a list" where
  "py_slice a b xs = drop a (take b xs)"

definition drop_last_two :: "'a list \<Rightarrow> 'a list" where
  "drop_last_two xs = take (length xs - 2) xs"

definition read_bin :: "byte list \<Rightarrow> byte list" where
  "read_bin rom = (let align = ((length rom + 7) div 8) * 8 in rom @ replicate (align - length rom) 0)"

definition h_item :: "byte list \<Rightarrow> nat \<Rightarrow> string" where
  "h_item rom i = ''    0x'' @ bytes_hex (rev (py_slice (i * 4) (i * 4 + 4) rom)) @ '','' @ newline"

definition h_content :: "byte list \<Rightarrow> string" where
  "h_content rom = drop_last_two (concat (map (h_item rom) [0 ..< length rom div 4]))"

definition h_size :: "byte list \<Rightarrow> nat" where
  "h_size rom = length rom div 4"

definition sv_item :: "byte list \<Rightarrow> nat \<Rightarrow> string" where
  "sv_item rom i = ''        64'' @ [CHR 0x27] @ ''h'' @ bytes_hex (py_slice (i * 8) (i * 8 + 4) rom) @ ''_'' @
     bytes_hex (py_slice (i * 8 + 4) (i * 8 + 8) rom) @ '','' @ newline"

definition sv_content :: "byte list \<Rightarrow> string" where
  "sv_content rom0 =
     (let rom = rev rom0 in drop_last_two (concat (map (sv_item rom) [0 ..< length rom div 8])))"

definition sv_size :: "byte list \<Rightarrow> nat" where
  "sv_size rom = length (rev rom) div 8"

section \<open>Words in memory\<close>

text \<open>The value of bytes with the least significant one first, and the \<open>i\<close>-th word of \<open>n\<close> bytes.\<close>

definition le_value :: "byte list \<Rightarrow> nat" where
  "le_value bs = foldr (\<lambda>b acc. unat b + 256 * acc) bs 0"

definition word_at :: "nat \<Rightarrow> byte list \<Rightarrow> nat \<Rightarrow> nat" where
  "word_at n rom i = le_value (take n (drop (n * i) rom))"

lemma read_bin_padded:
  "\<exists>k < 8. read_bin rom = rom @ replicate k 0" "8 dvd length (read_bin rom)"
proof -
  have "(length rom + 7) div 8 * 8 - length rom < 8" "length rom \<le> (length rom + 7) div 8 * 8" by presburger+
  then show "\<exists>k < 8. read_bin rom = rom @ replicate k 0" "8 dvd length (read_bin rom)"
    by (auto simp: read_bin_def Let_def)
qed

section \<open>Hexadecimal digits\<close>

lemma hex_digit:
  assumes "d < 16"
  shows "digit_val (digit_char d) = Some d" and "digit_char d \<noteq> CHR ''_''"
    and "\<not> c_isspace (digit_char d)" and "digit_char d \<notin> {CHR ''-'', CHR ''+'', CHR ''x'', CHR ''X''}"
proof -
  have letter_x: "\<not> is_digit (CHR ''x'')" "\<not> is_digit (CHR ''X'')" by code_simp+
  from assms consider "d < 10" | "d = 10" | "d = 11" | "d = 12" | "d = 13" | "d = 14" | "d = 15" by linarith
  then have "digit_val (digit_char d) = Some d \<and> digit_char d \<noteq> CHR ''_'' \<and>
      \<not> c_isspace (digit_char d) \<and> digit_char d \<notin> {CHR ''-'', CHR ''+'', CHR ''x'', CHR ''X''}"
  proof cases
    case 1
    then show ?thesis
      using digit_val_digit_char [OF 1] is_digit_digit_char [OF 1] digit_not_space digit_not_special letter_x
      by auto
  qed (simp_all, code_simp+)
  then show "digit_val (digit_char d) = Some d" "digit_char d \<noteq> CHR ''_''"
    "\<not> c_isspace (digit_char d)" "digit_char d \<notin> {CHR ''-'', CHR ''+'', CHR ''x'', CHR ''X''}" by blast+
qed

lemma byte_digits: "unat (b :: byte) div 16 < 16" "unat b mod 16 < 16" "unat b div 16 * 16 + unat b mod 16 = unat b"
proof -
  have "unat b < 2 ^ LENGTH(8)" by (rule unsigned_less)
  then have "unat b < 256" by simp
  then show "unat b div 16 < 16" by (simp add: div_less_iff_less_mult)
qed simp_all

lemma parse_byte:
  "parse_digits 16 need acc (hex_byte b @ cs) = parse_digits 16 False (acc * 256 + unat b) cs"
proof -
  have "(acc * 16 + unat b div 16) * 16 + unat b mod 16 = acc * 256 + unat b"
    using byte_digits(3) [of b] by (simp add: algebra_simps)
  moreover have "parse_digits 16 need acc (hex_byte b @ cs) =
      parse_digits 16 False ((acc * 16 + unat b div 16) * 16 + unat b mod 16) cs"
    using byte_digits(1,2) [of b] by (simp add: hex_byte_def hex_digit)
  ultimately show ?thesis by (simp only:)
qed

text \<open>Bytes with the most significant one first.\<close>

definition be_value :: "nat \<Rightarrow> byte list \<Rightarrow> nat" where
  "be_value acc bs = foldl (\<lambda>acc b. acc * 256 + unat b) acc bs"

lemma be_value_simps: "be_value acc [] = acc" "be_value acc (b # bs) = be_value (acc * 256 + unat b) bs"
  by (simp_all add: be_value_def)

lemma bytes_hex_simps: "bytes_hex [] = []" "bytes_hex (b # bs) = hex_byte b @ bytes_hex bs"
  by (simp_all add: bytes_hex_def)

lemma parse_bytes:
  "bs \<noteq> [] \<Longrightarrow>
     parse_digits 16 need acc (bytes_hex bs @ cs) = parse_digits 16 False (be_value acc bs) cs"
proof (induction bs arbitrary: need acc)
  case Nil
  then show ?case by simp
next
  case (Cons b bs)
  show ?case
    using Cons.IH by (cases "bs = []") (simp_all only: bytes_hex_simps be_value_simps append_assoc append_Nil parse_byte simp_thms)
qed

lemma be_value_rev: "be_value 0 (rev bs) = le_value bs"
  by (simp add: be_value_def le_value_def foldl_conv_foldr add.commute mult.commute)

lemma be_value_append: "be_value (be_value acc xs) ys = be_value acc (xs @ ys)"
  by (simp add: be_value_def)

section \<open>Reading the generated words\<close>

lemma hex_chars: "c \<in> set (bytes_hex bs) \<Longrightarrow> \<exists>d < 16. c = digit_char d"
  by (auto simp: bytes_hex_def hex_byte_def intro: byte_digits(1,2))

lemma hex_text_parses:
  assumes s: "\<forall>c \<in> set s. \<exists>d < 16. c = digit_char d \<or> c = CHR ''_''" and "2 \<le> length s"
    and "parse_digits 16 True 0 s = Some v"
  shows "py_int16 s = Some (int v)"
proof -
  have plain: "\<not> c_isspace c \<and> c \<notin> {CHR ''-'', CHR ''+'', CHR ''x'', CHR ''X''}" if "c \<in> set s" for c
  proof -
    from s that obtain d where d: "d < 16" "c = digit_char d \<or> c = CHR ''_''" by blast
    have "\<not> c_isspace (CHR ''_'')" by code_simp
    with d(2) hex_digit(3,4) [OF d(1)] show ?thesis by auto
  qed
  have "hd s \<in> set s" using assms(2) by (intro hd_in_set) auto
  moreover have "s ! 1 \<in> set s" using assms(2) by (intro nth_mem) simp
  ultimately have "strip c_isspace s = s" "hd s \<noteq> CHR ''-''" "hd s \<noteq> CHR ''+''" "\<not> (s ! 1 = CHR ''x'' \<or> s ! 1 = CHR ''X'')"
    using plain by (auto intro: strip_id)
  then show ?thesis using assms(3) by (simp add: py_int16_def parse_signed_def parse_hex_def Let_def)
qed

lemma length_bytes_hex: "length (bytes_hex bs) = 2 * length bs"
  by (induction bs) (simp_all add: bytes_hex_def hex_byte_def)

lemma word_hex_parses: "bs \<noteq> [] \<Longrightarrow> py_int16 (bytes_hex (rev bs)) = Some (int (le_value bs))"
proof (rule hex_text_parses)
  assume "bs \<noteq> []"
  then show "2 \<le> length (bytes_hex (rev bs))" by (cases bs) (simp_all add: length_bytes_hex)
  show "parse_digits 16 True 0 (bytes_hex (rev bs)) = Some (le_value bs)"
    using parse_bytes [of "rev bs" True 0 "[]"] \<open>bs \<noteq> []\<close> by (simp add: be_value_rev)
qed (use hex_chars in blast)

lemma split_word_parses:
  assumes "xs \<noteq> []" and "ys \<noteq> []"
  shows "py_int16 (bytes_hex (rev ys) @ ''_'' @ bytes_hex (rev xs)) = Some (int (le_value (xs @ ys)))"
proof (rule hex_text_parses)
  show "2 \<le> length (bytes_hex (rev ys) @ ''_'' @ bytes_hex (rev xs))"
    using assms by (cases xs; cases ys) (simp_all add: length_bytes_hex)
  have "parse_digits 16 True 0 (bytes_hex (rev ys) @ ''_'' @ bytes_hex (rev xs)) =
      parse_digits 16 True (be_value 0 (rev ys)) (bytes_hex (rev xs) @ [])"
    using parse_bytes [of "rev ys" True 0 "''_'' @ bytes_hex (rev xs)"] assms by simp
  also have "\<dots> = Some (be_value (be_value 0 (rev ys)) (rev xs))"
    using parse_bytes [of "rev xs" True _ "[]"] assms by simp
  also have "\<dots> = Some (le_value (xs @ ys))" by (simp add: be_value_append flip: be_value_rev)
  finally show "parse_digits 16 True 0 (bytes_hex (rev ys) @ ''_'' @ bytes_hex (rev xs)) =
    Some (le_value (xs @ ys))" .
qed (use hex_chars in fastforce)

section \<open>The generated lists\<close>

lemma drop_trailing:
  "drop_last_two (concat (map (\<lambda>i. f i @ '','' @ newline) is)) = str_join ('','' @ newline) (map f is)"
proof -
  have "concat (map (\<lambda>i. f i @ '','' @ newline) (i # is)) =
      str_join ('','' @ newline) (map f (i # is)) @ '','' @ newline" for i "is"
    by (induction "is" arbitrary: i) simp_all
  moreover have "drop_last_two (s @ '','' @ newline) = s" for s
    by (simp add: drop_last_two_def newline_def)
  ultimately show ?thesis by (cases "is") (simp_all add: drop_last_two_def)
qed

lemma slice_drop: "py_slice (i * n) (i * n + m) xs = take m (drop (n * i) xs)"
  by (simp add: py_slice_def drop_take mult.commute)

lemma take_drop_rev:
  "a + m \<le> length xs \<Longrightarrow> take m (drop a (rev xs)) = rev (take m (drop (length xs - (a + m)) xs))"
  by (simp add: drop_rev take_rev drop_take)

lemma h_words:
  "\<exists>ws. h_content rom = str_join ('','' @ newline) (map (\<lambda>w. ''    0x'' @ w) ws) \<and> length ws = h_size rom \<and>
     (\<forall>i < length ws. py_int16 (ws ! i) = Some (int (word_at 4 rom i)))"
proof (intro exI conjI allI impI)
  let ?w = "\<lambda>i. bytes_hex (rev (py_slice (i * 4) (i * 4 + 4) rom))"
  let ?ws = "map ?w [0 ..< length rom div 4]"
  have item: "h_item rom = (\<lambda>i. (''    0x'' @ ?w i) @ '','' @ newline)"
    by (simp add: fun_eq_iff h_item_def)
  show "h_content rom = str_join ('','' @ newline) (map (\<lambda>w. ''    0x'' @ w) ?ws)"
    by (simp only: h_content_def item drop_trailing map_map comp_def)
  show "length ?ws = h_size rom" by (simp add: h_size_def)
  fix i assume i: "i < length ?ws"
  then have "4 * i < length rom" by auto
  then have "take 4 (drop (4 * i) rom) \<noteq> []" by simp
  then show "py_int16 (?ws ! i) = Some (int (word_at 4 rom i))"
    using i word_hex_parses by (simp add: slice_drop word_at_def)
qed

lemma sv_words:
  assumes "8 dvd length rom"
  shows "\<exists>ws. sv_content rom = str_join ('','' @ newline) (map (\<lambda>w. ''        64'' @ [CHR 0x27] @ ''h'' @ w) ws) \<and>
     length ws = sv_size rom \<and>
     (\<forall>i < length ws. py_int16 (ws ! (length ws - 1 - i)) = Some (int (word_at 8 rom i)))"
proof (intro exI conjI allI impI)
  let ?w = "\<lambda>i. bytes_hex (py_slice (i * 8) (i * 8 + 4) (rev rom)) @ ''_'' @
    bytes_hex (py_slice (i * 8 + 4) (i * 8 + 8) (rev rom))"
  let ?ws = "map ?w [0 ..< length rom div 8]"
  have item: "sv_item (rev rom) = (\<lambda>i. (''        64'' @ [CHR 0x27] @ ''h'' @ ?w i) @ '','' @ newline)"
    by (simp add: fun_eq_iff sv_item_def)
  show "sv_content rom = str_join ('','' @ newline) (map (\<lambda>w. ''        64'' @ [CHR 0x27] @ ''h'' @ w) ?ws)"
    by (simp only: sv_content_def Let_def item drop_trailing map_map comp_def length_rev)
  show "length ?ws = sv_size rom" by (simp add: sv_size_def)
  fix i assume i: "i < length ?ws"
  obtain n where n: "length rom = 8 * n" using assms by (rule dvdE)
  let ?j = "n - 1 - i"
  have j: "i < n" "8 * ?j + 8 * i + 8 = 8 * n" "?j < n" using i n by simp_all
  let ?xs = "take 4 (drop (8 * i) rom)" and ?ys = "take 4 (drop (8 * i + 4) rom)"
  have idx: "length rom - (8 * ?j + 4) = 8 * i + 4" "length rom - (8 * ?j + 4 + 4) = 8 * i"
    "8 * ?j + 4 + 4 \<le> length rom" using j n by arith+
  have "py_slice (?j * 8) (?j * 8 + 4) (rev rom) = take 4 (drop (8 * ?j) (rev rom))"
    by (rule slice_drop)
  also have "\<dots> = rev ?ys" using take_drop_rev [of "8 * ?j" 4 rom] idx by (simp only: add_leD1)
  finally have "py_slice (?j * 8) (?j * 8 + 4) (rev rom) = rev ?ys" .
  moreover have "py_slice (?j * 8 + 4) (?j * 8 + 8) (rev rom) = take 4 (drop (8 * ?j + 4) (rev rom))"
    by (simp add: py_slice_def drop_take mult.commute)
  then have "py_slice (?j * 8 + 4) (?j * 8 + 8) (rev rom) = rev ?xs"
    using take_drop_rev [OF idx(3)] by (simp only: idx(2))
  moreover have "take 8 (drop (8 * i) rom) = ?xs @ ?ys"
    using take_add [of 4 4 "drop (8 * i) rom"] by (simp add: add.commute)
  moreover have "?xs \<noteq> []" "?ys \<noteq> []" using j n by simp_all
  ultimately have "py_int16 (?w ?j) = Some (int (word_at 8 rom i))"
    using split_word_parses [of ?xs ?ys] by (simp add: word_at_def)
  then show "py_int16 (?ws ! (length ?ws - 1 - i)) = Some (int (word_at 8 rom i))"
    using j n by simp
qed

end
