(* ===== verification/Scripts_Theorems.thy ===== *)
theory Scripts_Theorems
  imports Trace_Facts Trace_Pseudo Plic_Facts Bootrom
begin

text \<open>
  The properties of the scripts around simulation and of the two generators: the comparison of traces,
  the conversion of pseudo instructions, the interrupt controller's address decoder and the boot ROM.
\<close>

section \<open>Comparing traces\<close>

text \<open>
  C5. The comparison of two traces whose updates can be parsed always ends with a verdict. It passes
  exactly when both traces make the same changes to the registers in the same order, or when the second
  trace ends in a change and its changes are a proper beginning of those of the first: what the first
  trace does after that is never looked at. On a pass the reported count is that of the second trace's
  changes, all compared.
\<close>

theorem comparison_exact:
  assumes "read_trace rows1 = Inr t1" and "read_trace rows2 = Inr t2"
    and "updates t1 [] = Inr u1" and "updates t2 [] = Inr u2"
  shows "\<exists>log result. compare_trace_csv csv1 rows1 csv2 rows2 name1 name2 True limit False = Inr (log, result) \<and>
    (take 9 result = ''[PASSED]:'' \<longleftrightarrow>
      (\<exists>r. changes u1 = changes u2 @ r \<and> (r = [] \<or> u2 \<noteq> [] \<and> last u2 \<noteq> None))) \<and>
    (take 9 result = ''[PASSED]:'' \<longrightarrow>
      result = ''[PASSED]: '' @ show_int (int (length (changes u2))) @ '' matched'' @ newline)"
proof -
  let ?cx = "\<lparr>cx_name1 = name1, cx_name2 = name2, cx_limit = limit, cx_len1 = length t1, cx_trace2 = t2\<rparr>"
  have "decided ?cx t1 compare_start u1 u2"
    using comparison_decides [of t1 compare_start u1 ?cx u2] assms(3,4) by (simp add: compare_start_def)
  then obtain st where st: "outcome ?cx t1 compare_start = Inr st"
    "cp_mismatch st = 0 \<longleftrightarrow> accepted u1 u2"
    "accepted u1 u2 \<longrightarrow> cp_matched st = length (changes u2)"
    by (auto simp: decided_def compare_start_def)
  have r: "\<exists>log. compare_trace_csv csv1 rows1 csv2 rows2 name1 name2 True limit False = Inr (log, result_text st)"
    using assms(1,2) st(1) [unfolded outcome_def]
    by (simp add: compare_trace_csv_def compare_traces_def Let_def del: bnd_eq_Inr)
  have "take 9 (result_text st) = ''[PASSED]:'' \<longleftrightarrow> accepted u1 u2"
    "take 9 (result_text st) = ''[PASSED]:'' \<longrightarrow>
      result_text st = ''[PASSED]: '' @ show_int (int (length (changes u2))) @ '' matched'' @ newline"
    using st(2,3) by (auto simp: result_text_def)
  with r show ?thesis unfolding accepted_def by blast
qed

definition sample_row :: "string \<Rightarrow> row" where
  "sample_row gpr = [(''pc'', Some ''80000000''), (''instr'', Some ''addi''), (''gpr'', Some gpr), (''csr'', Some []),
     (''binary'', Some ''00000013''), (''mode'', Some ''3''), (''instr_str'', Some ''addi''), (''operand'', Some [])]"

theorem comparison_exact_witness:
  "\<exists>log. compare_trace_csv ''a.csv'' [sample_row ''a0:00000001'', sample_row ''a1:00000002'']
     ''b.csv'' [sample_row ''a0:00000001''] ''core'' ''iss'' True 5 False =
     Inr (log, ''[PASSED]: 1 matched'' @ newline)"
proof -
  let ?e = "\<lambda>gpr. \<lparr>te_gpr = [gpr], te_csr = [''''], te_instr = Some ''addi'', te_operand = Some [],
    te_pc = Some ''80000000'', te_binary = Some ''00000013'', te_instr_str = Some ''addi'', te_mode = Some ''3''\<rparr>"
  let ?t1 = "[?e ''a0:00000001'', ?e ''a1:00000002'']" and ?t2 = "[?e ''a0:00000001'']"
  have r: "read_trace [sample_row ''a0:00000001'', sample_row ''a1:00000002''] = Inr ?t1"
    "read_trace [sample_row ''a0:00000001''] = Inr ?t2" by code_simp+
  have u: "updates ?t1 [] = Inr [Some [''a0:00000001''], Some [''a1:00000002'']]"
    "updates ?t2 [] = Inr [Some [''a0:00000001'']]" by code_simp+
  have one: "show_int 1 = ''1''" by code_simp
  from comparison_exact [OF r u, of "''a.csv''" "''b.csv''" "''core''" "''iss''" 5] show ?thesis
    by (auto simp: one)
qed

section \<open>Pseudo instructions\<close>

text \<open>
  C11. Converting a pseudo instruction of the base set keeps its meaning, at every register width. Those that
  compute a value write the same value to the same register; branches go to the same target under the same
  condition; jumps and the return (whose entry must have the text of its encoding) go to the same place and save
  the return address in the same register or nowhere; writes to a control register leave the same value in it and change no other register; the
  instruction without effect writes to the zero register. The reading of a control register is the
  exception: it is converted to an access that clears the register.
\<close>

theorem pseudo_conversion_meaning:
  fixes regs csrs :: "'a :: len regs"
  shows "(operands_of ops = [rd, rs] \<and> pseudo_value name (rget regs rs) = Some v \<longrightarrow>
      (\<exists>name' ops'. convert_pseudo_instr name ops bin = Inr (name', ops') \<and>
        alu name' (operands_of ops') regs = Some (rd, v))) \<and>
    (operands_of ops = [rs, target] \<and> pseudo_test name (rget regs rs) = Some b \<longrightarrow>
      (\<exists>name' ops'. convert_pseudo_instr name ops bin = Inr (name', ops') \<and>
        branch name' (operands_of ops') regs = Some (target, b))) \<and>
    (operands_of ops = [r1, r2, target] \<and> pseudo_compare name (rget regs r1) (rget regs r2) = Some b \<longrightarrow>
      (\<exists>name' ops'. convert_pseudo_instr name ops bin = Inr (name', ops') \<and>
        branch name' (operands_of ops') regs = Some (target, b))) \<and>
    ((name \<noteq> ''ret'' \<longrightarrow> operands_of ops = [x]) \<and> (name = ''ret'' \<longrightarrow> bin \<noteq> []) \<and> pseudo_jump name x regs = Some j \<longrightarrow>
      (\<exists>name' ops'. convert_pseudo_instr name ops bin = Inr (name', ops') \<and>
        jump name' (operands_of ops') regs = Some j)) \<and>
    (operands_of ops = [c, src] \<and> pseudo_csr name regs csrs c src = Some v \<longrightarrow>
      (\<exists>name' ops'. convert_pseudo_instr name ops bin = Inr (name', ops') \<and>
        csr_access name' (operands_of ops') regs csrs = Some ((''zero'', csrs c), (c, v)))) \<and>
    (\<exists>name' ops'. convert_pseudo_instr ''nop'' ops bin = Inr (name', ops') \<and>
        alu name' (operands_of ops') regs = Some (''zero'', 0)) \<and>
    (operands_of ops = [rd, c] \<longrightarrow>
      (\<exists>name' ops'. convert_pseudo_instr ''csrr'' ops bin = Inr (name', ops') \<and>
        csr_access name' (operands_of ops') regs csrs = Some ((rd, csrs c), (c, 0))))"
  using convert_value [of ops rd rs name regs v bin] convert_test [of ops rs target name regs b bin]
    convert_compare [of ops r1 r2 target name regs b bin] convert_jump [of name ops x bin regs j]
    convert_csr_write [of ops c src name regs csrs v bin] convert_nop [of ops bin regs] convert_csrr [of ops rd c bin regs csrs]
  by blast

theorem pseudo_conversion_meaning_witness:
  "\<exists>name' ops'. convert_pseudo_instr ''neg'' ''a0,a1'' ''40b00533'' = Inr (name', ops') \<and>
     alu name' (operands_of ops') (\<lambda>r. 5 :: 32 word) = Some (''a0'', - 5)"
proof -
  have ops: "operands_of ''a0,a1'' = [''a0'', ''a1'']" by code_simp
  have v: "pseudo_value ''neg'' (rget (\<lambda>r. 5 :: 32 word) ''a1'') = Some (- 5)"
    by (simp add: pseudo_value_def rget_def)
  from pseudo_conversion_meaning [of "''a0,a1''" "''a0''" "''a1''" "''neg''" "\<lambda>r. 5 :: 32 word"] ops v
  show ?thesis by blast
qed

section \<open>The interrupt controller\<close>

text \<open>
  C12. For every number of sources and targets the generator admits, with priorities and identifiers of
  at most a word, it succeeds; the registers lie word-aligned in the controller's 64 MiB, no two at the
  same address; and the cases of the emitted decoder drive, for reads, the register at each address with
  the number of its source or target, and for writes the same without the pending array, which is
  read-only.
\<close>

theorem plic_decoder_correct:
  assumes "nr_src \<le> 31" and "nr_target \<le> 1023"
    and "clog2 (max_prio + 1) \<le> 32" and "clog2 (nr_src + 1) \<le> 32"
  shows "\<exists>am. plic_map clog2 nr_src nr_target max_prio = Some am \<and>
    distinct (map ae_addr (am_entries am)) \<and>
    (\<forall>e \<in> set (am_entries am). 4 dvd ae_addr e \<and> plic_base \<le> ae_addr e \<and> ae_addr e < plic_base + 0x4000000) \<and>
    (let prio = clog2 (max_prio + 1); src = clog2 (nr_src + 1); gs = plic_groups nr_src nr_target prio src in
     am_entries am = concat (map snd gs) \<and>
     read_items am = concat (map (\<lambda>(name, es). numbered (read_item 32) 0 es) gs) \<and>
     write_items am = concat (map (\<lambda>(name, es). numbered (write_item 32) 0 es)
       (filter (\<lambda>g. fst g \<noteq> ''ip'') gs)))"
proof -
  let ?gs = "plic_groups nr_src nr_target (clog2 (max_prio + 1)) (clog2 (nr_src + 1))"
  from plic_map_groups [of nr_src nr_target clog2 max_prio] assms obtain am where
    am: "plic_map clog2 nr_src nr_target max_prio = Some am" "am_access_width am = 32"
      "am_entries am = concat (map snd ?gs)" by blast
  have "read_items am = concat (map (\<lambda>(name, es). numbered (read_item 32) 0 es) ?gs)"
    unfolding read_items_def am(2,3) by (rule plic_reads)
  moreover have "write_items am = concat (map (\<lambda>(name, es). numbered (write_item 32) 0 es)
      (filter (\<lambda>g. fst g \<noteq> ''ip'') ?gs))"
    unfolding write_items_def am(2,3) by (rule plic_writes)
  moreover have "distinct (map ae_addr (am_entries am))"
    unfolding am(3) by (rule addresses_distinct [OF assms(1,2)])
  moreover have "\<forall>e \<in> set (am_entries am). 4 dvd ae_addr e \<and> plic_base \<le> ae_addr e \<and> ae_addr e < plic_base + 0x4000000"
    using addresses_aligned [OF assms(1,2)] unfolding am(3) by blast
  ultimately show ?thesis using am(1,3) unfolding Let_def by blast
qed

theorem plic_decoder_correct_witness:
  "\<exists>am. plic_map (\<lambda>x. int (nat_bits (nat (x - 1)))) 30 2 7 = Some am \<and> distinct (map ae_addr (am_entries am))"
proof -
  have "int (nat_bits (nat (7 + 1 - 1))) \<le> 32" "int (nat_bits (nat (30 + 1 - 1))) \<le> 32" by code_simp+
  with plic_decoder_correct [of 30 2 "\<lambda>x. int (nat_bits (nat (x - 1)))" 7] show ?thesis by auto
qed

section \<open>The boot ROM\<close>

text \<open>
  C20. The image is the file with fewer than eight zero bytes behind it, up to a multiple of eight. The
  C header lists its 32-bit words in order, and the SystemVerilog module its 64-bit words from the last
  to the first, the order in which a packed array literal puts word \<open>i\<close> at index \<open>i\<close>; each number, read as
  hexadecimal, is the little-endian value of its bytes.
\<close>

theorem rom_words_correct:
  "let rom = read_bin file in
     (\<exists>k < 8. rom = file @ replicate k 0) \<and> 8 dvd length rom \<and>
     (\<exists>ws. h_content rom = str_join ('','' @ newline) (map (\<lambda>w. ''    0x'' @ w) ws) \<and>
        length ws = h_size rom \<and> (\<forall>i < length ws. py_int16 (ws ! i) = Some (int (word_at 4 rom i)))) \<and>
     (\<exists>ws. sv_content rom = str_join ('','' @ newline) (map (\<lambda>w. ''        64'' @ [CHR 0x27] @ ''h'' @ w) ws) \<and>
        length ws = sv_size rom \<and>
        (\<forall>i < length ws. py_int16 (ws ! (length ws - 1 - i)) = Some (int (word_at 8 rom i))))"
  unfolding Let_def
  by (intro conjI read_bin_padded(1) read_bin_padded(2) h_words sv_words [OF read_bin_padded(2)])

theorem rom_words_correct_witness:
  "length (read_bin [1, 2, 3]) = 8"
proof -
  from rom_words_correct [of "[1, 2, 3]"] obtain k where
    "k < 8" "read_bin [1, 2, 3] = [1, 2, 3] @ replicate k 0" "8 dvd length (read_bin [1, 2, 3])"
    by (auto simp: Let_def)
  then show ?thesis by (auto simp: dvd_def) presburger
qed

end
