(* ===== verification/Csr_Test.thy ===== *)
theory Csr_Test
  imports Pygen_Random Trace_Lib
begin

text \<open>
  The generator of self-checking tests of control registers, \<open>verif/sim/dv/scripts/gen_csr_test.py\<close>. Bit
  arrays come from the library \<open>bitstring\<close>, which is not part of the repository: its operations are the
  fields of \<open>bit_ops\<close>, a parameter of every definition, on an arbitrary type of bit arrays. What the library
  documents about them is \<open>lawful\<close>, in the theory \<open>Csr_Bits\<close>. The Python text that legalises
  a value is run by the parameter \<open>legal\<close>.
\<close>

section \<open>Bit arrays\<close>

text \<open>
  \<open>bitarray(uint=v, length=n)\<close>, \<open>bitarray(uintbe=v, length=n)\<close>, \<open>bitarray(hex=s)\<close>, \<open>a * n\<close>, \<open>a & b\<close>, \<open>a | b\<close>,
  \<open>~a\<close>, \<open>a[i:j]\<close>, \<open>a[-n:]\<close>, \<open>a.overwrite(b, pos)\<close>, \<open>a.append(b)\<close>, \<open>a.set(bit, pos)\<close>, \<open>a.uint\<close>, \<open>a.len\<close>,
  \<open>a.hex\<close> and \<open>a.bin\<close>. The methods that change their object return the changed one.
\<close>

record 'b bit_ops =
  of_uint :: "int \<Rightarrow> int \<Rightarrow> 'b pg"
  of_uintbe :: "int \<Rightarrow> int \<Rightarrow> 'b pg"
  of_hex :: "string \<Rightarrow> 'b pg"
  ba_times :: "'b \<Rightarrow> int \<Rightarrow> 'b pg"
  ba_and :: "'b \<Rightarrow> 'b \<Rightarrow> 'b pg"
  ba_or :: "'b \<Rightarrow> 'b \<Rightarrow> 'b pg"
  ba_not :: "'b \<Rightarrow> 'b pg"
  ba_slice :: "'b \<Rightarrow> int \<Rightarrow> int \<Rightarrow> 'b pg"
  ba_last :: "'b \<Rightarrow> int \<Rightarrow> 'b pg"
  ba_overwrite :: "'b \<Rightarrow> 'b \<Rightarrow> int \<Rightarrow> 'b pg"
  ba_append :: "'b \<Rightarrow> 'b \<Rightarrow> 'b pg"
  ba_set :: "'b \<Rightarrow> int \<Rightarrow> int \<Rightarrow> 'b pg"
  ba_uint :: "'b \<Rightarrow> int pg"
  ba_len :: "'b \<Rightarrow> int"
  ba_hex :: "'b \<Rightarrow> string pg"
  ba_bin :: "'b \<Rightarrow> string"

section \<open>Fields\<close>

datatype 'b write_field =
    SimpleWriteCSRField 'b "int \<times> int" bool
  | LegalizeWriteCSRField 'b "int \<times> int" bool string

fun field_write ::
  "'b bit_ops \<Rightarrow> (string \<Rightarrow> int \<Rightarrow> int \<Rightarrow> int) \<Rightarrow> 'b write_field \<Rightarrow> 'b \<Rightarrow> 'b \<Rightarrow> 'b pg" where
  "field_write ops legal (SimpleWriteCSRField mask_bitarray pos read_only) new_field_val csr_val =
     (if \<not> read_only
      then bnd (ba_slice ops new_field_val (fst pos) (snd pos + 1)) (\<lambda>val_slice.
           bnd (ba_and ops mask_bitarray val_slice) (\<lambda>masked.
           ba_overwrite ops csr_val masked (fst pos)))
      else Inr csr_val)"
| "field_write ops legal (LegalizeWriteCSRField mask_bitarray pos read_only legalize_py) new_field_val csr_val =
     (if \<not> read_only
      then bnd (ba_slice ops new_field_val (fst pos) (snd pos + 1)) (\<lambda>val_new_slice.
           bnd (ba_slice ops csr_val (fst pos) (snd pos + 1)) (\<lambda>val_orig_slice.
           bnd (ba_uint ops val_new_slice) (\<lambda>val_in.
           bnd (ba_uint ops val_orig_slice) (\<lambda>val_orig.
           bnd (of_uint ops (legal legalize_py val_in val_orig) (snd pos - fst pos + 1)) (\<lambda>val_slice.
           bnd (ba_and ops mask_bitarray val_slice) (\<lambda>masked.
           ba_overwrite ops csr_val masked (fst pos)))))))
      else Inr csr_val)"

section \<open>The descriptions\<close>

record field_desc =
  fd_type :: string
  fd_reset_val :: int
  fd_msb :: int
  fd_lsb :: int
  fd_warl_legalize :: "string option"

record csr_desc =
  cd_csr :: string
  cd_address :: int
  cd_rv :: "(string \<times> field_desc list) list"

record 'b csr_entry =
  ce_address :: int
  ce_value :: 'b
  ce_write_fields :: "'b write_field list"
  ce_read_mask :: 'b

definition add_csr_field ::
  "'b bit_ops \<Rightarrow> int \<Rightarrow> 'b \<times> 'b write_field list \<times> 'b \<Rightarrow> field_desc \<Rightarrow> ('b \<times> 'b write_field list \<times> 'b) pg" where
  "add_csr_field ops xlen = (\<lambda>(csr_value, csr_write_fields, csr_read_mask) d.
     let field_size = fd_msb d - fd_lsb d + 1 in
     if fd_type d \<noteq> ''WPRI''
     then bnd (of_uint ops (fd_reset_val d) field_size) (\<lambda>val_bitarray.
          bnd (of_uint ops 1 1) (\<lambda>one.
          bnd (ba_times ops one field_size) (\<lambda>mask_bitarray.
          let start_pos = xlen - 1 - fd_msb d; end_pos = xlen - 1 - fd_lsb d; read_only = (fd_type d = ''R'') in
          bnd (ba_overwrite ops csr_read_mask mask_bitarray (xlen - 1 - fd_msb d)) (\<lambda>csr_read_mask.
          bnd (ba_overwrite ops csr_value val_bitarray (xlen - 1 - fd_msb d)) (\<lambda>csr_value.
          Inr (csr_value,
            csr_write_fields @
              [case fd_warl_legalize d of
                 Some py \<Rightarrow>
                   if fd_type d = ''WARL'' then LegalizeWriteCSRField mask_bitarray (start_pos, end_pos) read_only py
                   else SimpleWriteCSRField mask_bitarray (start_pos, end_pos) read_only
               | None \<Rightarrow> SimpleWriteCSRField mask_bitarray (start_pos, end_pos) read_only],
            csr_read_mask))))))
     else Inr (csr_value, csr_write_fields, csr_read_mask))"

text \<open>The message of the assertion mentions an undefined variable.\<close>

definition add_csr ::
  "'b bit_ops \<Rightarrow> int \<Rightarrow> (string \<times> 'b csr_entry) list \<Rightarrow> csr_desc \<Rightarrow> (string \<times> 'b csr_entry) list pg" where
  "add_csr ops xlen csrs d =
     (case map_of (cd_rv d) (''rv'' @ show_int xlen) of
        None \<Rightarrow> Inl (PyNameError ''rv'')
      | Some csr_field_list \<Rightarrow>
          bnd (of_uintbe ops 0 xlen) (\<lambda>csr_value.
          bnd (of_uintbe ops 0 xlen) (\<lambda>csr_read_mask.
          bnd (foldR (add_csr_field ops xlen) (csr_value, [], csr_read_mask) csr_field_list)
            (\<lambda>(csr_value, csr_write_fields, csr_read_mask).
          Inr (AList.update (cd_csr d)
            \<lparr>ce_address = cd_address d, ce_value = csr_value, ce_write_fields = csr_write_fields,
             ce_read_mask = csr_read_mask\<rparr> csrs)))))"

definition get_csr_map :: "'b bit_ops \<Rightarrow> csr_desc list \<Rightarrow> int \<Rightarrow> (string \<times> 'b csr_entry) list pg" where
  "get_csr_map ops csr_description xlen = foldR (add_csr ops xlen) [] csr_description"

section \<open>Values to write\<close>

definition repeat_text :: "string \<Rightarrow> int \<Rightarrow> string" where
  "repeat_text s n = concat (replicate (nat n) s)"

definition set_random_bit :: "'b bit_ops \<Rightarrow> 'b \<times> tape \<Rightarrow> nat \<Rightarrow> ('b \<times> tape) pg" where
  "set_random_bit ops = (\<lambda>(v, t) i.
     bnd (randint 0 1 t) (\<lambda>(b, t). bnd (ba_set ops v b (int i)) (\<lambda>v. Inr (v, t))))"

text \<open>Behind the three iterations the function returns \<open>None\<close>, which every use of it rejects.\<close>

definition get_rs1_val :: "'b bit_ops \<Rightarrow> nat \<Rightarrow> int \<Rightarrow> tape \<Rightarrow> ('b \<times> tape) pg" where
  "get_rs1_val ops iteration xlen t =
     (if iteration = 0 then bnd (of_hex ops (''0x'' @ repeat_text ''a5'' (xlen div 8))) (\<lambda>v. Inr (v, t))
      else if iteration = 1 then bnd (of_hex ops (''0x'' @ repeat_text ''5a'' (xlen div 8))) (\<lambda>v. Inr (v, t))
      else if iteration = 2 then
        bnd (of_uint ops 0 xlen) (\<lambda>v. foldR (set_random_bit ops) (v, t) [0 ..< 32])
      else Inl PyTypeError)"

section \<open>Prediction\<close>

definition csr_write ::
  "'b bit_ops \<Rightarrow> (string \<Rightarrow> int \<Rightarrow> int \<Rightarrow> int) \<Rightarrow> 'b \<Rightarrow> 'b \<Rightarrow> 'b write_field list \<Rightarrow> 'b pg" where
  "csr_write ops legal val = foldR (\<lambda>csr_val write_field. field_write ops legal write_field val csr_val)"

definition csr_read :: "'b bit_ops \<Rightarrow> 'b \<Rightarrow> 'b \<Rightarrow> 'b pg" where
  "csr_read ops csr_val csr_read_mask = ba_and ops csr_val csr_read_mask"

text \<open>The predicted text, and the value of the register behind the operation.\<close>

definition predict_csr_val ::
  "'b bit_ops \<Rightarrow> (string \<Rightarrow> int \<Rightarrow> int \<Rightarrow> int) \<Rightarrow> string \<Rightarrow> 'b \<Rightarrow> 'b \<Rightarrow> 'b write_field list \<Rightarrow> 'b \<Rightarrow>
     (string \<times> 'b) pg" where
  "predict_csr_val ops legal csr_op rs1_val csr_val csr_write_fields csr_read_mask =
     bnd (of_uint ops 0 (ba_len ops csr_val - 5)) (\<lambda>zero.
     bnd (csr_read ops csr_val csr_read_mask) (\<lambda>prediction.
     bnd (if csr_op = ''csrrw'' then csr_write ops legal rs1_val csr_val csr_write_fields
          else if csr_op = ''csrrs'' then
            bnd (ba_or ops rs1_val prediction) (\<lambda>v. csr_write ops legal v csr_val csr_write_fields)
          else if csr_op = ''csrrc'' then
            bnd (ba_not ops rs1_val) (\<lambda>n. bnd (ba_and ops n prediction) (\<lambda>v.
            csr_write ops legal v csr_val csr_write_fields))
          else if csr_op = ''csrrwi'' then
            bnd (ba_last ops rs1_val 5) (\<lambda>l. bnd (ba_append ops zero l) (\<lambda>zero.
            csr_write ops legal zero csr_val csr_write_fields))
          else if csr_op = ''csrrsi'' then
            bnd (ba_last ops rs1_val 5) (\<lambda>l. bnd (ba_append ops zero l) (\<lambda>zero.
            bnd (ba_or ops zero prediction) (\<lambda>v. csr_write ops legal v csr_val csr_write_fields)))
          else if csr_op = ''csrrci'' then
            bnd (ba_last ops rs1_val 5) (\<lambda>l. bnd (ba_append ops zero l) (\<lambda>zero.
            bnd (ba_not ops zero) (\<lambda>n. bnd (ba_and ops n prediction) (\<lambda>v.
            csr_write ops legal v csr_val csr_write_fields))))
          else Inr csr_val) (\<lambda>csr_val.
     bnd (ba_hex ops prediction) (\<lambda>h. Inr (''0x'' @ h, csr_val)))))"

section \<open>The test\<close>

text \<open>A file is the list of the strings that are written to it.\<close>

definition tab :: string where
  "tab = [CHR 0x09]"

definition gen_setup :: "string list" where
  "gen_setup = map (\<lambda>l. l @ newline)
     [''.macro init'', ''.endm'', ''.section .text.init'', ''.globl _start'', ''.option norvc'', ''.org 0x80'',
      ''_start:'']"

definition TEST_RESULT :: int where "TEST_RESULT = 1"
definition TEST_PASS :: int where "TEST_PASS = 0"
definition TEST_FAIL :: int where "TEST_FAIL = 1"

definition gen_csr_test_fail :: "string \<Rightarrow> string list" where
  "gen_csr_test_fail end_addr = map (\<lambda>l. l @ newline)
     [''csr_fail:'', tab @ ''li x1, '' @ show_int TEST_FAIL, tab @ ''slli x1, x1, 8'',
      tab @ ''addi x1, x1, '' @ show_int TEST_RESULT, tab @ ''li x2, 0x'' @ end_addr, tab @ ''sw x1, 0(x2)'',
      tab @ ''j csr_fail'']"

definition gen_csr_test_pass :: "string \<Rightarrow> string list" where
  "gen_csr_test_pass end_addr = map (\<lambda>l. l @ newline)
     [''csr_pass:'', tab @ ''li x1, '' @ show_int TEST_PASS, tab @ ''slli x1, x1, 8'',
      tab @ ''addi x1, x1, '' @ show_int TEST_RESULT, tab @ ''li x2, 0x'' @ end_addr, tab @ ''sw x1, 0(x2)'',
      tab @ ''j csr_pass'']"

text \<open>\<open>random.sample(range(1, 16), 2)\<close>: a drawn element makes room for the last one of the pool.\<close>

fun sample :: "nat \<Rightarrow> 'a list \<Rightarrow> tape \<Rightarrow> ('a list \<times> tape) pg" where
  "sample 0 pool t = Inr ([], t)"
| "sample (Suc k) pool t =
     (if pool = [] then Inl PyValueError
      else bnd (randint 0 (int (length pool) - 1) t) (\<lambda>(j, t).
           bnd (sample k (butlast (pool[nat j := last pool])) t) (\<lambda>(xs, t).
           Inr (pool ! nat j # xs, t))))"

text \<open>One value written with one instruction: the lines, and the value of the register behind it.\<close>

definition gen_access ::
  "'b bit_ops \<Rightarrow> (string \<Rightarrow> int \<Rightarrow> int \<Rightarrow> int) \<Rightarrow> int \<Rightarrow> string \<Rightarrow> string \<Rightarrow> 'b csr_entry \<Rightarrow> string \<Rightarrow> nat \<Rightarrow>
     string list \<times> 'b \<times> tape \<Rightarrow> (string list \<times> 'b \<times> tape) pg" where
  "gen_access ops legal xlen source_reg dest_reg e op i = (\<lambda>(out, csr_val, t).
     bnd (get_rs1_val ops i xlen t) (\<lambda>(rand_rs1_val, t).
     bnd (if op \<noteq> [] then Inr (last op) else Inl PyIndexError) (\<lambda>c.
     bnd (if c = CHR ''i''
          then bnd (ba_last ops rand_rs1_val 5) (\<lambda>imm.
               bnd (of_uint ops 0 (xlen - 5)) (\<lambda>z.
               bnd (ba_append ops z imm) (\<lambda>imm_val.
               bnd (predict_csr_val ops legal op imm_val csr_val (ce_write_fields e) (ce_read_mask e))
                 (\<lambda>(prediction, csr_val).
               Inr ([], tab @ op @ '' '' @ dest_reg @ '', '' @ show_int (ce_address e) @ '', 0b'' @ ba_bin ops imm @ newline,
                 prediction, csr_val)))))
          else bnd (ba_hex ops rand_rs1_val) (\<lambda>h.
               bnd (predict_csr_val ops legal op rand_rs1_val csr_val (ce_write_fields e) (ce_read_mask e))
                 (\<lambda>(prediction, csr_val).
               Inr (tab @ ''li '' @ source_reg @ '', 0x'' @ h @ newline,
                 tab @ op @ '' '' @ dest_reg @ '', '' @ show_int (ce_address e) @ '', '' @ source_reg @ newline,
                 prediction, csr_val))))
       (\<lambda>(first_li, csr_inst, prediction, csr_val).
     Inr (out @ [first_li, csr_inst, tab @ ''li '' @ source_reg @ '', '' @ prediction @ newline,
            tab @ ''bne '' @ source_reg @ '', '' @ dest_reg @ '', csr_fail'' @ newline], csr_val, t)))))"

text \<open>The last value of the last register is checked by a read.\<close>

definition gen_final ::
  "'b bit_ops \<Rightarrow> (string \<Rightarrow> int \<Rightarrow> int \<Rightarrow> int) \<Rightarrow> int \<Rightarrow> string \<Rightarrow> string \<Rightarrow> 'b csr_entry \<Rightarrow>
     string list \<times> 'b \<times> tape \<Rightarrow> (string list \<times> 'b \<times> tape) pg" where
  "gen_final ops legal xlen source_reg dest_reg e = (\<lambda>(out, csr_val, t).
     bnd (of_uint ops 0 xlen) (\<lambda>csrrs_read_mask.
     bnd (predict_csr_val ops legal ''csrrs'' csrrs_read_mask csr_val (ce_write_fields e) (ce_read_mask e))
       (\<lambda>(prediction, csr_val).
     Inr (out @ [tab @ ''csrr '' @ dest_reg @ '', '' @ show_int (ce_address e) @ newline,
            tab @ ''li '' @ source_reg @ '', '' @ prediction @ newline,
            tab @ ''bne '' @ source_reg @ '', '' @ dest_reg @ '', csr_fail'' @ newline], csr_val, t))))"

definition gen_csr ::
  "'b bit_ops \<Rightarrow> (string \<Rightarrow> int \<Rightarrow> int \<Rightarrow> int) \<Rightarrow> string list \<Rightarrow> int \<Rightarrow> string \<Rightarrow> string \<Rightarrow> string \<Rightarrow>
     string list \<times> tape \<Rightarrow> string \<times> 'b csr_entry \<Rightarrow> (string list \<times> tape) pg" where
  "gen_csr ops legal csr_instructions xlen source_reg dest_reg last_csr = (\<lambda>(out, t) (csr, e).
     bnd (foldR (\<lambda>s (op, i).
            bnd (gen_access ops legal xlen source_reg dest_reg e op i s) (\<lambda>s.
            if csr = last_csr \<and> op = last csr_instructions \<and> i = 2
            then gen_final ops legal xlen source_reg dest_reg e s else Inr s))
          (out @ [tab @ ''# '' @ csr @ newline], ce_value e, t)
          (List.product csr_instructions [0, 1, 2])) (\<lambda>(out, csr_val, t).
     Inr (out, t)))"

definition gen_test_file ::
  "'b bit_ops \<Rightarrow> (string \<Rightarrow> int \<Rightarrow> int \<Rightarrow> int) \<Rightarrow> (string \<times> 'b csr_entry) list \<Rightarrow> string list \<Rightarrow> int \<Rightarrow> string \<Rightarrow>
     tape \<Rightarrow> (string list \<times> tape) pg" where
  "gen_test_file ops legal csr_map csr_instructions xlen end_signature_addr t =
     bnd (sample 2 [1 ..< 16] t) (\<lambda>(regs, t).
     let source_reg = CHR ''x'' # show_nat (regs ! 0); dest_reg = CHR ''x'' # show_nat (regs ! 1) in
     bnd (foldR (gen_csr ops legal csr_instructions xlen source_reg dest_reg (fst (last csr_map)))
            (gen_setup, t) csr_map) (\<lambda>(out, t).
     Inr (out @ gen_csr_test_pass end_signature_addr @ gen_csr_test_fail end_signature_addr, t)))"

definition gen_csr_test_files ::
  "'b bit_ops \<Rightarrow> (string \<Rightarrow> int \<Rightarrow> int \<Rightarrow> int) \<Rightarrow> (string \<times> 'b csr_entry) list \<Rightarrow> string list \<Rightarrow> int \<Rightarrow> nat \<Rightarrow>
     string \<Rightarrow> string \<Rightarrow> tape \<Rightarrow> ((string \<times> string list) list \<times> tape) pg" where
  "gen_csr_test_files ops legal csr_map csr_instructions xlen iterations out_dir end_signature_addr t =
     foldR (\<lambda>(files, t) i.
         bnd (gen_test_file ops legal csr_map csr_instructions xlen end_signature_addr t) (\<lambda>(lines, t).
         Inr (files @ [(out_dir @ ''/riscv_csr_test_'' @ show_nat i @ ''.S'', lines)], t)))
       ([], t) [0 ..< iterations]"

definition csr_ops :: "string list" where
  "csr_ops = [''csrrw'', ''csrrs'', ''csrrc'', ''csrrwi'', ''csrrsi'', ''csrrci'']"

definition csr_test_main ::
  "'b bit_ops \<Rightarrow> (string \<Rightarrow> int \<Rightarrow> int \<Rightarrow> int) \<Rightarrow> csr_desc list \<Rightarrow> int \<Rightarrow> nat \<Rightarrow> string \<Rightarrow> string \<Rightarrow> tape \<Rightarrow>
     ((string \<times> string list) list \<times> tape) pg" where
  "csr_test_main ops legal csr_description xlen iterations out_dir end_signature_addr t =
     bnd (get_csr_map ops csr_description xlen) (\<lambda>csr_map.
     gen_csr_test_files ops legal csr_map csr_ops xlen iterations out_dir end_signature_addr t)"

end
