(* ===== verification/Csr_Bits.thy ===== *)
theory Csr_Bits
  imports Csr_Test
begin

text \<open>
  What the library of bit arrays documents, over a representation of its arrays as lists of bits with the
  most significant one first, and what the operations of the generator do to the number an array stands for.
\<close>

unbundle bit_operations_syntax

section \<open>Numbers and bits\<close>

definition bits_of :: "nat \<Rightarrow> int \<Rightarrow> bool list" where
  "bits_of n v = rev (map (bit v) [0 ..< n])"

definition bits_val :: "bool list \<Rightarrow> int" where
  "bits_val bs = horner_sum of_bool 2 (rev bs)"

lemma length_bits_of [simp]: "length (bits_of n v) = n"
  by (simp add: bits_of_def)

lemma bit_bits_val: "bit (bits_val bs) k \<longleftrightarrow> k < length bs \<and> bs ! (length bs - 1 - k)"
  by (auto simp: bits_val_def bit_horner_sum_bit_iff rev_nth)

lemma bits_val_of: "bits_val (bits_of n v) = take_bit n v"
  by (simp add: bits_val_def bits_of_def horner_sum_bit_eq_take_bit)

lemma bits_val_nonneg: "0 \<le> bits_val bs"
  by (simp add: bits_val_def horner_sum_nonnegative)

lemma bits_val_less: "bits_val bs < 2 ^ length bs"
  using horner_sum_of_bool_2_less [of "rev bs"] by (simp add: bits_val_def)

lemma bits_val_fits: "0 \<le> v \<Longrightarrow> v < 2 ^ n \<Longrightarrow> bits_val (bits_of n v) = v"
  by (simp add: bits_val_of take_bit_int_eq_self)

text \<open>Digits with leading zeros.\<close>

definition hex_pad :: "nat \<Rightarrow> int \<Rightarrow> string" where
  "hex_pad n v = map (\<lambda>k. digit_char (nat (take_bit 4 (drop_bit (4 * k) v)))) (rev [0 ..< n])"

definition bin_pad :: "nat \<Rightarrow> int \<Rightarrow> string" where
  "bin_pad n v = map (\<lambda>b. if b then CHR ''1'' else CHR ''0'') (bits_of n v)"

section \<open>The laws of the library\<close>

definition yields :: "('b \<Rightarrow> bool list) \<Rightarrow> 'b pg \<Rightarrow> bool list \<Rightarrow> bool" where
  "yields rep m bs \<longleftrightarrow> (\<exists>b. m = Inr b \<and> rep b = bs)"

definition lawful :: "'b bit_ops \<Rightarrow> ('b \<Rightarrow> bool list) \<Rightarrow> bool" where
  "lawful ops rep \<longleftrightarrow>
     (\<forall>v n. 0 < n \<and> 0 \<le> v \<and> v < 2 ^ n \<longrightarrow> yields rep (of_uint ops v (int n)) (bits_of n v)) \<and>
     (\<forall>v n. 0 < n \<and> 8 dvd n \<and> 0 \<le> v \<and> v < 2 ^ n \<longrightarrow> yields rep (of_uintbe ops v (int n)) (bits_of n v)) \<and>
     (\<forall>s. s \<noteq> [] \<and> (\<forall>c \<in> set s. \<exists>d < 16. c = digit_char d) \<longrightarrow>
       yields rep (of_hex ops (''0x'' @ s)) (concat (map (\<lambda>c. bits_of 4 (int (the (digit_val c)))) s))) \<and>
     (\<forall>b n. 0 < n \<longrightarrow> yields rep (ba_times ops b (int n)) (concat (replicate n (rep b)))) \<and>
     (\<forall>a b. rep a \<noteq> [] \<and> length (rep a) = length (rep b) \<longrightarrow>
       yields rep (ba_and ops a b) (map2 (\<and>) (rep a) (rep b)) \<and> yields rep (ba_or ops a b) (map2 (\<or>) (rep a) (rep b))) \<and>
     (\<forall>a. rep a \<noteq> [] \<longrightarrow> yields rep (ba_not ops a) (map Not (rep a)) \<and> ba_uint ops a = Inr (bits_val (rep a))) \<and>
     (\<forall>a i j. i \<le> j \<and> j \<le> length (rep a) \<longrightarrow>
       yields rep (ba_slice ops a (int i) (int j)) (take (j - i) (drop i (rep a)))) \<and>
     (\<forall>a n. 0 < n \<and> n \<le> length (rep a) \<longrightarrow> yields rep (ba_last ops a (int n)) (drop (length (rep a) - n) (rep a))) \<and>
     (\<forall>a b p. rep b \<noteq> [] \<and> p + length (rep b) \<le> length (rep a) \<longrightarrow>
       yields rep (ba_overwrite ops a b (int p)) (take p (rep a) @ rep b @ drop (p + length (rep b)) (rep a))) \<and>
     (\<forall>a b. yields rep (ba_append ops a b) (rep a @ rep b)) \<and>
     (\<forall>a v p. (v = 0 \<or> v = 1) \<and> p < length (rep a) \<longrightarrow> yields rep (ba_set ops a v (int p)) ((rep a)[p := v = 1])) \<and>
     (\<forall>a. ba_len ops a = int (length (rep a))) \<and>
     (\<forall>a. rep a \<noteq> [] \<and> 4 dvd length (rep a) \<longrightarrow>
       ba_hex ops a = Inr (hex_pad (length (rep a) div 4) (bits_val (rep a)))) \<and>
     (\<forall>a. ba_bin ops a = map (\<lambda>b. if b then CHR ''1'' else CHR ''0'') (rep a))"

lemmas lawful_of_uint = lawful_def [THEN iffD1, THEN conjunct1, rule_format]
lemmas lawful_of_uintbe = lawful_def [THEN iffD1, THEN conjunct2, THEN conjunct1, rule_format]
lemmas lawful_of_hex = lawful_def [THEN iffD1, THEN conjunct2, THEN conjunct2, THEN conjunct1, rule_format]
lemmas lawful_times = lawful_def [THEN iffD1, THEN conjunct2, THEN conjunct2, THEN conjunct2, THEN conjunct1, rule_format]
lemmas lawful_logic = lawful_def [THEN iffD1, THEN conjunct2, THEN conjunct2, THEN conjunct2, THEN conjunct2, THEN conjunct1, rule_format]
lemmas lawful_unary = lawful_def [THEN iffD1, THEN conjunct2, THEN conjunct2, THEN conjunct2, THEN conjunct2, THEN conjunct2, THEN conjunct1, rule_format]
lemmas lawful_slice = lawful_def [THEN iffD1, THEN conjunct2, THEN conjunct2, THEN conjunct2, THEN conjunct2, THEN conjunct2, THEN conjunct2, THEN conjunct1, rule_format]
lemmas lawful_last = lawful_def [THEN iffD1, THEN conjunct2, THEN conjunct2, THEN conjunct2, THEN conjunct2, THEN conjunct2, THEN conjunct2, THEN conjunct2, THEN conjunct1, rule_format]
lemmas lawful_overwrite = lawful_def [THEN iffD1, THEN conjunct2, THEN conjunct2, THEN conjunct2, THEN conjunct2, THEN conjunct2, THEN conjunct2, THEN conjunct2, THEN conjunct2, THEN conjunct1, rule_format]
lemmas lawful_append = lawful_def [THEN iffD1, THEN conjunct2, THEN conjunct2, THEN conjunct2, THEN conjunct2, THEN conjunct2, THEN conjunct2, THEN conjunct2, THEN conjunct2, THEN conjunct2, THEN conjunct1, rule_format]
lemmas lawful_set = lawful_def [THEN iffD1, THEN conjunct2, THEN conjunct2, THEN conjunct2, THEN conjunct2, THEN conjunct2, THEN conjunct2, THEN conjunct2, THEN conjunct2, THEN conjunct2, THEN conjunct2, THEN conjunct1, rule_format]
lemmas lawful_len = lawful_def [THEN iffD1, THEN conjunct2, THEN conjunct2, THEN conjunct2, THEN conjunct2, THEN conjunct2, THEN conjunct2, THEN conjunct2, THEN conjunct2, THEN conjunct2, THEN conjunct2, THEN conjunct2, THEN conjunct1, rule_format]
lemmas lawful_hex = lawful_def [THEN iffD1, THEN conjunct2, THEN conjunct2, THEN conjunct2, THEN conjunct2, THEN conjunct2, THEN conjunct2, THEN conjunct2, THEN conjunct2, THEN conjunct2, THEN conjunct2, THEN conjunct2, THEN conjunct2, THEN conjunct1, rule_format]
lemmas lawful_bin = lawful_def [THEN iffD1, THEN conjunct2, THEN conjunct2, THEN conjunct2, THEN conjunct2, THEN conjunct2, THEN conjunct2, THEN conjunct2, THEN conjunct2, THEN conjunct2, THEN conjunct2, THEN conjunct2, THEN conjunct2, THEN conjunct2, rule_format]

lemma law_of_uint:
  "lawful ops rep \<Longrightarrow> 0 < n \<Longrightarrow> 0 \<le> v \<Longrightarrow> v < 2 ^ n \<Longrightarrow> yields rep (of_uint ops v (int n)) (bits_of n v)"
  using lawful_of_uint [of ops rep] by blast

lemma law_of_uintbe:
  "lawful ops rep \<Longrightarrow> 0 < n \<Longrightarrow> 8 dvd n \<Longrightarrow> 0 \<le> v \<Longrightarrow> v < 2 ^ n \<Longrightarrow> yields rep (of_uintbe ops v (int n)) (bits_of n v)"
  using lawful_of_uintbe [of ops rep] by blast

lemma law_of_hex:
  "lawful ops rep \<Longrightarrow> s \<noteq> [] \<Longrightarrow> \<forall>c \<in> set s. \<exists>d < 16. c = digit_char d \<Longrightarrow>
     yields rep (of_hex ops (''0x'' @ s)) (concat (map (\<lambda>c. bits_of 4 (int (the (digit_val c)))) s))"
  using lawful_of_hex [of ops rep] by blast

lemma law_times: "lawful ops rep \<Longrightarrow> 0 < n \<Longrightarrow> yields rep (ba_times ops b (int n)) (concat (replicate n (rep b)))"
  using lawful_times [of ops rep] by blast

lemma law_and:
  "lawful ops rep \<Longrightarrow> rep a \<noteq> [] \<Longrightarrow> length (rep a) = length (rep b) \<Longrightarrow>
     yields rep (ba_and ops a b) (map2 (\<and>) (rep a) (rep b))"
  using lawful_logic [of ops rep] by blast

lemma law_or:
  "lawful ops rep \<Longrightarrow> rep a \<noteq> [] \<Longrightarrow> length (rep a) = length (rep b) \<Longrightarrow>
     yields rep (ba_or ops a b) (map2 (\<or>) (rep a) (rep b))"
  using lawful_logic [of ops rep] by blast

lemma law_not: "lawful ops rep \<Longrightarrow> rep a \<noteq> [] \<Longrightarrow> yields rep (ba_not ops a) (map Not (rep a))"
  using lawful_unary [of ops rep] by blast

lemma law_uint: "lawful ops rep \<Longrightarrow> rep a \<noteq> [] \<Longrightarrow> ba_uint ops a = Inr (bits_val (rep a))"
  using lawful_unary [of ops rep] by blast

lemma law_slice:
  "lawful ops rep \<Longrightarrow> i \<le> j \<Longrightarrow> j \<le> length (rep a) \<Longrightarrow>
     yields rep (ba_slice ops a (int i) (int j)) (take (j - i) (drop i (rep a)))"
  using lawful_slice [of ops rep] by blast

lemma law_last:
  "lawful ops rep \<Longrightarrow> 0 < n \<Longrightarrow> n \<le> length (rep a) \<Longrightarrow>
     yields rep (ba_last ops a (int n)) (drop (length (rep a) - n) (rep a))"
  using lawful_last [of ops rep] by blast

lemma law_overwrite:
  "lawful ops rep \<Longrightarrow> rep b \<noteq> [] \<Longrightarrow> p + length (rep b) \<le> length (rep a) \<Longrightarrow>
     yields rep (ba_overwrite ops a b (int p)) (take p (rep a) @ rep b @ drop (p + length (rep b)) (rep a))"
  using lawful_overwrite [of ops rep] by blast

lemma law_append: "lawful ops rep \<Longrightarrow> yields rep (ba_append ops a b) (rep a @ rep b)"
  using lawful_append [of ops rep] by blast

lemma law_set:
  "lawful ops rep \<Longrightarrow> v = 0 \<or> v = 1 \<Longrightarrow> p < length (rep a) \<Longrightarrow> yields rep (ba_set ops a v (int p)) ((rep a)[p := v = 1])"
  using lawful_set [of ops rep] by blast

lemma law_len: "lawful ops rep \<Longrightarrow> ba_len ops a = int (length (rep a))"
  using lawful_len [of ops rep] by blast

lemma law_hex:
  "lawful ops rep \<Longrightarrow> rep a \<noteq> [] \<Longrightarrow> 4 dvd length (rep a) \<Longrightarrow>
     ba_hex ops a = Inr (hex_pad (length (rep a) div 4) (bits_val (rep a)))"
  using lawful_hex [of ops rep] by blast

lemma law_bin: "lawful ops rep \<Longrightarrow> ba_bin ops a = map (\<lambda>b. if b then CHR ''1'' else CHR ''0'') (rep a)"
  using lawful_bin [of ops rep] by blast

section \<open>Lists of bits as a model of the library\<close>

definition hex_bits :: "string \<Rightarrow> bool list" where
  "hex_bits s = concat (map (\<lambda>c. bits_of 4 (int (the (digit_val c)))) s)"

definition list_bits :: "bool list bit_ops" where
  "list_bits =
     \<lparr>of_uint = (\<lambda>v n. Inr (bits_of (nat n) v)), of_uintbe = (\<lambda>v n. Inr (bits_of (nat n) v)),
      of_hex = (\<lambda>s. Inr (hex_bits (drop 2 s))),
      ba_times = (\<lambda>a n. Inr (concat (replicate (nat n) a))), ba_and = (\<lambda>a b. Inr (map2 (\<and>) a b)),
      ba_or = (\<lambda>a b. Inr (map2 (\<or>) a b)), ba_not = (\<lambda>a. Inr (map Not a)),
      ba_slice = (\<lambda>a i j. Inr (take (nat j - nat i) (drop (nat i) a))),
      ba_last = (\<lambda>a n. Inr (drop (length a - nat n) a)),
      ba_overwrite = (\<lambda>a b p. Inr (take (nat p) a @ b @ drop (nat p + length b) a)),
      ba_append = (\<lambda>a b. Inr (a @ b)), ba_set = (\<lambda>a v p. Inr (a[nat p := v = 1])),
      ba_uint = (\<lambda>a. Inr (bits_val a)), ba_len = (\<lambda>a. int (length a)),
      ba_hex = (\<lambda>a. Inr (hex_pad (length a div 4) (bits_val a))),
      ba_bin = map (\<lambda>b. if b then CHR ''1'' else CHR ''0'')\<rparr>"

lemma list_bits_lawful: "lawful list_bits (\<lambda>b. b)"
  by (simp add: lawful_def list_bits_def yields_def hex_bits_def)

section \<open>What the operations do to the number\<close>

text \<open>\<open>holds\<close>: an array of \<open>n\<close> bits with a number.\<close>

definition holds :: "('b \<Rightarrow> bool list) \<Rightarrow> nat \<Rightarrow> 'b \<Rightarrow> int \<Rightarrow> bool" where
  "holds rep n b v \<longleftrightarrow> length (rep b) = n \<and> bits_val (rep b) = v"

lemma bits_val_inj: "length xs = length ys \<Longrightarrow> bits_val xs = bits_val ys \<Longrightarrow> xs = ys"
proof (rule nth_equalityI)
  fix i assume l: "length xs = length ys" and v: "bits_val xs = bits_val ys" and i: "i < length xs"
  have "bit (bits_val xs) (length xs - 1 - i) = bit (bits_val ys) (length xs - 1 - i)" by (simp only: v)
  moreover have "length xs - 1 - (length xs - 1 - i) = i" "length xs - 1 - i < length xs" using i by simp_all
  ultimately show "xs ! i = ys ! i" using l unfolding bit_bits_val by simp
qed simp

lemma holds_of_uint:
  assumes "lawful ops rep" and "0 < n" and "0 \<le> v" and "v < 2 ^ n"
  shows "\<exists>b. of_uint ops v (int n) = Inr b \<and> holds rep n b v"
  using law_of_uint [OF assms] bits_val_fits [OF assms(3,4)] by (auto simp: yields_def holds_def)

lemma holds_of_uintbe:
  assumes "lawful ops rep" and "0 < n" and "8 dvd n" and "0 \<le> v" and "v < 2 ^ n"
  shows "\<exists>b. of_uintbe ops v (int n) = Inr b \<and> holds rep n b v"
  using law_of_uintbe [OF assms] bits_val_fits [OF assms(4,5)] by (auto simp: yields_def holds_def)

lemma holds_range: "holds rep n b v \<Longrightarrow> 0 \<le> v \<and> v < 2 ^ n"
  using bits_val_nonneg bits_val_less by (auto simp: holds_def)

lemma holds_bit: "holds rep n b v \<Longrightarrow> bit v k \<longleftrightarrow> k < n \<and> rep b ! (n - 1 - k)"
  by (auto simp: holds_def bit_bits_val)

lemma holds_nonempty: "holds rep n b v \<Longrightarrow> 0 < n \<Longrightarrow> rep b \<noteq> []"
  by (auto simp: holds_def)

lemma holds_and:
  assumes "lawful ops rep" and "holds rep n a v" and "holds rep n b w" and "0 < n"
  shows "\<exists>c. ba_and ops a b = Inr c \<and> holds rep n c (v AND w)"
proof -
  have l: "length (rep a) = n" "length (rep b) = n" using assms(2,3) by (simp_all add: holds_def)
  obtain c where c: "ba_and ops a b = Inr c" "rep c = map2 (\<and>) (rep a) (rep b)"
    using law_and [OF assms(1), of a b] l assms(4) by (auto simp: yields_def)
  have "bits_val (rep c) = v AND w"
    by (rule bit_eqI) (use l c(2) assms(2,3) in \<open>auto simp: bit_bits_val bit_and_iff holds_bit\<close>)
  with c l show ?thesis by (simp add: holds_def)
qed

lemma holds_or:
  assumes "lawful ops rep" and "holds rep n a v" and "holds rep n b w" and "0 < n"
  shows "\<exists>c. ba_or ops a b = Inr c \<and> holds rep n c (v OR w)"
proof -
  have l: "length (rep a) = n" "length (rep b) = n" using assms(2,3) by (simp_all add: holds_def)
  obtain c where c: "ba_or ops a b = Inr c" "rep c = map2 (\<or>) (rep a) (rep b)"
    using law_or [OF assms(1), of a b] l assms(4) by (auto simp: yields_def)
  have "bits_val (rep c) = v OR w"
    by (rule bit_eqI) (use l c(2) assms(2,3) in \<open>auto simp: bit_bits_val bit_or_iff holds_bit\<close>)
  with c l show ?thesis by (simp add: holds_def)
qed

lemma holds_not:
  assumes "lawful ops rep" and "holds rep n a v" and "0 < n"
  shows "\<exists>c. ba_not ops a = Inr c \<and> holds rep n c (take_bit n (NOT v))"
proof -
  have l: "length (rep a) = n" using assms(2) by (simp add: holds_def)
  obtain c where c: "ba_not ops a = Inr c" "rep c = map Not (rep a)"
    using law_not [OF assms(1), of a] l assms(3) by (auto simp: yields_def)
  have "bits_val (rep c) = take_bit n (NOT v)"
    by (rule bit_eqI) (use l c(2) assms(2) in \<open>auto simp: bit_bits_val bit_not_iff bit_take_bit_iff holds_bit\<close>)
  with c l show ?thesis by (simp add: holds_def)
qed

text \<open>The last bits, with zeros in front.\<close>

lemma holds_last:
  assumes "lawful ops rep" and "holds rep n a v" and "0 < k" and "k \<le> n"
  shows "\<exists>c. ba_last ops a (int k) = Inr c \<and> holds rep k c (take_bit k v)"
proof -
  have l: "length (rep a) = n" using assms(2) by (simp add: holds_def)
  obtain c where c: "ba_last ops a (int k) = Inr c" "rep c = drop (n - k) (rep a)"
    using law_last [OF assms(1,3), of a] l assms(4) by (auto simp: yields_def)
  have "bits_val (rep c) = take_bit k v"
    by (rule bit_eqI) (use l c(2) assms(2,4) in \<open>auto simp: bit_bits_val bit_take_bit_iff holds_bit\<close>)
  with c l assms(4) show ?thesis by (simp add: holds_def)
qed

lemma holds_append_zero:
  assumes "lawful ops rep" and "holds rep m z 0" and "holds rep k a v"
  shows "\<exists>c. ba_append ops z a = Inr c \<and> holds rep (m + k) c v"
proof -
  have l: "length (rep z) = m" "length (rep a) = k" using assms(2,3) by (simp_all add: holds_def)
  obtain c where c: "ba_append ops z a = Inr c" "rep c = rep z @ rep a"
    using law_append [OF assms(1), of z a] by (auto simp: yields_def)
  have z: "\<not> rep z ! i" if "i < m" for i
    using holds_bit [OF assms(2), of "m - 1 - i"] that by simp
  have "bits_val (rep c) = v"
  proof (rule bit_eqI)
    fix j
    show "bit (bits_val (rep c)) j \<longleftrightarrow> bit v j"
      using l c(2) holds_bit [OF assms(3), of j] z by (auto simp: bit_bits_val nth_append)
  qed
  with c l show ?thesis by (simp add: holds_def)
qed

end
