(* ===== verification/Csr_Spec.thy ===== *)
theory Csr_Spec
  imports Csr_Bits
begin

text \<open>
  What a described control register is, without bit arrays: a register keeps one number for each of
  its fields, a read puts them together, a write gives each field its part of the written value. The bit
  array of the generator implements this register.
\<close>

section \<open>A register as its fields\<close>

definition active :: "field_desc list \<Rightarrow> field_desc list" where
  "active ds = filter (\<lambda>d. fd_type d \<noteq> ''WPRI'') ds"

definition fsize :: "field_desc \<Rightarrow> nat" where
  "fsize d = nat (fd_msb d - fd_lsb d + 1)"

definition flsb :: "field_desc \<Rightarrow> nat" where
  "flsb d = nat (fd_lsb d)"

definition in_field :: "field_desc \<Rightarrow> nat \<Rightarrow> bool" where
  "in_field d k \<longleftrightarrow> flsb d \<le> k \<and> k < flsb d + fsize d"

definition field_of :: "field_desc \<Rightarrow> int \<Rightarrow> int" where
  "field_of d v = take_bit (fsize d) (drop_bit (flsb d) v)"

definition field_next :: "(string \<Rightarrow> int \<Rightarrow> int \<Rightarrow> int) \<Rightarrow> field_desc \<Rightarrow> int \<Rightarrow> int \<Rightarrow> int" where
  "field_next legal d w old =
     (if fd_type d = ''R'' then old
      else case fd_warl_legalize d of
        Some py \<Rightarrow> if fd_type d = ''WARL'' then legal py (field_of d w) old else field_of d w
      | None \<Rightarrow> field_of d w)"

definition reg_reset :: "field_desc list \<Rightarrow> int list" where
  "reg_reset ds = map fd_reset_val ds"

definition reg_read :: "field_desc list \<Rightarrow> int list \<Rightarrow> int" where
  "reg_read ds vs = foldr (\<lambda>(d, v) acc. push_bit (flsb d) v OR acc) (zip ds vs) 0"

definition reg_write :: "(string \<Rightarrow> int \<Rightarrow> int \<Rightarrow> int) \<Rightarrow> field_desc list \<Rightarrow> int \<Rightarrow> int list \<Rightarrow> int list" where
  "reg_write legal ds w vs = map2 (\<lambda>d v. field_next legal d w v) ds vs"

text \<open>Descriptions that make sense for registers of \<open>n\<close> bits.\<close>

definition field_ok :: "nat \<Rightarrow> field_desc \<Rightarrow> bool" where
  "field_ok n d \<longleftrightarrow> 0 \<le> fd_lsb d \<and> fd_lsb d \<le> fd_msb d \<and> fd_msb d < int n \<and>
     0 \<le> fd_reset_val d \<and> fd_reset_val d < 2 ^ fsize d"

definition apart :: "field_desc \<Rightarrow> field_desc \<Rightarrow> bool" where
  "apart d e \<longleftrightarrow> fd_msb d < fd_lsb e \<or> fd_msb e < fd_lsb d"

fun all_apart :: "field_desc list \<Rightarrow> bool" where
  "all_apart [] = True"
| "all_apart (d # ds) = ((\<forall>e \<in> set ds. apart d e) \<and> all_apart ds)"

definition legal_fits :: "(string \<Rightarrow> int \<Rightarrow> int \<Rightarrow> int) \<Rightarrow> field_desc \<Rightarrow> bool" where
  "legal_fits legal d \<longleftrightarrow>
     (\<forall>py a b. fd_warl_legalize d = Some py \<and> 0 \<le> a \<and> a < 2 ^ fsize d \<and> 0 \<le> b \<and> b < 2 ^ fsize d \<longrightarrow>
        0 \<le> legal py a b \<and> legal py a b < 2 ^ fsize d)"

lemma field_ok_nat:
  assumes "field_ok n d"
  shows "fd_lsb d = int (flsb d)" and "fd_msb d = int (flsb d + fsize d) - 1" and "flsb d + fsize d \<le> n"
    and "0 < fsize d"
  using assms by (auto simp: field_ok_def flsb_def fsize_def)

lemma bit_field_of: "bit (field_of d v) k \<longleftrightarrow> k < fsize d \<and> bit v (flsb d + k)"
  by (simp add: field_of_def bit_take_bit_iff bit_drop_bit_eq)

lemma field_of_range: "0 \<le> field_of d v \<and> field_of d v < 2 ^ fsize d"
  by (simp add: field_of_def)

lemma apart_bits: "apart d e \<Longrightarrow> field_ok n d \<Longrightarrow> field_ok n e \<Longrightarrow> in_field d k \<Longrightarrow> \<not> in_field e k"
  using field_ok_nat [of n d] field_ok_nat [of n e] by (auto simp: apart_def in_field_def)

lemma field_of_eqI: "(\<And>k. in_field d k \<Longrightarrow> bit v k = bit w k) \<Longrightarrow> field_of d v = field_of d w"
  by (rule bit_eqI) (auto simp: bit_field_of in_field_def)

section \<open>Fields of a bit array\<close>

lemma holds_slice:
  assumes "lawful ops rep" and "holds rep n a v" and "field_ok n d"
  shows "\<exists>c. ba_slice ops a (int n - 1 - fd_msb d) (int n - 1 - fd_lsb d + 1) = Inr c \<and> holds rep (fsize d) c (field_of d v)"
proof -
  note f = field_ok_nat [OF assms(3)]
  let ?i = "n - (flsb d + fsize d)" and ?j = "n - flsb d"
  have l: "length (rep a) = n" using assms(2) by (simp add: holds_def)
  have ij: "int n - 1 - fd_msb d = int ?i" "int n - 1 - fd_lsb d + 1 = int ?j" "?j - ?i = fsize d"
    using f by (simp_all add: of_nat_diff)
  obtain c where c: "ba_slice ops a (int ?i) (int ?j) = Inr c" "rep c = take (fsize d) (drop ?i (rep a))"
    using law_slice [OF assms(1), of ?i ?j a] f(3) unfolding yields_def l ij(3) by force
  have lc: "length (rep c) = fsize d" using c(2) l f by simp
  have "bits_val (rep c) = field_of d v"
  proof (rule bit_eqI)
    fix k
    have "rep c ! (fsize d - 1 - k) = rep a ! (n - 1 - (flsb d + k))" if "k < fsize d"
    proof -
      have "?i + (fsize d - 1 - k) = n - 1 - (flsb d + k)" using that f(3) by simp
      then show ?thesis using that c(2) l f by simp
    qed
    then show "bit (bits_val (rep c)) k \<longleftrightarrow> bit (field_of d v) k"
      using lc f holds_bit [OF assms(2), of "flsb d + k"] by (auto simp: bit_bits_val bit_field_of)
  qed
  with c(1) lc show ?thesis unfolding ij by (simp add: holds_def)
qed

definition put_field :: "field_desc \<Rightarrow> int \<Rightarrow> int \<Rightarrow> int" where
  "put_field d x v = (v AND NOT (push_bit (flsb d) (mask (fsize d)))) OR push_bit (flsb d) x"

lemma bit_above: "0 \<le> x \<Longrightarrow> x < 2 ^ n \<Longrightarrow> n \<le> k \<Longrightarrow> \<not> bit x k" for x :: int
  using take_bit_int_eq_self [of x n] bit_take_bit_iff [of n x k] by simp

lemma bit_put_field:
  assumes "0 \<le> x" and "x < 2 ^ fsize d"
  shows "bit (put_field d x v) k \<longleftrightarrow> (if in_field d k then bit x (k - flsb d) else bit v k)"
  using bit_above [OF assms, of "k - flsb d"] by (cases "flsb d \<le> k")
    (auto simp: put_field_def in_field_def bit_or_iff bit_and_iff bit_not_iff bit_push_bit_iff bit_mask_iff le_diff_conv2)

lemma holds_overwrite:
  assumes "lawful ops rep" and "holds rep n a v" and "holds rep (fsize d) b x" and "field_ok n d"
  shows "\<exists>c. ba_overwrite ops a b (int n - 1 - fd_msb d) = Inr c \<and> holds rep n c (put_field d x v)"
proof -
  note f = field_ok_nat [OF assms(4)]
  let ?p = "n - (flsb d + fsize d)"
  have l: "length (rep a) = n" "length (rep b) = fsize d" using assms(2,3) by (simp_all add: holds_def)
  have p: "int n - 1 - fd_msb d = int ?p" using f by (simp add: of_nat_diff)
  obtain c where c: "ba_overwrite ops a b (int ?p) = Inr c"
    "rep c = take ?p (rep a) @ rep b @ drop (?p + fsize d) (rep a)"
    using law_overwrite [OF assms(1), of b ?p a] holds_nonempty [OF assms(3) f(4)] f(3) unfolding yields_def l by force
  have lc: "length (rep c) = n" using c(2) l f by simp
  have "bits_val (rep c) = put_field d x v"
  proof (rule bit_eqI)
    fix k
    have "rep c ! (n - 1 - k) = (if in_field d k then rep b ! (fsize d - 1 - (k - flsb d)) else rep a ! (n - 1 - k))"
      if "k < n"
    proof -
      consider "k < flsb d" | "flsb d \<le> k" "k < flsb d + fsize d" | "flsb d + fsize d \<le> k" by linarith
      then show ?thesis
      proof cases
        case 1
        have e: "?p + (fsize d + (n - 1 - k - ?p - fsize d)) = n - 1 - k" using 1 that f(3) by simp
        have "\<not> n - 1 - k < ?p" "\<not> n - 1 - k - ?p < fsize d" using 1 that f by auto
        then show ?thesis using 1 l f that e unfolding c(2)
          by (simp add: nth_append in_field_def add.assoc)
      next
        case 2
        then have "\<not> n - 1 - k < ?p" "n - 1 - k - ?p = fsize d - 1 - (k - flsb d)" "fsize d - 1 - (k - flsb d) < fsize d"
          using that f by auto
        then show ?thesis using 2 l f that unfolding c(2) by (simp add: nth_append in_field_def)
      next
        case 3
        then have "n - 1 - k < ?p" using that f by auto
        then show ?thesis using 3 l f unfolding c(2) by (simp add: nth_append in_field_def)
      qed
    qed
    moreover have "bit x (k - flsb d) \<longleftrightarrow> rep b ! (fsize d - 1 - (k - flsb d))" if "in_field d k"
      using holds_bit [OF assms(3), of "k - flsb d"] that by (auto simp: in_field_def)
    moreover have "bit v k \<longleftrightarrow> k < n \<and> rep a ! (n - 1 - k)" by (rule holds_bit [OF assms(2)])
    moreover have "in_field d k \<Longrightarrow> k < n" using f by (simp add: in_field_def)
    ultimately show "bit (bits_val (rep c)) k \<longleftrightarrow> bit (put_field d x v) k"
      using lc holds_range [OF assms(3)] by (auto simp: bit_bits_val bit_put_field)
  qed
  with c(1) lc show ?thesis unfolding p by (simp add: holds_def)
qed

lemma holds_mask:
  assumes "lawful ops rep" and "0 < n"
  shows "\<exists>one c. of_uint ops 1 1 = Inr one \<and> ba_times ops one (int n) = Inr c \<and> holds rep n c (mask n)"
proof -
  obtain one where o: "of_uint ops 1 1 = Inr one" "rep one = bits_of 1 1"
    using law_of_uint [OF assms(1), of 1 1] by (auto simp: yields_def)
  obtain c where c: "ba_times ops one (int n) = Inr c" "rep c = concat (replicate n (rep one))"
    using law_times [OF assms] by (auto simp: yields_def)
  have "rep one = [True]" using o(2) by (simp add: bits_of_def)
  then have r: "rep c = replicate n True" using c(2) by (induction n arbitrary: c) simp_all
  have "bits_val (rep c) = mask n"
    by (rule bit_eqI) (use r in \<open>auto simp: bit_bits_val bit_mask_iff\<close>)
  moreover have "length (rep c) = n" using r by simp
  ultimately show ?thesis using o(1) c(1) unfolding holds_def by blast
qed

section \<open>Writing\<close>

definition stands :: "('b \<Rightarrow> bool list) \<Rightarrow> nat \<Rightarrow> 'b write_field \<Rightarrow> field_desc \<Rightarrow> bool" where
  "stands rep n f d \<longleftrightarrow> (\<exists>m. holds rep (fsize d) m (mask (fsize d)) \<and>
     (let pos = (int n - 1 - fd_msb d, int n - 1 - fd_lsb d); read_only = (fd_type d = ''R'') in
      f = (case fd_warl_legalize d of
             Some py \<Rightarrow> if fd_type d = ''WARL'' then LegalizeWriteCSRField m pos read_only py
                         else SimpleWriteCSRField m pos read_only
           | None \<Rightarrow> SimpleWriteCSRField m pos read_only)))"

lemma mask_and_fits: "0 \<le> x \<Longrightarrow> x < 2 ^ n \<Longrightarrow> mask n AND x = (x :: int)"
  by (simp add: and.commute [of "mask n"] take_bit_eq_mask [symmetric] take_bit_int_eq_self)

lemma simple_write:
  assumes "lawful ops rep" and "holds rep n new w" and "holds rep n cur v" and "field_ok n d"
    and "holds rep (fsize d) m (mask (fsize d))"
  shows "\<exists>c. field_write ops legal (SimpleWriteCSRField m (int n - 1 - fd_msb d, int n - 1 - fd_lsb d) ro) new cur = Inr c \<and>
    holds rep n c (if ro then v else put_field d (field_of d w) v)"
proof (cases ro)
  case True
  then show ?thesis using assms(3) by simp
next
  case False
  note f = field_ok_nat [OF assms(4)]
  obtain s where s: "ba_slice ops new (int n - 1 - fd_msb d) (int n - 1 - fd_lsb d + 1) = Inr s"
    "holds rep (fsize d) s (field_of d w)" using holds_slice [OF assms(1,2,4)] by blast
  obtain a where a: "ba_and ops m s = Inr a" "holds rep (fsize d) a (field_of d w)"
    using holds_and [OF assms(1,5) s(2) f(4)] mask_and_fits [of "field_of d w" "fsize d"] field_of_range [of d w] by auto
  obtain c where "ba_overwrite ops cur a (int n - 1 - fd_msb d) = Inr c" "holds rep n c (put_field d (field_of d w) v)"
    using holds_overwrite [OF assms(1,3) a(2) assms(4)] by blast
  with False s(1) a(1) show ?thesis by simp
qed

lemma legal_write:
  assumes "lawful ops rep" and "holds rep n new w" and "holds rep n cur v" and "field_ok n d"
    and "holds rep (fsize d) m (mask (fsize d))" and "legal_fits legal d" and "fd_warl_legalize d = Some py"
  shows "\<exists>c. field_write ops legal (LegalizeWriteCSRField m (int n - 1 - fd_msb d, int n - 1 - fd_lsb d) ro py) new cur =
      Inr c \<and> holds rep n c (if ro then v else put_field d (legal py (field_of d w) (field_of d v)) v)"
proof (cases ro)
  case True
  then show ?thesis using assms(3) by simp
next
  case False
  note f = field_ok_nat [OF assms(4)]
  let ?x = "legal py (field_of d w) (field_of d v)"
  have x: "0 \<le> ?x" "?x < 2 ^ fsize d"
    using assms(6,7) field_of_range [of d w] field_of_range [of d v] by (simp_all add: legal_fits_def)
  obtain s t where s: "ba_slice ops new (int n - 1 - fd_msb d) (int n - 1 - fd_lsb d + 1) = Inr s"
    "holds rep (fsize d) s (field_of d w)"
    and t: "ba_slice ops cur (int n - 1 - fd_msb d) (int n - 1 - fd_lsb d + 1) = Inr t"
    "holds rep (fsize d) t (field_of d v)"
    using holds_slice [OF assms(1,2,4)] holds_slice [OF assms(1,3,4)] by blast
  have u: "ba_uint ops s = Inr (field_of d w)" "ba_uint ops t = Inr (field_of d v)"
    using law_uint [OF assms(1) holds_nonempty [OF s(2) f(4)]] law_uint [OF assms(1) holds_nonempty [OF t(2) f(4)]] s(2) t(2)
    by (simp_all add: holds_def)
  have sz: "int n - 1 - fd_lsb d - (int n - 1 - fd_msb d) + 1 = int (fsize d)" using f by simp
  obtain y where y: "of_uint ops ?x (int (fsize d)) = Inr y" "holds rep (fsize d) y ?x"
    using holds_of_uint [OF assms(1) f(4) x] by blast
  obtain a where a: "ba_and ops m y = Inr a" "holds rep (fsize d) a ?x"
    using holds_and [OF assms(1,5) y(2) f(4)] mask_and_fits [OF x] by auto
  obtain c where "ba_overwrite ops cur a (int n - 1 - fd_msb d) = Inr c" "holds rep n c (put_field d ?x v)"
    using holds_overwrite [OF assms(1,3) a(2) assms(4)] by blast
  with False s(1) t(1) u y(1) a(1) show ?thesis by (simp add: sz [simplified])
qed

lemma field_next_range:
  assumes "legal_fits legal d" and "0 \<le> old" and "old < 2 ^ fsize d"
  shows "0 \<le> field_next legal d w old \<and> field_next legal d w old < 2 ^ fsize d"
  using assms field_of_range [of d w] by (auto simp: field_next_def legal_fits_def split: option.splits)

lemma field_write_effect:
  assumes "lawful ops rep" and "holds rep n new w" and "holds rep n cur v" and "field_ok n d"
    and "legal_fits legal d" and "stands rep n f d"
  shows "\<exists>c v'. field_write ops legal f new cur = Inr c \<and> holds rep n c v' \<and>
    field_of d v' = field_next legal d w (field_of d v) \<and> (\<forall>k. \<not> in_field d k \<longrightarrow> bit v' k = bit v k)"
proof -
  obtain m where m: "holds rep (fsize d) m (mask (fsize d))"
    and f: "f = (case fd_warl_legalize d of
        Some py \<Rightarrow> if fd_type d = ''WARL''
          then LegalizeWriteCSRField m (int n - 1 - fd_msb d, int n - 1 - fd_lsb d) (fd_type d = ''R'') py
          else SimpleWriteCSRField m (int n - 1 - fd_msb d, int n - 1 - fd_lsb d) (fd_type d = ''R'')
      | None \<Rightarrow> SimpleWriteCSRField m (int n - 1 - fd_msb d, int n - 1 - fd_lsb d) (fd_type d = ''R''))"
    using assms(6) by (auto simp: stands_def Let_def)
  let ?x = "field_next legal d w (field_of d v)"
  have x: "0 \<le> ?x" "?x < 2 ^ fsize d"
    using field_next_range [OF assms(5)] field_of_range [of d v] by blast+
  obtain c where c: "field_write ops legal f new cur = Inr c"
    "holds rep n c (if fd_type d = ''R'' then v else put_field d ?x v)"
  proof (cases "fd_type d = ''WARL'' \<and> fd_warl_legalize d \<noteq> None")
    case True
    then obtain py where "fd_warl_legalize d = Some py" by blast
    with True show ?thesis
      using legal_write [OF assms(1-4) m assms(5), of py "fd_type d = ''R''"] that
      by (auto simp: f field_next_def simp del: field_write.simps)
  next
    case False
    then have "f = SimpleWriteCSRField m (int n - 1 - fd_msb d, int n - 1 - fd_lsb d) (fd_type d = ''R'')"
      "fd_type d \<noteq> ''R'' \<Longrightarrow> ?x = field_of d w"
      by (auto simp: f field_next_def split: option.splits)
    moreover from this(2) have "(if fd_type d = ''R'' then v else put_field d (field_of d w) v) =
        (if fd_type d = ''R'' then v else put_field d ?x v)" by auto
    ultimately show ?thesis
      using simple_write [OF assms(1-4) m, of legal "fd_type d = ''R''"] that
      by (simp only:) blast
  qed
  have "field_of d (put_field d ?x v) = ?x"
    by (rule bit_eqI)
      (use x take_bit_int_eq_self [OF x] in \<open>auto simp: bit_field_of bit_put_field in_field_def, metis bit_take_bit_iff\<close>)
  moreover have "\<forall>k. \<not> in_field d k \<longrightarrow> bit (put_field d ?x v) k = bit v k" using bit_put_field [OF x] by auto
  ultimately show ?thesis
    using c by (cases "fd_type d = ''R''") (auto simp: field_next_def)
qed

lemma csr_write_effect:
  assumes "lawful ops rep" and "holds rep n new w" and "holds rep n cur v"
    and "\<forall>d \<in> set ds. field_ok n d \<and> legal_fits legal d" and "all_apart ds" and "list_all2 (stands rep n) fs ds"
  shows "\<exists>c v'. csr_write ops legal new cur fs = Inr c \<and> holds rep n c v' \<and>
    (\<forall>d \<in> set ds. field_of d v' = field_next legal d w (field_of d v)) \<and>
    (\<forall>k. (\<forall>d \<in> set ds. \<not> in_field d k) \<longrightarrow> bit v' k = bit v k)"
  using assms(6,3-5)
proof (induction arbitrary: cur v rule: list_all2_induct)
  case Nil
  then show ?case by (auto simp: csr_write_def)
next
  case (Cons f fs d ds)
  have d: "field_ok n d" "legal_fits legal d" using Cons.prems(2) by simp_all
  obtain c1 v1 where s: "field_write ops legal f new cur = Inr c1" "holds rep n c1 v1"
    "field_of d v1 = field_next legal d w (field_of d v)" "\<forall>k. \<not> in_field d k \<longrightarrow> bit v1 k = bit v k"
    using field_write_effect [OF assms(1,2) Cons.prems(1) d Cons.hyps(1)] by blast
  obtain c v' where r: "csr_write ops legal new c1 fs = Inr c" "holds rep n c v'"
    "\<forall>d \<in> set ds. field_of d v' = field_next legal d w (field_of d v1)"
    "\<forall>k. (\<forall>d \<in> set ds. \<not> in_field d k) \<longrightarrow> bit v' k = bit v1 k"
    using Cons.IH [OF s(2)] Cons.prems(2,3) by auto
  have sep: "in_field e k \<Longrightarrow> \<not> in_field d k" "in_field d k \<Longrightarrow> \<not> in_field e k" if "e \<in> set ds" for e k
    using apart_bits [of d e n k] that Cons.prems(2,3) by auto
  have "field_of d v' = field_of d v1" using r(4) sep by (intro field_of_eqI) blast
  moreover have "field_of e v1 = field_of e v" if "e \<in> set ds" for e
    using s(4) sep that by (intro field_of_eqI) blast
  ultimately have "\<forall>e \<in> set (d # ds). field_of e v' = field_next legal e w (field_of e v)"
    using r(3) s(3) by auto
  moreover have "\<forall>k. (\<forall>e \<in> set (d # ds). \<not> in_field e k) \<longrightarrow> bit v' k = bit v k" using r(4) s(4) by simp
  ultimately show ?case using s(1) r(1,2) by (auto simp: csr_write_def)
qed

section \<open>Reading\<close>

lemma bit_reg_read:
  "length vs = length ds \<Longrightarrow>
     bit (reg_read ds vs) k \<longleftrightarrow> (\<exists>i < length ds. flsb (ds ! i) \<le> k \<and> bit (vs ! i) (k - flsb (ds ! i)))"
proof (induction ds arbitrary: vs)
  case Nil
  then show ?case by (simp add: reg_read_def)
next
  case (Cons d ds)
  then obtain v ws where vs: "vs = v # ws" by (cases vs) auto
  have "bit (reg_read (d # ds) vs) k \<longleftrightarrow> (flsb d \<le> k \<and> bit v (k - flsb d)) \<or> bit (reg_read ds ws) k"
    by (auto simp: vs reg_read_def bit_or_iff bit_push_bit_iff)
  then show ?case using Cons unfolding vs by (auto simp: less_Suc_eq_0_disj)
qed

lemma read_fields:
  assumes "\<And>k. bit m k \<longleftrightarrow> (\<exists>d \<in> set ds. in_field d k)"
  shows "v AND m = reg_read ds (map (\<lambda>d. field_of d v) ds)"
proof (rule bit_eqI)
  fix k
  have "flsb d \<le> k \<and> bit (field_of d v) (k - flsb d) \<longleftrightarrow> in_field d k \<and> bit v k" for d
    by (auto simp: bit_field_of in_field_def)
  then have "bit (reg_read ds (map (\<lambda>d. field_of d v) ds)) k \<longleftrightarrow> (\<exists>i < length ds. in_field (ds ! i) k \<and> bit v k)"
    unfolding bit_reg_read [OF length_map] by (metis (no_types, lifting) nth_map)
  then have "bit (reg_read ds (map (\<lambda>d. field_of d v) ds)) k \<longleftrightarrow> (\<exists>d \<in> set ds. in_field d k \<and> bit v k)"
    by (metis in_set_conv_nth)
  then show "bit (v AND m) k \<longleftrightarrow> bit (reg_read ds (map (\<lambda>d. field_of d v) ds)) k"
    using assms by (auto simp: bit_and_iff)
qed

end
