(* ===== verification/Csr_Machine.thy ===== *)
theory Csr_Machine
  imports Csr_Spec
begin

text \<open>
  The lines of a generated test as operations, their text, and a machine that runs them on any core: a
  core is a state with a read and a write of control registers. The core that a description asks for is one
  of them.
\<close>

section \<open>Lines\<close>

datatype csr_src = SReg nat | SImm int

datatype tline =
    TBlank
  | TComment string
  | TLi nat int
  | TCsr string nat int csr_src
  | TCsrr nat int
  | TBne nat nat

fun line_text :: "nat \<Rightarrow> tline \<Rightarrow> string" where
  "line_text n TBlank = []"
| "line_text n (TComment c) = tab @ ''# '' @ c @ newline"
| "line_text n (TLi r v) = tab @ ''li x'' @ show_nat r @ '', 0x'' @ hex_pad (n div 4) v @ newline"
| "line_text n (TCsr op rd a (SReg rs)) =
     tab @ op @ '' x'' @ show_nat rd @ '', '' @ show_int a @ '', x'' @ show_nat rs @ newline"
| "line_text n (TCsr op rd a (SImm v)) =
     tab @ op @ '' x'' @ show_nat rd @ '', '' @ show_int a @ '', 0b'' @ bin_pad 5 v @ newline"
| "line_text n (TCsrr rd a) = tab @ ''csrr x'' @ show_nat rd @ '', '' @ show_int a @ newline"
| "line_text n (TBne r1 r2) = tab @ ''bne x'' @ show_nat r1 @ '', x'' @ show_nat r2 @ '', csr_fail'' @ newline"

section \<open>Running them on a core\<close>

record 's csr_core =
  core_read :: "'s \<Rightarrow> int \<Rightarrow> int"
  core_write :: "'s \<Rightarrow> int \<Rightarrow> int \<Rightarrow> 's"

text \<open>What an instruction writes, and when: with an immediate of zero, set and clear do not write.\<close>

definition csr_new :: "string \<Rightarrow> int \<Rightarrow> int \<Rightarrow> int" where
  "csr_new op old x =
     (if op \<in> {''csrrw'', ''csrrwi''} then x
      else if op \<in> {''csrrs'', ''csrrsi''} then old OR x
      else old AND NOT x)"

definition csr_writes :: "string \<Rightarrow> csr_src \<Rightarrow> bool" where
  "csr_writes op src \<longleftrightarrow> op \<in> {''csrrw'', ''csrrwi''} \<or> src \<noteq> SImm 0"

definition src_value :: "(nat \<Rightarrow> int) \<Rightarrow> csr_src \<Rightarrow> int" where
  "src_value regs src = (case src of SReg r \<Rightarrow> regs r | SImm v \<Rightarrow> v)"

definition csr_after :: "'s csr_core \<Rightarrow> string \<Rightarrow> int \<Rightarrow> csr_src \<Rightarrow> int \<Rightarrow> 's \<Rightarrow> 's" where
  "csr_after core op a src x s =
     (if csr_writes op src then core_write core s a (csr_new op (core_read core s a) x) else s)"

text \<open>A test passes if no check branches away; \<open>observed\<close> are the values it reads, checked or not.\<close>

fun passes :: "'s csr_core \<Rightarrow> tline list \<Rightarrow> (nat \<Rightarrow> int) \<Rightarrow> 's \<Rightarrow> bool" where
  "passes core [] regs s = True"
| "passes core (TBlank # ls) regs s = passes core ls regs s"
| "passes core (TComment c # ls) regs s = passes core ls regs s"
| "passes core (TLi r v # ls) regs s = passes core ls (regs(r := v)) s"
| "passes core (TCsr op rd a src # ls) regs s =
     passes core ls (regs(rd := core_read core s a)) (csr_after core op a src (src_value regs src) s)"
| "passes core (TCsrr rd a # ls) regs s = passes core ls (regs(rd := core_read core s a)) s"
| "passes core (TBne r1 r2 # ls) regs s = (regs r1 = regs r2 \<and> passes core ls regs s)"

fun observed :: "'s csr_core \<Rightarrow> tline list \<Rightarrow> (nat \<Rightarrow> int) \<Rightarrow> 's \<Rightarrow> int list" where
  "observed core [] regs s = []"
| "observed core (TBlank # ls) regs s = observed core ls regs s"
| "observed core (TComment c # ls) regs s = observed core ls regs s"
| "observed core (TLi r v # ls) regs s = observed core ls (regs(r := v)) s"
| "observed core (TCsr op rd a src # ls) regs s = core_read core s a #
     observed core ls (regs(rd := core_read core s a)) (csr_after core op a src (src_value regs src) s)"
| "observed core (TCsrr rd a # ls) regs s = core_read core s a # observed core ls (regs(rd := core_read core s a)) s"
| "observed core (TBne r1 r2 # ls) regs s = observed core ls regs s"

text \<open>The accesses of a test, in order.\<close>

fun accesses :: "tline list \<Rightarrow> (string \<times> int) list" where
  "accesses [] = []"
| "accesses (TCsr op rd a src # ls) = (op, a) # accesses ls"
| "accesses (TCsrr rd a # ls) = (''csrr'', a) # accesses ls"
| "accesses (_ # ls) = accesses ls"

section \<open>The core of a description\<close>

definition fields_at :: "nat \<Rightarrow> csr_desc \<Rightarrow> field_desc list" where
  "fields_at n d = (case map_of (cd_rv d) (''rv'' @ show_int (int n)) of None \<Rightarrow> [] | Some ds \<Rightarrow> active ds)"

definition table :: "nat \<Rightarrow> csr_desc list \<Rightarrow> int \<Rightarrow> field_desc list" where
  "table n descs a = (case find (\<lambda>d. cd_address d = a) descs of None \<Rightarrow> [] | Some d \<Rightarrow> fields_at n d)"

definition described :: "(string \<Rightarrow> int \<Rightarrow> int \<Rightarrow> int) \<Rightarrow> nat \<Rightarrow> csr_desc list \<Rightarrow> (int \<Rightarrow> int list) csr_core" where
  "described legal n descs =
     \<lparr>core_read = (\<lambda>s a. reg_read (table n descs a) (s a)),
      core_write = (\<lambda>s a w. s(a := reg_write legal (table n descs a) w (s a)))\<rparr>"

definition described_reset :: "nat \<Rightarrow> csr_desc list \<Rightarrow> int \<Rightarrow> int list" where
  "described_reset n descs a = reg_reset (table n descs a)"

section \<open>Actions\<close>

text \<open>The generator writes its lines in groups: a comment, an access with its check, a last read.\<close>

datatype action = Note string | Access string int int int | Final int int

definition is_imm :: "string \<Rightarrow> bool" where
  "is_imm op \<longleftrightarrow> last op = CHR ''i''"

fun action_lines :: "nat \<Rightarrow> nat \<Rightarrow> action \<Rightarrow> tline list" where
  "action_lines rs rd (Note c) = [TComment c]"
| "action_lines rs rd (Access op a w p) =
     (if is_imm op then [TBlank, TCsr op rd a (SImm w), TLi rs p, TBne rs rd]
      else [TLi rs w, TCsr op rd a (SReg rs), TLi rs p, TBne rs rd])"
| "action_lines rs rd (Final a p) = [TCsrr rd a, TLi rs p, TBne rs rd]"

definition action_src :: "string \<Rightarrow> int \<Rightarrow> csr_src" where
  "action_src op w = (if is_imm op then SImm w else SReg 0)"

fun after :: "'s csr_core \<Rightarrow> action \<Rightarrow> 's \<Rightarrow> 's" where
  "after core (Note c) s = s"
| "after core (Access op a w p) s = csr_after core op a (action_src op w) w s"
| "after core (Final a p) s = s"

fun agrees :: "'s csr_core \<Rightarrow> action \<Rightarrow> 's \<Rightarrow> bool" where
  "agrees core (Note c) s = True"
| "agrees core (Access op a w p) s = (core_read core s a = p)"
| "agrees core (Final a p) s = (core_read core s a = p)"

fun reads :: "'s csr_core \<Rightarrow> action \<Rightarrow> 's \<Rightarrow> int list" where
  "reads core (Note c) s = []"
| "reads core (Access op a w p) s = [core_read core s a]"
| "reads core (Final a p) s = [core_read core s a]"

fun predicted :: "action \<Rightarrow> int list" where
  "predicted (Note c) = []"
| "predicted (Access op a w p) = [p]"
| "predicted (Final a p) = [p]"

fun all_agree :: "'s csr_core \<Rightarrow> action list \<Rightarrow> 's \<Rightarrow> bool" where
  "all_agree core [] s = True"
| "all_agree core (x # xs) s = (agrees core x s \<and> all_agree core xs (after core x s))"

fun all_reads :: "'s csr_core \<Rightarrow> action list \<Rightarrow> 's \<Rightarrow> int list" where
  "all_reads core [] s = []"
| "all_reads core (x # xs) s = reads core x s @ all_reads core xs (after core x s)"

fun run_actions :: "'s csr_core \<Rightarrow> action list \<Rightarrow> 's \<Rightarrow> 's" where
  "run_actions core [] s = s"
| "run_actions core (x # xs) s = run_actions core xs (after core x s)"

lemma csr_after_reg: "csr_after core op a (SReg r) x s = csr_after core op a (SReg r') x s"
  by (simp add: csr_after_def csr_writes_def)

lemma passes_actions:
  "rs \<noteq> rd \<Longrightarrow> passes core (concat (map (action_lines rs rd) xs)) regs s = all_agree core xs s"
proof (induction xs arbitrary: regs s)
  case (Cons x xs)
  then show ?case
    by (cases x) (auto simp: action_src_def src_value_def csr_after_reg [of core _ _ rs _ _ 0])
qed simp

lemma observed_actions:
  "rs \<noteq> rd \<Longrightarrow> observed core (concat (map (action_lines rs rd) xs)) regs s = all_reads core xs s"
proof (induction xs arbitrary: regs s)
  case (Cons x xs)
  then show ?case
    by (cases x) (auto simp: action_src_def src_value_def csr_after_reg [of core _ _ rs _ _ 0])
qed simp

lemma all_agree_iff: "all_agree core xs s \<longleftrightarrow> all_reads core xs s = concat (map predicted xs)"
proof (induction xs arbitrary: s)
  case (Cons x xs)
  then show ?case by (cases x) auto
qed simp

lemma all_agree_append: "all_agree core (xs @ ys) s \<longleftrightarrow> all_agree core xs s \<and> all_agree core ys (run_actions core xs s)"
  by (induction xs arbitrary: s) auto

lemma run_actions_append: "run_actions core (xs @ ys) s = run_actions core ys (run_actions core xs s)"
  by (induction xs arbitrary: s) auto

fun action_access :: "action \<Rightarrow> (string \<times> int) list" where
  "action_access (Note c) = []"
| "action_access (Access op a w p) = [(op, a)]"
| "action_access (Final a p) = [(''csrr'', a)]"

lemma accesses_append: "accesses (xs @ ys) = accesses xs @ accesses ys"
  by (induction xs rule: accesses.induct) simp_all

lemma accesses_actions: "accesses (concat (map (action_lines rs rd) xs)) = concat (map action_access xs)"
proof (induction xs)
  case (Cons x xs)
  then show ?case by (cases x) (simp_all add: accesses_append)
qed simp

end
