(* ===== verification/Csr_Facts.thy ===== *)
theory Csr_Facts
  imports Csr_Machine
begin

text \<open>
  The generator writes the lines of a list of actions that the described core agrees with: its bit
  arrays hold, at every access, the fields of the described registers.
\<close>

section \<open>The map of registers\<close>

definition entry_ok :: "('b \<Rightarrow> bool list) \<Rightarrow> nat \<Rightarrow> field_desc list \<Rightarrow> 'b \<Rightarrow> 'b write_field list \<Rightarrow> 'b \<Rightarrow> bool" where
  "entry_ok rep n ds cv fs m \<longleftrightarrow>
     (\<exists>v mv. holds rep n cv v \<and> holds rep n m mv \<and> list_all2 (stands rep n) fs ds \<and>
        map (\<lambda>d. field_of d v) ds = reg_reset ds \<and> (\<forall>k. bit mv k \<longleftrightarrow> (\<exists>d \<in> set ds. in_field d k)))"

lemma put_field_same:
  assumes "0 \<le> x" and "x < 2 ^ fsize d"
  shows "field_of d (put_field d x v) = x"
proof (rule bit_eqI)
  fix k
  show "bit (field_of d (put_field d x v)) k \<longleftrightarrow> bit x k"
    using bit_above [OF assms, of k] by (auto simp: bit_field_of bit_put_field [OF assms] in_field_def)
qed

lemma put_field_other:
  assumes "0 \<le> x" and "x < 2 ^ fsize d" and "\<And>k. in_field e k \<Longrightarrow> \<not> in_field d k"
  shows "field_of e (put_field d x v) = field_of e v"
  by (rule field_of_eqI) (simp add: bit_put_field [OF assms(1,2)] assms(3))

lemma add_csr_field_ok:
  assumes "lawful ops rep" and "entry_ok rep n ds cv fs m" and "fd_type d \<noteq> ''WPRI''" and "field_ok n d"
    and "\<forall>e \<in> set ds. field_ok n e \<and> apart e d"
  shows "\<exists>cv' fs' m'. add_csr_field ops (int n) (cv, fs, m) d = Inr (cv', fs', m') \<and> entry_ok rep n (ds @ [d]) cv' fs' m'"
proof -
  note f = field_ok_nat [OF assms(4)]
  obtain v mv where e: "holds rep n cv v" "holds rep n m mv" "list_all2 (stands rep n) fs ds"
    "map (\<lambda>d. field_of d v) ds = reg_reset ds" "\<And>k. bit mv k \<longleftrightarrow> (\<exists>d \<in> set ds. in_field d k)"
    using assms(2) unfolding entry_ok_def by blast
  have r: "0 \<le> fd_reset_val d" "fd_reset_val d < 2 ^ fsize d" using assms(4) by (simp_all add: field_ok_def)
  have sz: "fd_msb d - fd_lsb d + 1 = int (fsize d)" using f by simp
  obtain b where b: "of_uint ops (fd_reset_val d) (int (fsize d)) = Inr b" "holds rep (fsize d) b (fd_reset_val d)"
    using holds_of_uint [OF assms(1) f(4) r] by blast
  obtain one k where o: "of_uint ops 1 1 = Inr one" "ba_times ops one (int (fsize d)) = Inr k"
    "holds rep (fsize d) k (mask (fsize d))" using holds_mask [OF assms(1) f(4)] by blast
  have mk: "0 \<le> (mask (fsize d) :: int)" "(mask (fsize d) :: int) < 2 ^ fsize d" by (simp_all add: mask_eq_exp_minus_1)
  obtain m' where m': "ba_overwrite ops m k (int n - 1 - fd_msb d) = Inr m'"
    "holds rep n m' (put_field d (mask (fsize d)) mv)" using holds_overwrite [OF assms(1) e(2) o(3) assms(4)] by blast
  obtain cv' where cv': "ba_overwrite ops cv b (int n - 1 - fd_msb d) = Inr cv'"
    "holds rep n cv' (put_field d (fd_reset_val d) v)" using holds_overwrite [OF assms(1) e(1) b(2) assms(4)] by blast
  let ?f = "case fd_warl_legalize d of
      Some py \<Rightarrow> if fd_type d = ''WARL''
        then LegalizeWriteCSRField k (int n - 1 - fd_msb d, int n - 1 - fd_lsb d) (fd_type d = ''R'') py
        else SimpleWriteCSRField k (int n - 1 - fd_msb d, int n - 1 - fd_lsb d) (fd_type d = ''R'')
    | None \<Rightarrow> SimpleWriteCSRField k (int n - 1 - fd_msb d, int n - 1 - fd_lsb d) (fd_type d = ''R'')"
  have run: "add_csr_field ops (int n) (cv, fs, m) d = Inr (cv', fs @ [?f], m')"
    unfolding add_csr_field_def prod.case Let_def sz
    using assms(3) by (simp only: not_False_eq_True if_True b(1) o(1,2) m'(1) cv'(1) bnd_simps)
  have "stands rep n ?f d" unfolding stands_def Let_def using o(3) by blast
  then have st: "list_all2 (stands rep n) (fs @ [?f]) (ds @ [d])" using e(3) by (simp add: list_all2_appendI)
  have "field_of e (put_field d (fd_reset_val d) v) = field_of e v" if "e \<in> set ds" for e
    using put_field_other [OF r] apart_bits [of e d n] assms(4,5) that by blast
  then have keep: "map (\<lambda>e. field_of e (put_field d (fd_reset_val d) v)) ds = reg_reset ds"
    using e(4) by (simp add: reg_reset_def)
  have "bit (put_field d (mask (fsize d)) mv) j \<longleftrightarrow> (\<exists>x \<in> set (ds @ [d]). in_field x j)" for j
    using e(5) by (auto simp: bit_put_field [OF mk] bit_mask_iff in_field_def)
  then have "entry_ok rep n (ds @ [d]) cv' (fs @ [?f]) m'"
    unfolding entry_ok_def using cv'(2) m'(2) st keep put_field_same [OF r, of v]
    by (intro exI [of _ "put_field d (fd_reset_val d) v"] exI [of _ "put_field d (mask (fsize d)) mv"])
      (simp add: reg_reset_def)
  with run show ?thesis by blast
qed

lemma add_csr_fields_ok:
  assumes "lawful ops rep" and "entry_ok rep n ps cv fs m" and "all_apart (active ds)"
    and "\<forall>d \<in> set (active ds). field_ok n d" and "\<forall>e \<in> set ps. field_ok n e \<and> (\<forall>d \<in> set (active ds). apart e d)"
  shows "\<exists>cv' fs' m'. foldR (add_csr_field ops (int n)) (cv, fs, m) ds = Inr (cv', fs', m') \<and>
    entry_ok rep n (ps @ active ds) cv' fs' m'"
  using assms(2-)
proof (induction ds arbitrary: ps cv fs m)
  case Nil
  then show ?case by (simp add: active_def)
next
  case (Cons d ds)
  show ?case
  proof (cases "fd_type d = ''WPRI''")
    case True
    then have "add_csr_field ops (int n) (cv, fs, m) d = Inr (cv, fs, m)" by (simp add: add_csr_field_def)
    then show ?thesis using Cons True by (simp add: active_def)
  next
    case False
    then have a: "active (d # ds) = d # active ds" by (simp add: active_def)
    obtain cv1 fs1 m1 where s: "add_csr_field ops (int n) (cv, fs, m) d = Inr (cv1, fs1, m1)"
      "entry_ok rep n (ps @ [d]) cv1 fs1 m1"
      using add_csr_field_ok [OF assms(1) Cons.prems(1) False] Cons.prems(3,4) unfolding a by auto
    have "\<exists>cv' fs' m'. foldR (add_csr_field ops (int n)) (cv1, fs1, m1) ds = Inr (cv', fs', m') \<and>
        entry_ok rep n ((ps @ [d]) @ active ds) cv' fs' m'"
      using Cons.prems(2-4) unfolding a by (intro Cons.IH [OF s(2)]) auto
    then show ?thesis using s(1) a by simp
  qed
qed

section \<open>Descriptions\<close>

text \<open>
  A legalised value is legal: legalising it once more, over itself, keeps it. So a write of zero bits, which the
  hardware leaves out and the generator does not, changes nothing.
\<close>

definition settled :: "(string \<Rightarrow> int \<Rightarrow> int \<Rightarrow> int) \<Rightarrow> field_desc \<Rightarrow> int \<Rightarrow> bool" where
  "settled legal d v \<longleftrightarrow> (\<forall>py. fd_type d = ''WARL'' \<and> fd_warl_legalize d = Some py \<longrightarrow> legal py v v = v)"

definition field_legal :: "(string \<Rightarrow> int \<Rightarrow> int \<Rightarrow> int) \<Rightarrow> field_desc \<Rightarrow> bool" where
  "field_legal legal d \<longleftrightarrow> legal_fits legal d \<and> settled legal d (fd_reset_val d) \<and>
     (\<forall>py a b. fd_warl_legalize d = Some py \<and> 0 \<le> a \<and> a < 2 ^ fsize d \<and> 0 \<le> b \<and> b < 2 ^ fsize d \<longrightarrow>
        settled legal d (legal py a b))"

definition desc_ok :: "(string \<Rightarrow> int \<Rightarrow> int \<Rightarrow> int) \<Rightarrow> nat \<Rightarrow> csr_desc \<Rightarrow> bool" where
  "desc_ok legal n d \<longleftrightarrow> map_of (cd_rv d) (''rv'' @ show_int (int n)) \<noteq> None \<and> all_apart (fields_at n d) \<and>
     (\<forall>f \<in> set (fields_at n d). field_ok n f \<and> field_legal legal f)"

definition descs_ok :: "(string \<Rightarrow> int \<Rightarrow> int \<Rightarrow> int) \<Rightarrow> nat \<Rightarrow> csr_desc list \<Rightarrow> bool" where
  "descs_ok legal n descs \<longleftrightarrow> distinct (map cd_csr descs) \<and> distinct (map cd_address descs) \<and>
     (\<forall>d \<in> set descs. desc_ok legal n d)"

definition stands_for :: "('b \<Rightarrow> bool list) \<Rightarrow> nat \<Rightarrow> string \<times> 'b csr_entry \<Rightarrow> csr_desc \<Rightarrow> bool" where
  "stands_for rep n e d \<longleftrightarrow> fst e = cd_csr d \<and> ce_address (snd e) = cd_address d \<and>
     entry_ok rep n (fields_at n d) (ce_value (snd e)) (ce_write_fields (snd e)) (ce_read_mask (snd e))"

lemma add_csr_ok:
  assumes "lawful ops rep" and "8 dvd n" and "0 < n" and "desc_ok legal n d" and "cd_csr d \<notin> fst ` set csrs"
  shows "\<exists>e. add_csr ops (int n) csrs d = Inr (csrs @ [e]) \<and> stands_for rep n e d"
proof -
  obtain ds where ds: "map_of (cd_rv d) (''rv'' @ show_int (int n)) = Some ds" "fields_at n d = active ds"
    using assms(4) by (auto simp: desc_ok_def fields_at_def)
  obtain z where z: "of_uintbe ops 0 (int n) = Inr z" "holds rep n z 0"
    using holds_of_uintbe [OF assms(1,3,2), of 0] by auto
  have "entry_ok rep n [] z [] z" using z(2) by (auto simp: entry_ok_def reg_reset_def)
  from add_csr_fields_ok [OF assms(1) this, of ds] obtain cv fs m where
    f: "foldR (add_csr_field ops (int n)) (z, [], z) ds = Inr (cv, fs, m)" "entry_ok rep n (active ds) cv fs m"
    using assms(4) unfolding desc_ok_def ds(2) by auto
  have "AList.update (cd_csr d) x csrs = csrs @ [(cd_csr d, x)]" for x
    using assms(5) by (simp add: update_fresh)
  then show ?thesis
    using ds z(1) f by (simp add: add_csr_def stands_for_def)
qed

lemma get_csr_map_ok:
  assumes "lawful ops rep" and "8 dvd n" and "0 < n" and "descs_ok legal n descs"
  shows "\<exists>es. get_csr_map ops descs (int n) = Inr es \<and> list_all2 (stands_for rep n) es descs"
proof -
  have "\<exists>es. foldR (add_csr ops (int n)) csrs ds = Inr (csrs @ es) \<and> list_all2 (stands_for rep n) es ds"
    if "\<forall>d \<in> set ds. desc_ok legal n d" "distinct (map cd_csr ds)" "fst ` set csrs \<inter> cd_csr ` set ds = {}" for csrs ds
    using that
  proof (induction ds arbitrary: csrs)
    case Nil
    then show ?case by simp
  next
    case (Cons d ds)
    obtain e where e: "add_csr ops (int n) csrs d = Inr (csrs @ [e])" "stands_for rep n e d"
      using add_csr_ok [OF assms(1-3), of legal d csrs] Cons.prems by auto
    have "fst ` set (csrs @ [e]) \<inter> cd_csr ` set ds = {}" using Cons.prems e(2) by (auto simp: stands_for_def)
    with Cons.IH [of "csrs @ [e]"] Cons.prems obtain es where
      "foldR (add_csr ops (int n)) (csrs @ [e]) ds = Inr ((csrs @ [e]) @ es)" "list_all2 (stands_for rep n) es ds" by auto
    then show ?case using e by auto
  qed
  from this [of descs "[]"] show ?thesis using assms(4) by (simp add: get_csr_map_def descs_ok_def)
qed

section \<open>Values\<close>

lemma repeat_text_hex:
  assumes "k < 16" and "l < 16" and "0 < n"
  shows "repeat_text [digit_char k, digit_char l] (int n) \<noteq> []"
    and "\<forall>c \<in> set (repeat_text [digit_char k, digit_char l] (int n)). \<exists>d < 16. c = digit_char d"
    and "length (repeat_text [digit_char k, digit_char l] (int n)) = 2 * n"
  using assms by (auto simp: repeat_text_def length_concat sum_list_replicate)

lemma pattern_holds:
  assumes "lawful ops rep" and "8 dvd n" and "0 < n" and "k < 16" and "l < 16"
  shows "\<exists>b v. of_hex ops (''0x'' @ repeat_text [digit_char k, digit_char l] (int n div 8)) = Inr b \<and> holds rep n b v"
proof -
  have n: "int n div 8 = int (n div 8)" "0 < n div 8" using assms(2,3) by (auto simp: zdiv_int dvd_imp_le)
  note r = repeat_text_hex [OF assms(4,5) n(2)]
  from law_of_hex [OF assms(1) r(1,2)] show ?thesis
    unfolding n(1) yields_def holds_def using r(3) assms(2)
    by (auto simp: length_concat comp_def sum_list_triv)
qed

lemma random_bits_ok:
  assumes "lawful ops rep" and "length (rep b) = n" and "\<forall>i \<in> set is. i < n"
  shows "\<exists>b' t'. foldR (set_random_bit ops) (b, t) is = Inr (b', t') \<and> length (rep b') = n"
  using assms(2,3)
proof (induction "is" arbitrary: b t)
  case Nil
  then show ?case by simp
next
  case (Cons i "is")
  have "\<exists>x t1. randint 0 1 t = Inr (x, t1)" by (cases t) simp_all
  then obtain x t1 where r: "randint 0 1 t = Inr (x, t1)" by blast
  then have x: "randint 0 1 t = Inr (x, t1)" "x = 0 \<or> x = 1" using randint_range [OF r] by auto
  obtain b1 where b1: "ba_set ops b x (int i) = Inr b1" "length (rep b1) = n"
    using law_set [OF assms(1) x(2), of i b] Cons.prems by (auto simp: yields_def)
  with Cons.IH [OF b1(2), of t1] Cons.prems x(1) show ?case by (auto simp: set_random_bit_def)
qed

lemma get_rs1_val_ok:
  assumes "lawful ops rep" and "8 dvd n" and "32 \<le> n" and "i < 3"
  shows "\<exists>b v t'. get_rs1_val ops i (int n) t = Inr (b, t') \<and> holds rep n b v"
proof -
  have d: "''a5'' = [digit_char 10, digit_char 5]" "''5a'' = [digit_char 5, digit_char 10]" by code_simp+
  consider "i = 0" | "i = 1" | "i = 2" using assms(4) by linarith
  then show ?thesis
  proof cases
    case 1
    then show ?thesis
      using pattern_holds [OF assms(1,2), of 10 5] assms(3) unfolding get_rs1_val_def d by auto
  next
    case 2
    then show ?thesis
      using pattern_holds [OF assms(1,2), of 5 10] assms(3) unfolding get_rs1_val_def d by auto
  next
    case 3
    obtain z where z: "of_uint ops 0 (int n) = Inr z" "holds rep n z 0"
      using holds_of_uint [OF assms(1), of n 0] assms(3) by auto
    have "\<forall>i \<in> set [0 ..< 32]. i < n" using assms(3) by auto
    then obtain b t' where "foldR (set_random_bit ops) (z, t) [0 ..< 32] = Inr (b, t')" "length (rep b) = n"
      using random_bits_ok [OF assms(1), of z n "[0 ..< 32]" t] z(2) unfolding holds_def by blast
    then show ?thesis using 3 z(1) by (simp add: get_rs1_val_def holds_def del: upt_rec_numeral)
  qed
qed

section \<open>Prediction\<close>

definition op_written :: "nat \<Rightarrow> string \<Rightarrow> int \<Rightarrow> int \<Rightarrow> int" where
  "op_written n op w r =
     (let x = (if is_imm op then take_bit 5 w else w) in
      if op \<in> {''csrrw'', ''csrrwi''} then x
      else if op \<in> {''csrrs'', ''csrrsi''} then x OR r else take_bit n (NOT x) AND r)"

lemma is_imm_ops:
  "\<not> is_imm ''csrrw''" "\<not> is_imm ''csrrs''" "\<not> is_imm ''csrrc''" "is_imm ''csrrwi''" "is_imm ''csrrsi''" "is_imm ''csrrci''"
  by (simp_all add: is_imm_def)

lemma op_value_ok:
  assumes "lawful ops rep" and "32 \<le> n" and "holds rep n b w" and "holds rep n p r" and "holds rep (n - 5) z 0"
    and "op \<in> set csr_ops"
  shows "\<exists>x. holds rep n x (op_written n op w r) \<and>
    (\<forall>go. (if op = ''csrrw'' then go b
      else if op = ''csrrs'' then bnd (ba_or ops b p) go
      else if op = ''csrrc'' then bnd (ba_not ops b) (\<lambda>m. bnd (ba_and ops m p) go)
      else if op = ''csrrwi'' then bnd (ba_last ops b 5) (\<lambda>l. bnd (ba_append ops z l) go)
      else if op = ''csrrsi'' then bnd (ba_last ops b 5) (\<lambda>l. bnd (ba_append ops z l) (\<lambda>y. bnd (ba_or ops y p) go))
      else if op = ''csrrci'' then
        bnd (ba_last ops b 5) (\<lambda>l. bnd (ba_append ops z l) (\<lambda>y. bnd (ba_not ops y) (\<lambda>m. bnd (ba_and ops m p) go)))
      else Inr cv) = (go x :: 'b pg))"
proof -
  have n: "0 < n" "n - 5 + 5 = n" using assms(2) by simp_all
  obtain l where l: "ba_last ops b 5 = Inr l" "holds rep 5 l (take_bit 5 w)"
    using holds_last [OF assms(1,3), of 5] assms(2) by auto
  obtain y where y: "ba_append ops z l = Inr y" "holds rep n y (take_bit 5 w)"
    using holds_append_zero [OF assms(1,5) l(2)] n(2) by auto
  obtain o1 where o1: "ba_or ops b p = Inr o1" "holds rep n o1 (w OR r)"
    using holds_or [OF assms(1,3,4) n(1)] by blast
  obtain o2 where o2: "ba_or ops y p = Inr o2" "holds rep n o2 (take_bit 5 w OR r)"
    using holds_or [OF assms(1) y(2) assms(4) n(1)] by blast
  obtain m1 where m1: "ba_not ops b = Inr m1" "holds rep n m1 (take_bit n (NOT w))"
    using holds_not [OF assms(1,3) n(1)] by blast
  obtain m2 where m2: "ba_not ops y = Inr m2" "holds rep n m2 (take_bit n (NOT (take_bit 5 w)))"
    using holds_not [OF assms(1) y(2) n(1)] by blast
  obtain a1 where a1: "ba_and ops m1 p = Inr a1" "holds rep n a1 (take_bit n (NOT w) AND r)"
    using holds_and [OF assms(1) m1(2) assms(4) n(1)] by blast
  obtain a2 where a2: "ba_and ops m2 p = Inr a2" "holds rep n a2 (take_bit n (NOT (take_bit 5 w)) AND r)"
    using holds_and [OF assms(1) m2(2) assms(4) n(1)] by blast
  consider "op = ''csrrw''" | "op = ''csrrs''" | "op = ''csrrc''" | "op = ''csrrwi''" | "op = ''csrrsi''" | "op = ''csrrci''"
    using assms(6) by (auto simp: csr_ops_def)
  then show ?thesis
  proof cases
    case 1
    then show ?thesis using assms(3) by (auto simp: op_written_def is_imm_ops)
  next
    case 2
    then show ?thesis using o1 by (auto simp: op_written_def is_imm_ops)
  next
    case 3
    then show ?thesis using m1(1) a1 by (auto simp: op_written_def is_imm_ops)
  next
    case 4
    then show ?thesis using l(1) y by (auto simp: op_written_def is_imm_ops)
  next
    case 5
    then show ?thesis using l(1) y(1) o2 by (auto simp: op_written_def is_imm_ops)
  next
    case 6
    then show ?thesis using l(1) y(1) m2(1) a2 by (auto simp: op_written_def is_imm_ops)
  qed
qed

text \<open>The register as the generator has it, and its fields.\<close>

definition reg_ok ::
  "('b \<Rightarrow> bool list) \<Rightarrow> (string \<Rightarrow> int \<Rightarrow> int \<Rightarrow> int) \<Rightarrow> nat \<Rightarrow> field_desc list \<Rightarrow> 'b write_field list \<Rightarrow> 'b \<Rightarrow> 'b \<Rightarrow>
     int list \<Rightarrow> bool" where
  "reg_ok rep legal n ds fs m cv vs \<longleftrightarrow>
     (\<exists>v mv. holds rep n cv v \<and> holds rep n m mv \<and> list_all2 (stands rep n) fs ds \<and>
        map (\<lambda>d. field_of d v) ds = vs \<and> (\<forall>k. bit mv k \<longleftrightarrow> (\<exists>d \<in> set ds. in_field d k))) \<and>
     all_apart ds \<and> (\<forall>d \<in> set ds. field_ok n d \<and> field_legal legal d) \<and> list_all2 (settled legal) ds vs"

lemma field_next_settled:
  assumes "field_legal legal d" and "settled legal d old" and "0 \<le> old" and "old < 2 ^ fsize d"
  shows "settled legal d (field_next legal d w old)"
proof (cases "fd_type d = ''WARL''")
  case True
  show ?thesis
  proof (cases "fd_warl_legalize d")
    case None
    then show ?thesis by (simp add: settled_def)
  next
    case (Some py)
    then have "field_next legal d w old = legal py (field_of d w) old" using True by (simp add: field_next_def)
    then show ?thesis using assms Some field_of_range [of d w] unfolding field_legal_def by auto
  qed
qed (simp add: settled_def)

lemma predict_ok:
  assumes "lawful ops rep" and "8 dvd n" and "32 \<le> n" and "reg_ok rep legal n ds fs m cv vs"
    and "holds rep n b w" and "op \<in> set csr_ops"
  shows "\<exists>cv'. predict_csr_val ops legal op b cv fs m = Inr (''0x'' @ hex_pad (n div 4) (reg_read ds vs), cv') \<and>
    reg_ok rep legal n ds fs m cv' (reg_write legal ds (op_written n op w (reg_read ds vs)) vs)"
proof -
  obtain v mv where c: "holds rep n cv v" "holds rep n m mv" "list_all2 (stands rep n) fs ds"
    and vs: "map (\<lambda>d. field_of d v) ds = vs" and mv: "\<And>k. bit mv k \<longleftrightarrow> (\<exists>d \<in> set ds. in_field d k)"
    and ap: "all_apart ds" and ok: "\<forall>d \<in> set ds. field_ok n d \<and> field_legal legal d"
    and settle: "list_all2 (settled legal) ds vs"
    using assms(4) unfolding reg_ok_def by auto
  have n: "0 < n" "0 < n - 5" "int n - 5 = int (n - 5)" using assms(3) by simp_all
  let ?r = "reg_read ds vs" and ?W = "op_written n op w (reg_read ds vs)"
  obtain p where p: "ba_and ops cv m = Inr p" "holds rep n p ?r"
    using holds_and [OF assms(1) c(1,2) n(1)] read_fields [OF mv, of v] vs by auto
  obtain z where z: "of_uint ops 0 (int n - 5) = Inr z" "holds rep (n - 5) z 0"
    using holds_of_uint [OF assms(1) n(2), of 0] unfolding n(3) by auto
  obtain x where x: "holds rep n x ?W"
    and go: "\<And>go. (if op = ''csrrw'' then go b
      else if op = ''csrrs'' then bnd (ba_or ops b p) go
      else if op = ''csrrc'' then bnd (ba_not ops b) (\<lambda>m. bnd (ba_and ops m p) go)
      else if op = ''csrrwi'' then bnd (ba_last ops b 5) (\<lambda>l. bnd (ba_append ops z l) go)
      else if op = ''csrrsi'' then bnd (ba_last ops b 5) (\<lambda>l. bnd (ba_append ops z l) (\<lambda>y. bnd (ba_or ops y p) go))
      else if op = ''csrrci'' then
        bnd (ba_last ops b 5) (\<lambda>l. bnd (ba_append ops z l) (\<lambda>y. bnd (ba_not ops y) (\<lambda>m. bnd (ba_and ops m p) go)))
      else Inr cv) = go x"
    using op_value_ok [OF assms(1,3,5) p(2) z(2) assms(6), of cv] by blast
  have fits: "\<forall>d \<in> set ds. field_ok n d \<and> legal_fits legal d" using ok by (auto simp: field_legal_def)
  obtain cv' v' where w: "csr_write ops legal x cv fs = Inr cv'" "holds rep n cv' v'"
    "\<forall>d \<in> set ds. field_of d v' = field_next legal d ?W (field_of d v)"
    using csr_write_effect [OF assms(1) x c(1) fits ap c(3)] by blast
  have h: "ba_hex ops p = Inr (hex_pad (n div 4) ?r)"
    using law_hex [OF assms(1) holds_nonempty [OF p(2) n(1)]] p(2) assms(2) by (auto simp: holds_def)
  have l: "ba_len ops cv = int n" using law_len [OF assms(1), of cv] c(1) by (simp add: holds_def)
  have run: "predict_csr_val ops legal op b cv fs m = Inr (''0x'' @ hex_pad (n div 4) ?r, cv')"
    unfolding predict_csr_val_def csr_read_def l z(1) p(1) bnd_simps go [of "\<lambda>v. csr_write ops legal v cv fs"] w(1) h ..
  have vs': "map (\<lambda>d. field_of d v') ds = reg_write legal ds ?W vs"
    unfolding reg_write_def by (intro nth_equalityI) (use w(3) in \<open>auto simp: vs [symmetric]\<close>)
  have "list_all2 (settled legal) ds (map (\<lambda>d. field_of d v') ds)"
  proof -
    have "settled legal d (field_of d v')" if "d \<in> set ds" for d
    proof -
      have "settled legal d (field_of d v)"
        using settle that unfolding vs [symmetric] by (auto simp: list_all2_conv_all_nth in_set_conv_nth)
      then show ?thesis
        using field_next_settled [of legal d "field_of d v" ?W] ok that w(3) field_of_range [of d v] by auto
    qed
    then show ?thesis by (auto simp: list_all2_conv_all_nth)
  qed
  then have "reg_ok rep legal n ds fs m cv' (reg_write legal ds ?W vs)"
    unfolding reg_ok_def vs' [symmetric] using w(2) c(2,3) mv ap ok by blast
  with run show ?thesis by blast
qed

text \<open>Writing back what was read changes nothing.\<close>

lemma read_back:
  assumes "reg_ok rep legal n ds fs m cv vs"
  shows "reg_write legal ds (reg_read ds vs) vs = vs"
proof -
  have settle: "list_all2 (settled legal) ds vs" using assms by (simp add: reg_ok_def)
  obtain v and mv :: int where vs: "map (\<lambda>d. field_of d v) ds = vs" and all: "\<forall>k. bit mv k \<longleftrightarrow> (\<exists>d \<in> set ds. in_field d k)"
    using assms unfolding reg_ok_def by blast
  then have mv: "bit mv k \<longleftrightarrow> (\<exists>d \<in> set ds. in_field d k)" for k by blast
  have "field_of d (reg_read ds vs) = field_of d v" if "d \<in> set ds" for d
    unfolding vs [symmetric] read_fields [OF mv, symmetric]
    by (rule field_of_eqI) (use that mv in \<open>auto simp: bit_and_iff\<close>)
  moreover have "settled legal d (field_of d v)" if "d \<in> set ds" for d
    using settle that unfolding vs [symmetric] by (auto simp: list_all2_conv_all_nth in_set_conv_nth)
  ultimately have next_same: "field_next legal d (reg_read ds vs) (field_of d v) = field_of d v" if "d \<in> set ds" for d
    using that by (auto simp: field_next_def settled_def split: option.splits)
  show ?thesis
    unfolding reg_write_def using next_same
    by (intro nth_equalityI) (auto simp: vs [symmetric])
qed

end
