(* ===== verification/Csr_Gen.thy ===== *)
theory Csr_Gen
  imports Csr_Facts
begin

text \<open>The generated file: its lines are those of actions that the described core agrees with.\<close>

section \<open>Drawing the registers\<close>

lemma taken_pool:
  assumes "distinct pool" and "j < length pool"
  shows "set (butlast (pool[j := last pool])) \<subseteq> set pool - {pool ! j}" and "distinct (butlast (pool[j := last pool]))"
proof -
  from assms(2) obtain xs x where p: "pool = xs @ [x]" by (cases pool rule: rev_cases) auto
  then have d: "distinct xs" "x \<notin> set xs" using assms(1) by auto
  show "set (butlast (pool[j := last pool])) \<subseteq> set pool - {pool ! j}"
  proof (cases "j = length xs")
    case True
    then show ?thesis using d by (auto simp: p)
  next
    case False
    then have j: "j < length xs" using assms(2) p by simp
    then have "butlast (pool[j := last pool]) = xs[j := x]" by (simp add: p list_update_append)
    moreover have "pool ! j = xs ! j" using j by (simp add: p nth_append)
    moreover have "xs ! j \<notin> set (xs[j := x])"
      using d j by (auto simp: in_set_conv_nth nth_list_update nth_eq_iff_index_eq split: if_splits)
    ultimately show ?thesis using set_update_subset_insert [of xs j x] by (auto simp: p)
  qed
  show "distinct (butlast (pool[j := last pool]))"
    using d assms(2) by (cases "j < length xs") (simp_all add: p list_update_append distinct_list_update less_Suc_eq)
qed

lemma sample_ok:
  "distinct pool \<Longrightarrow> k \<le> length pool \<Longrightarrow>
     \<exists>xs t'. sample k pool t = Inr (xs, t') \<and> distinct xs \<and> set xs \<subseteq> set pool \<and> length xs = k"
proof (induction k arbitrary: pool t)
  case 0
  then show ?case by simp
next
  case (Suc k)
  then have ne: "pool \<noteq> []" by auto
  have "\<exists>j t1. randint 0 (int (length pool) - 1) t = Inr (j, t1)" using ne by (cases t) auto
  then obtain j t1 where r: "randint 0 (int (length pool) - 1) t = Inr (j, t1)" by blast
  have j: "nat j < length pool" using randint_range [OF r] ne by auto
  let ?p = "butlast (pool[nat j := last pool])"
  have "k \<le> length ?p" using Suc.prems by simp
  then obtain xs t' where s: "sample k ?p t1 = Inr (xs, t')" "distinct xs" "set xs \<subseteq> set ?p" "length xs = k"
    using Suc.IH [of ?p t1] taken_pool [OF Suc.prems(1) j] by blast
  then have "set xs \<subseteq> set pool - {pool ! nat j}" using taken_pool(1) [OF Suc.prems(1) j] by blast
  with s r ne j show ?case by auto
qed

section \<open>One access\<close>

lemma reg_read_range:
  assumes "reg_ok rep legal n ds fs m cv vs"
  shows "0 \<le> reg_read ds vs \<and> reg_read ds vs < 2 ^ n"
proof -
  obtain v mv where h: "holds rep n cv v" "map (\<lambda>d. field_of d v) ds = vs" "\<forall>k. bit (mv :: int) k \<longleftrightarrow> (\<exists>d \<in> set ds. in_field d k)"
    using assms unfolding reg_ok_def by blast
  then have "reg_read ds vs = v AND mv" using read_fields [of mv ds v] by simp
  moreover have "v AND mv = take_bit n (v AND mv)"
    using holds_range [OF h(1)] by (simp add: take_bit_and take_bit_int_eq_self)
      (metis and.commute and.left_commute take_bit_eq_mask take_bit_int_eq_self)
  ultimately show ?thesis by (metis take_bit_int_less_exp take_bit_nonnegative)
qed

lemma op_written_new:
  assumes "0 \<le> r" and "r < 2 ^ n" and "op \<in> set csr_ops" and "is_imm op \<Longrightarrow> take_bit 5 w = w"
  shows "op_written n op w r = csr_new op r w"
proof -
  have c: "take_bit n (NOT x) AND r = r AND NOT x" for x
  proof -
    have "take_bit n (NOT x) AND r = take_bit n (NOT x AND r)"
      using assms(1,2) by (simp add: take_bit_and take_bit_int_eq_self)
    also have "\<dots> = r AND NOT x"
      using assms(1,2) take_bit_int_eq_self [OF assms(1,2)]
      by (metis and.commute and.assoc take_bit_eq_mask)
    finally show ?thesis .
  qed
  show ?thesis
    using assms(3,4) by (auto simp: op_written_def csr_new_def csr_ops_def is_imm_ops c or.commute)
qed

lemma described_after:
  assumes "reg_ok rep legal n ds fs m cv (s a)" and "table n descs a = ds" and "op \<in> set csr_ops"
    and "is_imm op \<Longrightarrow> take_bit 5 w = w"
  shows "after (described legal n descs) (Access op a w p) s =
    s(a := reg_write legal ds (op_written n op w (reg_read ds (s a))) (s a))"
proof -
  let ?r = "reg_read ds (s a)"
  have r: "0 \<le> ?r" "?r < 2 ^ n" using reg_read_range [OF assms(1)] by blast+
  have e: "op_written n op w ?r = csr_new op ?r w" by (rule op_written_new [OF r assms(3,4)])
  show ?thesis
  proof (cases "csr_writes op (action_src op w)")
    case True
    then show ?thesis by (simp add: csr_after_def described_def assms(2) e)
  next
    case False
    then have "csr_new op ?r w = ?r"
      by (auto simp: csr_writes_def action_src_def csr_new_def split: if_splits)
    then show ?thesis using False read_back [OF assms(1)] by (simp add: csr_after_def e)
  qed
qed

lemma bin_text:
  assumes "lawful ops rep" and "holds rep 5 b v"
  shows "ba_bin ops b = bin_pad 5 v"
proof -
  have "rep b = bits_of 5 v"
    using bits_val_inj [of "rep b" "bits_of 5 v"] assms(2) holds_range [OF assms(2)]
    by (simp add: holds_def bits_val_fits)
  then show ?thesis using law_bin [OF assms(1), of b] by (simp add: bin_pad_def)
qed

lemma gen_access_ok:
  assumes "lawful ops rep" and "8 dvd n" and "32 \<le> n" and "op \<in> set csr_ops" and "i < 3"
    and "reg_ok rep legal n ds (ce_write_fields e) (ce_read_mask e) cv (s a)" and "ce_address e = a"
    and "table n descs a = ds"
  shows "\<exists>w p cv' t' vs'. gen_access ops legal (int n) (CHR ''x'' # show_nat rs) (CHR ''x'' # show_nat rd) e op i (out, cv, t) =
      Inr (out @ map (line_text n) (action_lines rs rd (Access op a w p)), cv', t') \<and>
    agrees (described legal n descs) (Access op a w p) s \<and>
    after (described legal n descs) (Access op a w p) s = s(a := vs') \<and>
    reg_ok rep legal n ds (ce_write_fields e) (ce_read_mask e) cv' vs'"
proof -
  obtain b w t' where b: "get_rs1_val ops i (int n) t = Inr (b, t')" "holds rep n b w"
    using get_rs1_val_ok [OF assms(1-3,5)] by blast
  have ne: "op \<noteq> []" using assms(4) by (auto simp: csr_ops_def)
  have n: "int n - 5 = int (n - 5)" "0 < n - 5" "n - 5 + 5 = n" "5 \<le> n" using assms(3) by simp_all
  have ag: "agrees (described legal n descs) (Access op a x (reg_read ds (s a))) s" for x
    by (simp add: described_def assms(8))
  show ?thesis
  proof (cases "is_imm op")
    case True
    let ?w = "take_bit 5 w"
    obtain l where l: "ba_last ops b 5 = Inr l" "holds rep 5 l ?w" using holds_last [OF assms(1) b(2), of 5] n by auto
    obtain z where z: "of_uint ops 0 (int n - 5) = Inr z" "holds rep (n - 5) z 0"
      using holds_of_uint [OF assms(1) n(2), of 0] unfolding n(1) by auto
    obtain y where y: "ba_append ops z l = Inr y" "holds rep n y ?w"
      using holds_append_zero [OF assms(1) z(2) l(2)] n(3) by auto
    let ?vs = "reg_write legal ds (op_written n op ?w (reg_read ds (s a))) (s a)"
    obtain cv' where p: "predict_csr_val ops legal op y cv (ce_write_fields e) (ce_read_mask e) =
        Inr (''0x'' @ hex_pad (n div 4) (reg_read ds (s a)), cv')"
      "reg_ok rep legal n ds (ce_write_fields e) (ce_read_mask e) cv' ?vs"
      using predict_ok [OF assms(1-3,6) y(2) assms(4)] by blast
    have "gen_access ops legal (int n) (CHR ''x'' # show_nat rs) (CHR ''x'' # show_nat rd) e op i (out, cv, t) =
        Inr (out @ map (line_text n) (action_lines rs rd (Access op a ?w (reg_read ds (s a)))), cv', t')"
      using ne True unfolding gen_access_def is_imm_def prod.case b(1) bnd_simps
      by (simp add: l(1) z(1) y(1) p(1) bin_text [OF assms(1) l(2)] assms(7) is_imm_def)
    moreover have "after (described legal n descs) (Access op a ?w (reg_read ds (s a))) s = s(a := ?vs)"
      by (rule described_after [where s = s and a = a, OF assms(6,8,4)]) simp
    ultimately show ?thesis using p(2) ag by blast
  next
    case False
    let ?vs = "reg_write legal ds (op_written n op w (reg_read ds (s a))) (s a)"
    obtain cv' where p: "predict_csr_val ops legal op b cv (ce_write_fields e) (ce_read_mask e) =
        Inr (''0x'' @ hex_pad (n div 4) (reg_read ds (s a)), cv')"
      "reg_ok rep legal n ds (ce_write_fields e) (ce_read_mask e) cv' ?vs"
      using predict_ok [OF assms(1-3,6) b(2) assms(4)] by blast
    have h: "ba_hex ops b = Inr (hex_pad (n div 4) w)"
      using law_hex [OF assms(1) holds_nonempty [OF b(2)]] b(2) assms(2,3) by (auto simp: holds_def)
    have "gen_access ops legal (int n) (CHR ''x'' # show_nat rs) (CHR ''x'' # show_nat rd) e op i (out, cv, t) =
        Inr (out @ map (line_text n) (action_lines rs rd (Access op a w (reg_read ds (s a)))), cv', t')"
      using ne False unfolding gen_access_def is_imm_def prod.case b(1) bnd_simps
      by (simp add: h p(1) assms(7) is_imm_def)
    moreover have "after (described legal n descs) (Access op a w (reg_read ds (s a))) s = s(a := ?vs)"
      using False by (intro described_after [where s = s and a = a, OF assms(6,8,4)]) simp
    ultimately show ?thesis using p(2) ag by blast
  qed
qed

lemma gen_final_ok:
  assumes "lawful ops rep" and "8 dvd n" and "32 \<le> n"
    and "reg_ok rep legal n ds (ce_write_fields e) (ce_read_mask e) cv (s a)" and "ce_address e = a"
    and "table n descs a = ds"
  shows "\<exists>p cv'. gen_final ops legal (int n) (CHR ''x'' # show_nat rs) (CHR ''x'' # show_nat rd) e (out, cv, t) =
      Inr (out @ map (line_text n) (action_lines rs rd (Final a p)), cv', t) \<and>
    agrees (described legal n descs) (Final a p) s \<and>
    reg_ok rep legal n ds (ce_write_fields e) (ce_read_mask e) cv' (s a)"
proof -
  obtain z where z: "of_uint ops 0 (int n) = Inr z" "holds rep n z 0"
    using holds_of_uint [OF assms(1), of n 0] assms(3) by auto
  have op: "''csrrs'' \<in> set csr_ops" by (simp add: csr_ops_def)
  have w: "op_written n ''csrrs'' 0 (reg_read ds (s a)) = reg_read ds (s a)" by (simp add: op_written_def)
  obtain cv' where p: "predict_csr_val ops legal ''csrrs'' z cv (ce_write_fields e) (ce_read_mask e) =
      Inr (''0x'' @ hex_pad (n div 4) (reg_read ds (s a)), cv')"
    "reg_ok rep legal n ds (ce_write_fields e) (ce_read_mask e) cv' (s a)"
    using predict_ok [OF assms(1-4) z(2) op] read_back [OF assms(4)] unfolding w by auto
  have "gen_final ops legal (int n) (CHR ''x'' # show_nat rs) (CHR ''x'' # show_nat rd) e (out, cv, t) =
      Inr (out @ map (line_text n) (action_lines rs rd (Final a (reg_read ds (s a)))), cv', t)"
    by (simp add: gen_final_def z(1) p(1) assms(5))
  moreover have "agrees (described legal n descs) (Final a (reg_read ds (s a))) s"
    by (simp add: described_def assms(6))
  ultimately show ?thesis using p(2) by blast
qed

section \<open>All accesses of a register\<close>

abbreviation texts :: "nat \<Rightarrow> nat \<Rightarrow> nat \<Rightarrow> action list \<Rightarrow> string list" where
  "texts n rs rd acts \<equiv> map (line_text n) (concat (map (action_lines rs rd) acts))"

definition pair_accesses :: "bool \<Rightarrow> string list \<Rightarrow> int \<Rightarrow> string \<times> nat \<Rightarrow> (string \<times> int) list" where
  "pair_accesses is_last ops a = (\<lambda>(op, i).
     (op, a) # (if is_last \<and> op = last ops \<and> i = 2 then [(''csrr'', a)] else []))"

lemma gen_pairs_ok:
  assumes "lawful ops rep" and "8 dvd n" and "32 \<le> n" and "ce_address e = a" and "table n descs a = ds"
    and "\<forall>(op, i) \<in> set ps. op \<in> set csr_ops \<and> i < 3"
    and "reg_ok rep legal n ds (ce_write_fields e) (ce_read_mask e) cv (s a)"
  shows "\<exists>acts cv' t' vs'.
    foldR (\<lambda>st (op, i).
        bnd (gen_access ops legal (int n) (CHR ''x'' # show_nat rs) (CHR ''x'' # show_nat rd) e op i st) (\<lambda>st.
        if csr = last_csr \<and> op = last instrs \<and> i = 2
        then gen_final ops legal (int n) (CHR ''x'' # show_nat rs) (CHR ''x'' # show_nat rd) e st else Inr st))
      (out, cv, t) ps = Inr (out @ texts n rs rd acts, cv', t') \<and>
    all_agree (described legal n descs) acts s \<and> run_actions (described legal n descs) acts s = s(a := vs') \<and>
    concat (map action_access acts) = concat (map (pair_accesses (csr = last_csr) instrs a) ps)"
  using assms(6,7)
proof (induction ps arbitrary: out cv t s)
  case Nil
  have "\<exists>vs'. s = s(a := vs')" by (rule exI [of _ "s a"]) simp
  then show ?case by (intro exI [of _ "[]"]) (simp del: fun_upd_apply)
next
  case (Cons pr ps)
  obtain op i where pr: "pr = (op, i)" by fastforce
  then have o: "op \<in> set csr_ops" "i < 3" using Cons.prems(1) by auto
  have ps: "\<forall>(op, i) \<in> set ps. op \<in> set csr_ops \<and> i < 3" using Cons.prems(1) by simp
  let ?core = "described legal n descs"
  obtain w p cv1 t1 vs1 where g: "gen_access ops legal (int n) (CHR ''x'' # show_nat rs) (CHR ''x'' # show_nat rd) e op i (out, cv, t) =
      Inr (out @ map (line_text n) (action_lines rs rd (Access op a w p)), cv1, t1)"
    "agrees ?core (Access op a w p) s" "after ?core (Access op a w p) s = s(a := vs1)"
    "reg_ok rep legal n ds (ce_write_fields e) (ce_read_mask e) cv1 vs1"
    using gen_access_ok [where s = s and a = a, OF assms(1-3) o Cons.prems(2) assms(4,5)] by blast
  let ?s1 = "s(a := vs1)"
  have r1: "reg_ok rep legal n ds (ce_write_fields e) (ce_read_mask e) cv1 (?s1 a)" using g(4) by simp
  show ?case
  proof (cases "csr = last_csr \<and> op = last instrs \<and> i = 2")
    case True
    let ?out1 = "out @ map (line_text n) (action_lines rs rd (Access op a w p))"
    obtain q cv2 where f: "gen_final ops legal (int n) (CHR ''x'' # show_nat rs) (CHR ''x'' # show_nat rd) e (?out1, cv1, t1) =
        Inr (?out1 @ map (line_text n) (action_lines rs rd (Final a q)), cv2, t1)"
      "agrees ?core (Final a q) ?s1" "reg_ok rep legal n ds (ce_write_fields e) (ce_read_mask e) cv2 (?s1 a)"
      using gen_final_ok [where s = ?s1 and a = a, OF assms(1-3) r1 assms(4,5)] by blast
    obtain acts cv' t' vs' where r: "foldR (\<lambda>st (op, i).
          bnd (gen_access ops legal (int n) (CHR ''x'' # show_nat rs) (CHR ''x'' # show_nat rd) e op i st) (\<lambda>st.
          if csr = last_csr \<and> op = last instrs \<and> i = 2
          then gen_final ops legal (int n) (CHR ''x'' # show_nat rs) (CHR ''x'' # show_nat rd) e st else Inr st))
        (?out1 @ map (line_text n) (action_lines rs rd (Final a q)), cv2, t1) ps =
        Inr ((?out1 @ map (line_text n) (action_lines rs rd (Final a q))) @ texts n rs rd acts, cv', t')"
      "all_agree ?core acts ?s1" "run_actions ?core acts ?s1 = ?s1(a := vs')"
      "concat (map action_access acts) = concat (map (pair_accesses (csr = last_csr) instrs a) ps)"
      using Cons.IH [where s = ?s1 and cv = cv2 and t = t1
        and out = "?out1 @ map (line_text n) (action_lines rs rd (Final a q))", OF ps f(3)] by blast
    show ?thesis
      by (intro exI [of _ "Access op a w p # Final a q # acts"] exI [of _ cv'] exI [of _ t'] exI [of _ vs'])
        (use True g f r in \<open>simp add: pr pair_accesses_def del: action_lines.simps fun_upd_apply\<close>)
  next
    case False
    obtain acts cv' t' vs' where r: "foldR (\<lambda>st (op, i).
          bnd (gen_access ops legal (int n) (CHR ''x'' # show_nat rs) (CHR ''x'' # show_nat rd) e op i st) (\<lambda>st.
          if csr = last_csr \<and> op = last instrs \<and> i = 2
          then gen_final ops legal (int n) (CHR ''x'' # show_nat rs) (CHR ''x'' # show_nat rd) e st else Inr st))
        (out @ map (line_text n) (action_lines rs rd (Access op a w p)), cv1, t1) ps =
        Inr ((out @ map (line_text n) (action_lines rs rd (Access op a w p))) @ texts n rs rd acts, cv', t')"
      "all_agree ?core acts ?s1" "run_actions ?core acts ?s1 = ?s1(a := vs')"
      "concat (map action_access acts) = concat (map (pair_accesses (csr = last_csr) instrs a) ps)"
      using Cons.IH [where s = ?s1 and cv = cv1 and t = t1
        and out = "out @ map (line_text n) (action_lines rs rd (Access op a w p))", OF ps r1] by blast
    show ?thesis
      by (intro exI [of _ "Access op a w p # acts"] exI [of _ cv'] exI [of _ t'] exI [of _ vs'])
        (use False g r in \<open>auto simp add: pr pair_accesses_def simp del: action_lines.simps fun_upd_apply\<close>)
  qed
qed

definition csr_accesses :: "bool \<Rightarrow> string list \<Rightarrow> csr_desc \<Rightarrow> (string \<times> int) list" where
  "csr_accesses is_last ops d = concat (map (pair_accesses is_last ops (cd_address d)) (List.product ops [0, 1, 2]))"

lemma gen_csr_ok:
  assumes "lawful ops rep" and "8 dvd n" and "32 \<le> n" and "stands_for rep n e d" and "desc_ok legal n d"
    and "table n descs (cd_address d) = fields_at n d" and "s (cd_address d) = reg_reset (fields_at n d)"
    and "set instrs \<subseteq> set csr_ops"
  shows "\<exists>acts t' vs'. gen_csr ops legal instrs (int n) (CHR ''x'' # show_nat rs) (CHR ''x'' # show_nat rd) last_csr (out, t) e =
      Inr (out @ texts n rs rd acts, t') \<and>
    all_agree (described legal n descs) acts s \<and>
    run_actions (described legal n descs) acts s = s(cd_address d := vs') \<and>
    concat (map action_access acts) = csr_accesses (cd_csr d = last_csr) instrs d"
proof -
  obtain csr x where e: "e = (csr, x)" by fastforce
  have c: "csr = cd_csr d" "ce_address x = cd_address d"
    "entry_ok rep n (fields_at n d) (ce_value x) (ce_write_fields x) (ce_read_mask x)"
    using assms(4) by (simp_all add: stands_for_def e)
  have "list_all2 (settled legal) (fields_at n d) (reg_reset (fields_at n d))"
    using assms(5) by (auto simp: desc_ok_def field_legal_def reg_reset_def list_all2_conv_all_nth)
  then have "reg_ok rep legal n (fields_at n d) (ce_write_fields x) (ce_read_mask x) (ce_value x) (s (cd_address d))"
    using c(3) assms(5,7) unfolding reg_ok_def entry_ok_def desc_ok_def by auto
  moreover have "\<forall>(op, i) \<in> set (List.product instrs [0, 1, 2 :: nat]). op \<in> set csr_ops \<and> i < 3"
    using assms(8) by auto
  ultimately obtain acts cv' t' vs' where r: "foldR (\<lambda>st (op, i).
        bnd (gen_access ops legal (int n) (CHR ''x'' # show_nat rs) (CHR ''x'' # show_nat rd) x op i st) (\<lambda>st.
        if csr = last_csr \<and> op = last instrs \<and> i = 2
        then gen_final ops legal (int n) (CHR ''x'' # show_nat rs) (CHR ''x'' # show_nat rd) x st else Inr st))
      (out @ [tab @ ''# '' @ csr @ newline], ce_value x, t) (List.product instrs [0, 1, 2]) =
      Inr ((out @ [tab @ ''# '' @ csr @ newline]) @ texts n rs rd acts, cv', t')"
    "all_agree (described legal n descs) acts s" "run_actions (described legal n descs) acts s = s(cd_address d := vs')"
    "concat (map action_access acts) =
       concat (map (pair_accesses (csr = last_csr) instrs (cd_address d)) (List.product instrs [0, 1, 2]))"
    using gen_pairs_ok [OF assms(1-3) c(2) assms(6), where s = s and ps = "List.product instrs [0, 1, 2]" and csr = csr
        and last_csr = last_csr and instrs = instrs and out = "out @ [tab @ ''# '' @ csr @ newline]" and t = t
        and rs = rs and rd = rd] by blast
  show ?thesis
    by (intro exI [of _ "Note csr # acts"] exI [of _ t'] exI [of _ vs'])
      (use r c(1) in \<open>simp add: gen_csr_def e csr_accesses_def del: product.simps\<close>)
qed

section \<open>All registers\<close>

lemma gen_csrs_ok:
  assumes "lawful ops rep" and "8 dvd n" and "32 \<le> n" and "list_all2 (stands_for rep n) es ds"
    and "\<forall>d \<in> set ds. desc_ok legal n d \<and> table n descs (cd_address d) = fields_at n d \<and>
      s (cd_address d) = reg_reset (fields_at n d)"
    and "distinct (map cd_address ds)" and "set instrs \<subseteq> set csr_ops"
  shows "\<exists>acts t'. foldR (gen_csr ops legal instrs (int n) (CHR ''x'' # show_nat rs) (CHR ''x'' # show_nat rd) last_csr)
      (out, t) es = Inr (out @ texts n rs rd acts, t') \<and>
    all_agree (described legal n descs) acts s \<and>
    concat (map action_access acts) = concat (map (\<lambda>d. csr_accesses (cd_csr d = last_csr) instrs d) ds)"
  using assms(4-6)
proof (induction arbitrary: out t s rule: list_all2_induct)
  case Nil
  show ?case by (rule exI [of _ "[]"]) simp
next
  case (Cons e es d ds)
  let ?core = "described legal n descs"
  have d: "desc_ok legal n d" "table n descs (cd_address d) = fields_at n d"
    "s (cd_address d) = reg_reset (fields_at n d)" using Cons.prems(1) by simp_all
  obtain acts1 t1 vs1 where g: "gen_csr ops legal instrs (int n) (CHR ''x'' # show_nat rs) (CHR ''x'' # show_nat rd) last_csr (out, t) e =
      Inr (out @ texts n rs rd acts1, t1)" "all_agree ?core acts1 s" "run_actions ?core acts1 s = s(cd_address d := vs1)"
    "concat (map action_access acts1) = csr_accesses (cd_csr d = last_csr) instrs d"
    using gen_csr_ok [where s = s, OF assms(1-3) Cons.hyps(1) d assms(7)] by blast
  have "\<forall>d' \<in> set ds. desc_ok legal n d' \<and> table n descs (cd_address d') = fields_at n d' \<and>
      (s(cd_address d := vs1)) (cd_address d') = reg_reset (fields_at n d')"
  proof
    fix d' assume i: "d' \<in> set ds"
    then have "cd_address d' \<noteq> cd_address d" using Cons.prems(2) by (auto simp: image_iff)
    then show "desc_ok legal n d' \<and> table n descs (cd_address d') = fields_at n d' \<and>
        (s(cd_address d := vs1)) (cd_address d') = reg_reset (fields_at n d')"
      using Cons.prems(1) i by simp
  qed
  moreover have "distinct (map cd_address ds)" using Cons.prems(2) by simp
  ultimately obtain acts t' where r: "foldR (gen_csr ops legal instrs (int n) (CHR ''x'' # show_nat rs) (CHR ''x'' # show_nat rd) last_csr)
      (out @ texts n rs rd acts1, t1) es = Inr ((out @ texts n rs rd acts1) @ texts n rs rd acts, t')"
    "all_agree ?core acts (s(cd_address d := vs1))"
    "concat (map action_access acts) = concat (map (\<lambda>d. csr_accesses (cd_csr d = last_csr) instrs d) ds)"
    using Cons.IH [of "s(cd_address d := vs1)" "out @ texts n rs rd acts1" t1] by blast
  show ?case
    by (intro exI [of _ "acts1 @ acts"] exI [of _ t'])
      (use g r in \<open>simp add: all_agree_append del: fun_upd_apply\<close>)
qed

lemma table_found:
  assumes "distinct (map cd_address descs)" and "d \<in> set descs"
  shows "table n descs (cd_address d) = fields_at n d"
proof -
  have "find (\<lambda>d'. cd_address d' = cd_address d) descs = Some d"
    using assms by (induction descs) (auto simp: image_iff)
  then show ?thesis by (simp add: table_def)
qed

text \<open>The accesses a test is meant to make.\<close>

definition planned :: "csr_desc list \<Rightarrow> (string \<times> int) list" where
  "planned descs = concat (map (\<lambda>d. concat (map (\<lambda>op. replicate 3 (op, cd_address d)) csr_ops)) descs) @
     (if descs = [] then [] else [(''csrr'', cd_address (last descs))])"

lemma csr_accesses_plain: "csr_accesses False csr_ops d = concat (map (\<lambda>op. replicate 3 (op, cd_address d)) csr_ops)"
  by (simp add: csr_accesses_def csr_ops_def pair_accesses_def numeral_eq_Suc)

lemma csr_accesses_last: "csr_accesses True csr_ops d = csr_accesses False csr_ops d @ [(''csrr'', cd_address d)]"
  by (simp add: csr_accesses_def csr_ops_def pair_accesses_def numeral_eq_Suc)

lemma planned_accesses:
  assumes "distinct (map cd_csr descs)" and "descs \<noteq> []"
  shows "concat (map (\<lambda>d. csr_accesses (cd_csr d = cd_csr (last descs)) csr_ops d) descs) = planned descs"
proof -
  obtain ds l where l: "descs = ds @ [l]" using assms(2) by (cases descs rule: rev_cases) auto
  have "cd_csr d \<noteq> cd_csr l" if "d \<in> set ds" for d using assms(1) that by (auto simp: l image_iff)
  then have m: "map (\<lambda>d. csr_accesses (cd_csr d = cd_csr l) csr_ops d) ds =
      map (\<lambda>d. concat (map (\<lambda>op. replicate 3 (op, cd_address d)) csr_ops)) ds"
    by (intro map_cong) (simp_all add: csr_accesses_plain)
  have "csr_accesses True csr_ops l =
      concat (map (\<lambda>op. replicate 3 (op, cd_address l)) csr_ops) @ [(''csrr'', cd_address l)]"
    using csr_accesses_last csr_accesses_plain by metis
  then show ?thesis by (simp add: l planned_def m)
qed

section \<open>A file\<close>

lemma test_file_ok:
  assumes "lawful ops rep" and "8 dvd n" and "32 \<le> n" and "descs_ok legal n descs"
    and "list_all2 (stands_for rep n) es descs"
  shows "\<exists>ls t'. gen_test_file ops legal es csr_ops (int n) end_addr t = Inr (ls, t') \<and> (\<exists>prog.
      ls = gen_setup @ map (line_text n) prog @ gen_csr_test_pass end_addr @ gen_csr_test_fail end_addr \<and>
      accesses prog = planned descs \<and>
      (\<forall>regs. passes (described legal n descs) prog regs (described_reset n descs)) \<and>
      (\<forall>(core :: 's csr_core) s regs. passes core prog regs s \<longleftrightarrow>
         observed core prog regs s = observed (described legal n descs) prog regs (described_reset n descs)))"
proof -
  obtain xs t1 where x: "sample 2 [1 ..< 16] t = Inr (xs, t1)" "distinct xs" "length xs = 2"
    using sample_ok [of "[1 ..< 16]" 2 t] by auto
  let ?rs = "xs ! 0" and ?rd = "xs ! 1" and ?core = "described legal n descs"
  have ne: "?rs \<noteq> ?rd" using x(2,3) by (simp add: nth_eq_iff_index_eq)
  have tab: "\<forall>d \<in> set descs. desc_ok legal n d \<and> table n descs (cd_address d) = fields_at n d \<and>
      described_reset n descs (cd_address d) = reg_reset (fields_at n d)"
    using assms(4) table_found by (auto simp: descs_ok_def described_reset_def)
  have addr: "distinct (map cd_address descs)" using assms(4) by (simp add: descs_ok_def)
  obtain acts t' where g: "foldR (gen_csr ops legal csr_ops (int n) (CHR ''x'' # show_nat ?rs) (CHR ''x'' # show_nat ?rd) (fst (last es)))
      (gen_setup, t1) es = Inr (gen_setup @ texts n ?rs ?rd acts, t')" "all_agree ?core acts (described_reset n descs)"
    "concat (map action_access acts) = concat (map (\<lambda>d. csr_accesses (cd_csr d = fst (last es)) csr_ops d) descs)"
    using gen_csrs_ok [OF assms(1-3,5) tab addr subset_refl] by blast
  let ?prog = "concat (map (action_lines ?rs ?rd) acts)"
  have "gen_test_file ops legal es csr_ops (int n) end_addr t =
      Inr (gen_setup @ map (line_text n) ?prog @ gen_csr_test_pass end_addr @ gen_csr_test_fail end_addr, t')"
    unfolding gen_test_file_def x(1) bnd_simps prod.case Let_def g(1) by simp
  moreover have "accesses ?prog = planned descs"
  proof (cases "descs = []")
    case True
    then show ?thesis using g(3) unfolding accesses_actions by (simp add: planned_def)
  next
    case False
    then obtain ds l where l: "descs = ds @ [l]" by (cases descs rule: rev_cases) auto
    then obtain es' e where "es = es' @ [e]" "stands_for rep n e l" using assms(5) by (auto simp: list_all2_append2 list_all2_Cons2)
    then have "fst (last es) = cd_csr (last descs)" by (simp add: l stands_for_def)
    then show ?thesis
      using planned_accesses [OF _ False] assms(4) g(3) by (simp add: accesses_actions descs_ok_def)
  qed
  moreover have "\<forall>regs. passes ?core ?prog regs (described_reset n descs)"
    using g(2) unfolding passes_actions [OF ne] by simp
  moreover have "\<forall>(core :: 's csr_core) s regs. passes core ?prog regs s \<longleftrightarrow>
      observed core ?prog regs s = observed ?core ?prog regs (described_reset n descs)"
    using g(2) unfolding passes_actions [OF ne] observed_actions [OF ne] all_agree_iff by simp
  ultimately show ?thesis by blast
qed

lemma files_ok:
  assumes "\<And>t. \<exists>ls t'. gen_test_file ops legal es instrs n end_addr t = Inr (ls, t') \<and> P ls"
  shows "\<exists>files t'. gen_csr_test_files ops legal es instrs n iterations out_dir end_addr t = Inr (files, t') \<and>
    length files = iterations \<and> (\<forall>(name, ls) \<in> set files. P ls)"
proof -
  let ?step = "\<lambda>(files, t) i. bnd (gen_test_file ops legal es instrs n end_addr t) (\<lambda>(lines, t).
    Inr (files @ [(out_dir @ ''/riscv_csr_test_'' @ show_nat i @ ''.S'', lines)], t))"
  have "\<exists>files' t'. foldR ?step (files, t) is = Inr (files @ files', t') \<and> length files' = length is \<and>
      (\<forall>(name, ls) \<in> set files'. P ls)" for files t "is"
  proof (induction "is" arbitrary: files t)
    case Nil
    then show ?case by simp
  next
    case (Cons i "is")
    obtain ls t1 where l: "gen_test_file ops legal es instrs n end_addr t = Inr (ls, t1)" "P ls" using assms by blast
    let ?f = "(out_dir @ ''/riscv_csr_test_'' @ show_nat i @ ''.S'', ls)"
    obtain files' t' where r: "foldR ?step (files @ [?f], t1) is = Inr ((files @ [?f]) @ files', t')"
      "length files' = length is" "\<forall>(name, ls) \<in> set files'. P ls"
      using Cons.IH [of "files @ [?f]" t1] by blast
    then show ?case using l by (intro exI [of _ "?f # files'"] exI [of _ t']) simp
  qed
  from this [of "[]" t "[0 ..< iterations]"] show ?thesis by (simp add: gen_csr_test_files_def)
qed

end
