(* ===== verification/Csr_Theorems.thy ===== *)
theory Csr_Theorems
  imports Csr_Gen
begin

text \<open>The property of the generated tests of control registers.\<close>

text \<open>
  C4. For descriptions whose fields are apart and whose legalised values are legal, the generator
  succeeds and writes as many files as asked. Each is a program that accesses every described register with
  all six instructions, three times each, and reads the last one once more; it passes on
  the described core; and any core passes it exactly if every value it reads is the one that the
  described core has there. So a test neither rejects a core that follows the description nor misses a wrong
  value at one of its accesses.
\<close>

theorem csr_test_exact:
  assumes "lawful ops rep" and "8 dvd n" and "32 \<le> n" and "descs_ok legal n descs"
  shows "\<exists>files t'. csr_test_main ops legal descs (int n) iterations out_dir end_addr t = Inr (files, t') \<and>
    length files = iterations \<and>
    (\<forall>(name, ls) \<in> set files. \<exists>prog.
      ls = gen_setup @ map (line_text n) prog @ gen_csr_test_pass end_addr @ gen_csr_test_fail end_addr \<and>
      accesses prog = planned descs \<and>
      (\<forall>regs. passes (described legal n descs) prog regs (described_reset n descs)) \<and>
      (\<forall>(core :: 's csr_core) s regs. passes core prog regs s \<longleftrightarrow>
         observed core prog regs s = observed (described legal n descs) prog regs (described_reset n descs)))"
proof -
  obtain es where es: "get_csr_map ops descs (int n) = Inr es" "list_all2 (stands_for rep n) es descs"
    using get_csr_map_ok [OF assms(1,2) _ assms(4)] assms(3) by auto
  show ?thesis
    unfolding csr_test_main_def es(1) bnd_simps by (rule files_ok) (rule test_file_ok [OF assms es(2)])
qed

text \<open>The example of the template: \<open>misa\<close> with a legalised field, and a register with a read-only field.\<close>

definition template_misa :: csr_desc where
  "template_misa =
     \<lparr>cd_csr = ''misa'', cd_address = 0x301,
      cd_rv = [(''rv32'',
        [\<lparr>fd_type = ''R'', fd_reset_val = 1, fd_msb = 31, fd_lsb = 30, fd_warl_legalize = None\<rparr>,
         \<lparr>fd_type = ''WPRI'', fd_reset_val = 0, fd_msb = 29, fd_lsb = 26, fd_warl_legalize = None\<rparr>,
         \<lparr>fd_type = ''WARL'', fd_reset_val = 0x104, fd_msb = 25, fd_lsb = 0,
          fd_warl_legalize = Some ''val_out = (val_in & 0x4) | 0x100''\<rparr>])]\<rparr>"

definition template_scratch :: csr_desc where
  "template_scratch =
     \<lparr>cd_csr = ''mscratch'', cd_address = 0x340,
      cd_rv = [(''rv32'',
        [\<lparr>fd_type = ''WLRL'', fd_reset_val = 0, fd_msb = 31, fd_lsb = 0, fd_warl_legalize = None\<rparr>])]\<rparr>"

definition template_legal :: "string \<Rightarrow> int \<Rightarrow> int \<Rightarrow> int" where
  "template_legal py val_in val_orig = (if bit val_in 2 then 0x104 else 0x100)"

lemma template_ok: "descs_ok template_legal 32 [template_misa, template_scratch]"
proof -
  have s: "show_int (int 32) = ''32''" by code_simp
  have "fields_at 32 template_misa = [\<lparr>fd_type = ''R'', fd_reset_val = 1, fd_msb = 31, fd_lsb = 30, fd_warl_legalize = None\<rparr>,
      \<lparr>fd_type = ''WARL'', fd_reset_val = 0x104, fd_msb = 25, fd_lsb = 0,
       fd_warl_legalize = Some ''val_out = (val_in & 0x4) | 0x100''\<rparr>]"
    "fields_at 32 template_scratch = [\<lparr>fd_type = ''WLRL'', fd_reset_val = 0, fd_msb = 31, fd_lsb = 0, fd_warl_legalize = None\<rparr>]"
    unfolding fields_at_def s by (simp_all add: template_misa_def template_scratch_def active_def)
  moreover have "bit (0x104 :: int) 2" "\<not> bit (0x100 :: int) 2" by code_simp+
  ultimately show ?thesis
    using s by (simp add: descs_ok_def desc_ok_def field_ok_def field_legal_def legal_fits_def settled_def apart_def
        fsize_def template_legal_def) (simp add: template_misa_def template_scratch_def)
qed

theorem csr_test_exact_witness:
  "\<exists>name ls t' prog. csr_test_main list_bits template_legal [template_misa, template_scratch] 32 1 ''out'' ''8000'' [3, 1, 4] =
       Inr ([(name, ls)], t') \<and>
     ls = gen_setup @ map (line_text 32) prog @ gen_csr_test_pass ''8000'' @ gen_csr_test_fail ''8000'' \<and>
     length (accesses prog) = 37 \<and>
     passes (described template_legal 32 [template_misa, template_scratch]) prog (\<lambda>r. 0)
       (described_reset 32 [template_misa, template_scratch])"
proof -
  have l: "length (planned [template_misa, template_scratch]) = 37" by (simp add: planned_def csr_ops_def)
  have "8 dvd (32 :: nat)" "32 \<le> (32 :: nat)" by simp_all
  from csr_test_exact [OF list_bits_lawful this template_ok, of 1 "''out''" "''8000''" "[3, 1, 4]"]
  obtain files t' where f: "csr_test_main list_bits template_legal [template_misa, template_scratch] (int 32) 1 ''out'' ''8000'' [3, 1, 4] =
      Inr (files, t')" "length files = 1"
    "\<forall>(name, ls) \<in> set files. \<exists>prog.
      ls = gen_setup @ map (line_text 32) prog @ gen_csr_test_pass ''8000'' @ gen_csr_test_fail ''8000'' \<and>
      accesses prog = planned [template_misa, template_scratch] \<and>
      (\<forall>regs. passes (described template_legal 32 [template_misa, template_scratch]) prog regs
        (described_reset 32 [template_misa, template_scratch]))" by fast
  then obtain name ls where "files = [(name, ls)]" by (cases files) auto
  with f l show ?thesis by (simp only: of_nat_numeral) auto
qed

end
