(* ===== verification/Reggen_Cheader.thy ===== *)
theory Reggen_Cheader
  imports Reggen_Ipblock
begin

text \<open>
  \<open>reggen/gen_cheader.py\<close>: the C header with the offsets, bits and masks of a parsed block. The state of the
  generator is the text written so far and the names defined so far. How a comment is
  wrapped into lines (\<open>textwrap.wrap\<close>) is the parameter \<open>wrap\<close>.
\<close>

section \<open>Text\<close>

definition nl :: string where
  "nl = [newline]"

type_synonym cstate = "string \<times> string list"

definition genout :: "string \<Rightarrow> cstate \<Rightarrow> cstate" where
  "genout msg st = (fst st @ msg, snd st)"

definition to_snake_case :: "string \<Rightarrow> string" where
  "to_snake_case s = (case s of [] \<Rightarrow> [] | c # cs \<Rightarrow>
     c # concat (map (\<lambda>ch. if is_upper ch then [CHR ''_'', ch] else [ch]) cs))"

definition as_define :: "string \<Rightarrow> string" where
  "as_define s = map (\<lambda>c. if is_alnum c then c else CHR ''_'') (str_upper s)"

text \<open>\<open>str.splitlines\<close>: the line boundaries among the 8-bit characters; a return before a newline belongs to it.\<close>

definition line_break :: "char \<Rightarrow> bool" where
  "line_break c \<longleftrightarrow> ord_of c \<in> {10, 11, 12, 13, 28, 29, 30, 133}"

lemma dropWhile_shorter: "dropWhile P s = b # bs \<Longrightarrow> length bs < length s"
  by (metis length_Cons length_dropWhile_le less_eq_Suc_le)

function splitlines :: "string \<Rightarrow> string list" where
  "splitlines [] = []"
| "splitlines (c # cs) =
     (let s = c # cs; line = takeWhile (\<lambda>c. \<not> line_break c) s; rest = dropWhile (\<lambda>c. \<not> line_break c) s in
      case rest of
        [] \<Rightarrow> [line]
      | b # bs \<Rightarrow> line # splitlines (if ord_of b = 13 \<and> bs \<noteq> [] \<and> ord_of (hd bs) = 10 then tl bs else bs))"
  by pat_completeness auto

termination
proof (relation "measure length")
  fix c cs s line rest b bs
  assume "s = c # cs" "rest = dropWhile (\<lambda>c. \<not> line_break c) s" "rest = b # bs"
  then have "dropWhile (\<lambda>c. \<not> line_break c) (c # cs) = b # bs" by simp
  from dropWhile_shorter [OF this] have "length bs < Suc (length cs)" by simp
  then show "(if ord_of b = 13 \<and> bs \<noteq> [] \<and> ord_of (hd bs) = 10 then tl bs else bs, c # cs) \<in> measure length"
    by auto
qed simp

definition first_line :: "string \<Rightarrow> string res" where
  "first_line s = (case splitlines s of [] \<Rightarrow> Inl IndexError | l # ls \<Rightarrow> Inr l)"

fun join_nl :: "string list \<Rightarrow> string" where
  "join_nl [] = []"
| "join_nl [l] = l"
| "join_nl (l # ls) = l @ nl @ join_nl ls"

definition format_comment :: "(string \<Rightarrow> string list) \<Rightarrow> string \<Rightarrow> string" where
  "format_comment wrap s = join_nl (wrap s) @ nl"

definition comment_out :: "(string \<Rightarrow> string list) \<Rightarrow> string \<Rightarrow> cstate \<Rightarrow> cstate res" where
  "comment_out wrap s st = bnd (first_line s) (\<lambda>l. Inr (genout (format_comment wrap l) st))"

fun join_args :: "string list \<Rightarrow> string" where
  "join_args [] = []"
| "join_args [a] = a"
| "join_args (a # as) = a @ '', '' @ join_args as"

definition backslash :: char where
  "backslash = CHR 0x5C"

definition gen_define :: "string \<Rightarrow> string list \<Rightarrow> string \<Rightarrow> string list \<Rightarrow> string \<Rightarrow> (string \<times> string list) res" where
  "gen_define name args body existing_defines indent =
     (if name \<in> set existing_defines then Inl (SysExit 1)
      else let define_declare = (if args \<noteq> [] then ''#define '' @ name @ ''('' @ join_args args @ '')''
                                 else ''#define '' @ name);
               oneline_define = define_declare @ '' '' @ body
           in if length oneline_define \<le> 80 then Inr (oneline_define @ nl, existing_defines @ [name])
              else Inr (define_declare @ '' '' @ [backslash] @ nl @ indent @ body @ nl, existing_defines @ [name]))"

text \<open>\<open>genout(outstr, gen_define(name, [], body, existing_defines))\<close>\<close>

definition define_out :: "string \<Rightarrow> string \<Rightarrow> cstate \<Rightarrow> cstate res" where
  "define_out name body st =
     bnd (gen_define name [] body (snd st) ''  '') (\<lambda>(text, existing). Inr (fst st @ text, existing))"

section \<open>Registers and windows\<close>

definition field_text :: "string \<Rightarrow> string" where
  "field_text dname = ''((bitfield_field32_t) { .mask = '' @ dname @ ''_MASK, .index = '' @ dname @ ''_OFFSET })''"

definition gen_enum_define :: "string \<Rightarrow> cstate \<Rightarrow> enum_entry \<Rightarrow> cstate res" where
  "gen_enum_define dname st enum = define_out (dname @ ''_VALUE_'' @ as_define (e_name enum)) (py_hex (e_value enum)) st"

definition gen_field_defines :: "string \<Rightarrow> int \<Rightarrow> cstate \<Rightarrow> field \<Rightarrow> cstate res" where
  "gen_field_defines defname width st field =
     (let dname = defname @ ''_'' @ as_define (f_name field); field_width = bits_width (f_bits field) in
      if field_width = 1 then define_out (dname @ ''_BIT'') (show_int (b_lsb (f_bits field))) st
      else
        bnd (if field_width \<noteq> width
             then bnd (define_out (dname @ ''_MASK'')
                    (py_hex (drop_bit (nat (b_lsb (f_bits field))) (bitmask (f_bits field)))) st) (\<lambda>st.
                  bnd (define_out (dname @ ''_OFFSET'') (show_int (b_lsb (f_bits field))) st) (\<lambda>st.
                  define_out (dname @ ''_FIELD'') (field_text dname) st))
             else Inr st) (\<lambda>st.
        case f_enum field of None \<Rightarrow> Inr st | Some enums \<Rightarrow> foldR (gen_enum_define dname) st enums))"

definition gen_cdefine_register ::
  "(string \<Rightarrow> string list) \<Rightarrow> string \<Rightarrow> int \<Rightarrow> cstate \<Rightarrow> register \<Rightarrow> cstate res" where
  "gen_cdefine_register wrap component width st reg =
     bnd (comment_out wrap (r_desc reg) st) (\<lambda>st.
     let defname = as_define (component @ ''_'' @ r_name reg) in
     bnd (define_out (defname @ ''_REG_OFFSET'') (py_hex (r_offset reg)) st) (\<lambda>st.
     bnd (foldR (gen_field_defines defname width) st (r_fields reg)) (\<lambda>st.
     Inr (genout nl st))))"

definition gen_cdefine_window ::
  "(string \<Rightarrow> string list) \<Rightarrow> string \<Rightarrow> int \<Rightarrow> cstate \<Rightarrow> window \<Rightarrow> cstate res" where
  "gen_cdefine_window wrap component regwidth st win =
     bnd (first_line (w_desc win)) (\<lambda>l.
     let st = genout (format_comment wrap (''Memory area: '' @ l)) st; defname = as_define (component @ ''_'' @ w_name win) in
     bnd (define_out (defname @ ''_REG_OFFSET'') (py_hex (w_offset win)) st) (\<lambda>st.
     bnd (define_out (defname @ ''_SIZE_WORDS'') (show_int (w_items win)) st) (\<lambda>st.
     bnd (define_out (defname @ ''_SIZE_BYTES'') (show_int (w_items win * (regwidth div 8))) st) (\<lambda>st.
     if w_validbits win \<noteq> regwidth
     then define_out (defname @ ''_MASK '') (py_hex (push_bit (nat (w_validbits win)) 1 - 1)) st
     else Inr st))))"

section \<open>Parameters\<close>

definition gen_cdefines_module_param ::
  "(string \<Rightarrow> string list) \<Rightarrow> string \<Rightarrow> cstate \<Rightarrow> param \<Rightarrow> cstate res" where
  "gen_cdefines_module_param wrap module_name st param =
     (if p_type param \<noteq> ''int'' then Inr st
      else
        bnd (case p_desc param of None \<Rightarrow> Inr st | Some d \<Rightarrow> comment_out wrap d st) (\<lambda>st.
        let param_name = (if CHR ''_'' \<in> set (p_name param) then p_name param else to_snake_case (p_name param));
            define_name = as_define (module_name @ ''_PARAM_'' @ param_name)
        in bnd (define_out define_name (p_value param) st) (\<lambda>st. Inr (genout nl st))))"

definition gen_cdefines_module_params :: "(string \<Rightarrow> string list) \<Rightarrow> ip_block \<Rightarrow> cstate \<Rightarrow> cstate res" where
  "gen_cdefines_module_params wrap block st =
     bnd (foldR (gen_cdefines_module_param wrap (ip_name block)) st (get_localparams (ip_params block))) (\<lambda>st.
     bnd (comment_out wrap ''Register width'' st) (\<lambda>st.
     bnd (define_out (as_define (ip_name block @ ''_PARAM_REG_WIDTH'')) (show_int (ip_regwidth block)) st) (\<lambda>st.
     Inr (genout nl st))))"

section \<open>Multi-registers\<close>

definition gen_multireg_field_defines :: "string \<Rightarrow> field \<Rightarrow> nat \<Rightarrow> int \<Rightarrow> cstate \<Rightarrow> cstate res" where
  "gen_multireg_field_defines regname field subreg_num regwidth st =
     (let field_width = bits_width (f_bits field); fields_per_reg = regwidth div field_width in
      bnd (define_out (regname @ ''_'' @ as_define (f_name field @ ''_FIELD_WIDTH'')) (show_int field_width) st) (\<lambda>st.
      bnd (define_out (regname @ ''_'' @ as_define (f_name field @ ''_FIELDS_PER_REG'')) (show_int fields_per_reg) st) (\<lambda>st.
      bnd (define_out (regname @ ''_MULTIREG_COUNT'') (show_nat subreg_num) st) (\<lambda>st.
      Inr (genout nl st)))))"

definition gen_cdefine_multireg ::
  "(string \<Rightarrow> string list) \<Rightarrow> string \<Rightarrow> int \<Rightarrow> cstate \<Rightarrow> multireg \<Rightarrow> cstate res" where
  "gen_cdefine_multireg wrap component regwidth st mr =
     bnd (comment_out wrap (r_desc (m_reg mr) @ '' (common parameters)'') st) (\<lambda>st.
     bnd (case r_fields (m_reg mr) of
            [field] \<Rightarrow> gen_multireg_field_defines (as_define (component @ ''_'' @ r_name (m_reg mr))) field
                         (length (m_regs mr)) regwidth st
          | _ \<Rightarrow> Inr st) (\<lambda>st.
     foldR (gen_cdefine_register wrap component regwidth) st (m_regs mr)))"

section \<open>Interrupts\<close>

definition gen_cdefines_interrupt_field :: "string \<Rightarrow> int \<Rightarrow> cstate \<Rightarrow> signal \<Rightarrow> cstate res" where
  "gen_cdefines_interrupt_field component regwidth st interrupt =
     (let fieldlsb = b_lsb (s_bits interrupt); defname = as_define (component @ ''_INTR_COMMON_'' @ s_name interrupt) in
      if bits_width (s_bits interrupt) = 1 then define_out (defname @ ''_BIT'') (show_int fieldlsb) st
      else if bits_width (s_bits interrupt) \<noteq> regwidth
      then bnd (define_out (defname @ ''_MASK'') (py_hex (drop_bit (nat fieldlsb) (b_msb (s_bits interrupt)))) st) (\<lambda>st.
           bnd (define_out (defname @ ''_OFFSET'') (show_int fieldlsb) st) (\<lambda>st.
           define_out (defname @ ''_FIELD'') (field_text defname) st))
      else Inr st)"

definition gen_cdefines_interrupts :: "(string \<Rightarrow> string list) \<Rightarrow> ip_block \<Rightarrow> cstate \<Rightarrow> cstate res" where
  "gen_cdefines_interrupts wrap block st =
     (if ip_no_auto_intr block then Inr st
      else
        bnd (comment_out wrap ''Common Interrupt Offsets'' st) (\<lambda>st.
        bnd (foldR (gen_cdefines_interrupt_field (ip_name block) (ip_regwidth block)) st (ip_interrupts block)) (\<lambda>st.
        Inr (genout nl st))))"

section \<open>The header\<close>

definition gen_entry :: "(string \<Rightarrow> string list) \<Rightarrow> ip_block \<Rightarrow> cstate \<Rightarrow> entry \<Rightarrow> cstate res" where
  "gen_entry wrap block st x =
     (case x of
        EReg reg \<Rightarrow> gen_cdefine_register wrap (ip_name block) (ip_regwidth block) st reg
      | EMulti mr \<Rightarrow> gen_cdefine_multireg wrap (ip_name block) (ip_regwidth block) st mr
      | EWin win \<Rightarrow> gen_cdefine_window wrap (ip_name block) (ip_regwidth block) st win)"

definition gen_cdefines ::
  "(string \<Rightarrow> string list) \<Rightarrow> ip_block \<Rightarrow> string option \<Rightarrow> string \<Rightarrow> string res" where
  "gen_cdefines wrap block src_lic src_copy =
     bnd (gen_cdefines_module_params wrap block ([], [])) (\<lambda>st.
     bnd (gen_cdefines_interrupts wrap block st) (\<lambda>st.
     bnd (foldR (\<lambda>st (key, rb). foldR (gen_entry wrap block) st (rb_entries rb)) st (ip_reg_blocks block)) (\<lambda>st.
     let guard = ''_'' @ as_define (ip_name block) @ ''_REG_DEFS_'' in
     Inr (''// Generated register defines for '' @ ip_name block @ nl @ nl @
       (if src_copy \<noteq> [] then ''// Copyright information found in source file:'' @ nl @ ''// '' @ src_copy @ nl @ nl else []) @
       (case src_lic of None \<Rightarrow> []
        | Some lic \<Rightarrow> ''// Licensing information found in source file:'' @ nl @
            concat (map (\<lambda>line. ''// '' @ line @ nl) (splitlines lic)) @ nl) @
       ''#ifndef '' @ guard @ nl @ ''#define '' @ guard @ nl @ nl @
       ''#ifdef __cplusplus'' @ nl @ ''extern \"C\" {'' @ nl @ ''#endif'' @ nl @
       fst st @
       ''#ifdef __cplusplus'' @ nl @ ''}  // extern \"C\"'' @ nl @ ''#endif'' @ nl @
       ''#endif  // '' @ guard @ nl @
       ''// End generated register defines for '' @ ip_name block))))"

end
