(* ===== verification/Cheader_Items.thy ===== *)
theory Cheader_Items
  imports Reggen_Cheader
begin

text \<open>
  What the C header generator writes, as a list of items: a comment, a macro or an empty line. The
  list is a function of the block alone; the generator is one loop over it that writes the items and
  remembers the macro names.
\<close>

section \<open>Items\<close>

text \<open>A comment has a fixed text and a description, of which the first line is used.\<close>

datatype item = Comment string string | Define string string | Gap

definition emit :: "(string \<Rightarrow> string list) \<Rightarrow> cstate \<Rightarrow> item \<Rightarrow> cstate res" where
  "emit wrap st i =
     (case i of
        Comment before d \<Rightarrow> bnd (first_line d) (\<lambda>l. Inr (genout (format_comment wrap (before @ l)) st))
      | Define n b \<Rightarrow> define_out n b st
      | Gap \<Rightarrow> Inr (genout nl st))"

fun macros :: "item list \<Rightarrow> (string \<times> string) list" where
  "macros [] = []"
| "macros (Define n b # its) = (n, b) # macros its"
| "macros (Comment before d # its) = macros its"
| "macros (Gap # its) = macros its"

lemma macros_append [simp]: "macros (is1 @ is2) = macros is1 @ macros is2"
  by (induction is1 rule: macros.induct) simp_all

lemma macros_iff: "(n, b) \<in> set (macros its) \<longleftrightarrow> Define n b \<in> set its"
  by (induction its rule: macros.induct) auto

definition has_descriptions :: "item list \<Rightarrow> bool" where
  "has_descriptions its \<longleftrightarrow> (\<forall>before d. Comment before d \<in> set its \<longrightarrow> d \<noteq> [])"

lemma has_descriptions_simps [simp]:
  "has_descriptions []"
  "has_descriptions (Comment before d # its) \<longleftrightarrow> d \<noteq> [] \<and> has_descriptions its"
  "has_descriptions (Define n b # its) \<longleftrightarrow> has_descriptions its"
  "has_descriptions (Gap # its) \<longleftrightarrow> has_descriptions its"
  by (auto simp: has_descriptions_def)

definition define_text :: "string \<Rightarrow> string \<Rightarrow> string" where
  "define_text n b =
     (let l = ''#define '' @ n @ '' '' @ b in
      if length l \<le> 80 then l @ nl else ''#define '' @ n @ '' '' @ [backslash] @ nl @ ''  '' @ b @ nl)"

fun citem_text :: "(string \<Rightarrow> string list) \<Rightarrow> item \<Rightarrow> string" where
  "citem_text wrap (Comment before d) = format_comment wrap (before @ hd (splitlines d))"
| "citem_text wrap (Define n b) = define_text n b"
| "citem_text wrap Gap = nl"

lemma splitlines_empty: "splitlines d = [] \<longleftrightarrow> d = []"
  by (cases d rule: splitlines.cases) (auto simp: Let_def split: list.splits)

lemma first_line_eq: "first_line d = (if d = [] then Inl IndexError else Inr (hd (splitlines d)))"
  using splitlines_empty [of d] by (auto simp: first_line_def split: list.splits)

lemma define_out_eq:
  "define_out n b st =
     (if n \<in> set (snd st) then Inl (SysExit 1) else Inr (fst st @ define_text n b, snd st @ [n]))"
  by (simp add: define_out_def gen_define_def define_text_def Let_def)

lemma emit_simps [simp]:
  "emit wrap st (Comment before d) =
     (if d = [] then Inl IndexError else Inr (fst st @ citem_text wrap (Comment before d), snd st))"
  "emit wrap st (Define n b) =
     (if n \<in> set (snd st) then Inl (SysExit 1) else Inr (fst st @ citem_text wrap (Define n b), snd st @ [n]))"
  "emit wrap st Gap = Inr (fst st @ nl, snd st)"
  by (simp_all add: emit_def first_line_eq define_out_eq genout_def)

declare citem_text.simps [simp del]

section \<open>The loop\<close>

definition fresh :: "string list \<Rightarrow> item list \<Rightarrow> bool" where
  "fresh old its \<longleftrightarrow> distinct (map fst (macros its)) \<and> set (map fst (macros its)) \<inter> set old = {}"

lemma fresh_simps [simp]:
  "fresh old []"
  "fresh old (Comment before d # its) \<longleftrightarrow> fresh old its"
  "fresh old (Define n b # its) \<longleftrightarrow> n \<notin> set old \<and> fresh (old @ [n]) its"
  "fresh old (Gap # its) \<longleftrightarrow> fresh old its"
  by (auto simp: fresh_def)

lemma emits_Inr:
  "foldR (emit wrap) st its = Inr st' \<longleftrightarrow> has_descriptions its \<and> fresh (snd st) its \<and>
     st' = (fst st @ concat (map (citem_text wrap) its), snd st @ map fst (macros its))"
proof (induction its arbitrary: st)
  case Nil
  show ?case by (cases st) auto
next
  case (Cons i its)
  show ?case
  proof (cases i)
    case (Comment before d)
    then show ?thesis by (simp add: Cons.IH)
  next
    case (Define n b)
    then show ?thesis by (simp add: Cons.IH)
  next
    case Gap
    then show ?thesis by (simp add: Cons.IH citem_text.simps)
  qed
qed

lemma emits_Inl:
  "foldR (emit wrap) st its = Inl e \<Longrightarrow>
     e = IndexError \<and> \<not> has_descriptions its \<or> e = SysExit 1 \<and> \<not> fresh (snd st) its"
proof (induction its arbitrary: st)
  case Nil
  then show ?case by simp
next
  case (Cons i its)
  then show ?case by (cases i) (force split: if_splits)+
qed

lemma foldR_concat:
  assumes "\<And>s x. f s x = foldR g s (h x)"
  shows "foldR f s xs = foldR g s (concat (map h xs))"
  by (induction xs arbitrary: s) (simp_all add: assms foldR_append)

section \<open>The items of a block\<close>

definition field_items :: "string \<Rightarrow> int \<Rightarrow> field \<Rightarrow> item list" where
  "field_items defname width f =
     (let dname = defname @ ''_'' @ as_define (f_name f); b = f_bits f in
      if bits_width b = 1 then [Define (dname @ ''_BIT'') (show_int (b_lsb b))]
      else (if bits_width b \<noteq> width
            then [Define (dname @ ''_MASK'') (py_hex (drop_bit (nat (b_lsb b)) (bitmask b))),
                  Define (dname @ ''_OFFSET'') (show_int (b_lsb b)), Define (dname @ ''_FIELD'') (field_text dname)]
            else []) @
           (case f_enum f of None \<Rightarrow> []
            | Some es \<Rightarrow> map (\<lambda>e. Define (dname @ ''_VALUE_'' @ as_define (e_name e)) (py_hex (e_value e))) es))"

definition register_items :: "string \<Rightarrow> int \<Rightarrow> register \<Rightarrow> item list" where
  "register_items cname width reg =
     (let defname = as_define (cname @ ''_'' @ r_name reg) in
      [Comment [] (r_desc reg), Define (defname @ ''_REG_OFFSET'') (py_hex (r_offset reg))] @
      concat (map (field_items defname width) (r_fields reg)) @ [Gap])"

definition window_items :: "string \<Rightarrow> int \<Rightarrow> window \<Rightarrow> item list" where
  "window_items cname width win =
     (let defname = as_define (cname @ ''_'' @ w_name win) in
      [Comment ''Memory area: '' (w_desc win), Define (defname @ ''_REG_OFFSET'') (py_hex (w_offset win)),
       Define (defname @ ''_SIZE_WORDS'') (show_int (w_items win)),
       Define (defname @ ''_SIZE_BYTES'') (show_int (w_items win * (width div 8)))] @
      (if w_validbits win \<noteq> width
       then [Define (defname @ ''_MASK '') (py_hex (push_bit (nat (w_validbits win)) 1 - 1))] else []))"

definition param_macro :: "string \<Rightarrow> param \<Rightarrow> string" where
  "param_macro module p =
     as_define (module @ ''_PARAM_'' @ (if CHR ''_'' \<in> set (p_name p) then p_name p else to_snake_case (p_name p)))"

definition param_items :: "string \<Rightarrow> param \<Rightarrow> item list" where
  "param_items module p =
     (if p_type p \<noteq> ''int'' then []
      else (case p_desc p of None \<Rightarrow> [] | Some d \<Rightarrow> [Comment [] d]) @ [Define (param_macro module p) (p_value p), Gap])"

definition params_items :: "ip_block \<Rightarrow> item list" where
  "params_items block = concat (map (param_items (ip_name block)) (get_localparams (ip_params block))) @
     [Comment [] ''Register width'', Define (as_define (ip_name block @ ''_PARAM_REG_WIDTH'')) (show_int (ip_regwidth block)), Gap]"

definition multi_field_items :: "string \<Rightarrow> field \<Rightarrow> nat \<Rightarrow> int \<Rightarrow> item list" where
  "multi_field_items regname f n width =
     [Define (regname @ ''_'' @ as_define (f_name f @ ''_FIELD_WIDTH'')) (show_int (bits_width (f_bits f))),
      Define (regname @ ''_'' @ as_define (f_name f @ ''_FIELDS_PER_REG'')) (show_int (width div bits_width (f_bits f))),
      Define (regname @ ''_MULTIREG_COUNT'') (show_nat n), Gap]"

definition multi_items :: "string \<Rightarrow> int \<Rightarrow> multireg \<Rightarrow> item list" where
  "multi_items cname width mr =
     [Comment [] (r_desc (m_reg mr) @ '' (common parameters)'')] @
     (case r_fields (m_reg mr) of
        [f] \<Rightarrow> multi_field_items (as_define (cname @ ''_'' @ r_name (m_reg mr))) f (length (m_regs mr)) width
      | _ \<Rightarrow> []) @
     concat (map (register_items cname width) (m_regs mr))"

definition interrupt_items :: "string \<Rightarrow> int \<Rightarrow> signal \<Rightarrow> item list" where
  "interrupt_items cname width s =
     (let b = s_bits s; defname = as_define (cname @ ''_INTR_COMMON_'' @ s_name s) in
      if bits_width b = 1 then [Define (defname @ ''_BIT'') (show_int (b_lsb b))]
      else if bits_width b \<noteq> width
      then [Define (defname @ ''_MASK'') (py_hex (drop_bit (nat (b_lsb b)) (b_msb b))),
            Define (defname @ ''_OFFSET'') (show_int (b_lsb b)), Define (defname @ ''_FIELD'') (field_text defname)]
      else [])"

definition interrupts_items :: "ip_block \<Rightarrow> item list" where
  "interrupts_items block =
     (if ip_no_auto_intr block then []
      else [Comment [] ''Common Interrupt Offsets''] @
        concat (map (interrupt_items (ip_name block) (ip_regwidth block)) (ip_interrupts block)) @ [Gap])"

definition entry_items :: "ip_block \<Rightarrow> entry \<Rightarrow> item list" where
  "entry_items block x =
     (case x of
        EReg reg \<Rightarrow> register_items (ip_name block) (ip_regwidth block) reg
      | EMulti mr \<Rightarrow> multi_items (ip_name block) (ip_regwidth block) mr
      | EWin win \<Rightarrow> window_items (ip_name block) (ip_regwidth block) win)"

definition block_entries :: "ip_block \<Rightarrow> entry list" where
  "block_entries block = concat (map (\<lambda>(key, rb). rb_entries rb) (ip_reg_blocks block))"

definition block_items :: "ip_block \<Rightarrow> item list" where
  "block_items block = params_items block @ interrupts_items block @ concat (map (entry_items block) (block_entries block))"

section \<open>The generator runs over its items\<close>

lemma emit_fold:
  "emit wrap st (Define n b) = define_out n b st"
  "emit wrap st Gap = Inr (genout nl st)"
  "emit wrap st (Comment before d) = bnd (first_line d) (\<lambda>l. Inr (genout (format_comment wrap (before @ l)) st))"
  by (simp_all add: emit_def)

lemma bnd_Inr: "bnd m Inr = m"
  by (cases m) simp_all

lemmas run_simps = foldR_append bnd_assoc emit_fold bnd_Inr comment_out_def

declare emit_simps [simp del]

lemma gen_field_defines_items: "gen_field_defines defname width st f = foldR (emit wrap) st (field_items defname width f)"
proof -
  have "foldR (gen_enum_define d) st es =
      foldR (emit wrap) st (map (\<lambda>e. Define (d @ ''_VALUE_'' @ as_define (e_name e)) (py_hex (e_value e))) es)" for d st es
    by (induction es arbitrary: st) (simp_all add: gen_enum_define_def emit_fold)
  then show ?thesis
    by (auto simp: gen_field_defines_def field_items_def Let_def run_simps split: option.splits)
qed

lemma gen_cdefine_register_items:
  "gen_cdefine_register wrap cname width st reg = foldR (emit wrap) st (register_items cname width reg)"
proof -
  have "foldR (gen_field_defines d width) st fs = foldR (emit wrap) st (concat (map (field_items d width) fs))" for d st fs
    by (rule foldR_concat) (rule gen_field_defines_items)
  then show ?thesis by (simp add: gen_cdefine_register_def register_items_def Let_def run_simps)
qed

lemma gen_cdefine_window_items:
  "gen_cdefine_window wrap cname width st win = foldR (emit wrap) st (window_items cname width win)"
  by (simp add: gen_cdefine_window_def window_items_def Let_def run_simps)

lemma gen_cdefines_module_params_items:
  "gen_cdefines_module_params wrap block st = foldR (emit wrap) st (params_items block)"
proof -
  have one: "gen_cdefines_module_param wrap m st p = foldR (emit wrap) st (param_items m p)" for m st p
    by (auto simp: gen_cdefines_module_param_def param_items_def param_macro_def Let_def run_simps split: option.splits)
  have "foldR (gen_cdefines_module_param wrap m) st ps = foldR (emit wrap) st (concat (map (param_items m) ps))" for m st ps
    by (rule foldR_concat) (rule one)
  then show ?thesis by (simp add: gen_cdefines_module_params_def params_items_def run_simps)
qed

lemma gen_cdefine_multireg_items:
  "gen_cdefine_multireg wrap cname width st mr = foldR (emit wrap) st (multi_items cname width mr)"
proof -
  have "foldR (gen_cdefine_register wrap cname width) st rs =
      foldR (emit wrap) st (concat (map (register_items cname width) rs))" for st rs
    by (rule foldR_concat) (rule gen_cdefine_register_items)
  then show ?thesis
    by (auto simp: gen_cdefine_multireg_def multi_items_def multi_field_items_def gen_multireg_field_defines_def
        Let_def run_simps split: list.splits)
qed

lemma gen_cdefines_interrupts_items:
  "gen_cdefines_interrupts wrap block st = foldR (emit wrap) st (interrupts_items block)"
proof -
  have one: "gen_cdefines_interrupt_field c w st s = foldR (emit wrap) st (interrupt_items c w s)" for c w st s
    by (simp add: gen_cdefines_interrupt_field_def interrupt_items_def Let_def run_simps)
  have "foldR (gen_cdefines_interrupt_field c w) st ss = foldR (emit wrap) st (concat (map (interrupt_items c w) ss))" for c w st ss
    by (rule foldR_concat) (rule one)
  then show ?thesis by (simp add: gen_cdefines_interrupts_def interrupts_items_def run_simps)
qed

lemma gen_entries_items:
  "foldR (\<lambda>st (key, rb). foldR (gen_entry wrap block) st (rb_entries rb)) st rbs =
     foldR (emit wrap) st (concat (map (entry_items block) (concat (map (\<lambda>(key, rb). rb_entries rb) rbs))))"
proof -
  have one: "gen_entry wrap block st x = foldR (emit wrap) st (entry_items block x)" for st x
    by (simp add: gen_entry_def entry_items_def gen_cdefine_register_items gen_cdefine_multireg_items
        gen_cdefine_window_items split: entry.splits)
  have "foldR (gen_entry wrap block) st es = foldR (emit wrap) st (concat (map (entry_items block) es))" for st es
    by (rule foldR_concat) (rule one)
  then show ?thesis by (induction rbs arbitrary: st) (auto simp: foldR_append split: prod.splits)
qed

text \<open>The lines around the generated part; each ends with a newline, but not the last one.\<close>

definition text_lines :: "string list \<Rightarrow> string" where
  "text_lines ls = concat (map (\<lambda>l. l @ nl) ls)"

definition guard :: "ip_block \<Rightarrow> string" where
  "guard block = ''_'' @ as_define (ip_name block) @ ''_REG_DEFS_''"

definition first_lines :: "ip_block \<Rightarrow> string option \<Rightarrow> string \<Rightarrow> string list" where
  "first_lines block src_lic src_copy =
     [''// Generated register defines for '' @ ip_name block, []] @
     (if src_copy \<noteq> [] then [''// Copyright information found in source file:'', ''// '' @ src_copy, []] else []) @
     (case src_lic of None \<Rightarrow> []
      | Some lic \<Rightarrow> [''// Licensing information found in source file:''] @ map (\<lambda>l. ''// '' @ l) (splitlines lic) @ [[]]) @
     [''#ifndef '' @ guard block, ''#define '' @ guard block, [], ''#ifdef __cplusplus'', ''extern \"C\" {'', ''#endif'']"

definition last_lines :: "ip_block \<Rightarrow> string list" where
  "last_lines block = [''#ifdef __cplusplus'', ''}  // extern \"C\"'', ''#endif'', ''#endif  // '' @ guard block]"

lemma text_lines_simps [simp]:
  "text_lines [] = []" "text_lines (l # ls) = l @ nl @ text_lines ls" "text_lines (ls @ ms) = text_lines ls @ text_lines ms"
  by (simp_all add: text_lines_def)

lemma gen_cdefines_items:
  "gen_cdefines wrap block src_lic src_copy =
     bnd (foldR (emit wrap) ([], []) (block_items block)) (\<lambda>st.
     Inr (text_lines (first_lines block src_lic src_copy) @ fst st @ text_lines (last_lines block) @
       ''// End generated register defines for '' @ ip_name block))"
proof -
  have lic: "concat (map (\<lambda>l. ''// '' @ l @ nl) ls) = text_lines (map (\<lambda>l. ''// '' @ l) ls)" for ls
    by (induction ls) simp_all
  have run: "foldR (emit wrap) ([], []) (block_items block) =
      bnd (gen_cdefines_module_params wrap block ([], [])) (\<lambda>st.
      bnd (gen_cdefines_interrupts wrap block st) (\<lambda>st.
      foldR (\<lambda>st (key, rb). foldR (gen_entry wrap block) st (rb_entries rb)) st (ip_reg_blocks block)))"
    unfolding gen_cdefines_module_params_items gen_cdefines_interrupts_items gen_entries_items block_items_def
      block_entries_def foldR_append by (rule refl)
  show ?thesis
    unfolding run bnd_assoc gen_cdefines_def lic Let_def first_lines_def last_lines_def
    by (cases src_lic; cases "src_copy = []") (simp_all add: guard_def)
qed

lemma gen_cdefines_Inr:
  "gen_cdefines wrap block src_lic src_copy = Inr text \<longleftrightarrow>
     has_descriptions (block_items block) \<and> distinct (map fst (macros (block_items block))) \<and>
     text = text_lines (first_lines block src_lic src_copy) @ concat (map (citem_text wrap) (block_items block)) @
       text_lines (last_lines block) @ ''// End generated register defines for '' @ ip_name block"
  by (auto simp: gen_cdefines_items emits_Inr fresh_def)

lemma gen_cdefines_Inl:
  "gen_cdefines wrap block src_lic src_copy = Inl e \<Longrightarrow>
     e = IndexError \<and> \<not> has_descriptions (block_items block) \<or>
     e = SysExit 1 \<and> \<not> distinct (map fst (macros (block_items block)))"
  by (auto simp: gen_cdefines_items fresh_def dest: emits_Inl)

end
