(* ===== verification/Cheader_Reader.thy ===== *)
theory Cheader_Reader
  imports Cheader_Items
begin

text \<open>
  A reader of the header, as a C preprocessor takes it: a backslash before a newline joins two lines,
  and a line that starts with \<open>#define\<close> defines a macro, whose name ends at the first space. What the
  reader finds in a generated header is the list of macros of the generator's items.
\<close>

section \<open>Reading\<close>

fun join_continued :: "string \<Rightarrow> string" where
  "join_continued (c # d # cs) = (if c = backslash \<and> d = newline then join_continued cs else c # join_continued (d # cs))"
| "join_continued cs = cs"

definition macro_of :: "string \<Rightarrow> (string \<times> string) option" where
  "macro_of l =
     (if take 8 l = ''#define '' then
        let r = dropWhile (\<lambda>c. c = CHR '' '') (drop 8 l) in
        Some (takeWhile (\<lambda>c. c \<noteq> CHR '' '') r, dropWhile (\<lambda>c. c = CHR '' '') (dropWhile (\<lambda>c. c \<noteq> CHR '' '') r))
      else None)"

definition c_macros :: "string \<Rightarrow> (string \<times> string) list" where
  "c_macros text = List.map_filter macro_of (str_split newline (join_continued text))"

text \<open>The text has a macro of this name with this number as its body.\<close>

definition has_macro :: "string \<Rightarrow> string \<Rightarrow> int \<Rightarrow> bool" where
  "has_macro text n v \<longleftrightarrow> list_ex (\<lambda>(m, b). m = n \<and> py_int0 b = Some v) (c_macros text)"

section \<open>Lines\<close>

definition flat :: "string \<Rightarrow> bool" where
  "flat s \<longleftrightarrow> newline \<notin> set s \<and> backslash \<notin> set s"

lemma flat_simps [simp]:
  "flat []" "flat (c # s) \<longleftrightarrow> c \<noteq> newline \<and> c \<noteq> backslash \<and> flat s" "flat (s @ t) \<longleftrightarrow> flat s \<and> flat t"
  by (auto simp: flat_def)

lemma special_chars [simp]:
  "newline \<noteq> backslash" "backslash \<noteq> newline" "CHR '' '' \<noteq> newline" "CHR '' '' \<noteq> backslash"
  "newline \<noteq> CHR '' ''" "backslash \<noteq> CHR '' ''"
  by (simp_all add: newline_def backslash_def)

lemma join_continued_plain: "backslash \<notin> set s \<Longrightarrow> join_continued (s @ t) = s @ join_continued t"
proof (induction s)
  case Nil
  then show ?case by simp
next
  case (Cons c s)
  then show ?case by (cases "s @ t") auto
qed

lemma join_continued_break: "join_continued (backslash # newline # t) = join_continued t"
  by simp

lemma split_lines:
  "list_all (\<lambda>l. newline \<notin> set l) ls \<Longrightarrow> str_split newline (text_lines ls @ t) = ls @ str_split newline t"
  by (induction ls) (simp_all add: nl_def str_split_Cons)

text \<open>The lines of an item, as the reader sees them.\<close>

fun item_lines :: "(string \<Rightarrow> string list) \<Rightarrow> item \<Rightarrow> string list" where
  "item_lines wrap (Comment before d) =
     (let ls = wrap (before @ hd (splitlines d)) in if ls = [] then [[]] else ls)"
| "item_lines wrap (Define n b) =
     (if length (''#define '' @ n @ '' '' @ b) \<le> 80 then [''#define '' @ n @ '' '' @ b] else [''#define '' @ n @ ''   '' @ b])"
| "item_lines wrap Gap = [[]]"

text \<open>What is assumed of the text wrapper: comment lines, with no newline and no new backslash.\<close>

definition wraps :: "(string \<Rightarrow> string list) \<Rightarrow> bool" where
  "wraps wrap \<longleftrightarrow> (\<forall>s. \<forall>l \<in> set (wrap s).
     take 3 l = ''// '' \<and> newline \<notin> set l \<and> (backslash \<notin> set s \<longrightarrow> backslash \<notin> set l))"

fun flat_item :: "item \<Rightarrow> bool" where
  "flat_item (Comment before d) \<longleftrightarrow> flat before \<and> backslash \<notin> set d"
| "flat_item (Define n b) \<longleftrightarrow> flat n \<and> flat b"
| "flat_item Gap \<longleftrightarrow> True"

lemma splitlines_hd: "d \<noteq> [] \<Longrightarrow> hd (splitlines d) = takeWhile (\<lambda>c. \<not> line_break c) d"
  by (cases d rule: splitlines.cases) (auto simp: Let_def split: list.splits)

lemma newline_breaks: "line_break newline"
  by (simp add: line_break_def newline_def)

lemma first_line_flat: "d \<noteq> [] \<Longrightarrow> backslash \<notin> set d \<Longrightarrow> flat (hd (splitlines d))"
  using newline_breaks by (auto simp: splitlines_hd flat_def dest: set_takeWhileD)

lemma join_nl_lines: "ls \<noteq> [] \<Longrightarrow> join_nl ls @ nl = text_lines ls"
  by (induction ls rule: join_nl.induct) simp_all

lemma comment_lines:
  assumes "wraps wrap" and "flat_item (Comment before d)" and "d \<noteq> []"
  shows "\<forall>l \<in> set (wrap (before @ hd (splitlines d))). flat l \<and> take 3 l = ''// ''"
  using assms first_line_flat [of d] by (auto simp: wraps_def flat_def)

lemma citem_text_lines:
  assumes "wraps wrap" and "flat_item i" and "\<And>before d. i = Comment before d \<Longrightarrow> d \<noteq> []"
  shows "join_continued (citem_text wrap i @ t) = text_lines (item_lines wrap i) @ join_continued t"
    and "list_all flat (item_lines wrap i)"
proof -
  have plain: "join_continued (text_lines ls @ t) = text_lines ls @ join_continued t" if "list_all flat ls" for ls t
    using that by (intro join_continued_plain) (induction ls, auto simp: flat_def nl_def)
  have "join_continued (citem_text wrap i @ t) = text_lines (item_lines wrap i) @ join_continued t \<and> list_all flat (item_lines wrap i)"
  proof (cases i)
    case (Comment before d)
    let ?ls = "wrap (before @ hd (splitlines d))"
    have ls: "list_all flat ?ls" using comment_lines [OF assms(1)] assms(2,3) Comment by (auto simp: list_all_iff)
    have "citem_text wrap i = text_lines (item_lines wrap i)"
      using join_nl_lines [of ?ls] by (simp add: Comment citem_text.simps format_comment_def Let_def)
    with ls plain [of "item_lines wrap i"] show ?thesis by (simp add: Comment Let_def)
  next
    case (Define n b)
    have f: "flat n" "flat b" using assms(2) Define by simp_all
    have nb: "newline \<noteq> backslash" by simp
    show ?thesis
    proof (cases "length (''#define '' @ n @ '' '' @ b) \<le> 80")
      case True
      then show ?thesis
        using plain [of "[''#define '' @ n @ '' '' @ b]"] f
        by (simp add: Define citem_text.simps define_text_def Let_def newline_def backslash_def)
    next
      case False
      have "join_continued (citem_text wrap i @ t) =
          join_continued ((''#define '' @ n @ '' '') @ backslash # newline # (''  '' @ b @ nl) @ t)"
        using False by (simp add: Define citem_text.simps define_text_def Let_def nl_def)
      also have "\<dots> = (''#define '' @ n @ '' '') @ join_continued (backslash # newline # (''  '' @ b @ nl) @ t)"
        using f by (intro join_continued_plain) (simp add: flat_def backslash_def)
      also have "\<dots> = (''#define '' @ n @ '' '') @ join_continued ((''  '' @ b @ nl) @ t)" by (simp only: join_continued_break)
      also have "\<dots> = (''#define '' @ n @ '' '') @ (''  '' @ b @ nl) @ join_continued t"
        using f nb by (subst join_continued_plain) (simp_all add: flat_def nl_def)
      finally show ?thesis using False f by (simp add: Define newline_def backslash_def)
    qed
  next
    case Gap
    then show ?thesis using plain [of "[[]]"] by (simp add: citem_text.simps)
  qed
  then show "join_continued (citem_text wrap i @ t) = text_lines (item_lines wrap i) @ join_continued t"
    and "list_all flat (item_lines wrap i)" by simp_all
qed

lemma citems_text_lines:
  assumes "wraps wrap" and "list_all flat_item its" and "has_descriptions its"
  shows "join_continued (concat (map (citem_text wrap) its) @ t) = text_lines (concat (map (item_lines wrap) its)) @ join_continued t \<and>
    list_all flat (concat (map (item_lines wrap) its))"
  using assms(2,3)
proof (induction its)
  case Nil
  then show ?case by simp
next
  case (Cons i its)
  have d: "has_descriptions its" "\<And>before d. i = Comment before d \<Longrightarrow> d \<noteq> []"
    using Cons.prems(2) by (auto simp: has_descriptions_def)
  then show ?case
    using Cons.IH Cons.prems(1) citem_text_lines(1) [where i = i and t = "concat (map (citem_text wrap) its) @ t", OF assms(1) _ d(2)]
      citem_text_lines(2) [where i = i, OF assms(1) _ d(2)]
    by simp
qed

section \<open>Macros of the lines\<close>

text \<open>A macro name: letters, digits and underscores, up to a space.\<close>

definition ident_char :: "char \<Rightarrow> bool" where
  "ident_char c \<longleftrightarrow> is_alnum c \<or> c = CHR ''_''"

definition macro_name :: "string \<Rightarrow> bool" where
  "macro_name n \<longleftrightarrow> n \<noteq> [] \<and> list_all ident_char n \<or> (\<exists>m. n = m @ '' '' \<and> m \<noteq> [] \<and> list_all ident_char m)"

definition bare :: "string \<Rightarrow> string" where
  "bare n = takeWhile (\<lambda>c. c \<noteq> CHR '' '') n"

definition lstrip :: "string \<Rightarrow> string" where
  "lstrip b = dropWhile (\<lambda>c. c = CHR '' '') b"

lemma not_ident [simp]: "\<not> ident_char CHR '' ''" "\<not> ident_char newline" "\<not> ident_char backslash"
  by code_simp+

lemma ident_flat: "list_all ident_char n \<Longrightarrow> flat n"
  using not_ident by (metis flat_def list_all_iff)

lemma ident_no_space: "list_all ident_char n \<Longrightarrow> CHR '' '' \<notin> set n"
  using not_ident by (metis list_all_iff)

lemma macro_name_flat: "macro_name n \<Longrightarrow> flat n"
  by (auto simp: macro_name_def ident_flat)

lemma macro_of_word:
  assumes "m \<noteq> []" and "CHR '' '' \<notin> set m"
  shows "macro_of (''#define '' @ m @ CHR '' '' # t) = Some (m, lstrip t)"
proof -
  have h: "hd m \<noteq> CHR '' ''" using assms by (metis hd_in_set)
  then have lead: "dropWhile (\<lambda>c. c = CHR '' '') (m @ CHR '' '' # t) = m @ CHR '' '' # t"
    using assms(1) by (cases m) auto
  have "takeWhile (\<lambda>c. c \<noteq> CHR '' '') (m @ CHR '' '' # t) = m"
    "dropWhile (\<lambda>c. c \<noteq> CHR '' '') (m @ CHR '' '' # t) = CHR '' '' # t"
    using assms(2) by (auto simp: takeWhile_append dropWhile_append)
  with lead show ?thesis by (simp add: macro_of_def lstrip_def Let_def)
qed

lemma lstrip_simps [simp]: "lstrip (CHR '' '' # t) = lstrip t"
  by (simp add: lstrip_def)

lemma macro_of_define:
  assumes "macro_name n"
  shows "macro_of (''#define '' @ n @ '' '' @ b) = Some (bare n, lstrip b)"
    and "macro_of (''#define '' @ n @ ''   '' @ b) = Some (bare n, lstrip b)"
proof -
  obtain m s where n: "n = m @ s" "m \<noteq> []" "list_all ident_char m" "s = [] \<or> s = '' ''"
    using assms by (auto simp: macro_name_def)
  have m: "CHR '' '' \<notin> set m" using n(3) by (rule ident_no_space)
  have "takeWhile (\<lambda>c. c \<noteq> CHR '' '') m = m" using m by (simp add: takeWhile_eq_all_conv) metis
  then have bare: "bare (m @ s) = m" using n(4) m by (elim disjE) (simp_all add: bare_def takeWhile_append)
  note w = macro_of_word [OF n(2) m]
  show "macro_of (''#define '' @ n @ '' '' @ b) = Some (bare n, lstrip b)"
    using n(4)
  proof
    assume "s = []"
    then show ?thesis using w [of b] bare by (simp only: n(1) append_Nil append_Cons append_assoc append_Nil2)
  next
    assume "s = '' ''"
    then show ?thesis using w [of "CHR '' '' # b"] bare
      by (simp only: n(1) append_Nil append_Cons append_assoc lstrip_simps)
  qed
  show "macro_of (''#define '' @ n @ ''   '' @ b) = Some (bare n, lstrip b)"
    using n(4)
  proof
    assume "s = []"
    then show ?thesis using w [of "''  '' @ b"] bare
      by (simp only: n(1) append_Nil append_Cons append_assoc append_Nil2 lstrip_simps)
  next
    assume "s = '' ''"
    then show ?thesis using w [of "''   '' @ b"] bare
      by (simp only: n(1) append_Nil append_Cons append_assoc lstrip_simps)
  qed
qed

lemma macro_of_empty [simp]: "macro_of [] = None"
  by (simp add: macro_of_def)

lemma macro_of_comment: "take 3 l = ''// '' \<Longrightarrow> macro_of l = None"
  by (cases l) (auto simp: macro_of_def)

lemma map_filter_none: "(\<And>x. x \<in> set xs \<Longrightarrow> f x = None) \<Longrightarrow> List.map_filter f xs = []"
  by (induction xs) (simp_all add: map_filter_simps)

lemma item_macros:
  assumes "wraps wrap" and "flat_item i" and "\<And>before d. i = Comment before d \<Longrightarrow> d \<noteq> []"
    and "\<And>n b. i = Define n b \<Longrightarrow> macro_name n"
  shows "List.map_filter macro_of (item_lines wrap i) = map (\<lambda>(n, b). (bare n, lstrip b)) (macros [i])"
proof (cases i)
  case (Comment before d)
  have "macro_of l = None" if "l \<in> set (item_lines wrap i)" for l
    using that comment_lines [OF assms(1), of before d] assms(2,3) Comment
    by (auto simp: Let_def macro_of_comment split: if_splits)
  then have "List.map_filter macro_of (item_lines wrap i) = []" by (rule map_filter_none)
  then show ?thesis by (simp add: Comment)
next
  case (Define n b)
  then show ?thesis using macro_of_define [OF assms(4) [OF Define]] by (simp add: map_filter_simps)
next
  case Gap
  then show ?thesis by (simp add: map_filter_simps macro_of_def)
qed

lemma map_filter_append: "List.map_filter f (xs @ ys) = List.map_filter f xs @ List.map_filter f ys"
  by (induction xs) (auto simp: map_filter_simps split: option.splits)

definition named :: "item list \<Rightarrow> bool" where
  "named its \<longleftrightarrow> (\<forall>n b. Define n b \<in> set its \<longrightarrow> macro_name n)"

lemma items_macros:
  assumes "wraps wrap" and "list_all flat_item its" and "has_descriptions its" and "named its"
  shows "List.map_filter macro_of (concat (map (item_lines wrap) its)) = map (\<lambda>(n, b). (bare n, lstrip b)) (macros its)"
  using assms(2-4)
proof (induction its)
  case Nil
  then show ?case by (simp add: map_filter_simps)
next
  case (Cons i its)
  have d: "has_descriptions its" "named its" "\<And>before d. i = Comment before d \<Longrightarrow> d \<noteq> []"
    "\<And>n b. i = Define n b \<Longrightarrow> macro_name n"
    using Cons.prems(2,3) by (auto simp: has_descriptions_def named_def)
  have "macros (i # its) = macros [i] @ macros its" by (cases i) simp_all
  with item_macros [OF assms(1) _ d(3,4)] Cons.IH d(1,2) Cons.prems(1) show ?case
    by (simp add: map_filter_append)
qed

end
