(* ===== verification/Cheader_Facts.thy ===== *)
theory Cheader_Facts
  imports Cheader_Reader Ipblock_Facts
begin

text \<open>
  The macros of a generated header, read back: their names and numbers are those of the block.
\<close>

section \<open>Numbers\<close>

lemma lstrip_id: "s \<noteq> [] \<Longrightarrow> hd s \<noteq> CHR '' '' \<Longrightarrow> lstrip s = s"
  by (cases s) (simp_all add: lstrip_def)

lemma digit_val_hex: "d < 16 \<Longrightarrow> digit_val (digit_char d) = Some d \<and> ident_char (digit_char d) \<and> digit_char d \<noteq> CHR ''_''"
proof -
  assume d: "d < 16"
  have o: "ord_of (digit_char d) = (if d < 10 then 48 + d else 87 + d)" using d by (simp add: digit_char_def)
  then have "digit_val (digit_char d) = Some d \<and> ident_char (digit_char d)"
    using d by (simp add: digit_val_def ident_char_def char_class_defs)
  moreover have "digit_char d \<noteq> CHR ''_''"
  proof
    assume "digit_char d = CHR ''_''"
    then have "ord_of (digit_char d) = 95" by simp
    with o d show False by (auto split: if_splits)
  qed
  ultimately show ?thesis by blast
qed

lemma hex_digits_chars: "list_all (\<lambda>c. ident_char c \<and> c \<noteq> CHR ''_'') (hex_digits n)"
proof (induction n rule: hex_digits.induct)
  case (1 n)
  show ?case
    by (subst hex_digits.simps) (use 1 digit_val_hex [of n] digit_val_hex [of "n mod 16"] in auto)
qed

lemma hex_digits_nonempty [simp]: "hex_digits n \<noteq> []"
  by (subst hex_digits.simps) simp

lemma parse_digits_hex: "parse_digits 16 need 0 (hex_digits n @ cs) = parse_digits 16 False n cs"
proof (induction n arbitrary: cs need rule: hex_digits.induct)
  case (1 n)
  show ?case
  proof (cases "n < 16")
    case True
    then show ?thesis using digit_val_hex [OF True] by (subst hex_digits.simps) simp
  next
    case False
    have d: "n mod 16 < 16" by simp
    have "parse_digits 16 need 0 (hex_digits n @ cs) =
        parse_digits 16 need 0 (hex_digits (n div 16) @ digit_char (n mod 16) # cs)"
      using False by (subst hex_digits.simps) simp
    also have "\<dots> = parse_digits 16 False (n div 16) (digit_char (n mod 16) # cs)" by (rule "1.IH" [OF False])
    also have "\<dots> = parse_digits 16 False (n div 16 * 16 + n mod 16) cs" using digit_val_hex [OF d] by simp
    finally show ?thesis by simp
  qed
qed

lemma parse_base0_hex: "parse_base0 (''0x'' @ hex_digits n) = Some n"
proof -
  obtain c cs where c: "hex_digits n = c # cs" by (cases "hex_digits n") auto
  with hex_digits_chars [of n] have "drop_underscore (hex_digits n) = hex_digits n"
    by (simp add: drop_underscore_def)
  then show ?thesis using parse_digits_hex [of True n "[]"] by (simp add: parse_base0_def)
qed

lemma ident_not_space: "ident_char c \<Longrightarrow> \<not> c_isspace c"
  by (auto simp: ident_char_def char_class_defs)

lemma py_hex_chars: "c \<in> set (py_hex i) \<Longrightarrow> c = CHR ''-'' \<or> ident_char c"
proof -
  assume c: "c \<in> set (py_hex i)"
  have "ident_char CHR ''0''" "ident_char CHR ''x''" by code_simp+
  with c hex_digits_chars show ?thesis
    by (auto simp: py_hex_def list_all_iff split: if_splits)
qed

lemma py_int0_hex: "py_int0 (py_hex i) = Some i"
proof -
  have sp: "strip c_isspace (py_hex i) = py_hex i"
  proof (rule strip_id)
    fix c assume "c \<in> set (py_hex i)"
    then have "c = CHR ''-'' \<or> ident_char c" by (rule py_hex_chars)
    then show "\<not> c_isspace c" by (auto simp: ident_not_space) (simp add: c_isspace_def)
  qed
  show ?thesis
    unfolding py_int0_def parse_signed_def sp
    using parse_base0_hex [of "nat i"] parse_base0_hex [of "nat (- i)"] by (simp add: py_hex_def Let_def)
qed

lemma lstrip_hex: "lstrip (py_hex i) = py_hex i"
  by (rule lstrip_id) (simp_all add: py_hex_def)

lemma hd_show_int: "hd (show_int i) \<noteq> CHR '' ''"
proof -
  have "hd (show_int i) \<in> set (show_int i)" by (rule hd_in_set) (simp add: show_int_def)
  from show_int_chars [OF this] show ?thesis by (auto simp: char_class_defs)
qed

lemma lstrip_int: "lstrip (show_int i) = show_int i"
proof (rule lstrip_id)
  show "show_int i \<noteq> []" by (simp add: show_int_def)
qed (rule hd_show_int)

lemma show_nat_int: "show_nat n = show_int (int n)"
  by (simp add: show_int_def)

lemma flat_numbers [simp]: "flat (show_int i)" "flat (py_hex i)" "flat (show_nat n)"
proof -
  have "flat s" if "\<And>c. c \<in> set s \<Longrightarrow> c = CHR ''-'' \<or> ident_char c" for s
  proof -
    have "CHR ''-'' \<noteq> newline" "CHR ''-'' \<noteq> backslash" by (simp_all add: newline_def backslash_def)
    then show ?thesis unfolding flat_def using that [of newline] that [of backslash] not_ident by metis
  qed
  note all = this
  show "flat (py_hex i)" by (rule all) (rule py_hex_chars)
  have *: "flat (show_int i)" for i
    by (rule all) (auto dest!: show_int_chars simp: ident_char_def is_alnum_def)
  then show "flat (show_int i)" .
  show "flat (show_nat n)" by (simp add: show_nat_int *)
qed

section \<open>Names\<close>

lemma as_define_ident [simp]: "list_all ident_char (as_define s)"
proof -
  have "ident_char CHR ''_''" by code_simp
  then show ?thesis by (auto simp: as_define_def list_all_iff ident_char_def)
qed

lemma as_define_nil [simp]: "as_define s = [] \<longleftrightarrow> s = []"
  by (simp add: as_define_def str_upper_def)

lemma macro_nameI: "n \<noteq> [] \<Longrightarrow> list_all ident_char n \<Longrightarrow> macro_name n"
  by (simp add: macro_name_def)

lemma ident_letters [simp]:
  "ident_char CHR ''A''" "ident_char CHR ''B''" "ident_char CHR ''C''" "ident_char CHR ''D''"
  "ident_char CHR ''E''" "ident_char CHR ''F''" "ident_char CHR ''G''" "ident_char CHR ''H''"
  "ident_char CHR ''I''" "ident_char CHR ''J''" "ident_char CHR ''K''" "ident_char CHR ''L''"
  "ident_char CHR ''M''" "ident_char CHR ''N''" "ident_char CHR ''O''" "ident_char CHR ''P''"
  "ident_char CHR ''Q''" "ident_char CHR ''R''" "ident_char CHR ''S''" "ident_char CHR ''T''"
  "ident_char CHR ''U''" "ident_char CHR ''V''" "ident_char CHR ''W''" "ident_char CHR ''X''"
  "ident_char CHR ''Y''" "ident_char CHR ''Z''" "ident_char CHR ''_''"
  by code_simp+

lemma ident_suffixes [simp]:
  "list_all ident_char ''_REG_OFFSET''" "list_all ident_char ''_SIZE_WORDS''" "list_all ident_char ''_SIZE_BYTES''"
  "list_all ident_char ''_BIT''" "list_all ident_char ''_MASK''" "list_all ident_char ''_OFFSET''"
  "list_all ident_char ''_FIELD''" "list_all ident_char ''_VALUE_''" "list_all ident_char ''_''"
  "list_all ident_char ''_MULTIREG_COUNT''" "list_all ident_char ''_REG_DEFS_''"
  by code_simp+

definition idents :: "item list \<Rightarrow> bool" where
  "idents its \<longleftrightarrow> (\<forall>n b. Define n b \<in> set its \<longrightarrow> n \<noteq> [] \<and> list_all ident_char n)"

lemma idents_simps [simp]:
  "idents []" "idents (Comment c d # its) \<longleftrightarrow> idents its" "idents (Gap # its) \<longleftrightarrow> idents its"
  "idents (Define n b # its) \<longleftrightarrow> n \<noteq> [] \<and> list_all ident_char n \<and> idents its"
  "idents (is1 @ is2) \<longleftrightarrow> idents is1 \<and> idents is2"
  by (auto simp: idents_def)

lemma idents_concat: "(\<And>x. x \<in> set xs \<Longrightarrow> idents (f x)) \<Longrightarrow> idents (concat (map f xs))"
  by (induction xs) simp_all

lemma ident_dname: "list_all ident_char n \<Longrightarrow> list_all ident_char (n @ ''_'' @ as_define s)"
  by (simp only: list_all_append ident_suffixes as_define_ident simp_thms)

lemma idents_field: "list_all ident_char d \<Longrightarrow> idents (field_items d w f)"
  by (auto simp: field_items_def Let_def idents_def split: option.splits)

lemma idents_register: "idents (register_items c w r)"
  by (auto simp: register_items_def Let_def intro!: idents_concat idents_field)

definition full_width :: "int \<Rightarrow> entry \<Rightarrow> bool" where
  "full_width w x = (case x of EWin win \<Rightarrow> w_validbits win = w | _ \<Rightarrow> True)"

lemma idents_entry:
  assumes "full_width (ip_regwidth block) x"
  shows "idents (entry_items block x)"
proof (cases x)
  case (EMulti mr)
  have "idents (multi_field_items (as_define s) f n w)" for s f n w
    unfolding multi_field_items_def by (simp only: idents_simps list_all_append as_define_ident ident_suffixes) simp
  then show ?thesis
    by (auto simp: EMulti entry_items_def multi_items_def intro!: idents_concat idents_register split: list.splits)
qed (use assms in \<open>auto simp: entry_items_def window_items_def full_width_def Let_def idents_register\<close>)

lemma named_simps [simp]:
  "named (is1 @ is2) \<longleftrightarrow> named is1 \<and> named is2" "named []"
  by (auto simp: named_def)

lemma idents_named: "idents its \<Longrightarrow> named its"
  by (auto simp: idents_def named_def intro: macro_nameI)

lemma named_entry: "named (entry_items block x)"
proof (cases "full_width (ip_regwidth block) x")
  case True
  then show ?thesis by (intro idents_named idents_entry)
next
  case False
  then obtain win where x: "x = EWin win" by (cases x) (auto simp: full_width_def)
  have "macro_name (as_define s @ ''_MASK '')" for s
  proof -
    have "as_define s @ ''_MASK '' = (as_define s @ ''_MASK'') @ '' ''" by simp
    moreover have "list_all ident_char (as_define s @ ''_MASK'')" by (simp only: list_all_append as_define_ident ident_suffixes simp_thms)
    ultimately show ?thesis unfolding macro_name_def by blast
  qed
  moreover have "macro_name (as_define s @ t)" if "t \<noteq> []" "list_all ident_char t" for s t
    using that by (intro macro_nameI) (simp_all del: append.simps)
  ultimately show ?thesis
    by (auto simp: x entry_items_def window_items_def Let_def named_def)
qed

lemma idents_front: "idents (params_items block @ interrupts_items block)"
proof -
  have "idents (param_items m p)" for m p
    by (auto simp: param_items_def param_macro_def split: option.splits)
  moreover have "idents (interrupt_items c w s)" for c w s
    by (auto simp: interrupt_items_def Let_def)
  ultimately show ?thesis
    by (auto simp: params_items_def interrupts_items_def intro!: idents_concat)
qed

lemma named_block: "named (block_items block)"
proof -
  have "named (concat (map (entry_items block) xs))" for xs by (induction xs) (simp_all add: named_entry)
  then show ?thesis using idents_front [THEN idents_named] by (simp add: block_items_def)
qed

lemma idents_block:
  "list_all (full_width (ip_regwidth block)) (block_entries block) \<Longrightarrow> idents (block_items block)"
  using idents_front unfolding block_items_def
  by (simp add: idents_concat idents_entry list_all_iff)

section \<open>Reading a header back\<close>

text \<open>
  The texts a description brings into the header are free of backslashes, and those that stand in one
  line free of newlines.
\<close>

definition clean :: "ip_block \<Rightarrow> string option \<Rightarrow> string \<Rightarrow> bool" where
  "clean block src_lic src_copy \<longleftrightarrow>
     flat (ip_name block) \<and> flat src_copy \<and> (case src_lic of None \<Rightarrow> True | Some lic \<Rightarrow> backslash \<notin> set lic) \<and>
     list_all (\<lambda>p. flat (p_value p)) (get_localparams (ip_params block)) \<and>
     list_all (\<lambda>i. case i of Comment before d \<Rightarrow> backslash \<notin> set d | _ \<Rightarrow> True) (block_items block)"

lemma flat_field_text: "list_all ident_char d \<Longrightarrow> flat (field_text d)"
  using ident_flat [of d] by (simp add: field_text_def newline_def backslash_def)

lemmas ident_dname_suffix = ident_dname [unfolded list_all_append]

lemma flat_bodies:
  assumes "Define n b \<in> set (block_items block)" and "list_all (\<lambda>p. flat (p_value p)) (get_localparams (ip_params block))"
  shows "flat b"
proof -
  have field: "flat b" if "Define n b \<in> set (field_items d w f)" "list_all ident_char d" for n b d w f
    using that ident_dname [OF that(2), of "f_name f"]
    by (auto simp: field_items_def Let_def flat_field_text split: if_splits option.splits)
  have reg: "flat b" if "Define n b \<in> set (register_items c w r)" for n b c w r
    using that by (auto simp: register_items_def Let_def dest: field)
  have param: "flat b" if "Define n b \<in> set (param_items m p)" "flat (p_value p)" for n b m p
    using that by (auto simp: param_items_def split: if_splits option.splits)
  have intr: "flat b" if "Define n b \<in> set (interrupt_items c w s)" for n b c w s
    using that by (auto simp: interrupt_items_def Let_def flat_field_text split: if_splits)
  have multi: "flat b" if "Define n b \<in> set (multi_items c w m)" for n b c w m
    using that by (auto simp: multi_items_def multi_field_items_def dest: reg split: list.splits)
  have win: "flat b" if "Define n b \<in> set (window_items c w m)" for n b c w m
    using that by (auto simp: window_items_def Let_def split: if_splits)
  have entry: "flat b" if "Define n b \<in> set (entry_items block x)" for x
    using that by (auto simp: entry_items_def dest: reg multi win split: entry.splits)
  show ?thesis
    using assms by (auto simp: block_items_def params_items_def interrupts_items_def list_all_iff
        dest: param intr entry split: if_splits)
qed

lemma block_before:
  assumes "Comment before d \<in> set (block_items block)"
  shows "flat before"
proof -
  have field: "Comment before d \<notin> set (field_items c w f)" for c w f
    by (auto simp: field_items_def Let_def split: option.splits)
  have reg: "before = []" if "Comment before d \<in> set (register_items c w r)" for c w r
    using that field by (auto simp: register_items_def Let_def)
  have entry: "flat before" if "Comment before d \<in> set (entry_items block x)" for x
    using that reg
    by (fastforce simp: entry_items_def multi_items_def multi_field_items_def window_items_def Let_def newline_def backslash_def
        split: entry.splits list.splits if_splits)
  show ?thesis
    using assms entry
    by (fastforce simp: block_items_def params_items_def param_items_def interrupts_items_def interrupt_items_def Let_def
        split: if_splits option.splits)
qed

lemma block_flat_items:
  assumes "clean block src_lic src_copy"
  shows "list_all flat_item (block_items block)"
  unfolding list_all_iff
proof
  fix i assume i: "i \<in> set (block_items block)"
  have p: "list_all (\<lambda>p. flat (p_value p)) (get_localparams (ip_params block))" using assms by (simp add: clean_def)
  show "flat_item i"
  proof (cases i)
    case (Comment before d)
    with i assms have "backslash \<notin> set d" by (force simp: clean_def list_all_iff)
    with Comment i show ?thesis by (simp add: block_before)
  next
    case (Define n b)
    with i named_block [of block] have "macro_name n" by (auto simp: named_def)
    with Define i p show ?thesis by (simp add: macro_name_flat flat_bodies)
  qed simp
qed

lemma splitlines_set: "l \<in> set (splitlines s) \<Longrightarrow> set l \<subseteq> set s \<and> newline \<notin> set l"
proof (induction s rule: splitlines.induct)
  case 1
  then show ?case by simp
next
  case (2 c cs)
  let ?s = "c # cs"
  have line: "set (takeWhile (\<lambda>c. \<not> line_break c) ?s) \<subseteq> set ?s \<and> newline \<notin> set (takeWhile (\<lambda>c. \<not> line_break c) ?s)"
    using newline_breaks by (auto dest: set_takeWhileD simp del: takeWhile.simps)
  show ?case
  proof (cases "dropWhile (\<lambda>c. \<not> line_break c) ?s")
    case Nil
    from "2.prems" have "l = takeWhile (\<lambda>c. \<not> line_break c) ?s"
      by (simp only: splitlines.simps Let_def Nil list.case list.set) blast
    with line show ?thesis by simp
  next
    case (Cons b bs)
    let ?rest = "if ord_of b = 13 \<and> bs \<noteq> [] \<and> ord_of (hd bs) = 10 then tl bs else bs"
    have sub: "set ?rest \<subseteq> set ?s"
    proof -
      have "set (b # bs) \<subseteq> set ?s" using Cons set_dropWhileD by (metis subsetI)
      moreover have "set ?rest \<subseteq> set bs" by (auto dest: list.set_sel(2))
      ultimately show ?thesis by auto
    qed
    from Cons "2.prems" have "l = takeWhile (\<lambda>c. \<not> line_break c) ?s \<or> l \<in> set (splitlines ?rest)"
      by (simp only: splitlines.simps Let_def Cons list.case list.set) blast
    then show ?thesis using line "2.IH" [OF refl refl refl Cons] sub by blast
  qed
qed

lemma flat_lines:
  assumes "clean block src_lic src_copy"
  shows "list_all flat (first_lines block src_lic src_copy)" "list_all flat (last_lines block)"
    "flat (''// End generated register defines for '' @ ip_name block)"
proof -
  have lic: "list_all flat (map ((@) ''// '') (splitlines lic))" if "backslash \<notin> set lic" for lic
    using that by (auto simp: list_all_iff flat_def newline_def backslash_def dest: splitlines_set)
  have g: "flat (guard block)"
    by (simp add: guard_def ident_flat newline_def backslash_def)
  have n: "flat (ip_name block)" "flat src_copy" using assms by (simp_all add: clean_def)
  show "list_all flat (first_lines block src_lic src_copy)"
  proof (cases src_lic)
    case None
    then show ?thesis using n g by (simp add: first_lines_def newline_def backslash_def)
  next
    case (Some lic)
    with assms have "backslash \<notin> set lic" by (simp add: clean_def)
    note l = lic [OF this]
    show ?thesis using n g l by (simp add: first_lines_def Some newline_def backslash_def)
  qed
  show "list_all flat (last_lines block)"
    using g by (simp add: last_lines_def newline_def backslash_def)
  show "flat (''// End generated register defines for '' @ ip_name block)"
    using assms by (simp add: clean_def newline_def backslash_def)
qed

lemma macro_of_lines:
  "List.map_filter macro_of (first_lines block src_lic src_copy) = [(guard block, [])]"
  "List.map_filter macro_of (last_lines block) = []"
  "macro_of (''// End generated register defines for '' @ ip_name block) = None"
proof -
  have lic: "List.map_filter macro_of (map ((@) ''// '') ls) = []" for ls
    by (induction ls) (simp_all add: map_filter_simps macro_of_def)
  have g: "macro_of (''#define '' @ guard block) = Some (guard block, [])"
  proof -
    have "list_all ident_char (guard block)" unfolding guard_def
      by (simp only: list_all_append as_define_ident ident_suffixes simp_thms)
    then have "CHR '' '' \<notin> set (guard block)" by (rule ident_no_space)
    then have "takeWhile (\<lambda>c. c \<noteq> CHR '' '') (guard block) = guard block"
      "dropWhile (\<lambda>c. c \<noteq> CHR '' '') (guard block) = []" by (auto simp: takeWhile_eq_all_conv dropWhile_eq_Nil_conv)
    moreover have "dropWhile (\<lambda>c. c = CHR '' '') (guard block) = guard block" by (simp add: guard_def)
    moreover have "take 8 (''#define '' @ guard block) = ''#define ''" "drop 8 (''#define '' @ guard block) = guard block"
      by simp_all
    ultimately show ?thesis unfolding macro_of_def Let_def by (simp only: dropWhile.simps refl if_True)
  qed
  have plain: "macro_of (CHR ''/'' # t) = None" "macro_of (CHR ''e'' # t) = None" "macro_of (CHR ''}'' # t) = None"
    "macro_of (CHR ''#'' # CHR ''i'' # t) = None" "macro_of (CHR ''#'' # CHR ''e'' # t) = None" for t
    by (simp_all add: macro_of_def)
  show "List.map_filter macro_of (first_lines block src_lic src_copy) = [(guard block, [])]"
    using g lic by (simp add: first_lines_def map_filter_append map_filter_simps plain split: option.splits)
  show "List.map_filter macro_of (last_lines block) = []"
    by (simp add: last_lines_def map_filter_simps plain)
  show "macro_of (''// End generated register defines for '' @ ip_name block) = None" by (simp add: plain)
qed

lemma c_macros_header:
  assumes "gen_cdefines wrap block src_lic src_copy = Inr text" and "wraps wrap" and "clean block src_lic src_copy"
  shows "c_macros text = (guard block, []) # map (\<lambda>(n, b). (bare n, lstrip b)) (macros (block_items block))"
proof -
  let ?f = "first_lines block src_lic src_copy" and ?l = "last_lines block"
    and ?e = "''// End generated register defines for '' @ ip_name block"
    and ?m = "concat (map (item_lines wrap) (block_items block))"
  note flat = flat_lines [OF assms(3)]
  from assms(1) have shape: "text = text_lines ?f @ concat (map (citem_text wrap) (block_items block)) @ text_lines ?l @ ?e"
    and d: "has_descriptions (block_items block)" by (simp_all only: gen_cdefines_Inr)
  note mid = citems_text_lines [OF assms(2) block_flat_items [OF assms(3)] d]
  have plain: "join_continued (text_lines ls @ t) = text_lines ls @ join_continued t" if "list_all flat ls" for ls t
    using that by (intro join_continued_plain) (induction ls, auto simp: flat_def nl_def)
  have last: "join_continued ?e = ?e" using join_continued_plain [of ?e "[]"] flat(3) by (simp add: flat_def)
  have sp: "join_continued text = text_lines (?f @ ?m @ ?l) @ ?e"
    unfolding shape plain [OF flat(1)] mid [THEN conjunct1] plain [OF flat(2)] last by simp
  have ls: "list_all (\<lambda>l. newline \<notin> set l) (?f @ ?m @ ?l)"
    using flat(1,2) mid by (auto simp: list_all_iff flat_def)
  have "newline \<notin> set ?e" using flat(3) unfolding flat_def by blast
  then have "str_split newline (join_continued text) = (?f @ ?m @ ?l) @ [?e]"
    unfolding sp split_lines [OF ls] by (simp only: str_split_none not_False_eq_True)
  then show ?thesis
    using items_macros [OF assms(2) block_flat_items [OF assms(3)] d named_block] macro_of_lines
    by (simp add: c_macros_def map_filter_append map_filter_simps del: append.simps)
qed

lemma ident_bare: "list_all ident_char n \<Longrightarrow> bare n = n"
  using ident_no_space [of n] by (auto simp: bare_def takeWhile_eq_all_conv)

lemma header_has_macro:
  assumes "gen_cdefines wrap block src_lic src_copy = Inr text" and "wraps wrap" and "clean block src_lic src_copy"
    and "Define n b \<in> set (block_items block)" and "py_int0 (lstrip b) = Some v"
  shows "has_macro text (bare n) v"
  using assms(4,5) macros_iff [of n b "block_items block"] unfolding has_macro_def c_macros_header [OF assms(1-3)]
  by (force simp: list_ex_iff)

lemma header_has_number:
  assumes "gen_cdefines wrap block src_lic src_copy = Inr text" and "wraps wrap" and "clean block src_lic src_copy"
    and "Define n b \<in> set (block_items block)" and "b = show_int v \<or> b = py_hex v" and "list_all ident_char n"
  shows "has_macro text n v"
  using header_has_macro [OF assms(1-4), of v] assms(5,6)
  by (auto simp: ident_bare lstrip_int lstrip_hex py_int0_show py_int0_hex)

end
