(* ===== verification/Cheader_Theorems.thy ===== *)
theory Cheader_Theorems
  imports Cheader_Facts Example_Uart
begin

text \<open>
  Properties of the C header generator: the header has the offset of every register and window and the
  place of every field, its macro names are distinct, and it can fail in two ways only.
\<close>

section \<open>What a C program gets from the header\<close>

fun entry_registers :: "entry \<Rightarrow> register list" where
  "entry_registers (EReg r) = [r]"
| "entry_registers (EMulti m) = m_regs m"
| "entry_registers (EWin win) = []"

definition register_macro :: "ip_block \<Rightarrow> string \<Rightarrow> string" where
  "register_macro block n = as_define (ip_name block @ ''_'' @ n)"







lemma register_entry_items:
  assumes "x \<in> set (block_entries block)" and "r \<in> set (entry_registers x)"
  shows "set (register_items (ip_name block) (ip_regwidth block) r) \<subseteq> set (block_items block)"
proof -
  have "set (register_items (ip_name block) (ip_regwidth block) r) \<subseteq> set (entry_items block x)"
    using assms(2) by (cases x) (auto simp: entry_items_def multi_items_def)
  with assms(1) show ?thesis by (auto simp: block_items_def)
qed



section \<open>Facts of a header\<close>



section \<open>Properties\<close>

definition plain_wrap :: "string \<Rightarrow> string list" where
  "plain_wrap s = (if s = [] then [] else [''// '' @ filter (\<lambda>c. c \<noteq> newline) s])"

lemma plain_wraps: "wraps plain_wrap"
  by (auto simp: wraps_def plain_wrap_def backslash_def newline_def)

definition uart_header :: string where
  "uart_header = (case gen_cdefines plain_wrap uart (Some ''Apache'') ''lowRISC'' of Inr out \<Rightarrow> out | Inl e \<Rightarrow> undefined)"

lemma uart_header_raw:
  "(case ip_from_raw [] uart_desc of
      Inl e \<Rightarrow> None
    | Inr ip \<Rightarrow> (case gen_cdefines plain_wrap ip (Some ''Apache'') ''lowRISC'' of Inl e \<Rightarrow> None
        | Inr out \<Rightarrow> Some (clean ip (Some ''Apache'') ''lowRISC'', list_all (full_width (ip_regwidth ip)) (block_entries ip),
            ip_name ip, map (\<lambda>x. map r_name (entry_registers x)) (block_entries ip),
            map (\<lambda>x. map r_offset (entry_registers x)) (block_entries ip),
            map (\<lambda>s. (s_name s, s_bits s)) (ip_interrupts ip)))) =
   Some (True, True, ''uart'', [[''INTR_STATE''], [''INTR_ENABLE''], [''INTR_TEST''], [''CTRL'']],
     [[0], [4], [8], [12]], [(''rx'', \<lparr>b_msb = 1, b_lsb = 0\<rparr>)])"
  by code_simp

lemma uart_header_facts:
  "gen_cdefines plain_wrap uart (Some ''Apache'') ''lowRISC'' = Inr uart_header"
  "clean uart (Some ''Apache'') ''lowRISC''" "list_all (full_width (ip_regwidth uart)) (block_entries uart)"
  "ip_name uart = ''uart''"
  "map (\<lambda>x. map r_name (entry_registers x)) (block_entries uart) = [[''INTR_STATE''], [''INTR_ENABLE''], [''INTR_TEST''], [''CTRL'']]"
  "map (\<lambda>x. map r_offset (entry_registers x)) (block_entries uart) = [[0], [4], [8], [12]]"
  "map (\<lambda>s. (s_name s, s_bits s)) (ip_interrupts uart) = [(''rx'', \<lparr>b_msb = 1, b_lsb = 0\<rparr>)]"
proof -
  let ?g = "gen_cdefines plain_wrap uart (Some ''Apache'') ''lowRISC''"
  note raw = uart_header_raw [unfolded uart_parses sum.case]
  obtain out where g: "?g = Inr out"
  proof (cases ?g)
    case (Inl e)
    with raw show ?thesis by (simp only: sum.case option.distinct)
  qed
  note parts = raw [unfolded g sum.case option.inject prod.inject]
  have out: "uart_header = out" by (simp only: uart_header_def g sum.case)
  show "?g = Inr uart_header" by (simp only: g out)
  show "clean uart (Some ''Apache'') ''lowRISC''" "list_all (full_width (ip_regwidth uart)) (block_entries uart)"
    "ip_name uart = ''uart''"
    "map (\<lambda>x. map r_name (entry_registers x)) (block_entries uart) = [[''INTR_STATE''], [''INTR_ENABLE''], [''INTR_TEST''], [''CTRL'']]"
    "map (\<lambda>x. map r_offset (entry_registers x)) (block_entries uart) = [[0], [4], [8], [12]]"
    "map (\<lambda>s. (s_name s, s_bits s)) (ip_interrupts uart) = [(''rx'', \<lparr>b_msb = 1, b_lsb = 0\<rparr>)]"
    unfolding out using parts by blast+
qed



text \<open>
  C25. With clean texts, the macros of a generated header are the include guard and, if every window has
  words as wide as the bus, macros of different names: no macro is redefined.
\<close>

theorem header_names_distinct:
  assumes "gen_cdefines wrap block src_lic src_copy = Inr out" and "wraps wrap" and "clean block src_lic src_copy"
    and "list_all (full_width (ip_regwidth block)) (block_entries block)"
  shows "hd (c_macros out) = (''_'' @ as_define (ip_name block) @ ''_REG_DEFS_'', []) \<and>
    distinct (map fst (tl (c_macros out)))"
proof -
  have d: "distinct (map fst (macros (block_items block)))" using assms(1) by (simp add: gen_cdefines_Inr)
  have "bare n = n" if "(n, b) \<in> set (macros (block_items block))" for n b
    using idents_block [OF assms(4)] that by (intro ident_bare) (auto simp: idents_def macros_iff)
  then have "map fst (map (\<lambda>(n, b). (bare n, lstrip b)) (macros (block_items block))) = map fst (macros (block_items block))"
    unfolding map_map by (intro map_cong) auto
  with d have "distinct (map fst (map (\<lambda>(n, b). (bare n, lstrip b)) (macros (block_items block))))" by metis
  then show ?thesis unfolding c_macros_header [OF assms(1-3)] list.sel guard_def by blast
qed

theorem header_names_distinct_witness:
  "hd (c_macros uart_header) = (''_UART_REG_DEFS_'', []) \<and> distinct (map fst (tl (c_macros uart_header)))"
proof -
  have "''_'' @ as_define ''uart'' @ ''_REG_DEFS_'' = ''_UART_REG_DEFS_''" by code_simp
  then show ?thesis
    using header_names_distinct [OF uart_header_facts(1) plain_wraps uart_header_facts(2,3)] by (metis uart_header_facts(4))
qed

text \<open>
  Where a description is empty. The generator takes the first line of the descriptions of the integer
  parameters, of the registers and of the windows.
\<close>

definition empty_description :: "ip_block \<Rightarrow> bool" where
  "empty_description block \<longleftrightarrow>
     list_ex (\<lambda>p. p_type p = ''int'' \<and> p_desc p = Some []) (get_localparams (ip_params block)) \<or>
     list_ex (\<lambda>x. list_ex (\<lambda>r. r_desc r = []) (entry_registers x) \<or>
       (case x of EWin win \<Rightarrow> w_desc win = [] | _ \<Rightarrow> False)) (block_entries block)"

lemma has_descriptions_append [simp]: "has_descriptions (is1 @ is2) \<longleftrightarrow> has_descriptions is1 \<and> has_descriptions is2"
  by (auto simp: has_descriptions_def)

lemma has_descriptions_concat: "has_descriptions (concat (map f xs)) \<longleftrightarrow> list_all (\<lambda>x. has_descriptions (f x)) xs"
  by (induction xs) simp_all

lemma has_descriptions_block: "has_descriptions (block_items block) \<longleftrightarrow> \<not> empty_description block"
proof -
  have field: "has_descriptions (field_items d w f)" for d w f
    by (auto simp: field_items_def has_descriptions_def Let_def split: option.splits)
  have reg: "has_descriptions (register_items c w r) \<longleftrightarrow> r_desc r \<noteq> []" for c w r
    by (auto simp: register_items_def Let_def has_descriptions_concat field list_all_iff)
  have entry: "has_descriptions (entry_items block x) \<longleftrightarrow> \<not> (list_ex (\<lambda>r. r_desc r = []) (entry_registers x) \<or>
      (case x of EWin win \<Rightarrow> w_desc win = [] | _ \<Rightarrow> False))" for x
    by (cases x) (auto simp: entry_items_def multi_items_def multi_field_items_def window_items_def Let_def
        has_descriptions_concat reg list_all_iff list_ex_iff split: list.splits)
  have param: "has_descriptions (param_items m p) \<longleftrightarrow> \<not> (p_type p = ''int'' \<and> p_desc p = Some [])" for m p
    by (auto simp: param_items_def split: option.splits)
  have "has_descriptions (interrupts_items block)"
    by (auto simp: interrupts_items_def interrupt_items_def has_descriptions_concat list_all_iff Let_def)
  then show ?thesis
    unfolding block_items_def empty_description_def params_items_def
    by (simp add: has_descriptions_concat entry param list_all_iff list_ex_iff)
qed

text \<open>
  C26. The generator fails in two ways only: it exits with status 1 when two macros would have the same
  name, and it raises an IndexError when a description is empty. A block with an empty description
  never gets a header.
\<close>

theorem header_errors:
  "case gen_cdefines wrap block src_lic src_copy of
     Inl e \<Rightarrow> e = IndexError \<and> empty_description block \<or>
              e = SysExit 1 \<and> \<not> distinct (map fst (macros (block_items block)))
   | Inr out \<Rightarrow> \<not> empty_description block \<and> distinct (map fst (macros (block_items block)))"
proof (cases "gen_cdefines wrap block src_lic src_copy")
  case (Inl e)
  then show ?thesis using gen_cdefines_Inl [OF Inl] by (simp add: has_descriptions_block)
next
  case (Inr out)
  from Inr have "has_descriptions (block_items block)" "distinct (map fst (macros (block_items block)))"
    by (simp_all only: gen_cdefines_Inr)
  then show ?thesis by (simp add: Inr has_descriptions_block)
qed

section \<open>Interrupts of several bits\<close>

lemma small_shift:
  fixes b :: bits
  assumes "wf_bits b" and "1 < bits_width b"
  shows "drop_bit (nat (b_lsb b)) (b_msb b) < max_value b"
proof -
  let ?l = "nat (b_lsb b)" and ?w = "nat (bits_width b)"
  have l: "b_lsb b = int ?l" and w: "bits_width b = int ?w" "1 < ?w" using assms by (simp_all add: wf_bits_def)
  have m: "b_msb b = int ?l + int ?w - 1" using l w(1) by (simp add: bits_width_def)
  have pl: "int ?l + 1 \<le> 2 ^ ?l" for l :: nat
  proof -
    have "Suc ?l \<le> 2 ^ ?l" by (rule Suc_leI) (rule less_exp)
    then have "int (Suc ?l) \<le> int (2 ^ ?l)" by (simp only: of_nat_le_iff)
    then show ?thesis by simp
  qed
  have pw: "int n + 1 < 2 ^ n" if "2 \<le> n" for n :: nat
    using that
  proof (induction n rule: nat_induct_at_least)
    case (Suc n)
    then show ?case by simp
  qed simp
  have "2 + int ?w \<le> 2 ^ ?w" using pw [of ?w] w(2) by simp
  moreover have "0 < (2 :: int) ^ ?l" by simp
  ultimately have "(1 + int ?w) * 2 ^ ?l \<le> (2 ^ ?w - 1) * 2 ^ ?l" by (intro mult_right_mono) simp_all
  moreover have "int ?l + int ?w \<le> (1 + int ?w) * 2 ^ ?l"
  proof -
    have "1 + int ?w \<le> (1 + int ?w) * 2 ^ ?l" using pl by (simp add: mult_le_cancel_left1)
    moreover have "(1 + int ?w) * (int ?l + 1) \<le> (1 + int ?w) * 2 ^ ?l" using pl by (intro mult_left_mono) simp_all
    moreover have "int ?l + int ?w \<le> (1 + int ?w) * (int ?l + 1)" by (simp add: algebra_simps)
    ultimately show ?thesis by linarith
  qed
  ultimately have "b_msb b < (2 ^ ?w - 1) * 2 ^ ?l" using m by linarith
  moreover have "b_msb b div 2 ^ ?l * 2 ^ ?l \<le> b_msb b" by (simp add: minus_mod_eq_div_mult [symmetric])
  ultimately have "b_msb b div 2 ^ ?l * 2 ^ ?l < (2 ^ ?w - 1) * 2 ^ ?l" by linarith
  then have "b_msb b div 2 ^ ?l < 2 ^ ?w - 1" by (simp add: mult_less_cancel_right)
  then show ?thesis using max_value_eq [OF assms(1)] by (simp add: drop_bit_eq_div)
qed

lemma mask_max: "wf_bits b \<Longrightarrow> drop_bit (nat (b_lsb b)) (bitmask b) = max_value b"
  by (simp add: bitmask_eq drop_bit_push_bit mask_eq_exp_minus_1 max_value_eq)

text \<open>The mask that the header gives for an interrupt in one of its registers.\<close>

lemma interrupt_register_mask:
  assumes "gen_cdefines wrap block src_lic src_copy = Inr out"
    and "wraps wrap" and "clean block src_lic src_copy" and "EReg r \<in> set (block_entries block)"
    and "intr_register off n (ip_interrupts block) r" and "s \<in> set (ip_interrupts block)"
    and "wf_bits (s_bits s)" and "1 < bits_width (s_bits s)" and "bits_width (s_bits s) \<noteq> ip_regwidth block"
  shows "has_macro out (register_macro block n @ ''_'' @ as_define (s_name s) @ ''_MASK'') (max_value (s_bits s))"
proof -
  from assms(6) obtain i where i: "i < length (ip_interrupts block)" "s = ip_interrupts block ! i"
    by (auto simp: in_set_conv_nth)
  have maps: "map f_name (r_fields r) = map s_name (ip_interrupts block)"
    "map f_bits (r_fields r) = map s_bits (ip_interrupts block)" "r_name r = n"
    using assms(5) by (simp_all add: intr_register_def)
  have len: "length (r_fields r) = length (ip_interrupts block)" using arg_cong [OF maps(1), of length] by simp
  define f where "f = r_fields r ! i"
  have f: "f \<in> set (r_fields r)" "f_name f = s_name s" "f_bits f = s_bits s"
    using i len arg_cong [OF maps(1), of "\<lambda>l. l ! i"] arg_cong [OF maps(2), of "\<lambda>l. l ! i"] by (simp_all add: f_def)
  have "Define ((register_macro block n @ ''_'' @ as_define (s_name s)) @ ''_MASK'')
      (py_hex (drop_bit (nat (b_lsb (s_bits s))) (bitmask (s_bits s)))) \<in> set (field_items (register_macro block n) (ip_regwidth block) f)"
    using assms(8,9) f by (simp add: field_items_def Let_def)
  moreover have "set (field_items (register_macro block n) (ip_regwidth block) f) \<subseteq> set (block_items block)"
    using register_entry_items [OF assms(4), of r] f(1) by (auto simp: register_items_def register_macro_def Let_def maps(3))
  ultimately have "Define ((register_macro block n @ ''_'' @ as_define (s_name s)) @ ''_MASK'') (py_hex (max_value (s_bits s)))
      \<in> set (block_items block)" unfolding mask_max [OF assms(7)] by blast
  then have "has_macro out ((register_macro block n @ ''_'' @ as_define (s_name s)) @ ''_MASK'') (max_value (s_bits s))"
    by (rule header_has_number [OF assms(1-3)])
       (simp_all only: list_all_append as_define_ident ident_suffixes register_macro_def simp_thms)
  then show ?thesis by simp
qed

text \<open>
  C27. With clean texts, the common mask of an interrupt of several bits, fewer than a register has, is
  always too small: it is the highest bit number, not the bit mask, that the generator shifts down. The
  masks that the same header has for the same interrupt in the state, enable and test registers are all
  ones over its bits. So a program that uses the common mask loses bits that are in the registers.
\<close>

theorem interrupt_mask_too_small:
  assumes "ip_from_raw ds raw = Inr block" and "gen_cdefines wrap block src_lic src_copy = Inr out"
    and "wraps wrap" and "clean block src_lic src_copy" and "\<not> ip_no_auto_intr block"
    and "s \<in> set (ip_interrupts block)" and "1 < bits_width (s_bits s)" and "bits_width (s_bits s) \<noteq> ip_regwidth block"
  shows "(\<exists>m. has_macro out (as_define (ip_name block @ ''_INTR_COMMON_'' @ s_name s) @ ''_MASK'') m \<and> m < max_value (s_bits s)) \<and>
    list_all (\<lambda>n. has_macro out (as_define (ip_name block @ ''_'' @ n) @ ''_'' @ as_define (s_name s) @ ''_MASK'')
        (2 ^ nat (bits_width (s_bits s)) - 1))
      [''INTR_STATE'', ''INTR_ENABLE'', ''INTR_TEST'']"
proof -
  from ip_from_raw_parts [OF assms(1)] have "list_all wf_signal (ip_interrupts block)"
    using signals_from_raw_list_tiled(1) by blast
  then have wf: "wf_bits (s_bits s)" using assms(6) by (auto simp: list_all_iff wf_signal_def)
  have "Define (as_define (ip_name block @ ''_INTR_COMMON_'' @ s_name s) @ ''_MASK'')
      (py_hex (drop_bit (nat (b_lsb (s_bits s))) (b_msb (s_bits s)))) \<in> set (block_items block)"
    using assms(5-8) by (force simp: block_items_def interrupts_items_def interrupt_items_def Let_def)
  then have common: "has_macro out (as_define (ip_name block @ ''_INTR_COMMON_'' @ s_name s) @ ''_MASK'')
      (drop_bit (nat (b_lsb (s_bits s))) (b_msb (s_bits s)))"
    by (rule header_has_number [OF assms(2-4)]) (simp_all only: list_all_append as_define_ident ident_suffixes simp_thms)
  have some: "ip_interrupts block \<noteq> []" using assms(6) by auto
  from ip_blocks_ok(6) [OF assms(1) some assms(5)] obtain a b c es where
    es: "rb_entries (snd (hd (ip_reg_blocks block))) = EReg a # EReg b # EReg c # es"
    and regs: "intr_register 0 ''INTR_STATE'' (ip_interrupts block) a"
      "intr_register ((ip_regwidth block + 7) div 8) ''INTR_ENABLE'' (ip_interrupts block) b"
      "intr_register (2 * ((ip_regwidth block + 7) div 8)) ''INTR_TEST'' (ip_interrupts block) c" by blast
  have "hd (ip_reg_blocks block) \<in> set (ip_reg_blocks block)" using ip_blocks_ok(5) [OF assms(1)] by simp
  then have mem: "EReg a \<in> set (block_entries block)" "EReg b \<in> set (block_entries block)" "EReg c \<in> set (block_entries block)"
    using es by (auto simp: block_entries_def case_prod_beta intro!: bexI [of _ "hd (ip_reg_blocks block)"])
  note one = interrupt_register_mask [OF assms(2-4) _ _ assms(6) wf assms(7,8), unfolded register_macro_def max_value_eq [OF wf]]
  from one [OF mem(1) regs(1)] one [OF mem(2) regs(2)] one [OF mem(3) regs(3)] common small_shift [OF wf assms(7)]
  show ?thesis unfolding list.pred_inject(2) by (intro conjI list.pred_inject(1)) blast+
qed

theorem interrupt_mask_too_small_witness:
  "(\<exists>m. has_macro uart_header ''UART_INTR_COMMON_RX_MASK'' m \<and> m < 3) \<and>
    has_macro uart_header ''UART_INTR_STATE_RX_MASK'' 3"
proof -
  obtain s where s: "ip_interrupts uart = [s]" "s_name s = ''rx''" "s_bits s = \<lparr>b_msb = 1, b_lsb = 0\<rparr>"
    using uart_header_facts(7) by (auto simp: map_eq_Cons_conv)
  have n: "as_define (''uart'' @ ''_INTR_COMMON_'' @ ''rx'') = ''UART_INTR_COMMON_RX''"
    "as_define (''uart'' @ ''_'' @ ''INTR_STATE'') = ''UART_INTR_STATE''" "as_define ''rx'' = ''RX''" by code_simp+
  have m: "max_value \<lparr>b_msb = 1, b_lsb = 0\<rparr> = 3" by code_simp
  show ?thesis
    using interrupt_mask_too_small [OF uart_parses uart_header_facts(1) plain_wraps uart_header_facts(2) uart_facts(2), of s]
    by (simp add: s uart_header_facts(4) uart_facts(1) m n [simplified] bits_width_def)
qed

end
