(* ===== verification/Spec2Isabelle.thy ===== *)
theory Spec2Isabelle
  imports Block_Theorems Interface_Theorems Register_Theorems Parsing_Theorems Pygen_Theorems
    Directed_Theorems Scripts_Theorems Csr_Theorems Cheader_Theorems
begin

text \<open>
  A verification development for the Python programs of the repository that decide what hardware and
  what test programs are built: \<^bold>\<open>reggen\<close>, the register tool
  (\<open>src/cva6/corev_apu/fpga/src/gpio/util/reggen/reggen\<close>), \<^bold>\<open>pygen\<close>, the random
  instruction generator (\<open>src/cva6/verif/sim/dv/pygen/pygen_src\<close>), and the scripts that compare traces,
  test control registers and write decoders and boot ROMs.

  \<^bold>\<open>The register tool.\<close> A hardware block is described by a Hjson text. \<open>IpBlock.from_text\<close> parses the
  text and hands the raw Python object to one class per part: parameters, signals, alerts, signals
  between modules, bus interfaces and the register blocks. A register block walks over its entries,
  keeps a running offset and adds registers, multi-registers, memory windows, gaps and jumps; the
  interrupts and alerts add generated registers in front. The classes raise \<open>ValueError\<close> on a bad
  description and check their own results by assertions. The block can be printed again as a dictionary.

  \<^item> \<open>Prelude\<close>, \<open>Py_Strings\<close>, \<open>Py_Values\<close>: results as a sum of an exception and a value (\<open>bnd\<close>,
    \<open>mapR\<close>, \<open>foldR\<close>), two of the interfaces (below), integers as bit patterns, the string
    functions of Python, Python objects, dictionaries and the exceptions of the tool, each raise of the
    source having a constructor of its own.
  \<^item> \<open>Reggen_Lib\<close> (\<open>lib.py\<close>), \<open>Reggen_Params\<close> (\<open>params.py\<close>), \<open>Reggen_Access\<close> (\<open>access.py\<close>),
    \<open>Reggen_Bits\<close> (\<open>bits.py\<close>), \<open>Reggen_Field\<close> (\<open>field.py\<close>, \<open>enum_entry.py\<close>), \<open>Reggen_Register\<close>
    (\<open>register.py\<close>), \<open>Reggen_Multireg\<close> (\<open>multi_register.py\<close>), \<open>Reggen_Window\<close> (\<open>window.py\<close>),
    \<open>Reggen_Signals\<close> (\<open>signal.py\<close>, \<open>alert.py\<close>, \<open>inter_signal.py\<close>), \<open>Reggen_Regblock\<close>
    (\<open>reg_block.py\<close>), \<open>Reggen_Bus\<close> (\<open>bus_interfaces.py\<close>), \<open>Reggen_Ipblock\<close> (\<open>ip_block.py\<close>): each
    class is a record of its attributes; its constructor keeps the class's name and its class methods
    carry the name of the class as a prefix, as in \<open>register_from_raw\<close>.
  \<^item> \<open>Regions\<close>, \<open>Regblock_Layout\<close>, \<open>Regblock_Facts\<close>, \<open>Regblock_Runs\<close>, \<open>Regblock_Build\<close>, \<open>Ipblock_Facts\<close>,
    \<open>Block_Roundtrip\<close>: the contract of a register block (its lists and dictionaries are determined by
    its entries, which lie one behind the other), the abstract layout machine, with the raw entries as the
    labels of its steps, and the facts of whole blocks. \<open>Example_Uart\<close> holds the description the witnesses parse.
  \<^item> \<open>Reggen_Cheader\<close> (\<open>gen_cheader.py\<close>): the C header of a parsed block. Its state is the text
    written so far and the macro names used so far. \<open>Cheader_Items\<close> gives the header as a list of comments
    and macros, a function of the block alone; \<open>Cheader_Reader\<close> reads the macros of a C text back, as a
    preprocessor does; \<open>Cheader_Facts\<close> brings the two together.

  \<^bold>\<open>The instruction generator.\<close> Every file of \<open>isa\<close> registers its instructions with a class. The
  registry makes lists of names by category and group, restricted to what the core and the configuration
  support. A random stream draws instructions from them; directed streams are inserted at places that
  are not in an atomic block; a sequence labels its instructions, picks a later label for each branch,
  drops unused labels and prints the program. The trap handler saves and restores the registers around
  the program.

  \<^item> \<open>Pygen_Random\<close>: exceptions, and the random draws. A draw reads the next element of a \<^emph>\<open>tape\<close> of
    integers (0 behind its end) and maps it into the range that is asked for, so a theorem for every
    tape speaks of every outcome of the generator.
  \<^item> \<open>Pygen_Enums\<close>, \<open>Pygen_Attrs\<close>: the enumerations and the attribute dictionary of
    \<open>riscv_instr_pkg.py\<close>, and the registrations of \<open>isa/rv*.py\<close>, in the order of the source. The
    members of the large enumerations (instructions and CSRs) are their names.
  \<^item> \<open>Pygen_Instr\<close>, \<open>Pygen_Asm\<close> (\<open>isa/riscv_*_instr.py\<close>, \<open>riscv_defines.py\<close>): the instruction
    object, what each class does to it, and its text.
  \<^item> \<open>Pygen_Registry\<close> (the class methods of \<open>riscv_instr.py\<close>), \<open>Pygen_Stream\<close>
    (\<open>riscv_instr_stream.py\<close>), \<open>Pygen_Sequence\<close> (\<open>riscv_instr_sequence.py\<close>), \<open>Pygen_Stack\<close> (the
    kernel stack routines of \<open>riscv_instr_pkg.py\<close>, and a machine that runs their text).
  \<^item> \<open>Pygen_Stream_Facts\<close>, \<open>Pygen_Sequence_Facts\<close>, \<open>Pygen_Imm_Facts\<close>, \<open>Pygen_Attr_Facts\<close>,
    \<open>Pygen_Stack_Facts\<close>: the lemmas.
  \<^item> \<open>Pygen_Config\<close> (the settings), \<open>Pygen_Privil\<close> (\<open>riscv_reg.py\<close>, \<open>riscv_privil_reg.py\<close>,
    \<open>riscv_privileged_common_seq.py\<close>), \<open>Pygen_Program\<close> and \<open>Pygen_Trap\<close> (\<open>riscv_asm_program_gen.py\<close>),
    \<open>Pygen_Data\<close> (\<open>riscv_data_page_gen.py\<close>): a program is a list of lines that grows section by section,
    from the header over the entry into the first mode and the main program to the trap handlers, the data
    pages and the stacks. An element that the source appends as a list is \<open>Items\<close>.
  \<^item> \<open>Pygen_Trap_Machine\<close>: a machine that runs the text of sections, with labels and jumps between them.
    \<open>Pygen_Trap_Facts\<close>, \<open>Pygen_Privil_Facts\<close>, \<open>Pygen_Data_Facts\<close>: the lemmas.
  \<^item> \<open>Pygen_Jal\<close> (\<open>riscv_directed_instr_lib.py\<close>): the stream of back-to-back jumps, and where the
    assembler's local labels make it go.

  \<^bold>\<open>Scripts and small generators.\<close> After a simulation the traces of the core and of the reference
  simulator are brought into one format and compared (\<open>verif/sim/dv/scripts\<close>); two generators write
  the address decoder of the interrupt controller and the boot ROM.

  \<^item> \<open>Trace_Lib\<close> (\<open>lib.py\<close>), \<open>Trace_Compare\<close> (\<open>riscv_trace_csv.py\<close>, \<open>instr_trace_compare.py\<close>):
    the conversion of pseudo instructions, and the comparison with the text it writes. \<open>Trace_Facts\<close> reduces
    the comparison to the lists of changes; \<open>Trace_Pseudo\<close> gives pseudo and base instructions a meaning
    on registers of any width.
  \<^item> \<open>Plic_Addrmap\<close>, \<open>Plic_Facts\<close> (\<open>corev_apu/rv_plic/rtl/gen_plic_addrmap.py\<close>), \<open>Bootrom\<close>
    (\<open>corev_apu/bootrom/gen_rom.py\<close>): the generated text and its parts.
  \<^item> \<open>Csr_Test\<close> (\<open>gen_csr_test.py\<close>): the generator of self-checking tests of control registers, on
    any library of bit arrays. \<open>Csr_Bits\<close> says what is assumed of the library; \<open>Csr_Spec\<close> is the
    register that a description asks for, as a list of fields; \<open>Csr_Machine\<close> runs the lines of a test on any
    core; \<open>Csr_Facts\<close> and \<open>Csr_Gen\<close> relate the predicted to the described register and the lines to
    the machine.

  \<^bold>\<open>Interfaces.\<close> \<open>invariant_step\<close>: a step that keeps an invariant whenever it succeeds, with the loop
  over it; interpreted for the loops of parameters, enumerations, signals, bus interfaces, packed
  registers, raw entries and blocks. \<open>dictionary\<close>: lookup after update; interpreted for the association
  lists that model Python dictionaries. \<open>region\<close>: things that begin and end somewhere and lie one
  behind the other; interpreted for the entries of a block, its registers and the bits of signals.

  \<^bold>\<open>Conventions.\<close> An exception ends an operation as \<open>Inl\<close>; messages are dropped but their arguments
  are kept. An assertion of the source is an assertion of the model. Python integers are \<open>int\<close>. A
  dictionary is an association list, as its order is observable. The 32-bit fields of the solver's
  library are a function \<open>store\<close>, about which a theorem assumes what it needs. The operands that the
  solver chooses are a parameter \<open>operands\<close>. Loops of the source run over lists, so every model function
  is total by structural recursion, or by a measure: the rest of a string, the sections that are left, the
  instructions that are left of a section (the machine of \<open>Pygen_Trap_Machine\<close> only jumps forward). The only
  bound is the source's own ten attempts in \<open>insert_instr_stream\<close>.

  \<^bold>\<open>Properties.\<close>
  \<^item> \<open>Block_Theorems\<close>: the parser of a register block runs the layout machine, one step for each raw
    entry; entries of a parsed block are apart; its interrupt registers and interfaces; it can be printed,
    and a block of registers with described fields parsed back;
    only the errors that a caller expects come out; write enables; names; the address width.
  \<^item> \<open>Interface_Theorems\<close>: signals tile the bits, round trips, alerts, bus ports.
  \<^item> \<open>Register_Theorems\<close>: reset values, printing, the check of overlapping fields,
    multi-registers, alignment of windows.
  \<^item> \<open>Parsing_Theorems\<close>: expressions, bit ranges, enumerations, the checks of keys and names.
  \<^item> \<open>Pygen_Theorems\<close>: mixing and inserting streams, branch targets, immediates, the
    attribute tables, saving the registers.
  \<^item> \<open>Program_Theorems\<close>: what the emitted trap handlers do when they run, the status register, the
    routine that enters the first mode.
  \<^item> \<open>Directed_Theorems\<close>: back-to-back jumps terminate and are all taken; data pages.
  \<^item> \<open>Scripts_Theorems\<close>: the verdict of a comparison of traces, what pseudo instructions mean after
    their conversion, the interrupt controller's decoder, the words of the boot ROM.
  \<^item> \<open>Csr_Theorems\<close>: a core passes a generated test exactly if it reads what the description says.
  \<^item> \<open>Cheader_Theorems\<close>: the numbers a C program finds in a header, the names of the macros, the two
    ways in which the generator fails, the masks of interrupts.

  \<^bold>\<open>Not modelled.\<close> The generators of HTML, documentation and RTL, which render templates; the Hjson
  and YAML parsers, the file system, the wrapping of comments and the bit array library (parameters); the
  top-level tool (\<open>topgen\<close>), which rewrites shared Hjson dictionaries in place across modules; of pygen the
  constraints of the solver and the directed streams that consist of them, the initialisation of
  floating-point and vector registers and the page tables (parameters of the program) and the coverage,
  which declares cover groups for a library. The run and configuration scripts of the repository call
  tools and rewrite files, and the verification plan editor is a graphical program. Vendored copies are left
  aside.
\<close>

end
